(* ===== verification/Prelude.thy ===== *)
theory Prelude
  imports Main "HOL-Library.Word" "HOL-Library.Multiset"
begin

text \<open>
  Shared vocabulary of the development: the C integer types the program uses, the
  error numbers its operations return, and the generic facts on words and lists that the
  component theories rest on.  The named collection \<open>mix_inj\<close> holds the cancellation
  laws of the three word operations the key mixer is built from: xor with a right shift, xor
  with a left shift, and multiplication by an odd constant.
\<close>

unbundle bit_operations_syntax

named_theorems mix_inj

section \<open>C types and error numbers\<close>

type_synonym u8 = "8 word"
type_synonym u16 = "16 word"
type_synonym u32 = "32 word"
type_synonym u64 = "64 word"

definition ENOENT :: int where "ENOENT = 2"
definition EBUSY :: int where "EBUSY = 16"
definition ENOSYS :: int where "ENOSYS = 38"

lemma errno_values [simp]:
  "ENOENT \<noteq> 0" "ENOENT \<noteq> -1" "-1 \<noteq> ENOENT" "EBUSY \<noteq> 0" "ENOSYS \<noteq> 0" "ENOSYS \<noteq> ENOENT"
  by (simp_all add: ENOENT_def EBUSY_def ENOSYS_def)

section \<open>Words\<close>

lemma word_eq_by_bits:
  fixes x y :: "'a::len word"
  assumes "\<And>n. n < LENGTH('a) \<Longrightarrow> bit x n = bit y n"
  shows "x = y"
  using assms by (simp add: bit_word_eqI)

lemma take_bit_eq_by_bits:
  fixes x y :: "'a::len word"
  assumes "\<And>n. n < w \<Longrightarrow> n < LENGTH('a) \<Longrightarrow> bit x n = bit y n"
  shows "take_bit w x = take_bit w y"
  by (rule word_eq_by_bits) (auto simp: bit_take_bit_iff assms)

lemma take_bit_full_word: "take_bit LENGTH('a) z = z" for z :: "'a::len word"
  by (rule word_eq_by_bits) (simp add: bit_take_bit_iff)

lemma unat_ucast_up [simp]:
  fixes x :: "'a::len word"
  assumes "LENGTH('a) \<le> LENGTH('b::len)"
  shows "unat (ucast x :: 'b word) = unat x"
proof -
  have "unat x < 2 ^ LENGTH('b)"
    using unsigned_less [of x] assms by (meson less_le_trans one_le_numeral power_increasing)
  then show ?thesis by (simp add: unsigned_ucast_eq take_bit_nat_eq_self)
qed

lemma take_bit_small: "unat x < 2 ^ k \<Longrightarrow> take_bit k x = x"
  for x :: "'a::len word"
  by (simp add: word_unat_eq_iff unsigned_take_bit_eq take_bit_nat_eq_self)

lemma drop_bit_small: "unat x < 2 ^ k \<Longrightarrow> drop_bit k x = 0"
  for x :: "'a::len word"
  by (simp add: take_bit_small flip: take_bit_eq_self_iff_drop_bit_eq_0)

lemma bit_eq_from_take_bit: "take_bit w x = take_bit w y \<Longrightarrow> n < w \<Longrightarrow> bit x n = bit y n"
  for x y :: "'a::len word"
  by (metis bit_take_bit_iff)

lemma unat_u32_less: "unat (x :: u32) < 4294967296"
  using unsigned_less [of x, where 'a = nat] by simp

lemma unat_u64_less: "unat (x :: u64) < 18446744073709551616"
  using unsigned_less [of x, where 'a = nat] by simp

lemma ucast_up_down [simp]:
  fixes x :: "'a::len word"
  assumes "LENGTH('a) \<le> LENGTH('b::len)"
  shows "ucast (ucast x :: 'b word) = x"
  using assms by (intro word_eq_by_bits) (simp add: bit_ucast_iff)

lemma ucast_up_eq_iff [simp]:
  fixes x y :: "'a::len word"
  assumes "LENGTH('a) \<le> LENGTH('b::len)"
  shows "(ucast x :: 'b word) = ucast y \<longleftrightarrow> x = y"
proof
  assume eq: "(ucast x :: 'b word) = ucast y"
  show "x = y"
  proof (rule word_eq_by_bits)
    fix n assume "n < LENGTH('a)"
    moreover have "bit (ucast x :: 'b word) n = bit (ucast y :: 'b word) n"
      by (simp only: eq)
    ultimately show "bit x n = bit y n"
      using assms by (simp add: bit_ucast_iff)
  qed
qed simp

lemma take_bit_ucast_down:
  fixes x :: "'a::len word"
  assumes "w \<le> LENGTH('b::len)" and "LENGTH('b) \<le> LENGTH('a)"
  shows "take_bit w (ucast x :: 'b word) = ucast (take_bit w x)"
    and "(ucast (take_bit w x) :: 'b word) = ucast (take_bit w y) \<longleftrightarrow> take_bit w x = take_bit w y"
proof -
  show "take_bit w (ucast x :: 'b word) = ucast (take_bit w x)"
    by (rule word_eq_by_bits) (auto simp: bit_simps)
  have "ucast (ucast (take_bit w x) :: 'b word) = take_bit w x" for x :: "'a word"
    using assms by (intro word_eq_by_bits) (auto simp: bit_simps)
  then show "(ucast (take_bit w x) :: 'b word) = ucast (take_bit w y) \<longleftrightarrow> take_bit w x = take_bit w y"
    by metis
qed

text \<open>A right shift xored in is undone from the top bit down.\<close>

lemma xor_drop_bit_cancel [mix_inj]:
  fixes x y :: "'a::len word"
  assumes "0 < k" and eq: "x XOR drop_bit k x = y XOR drop_bit k y"
  shows "x = y"
proof -
  have "\<forall>n. LENGTH('a) - d \<le> n \<longrightarrow> bit x n = bit y n" for d
  proof (induction d)
    case 0
    then show ?case by (metis bit_imp_le_length diff_zero not_le)
  next
    case (Suc d)
    show ?case
    proof (intro allI impI)
      fix n assume "LENGTH('a) - Suc d \<le> n"
      with \<open>0 < k\<close> have up: "bit x (k + n) = bit y (k + n)"
        using Suc.IH by simp
      have "bit (x XOR drop_bit k x) n = bit (y XOR drop_bit k y) n"
        by (simp add: eq)
      with up show "bit x n = bit y n"
        by (auto simp: bit_xor_iff bit_drop_bit_eq)
    qed
  qed
  from this [of "LENGTH('a)"] show ?thesis by (simp add: bit_eq_iff)
qed

text \<open>A left shift xored in is undone from the lowest bit up, at any width \<open>w\<close>.\<close>

lemma xor_push_bit_cancel [mix_inj]:
  fixes x y :: "'a::len word"
  assumes "0 < k" and eq: "take_bit w (x XOR push_bit k x) = take_bit w (y XOR push_bit k y)"
  shows "take_bit w x = take_bit w y"
proof (rule take_bit_eq_by_bits)
  fix n assume "n < w" and "n < LENGTH('a)"
  then show "bit x n = bit y n"
  proof (induction n rule: less_induct)
    case (less n)
    have "bit (take_bit w (x XOR push_bit k x)) n = bit (take_bit w (y XOR push_bit k y)) n"
      by (simp only: eq)
    then have *: "(bit x n \<noteq> (k \<le> n \<and> bit x (n - k))) = (bit y n \<noteq> (k \<le> n \<and> bit y (n - k)))"
      using less.prems by (auto simp: bit_take_bit_iff bit_xor_iff bit_push_bit_iff simp del: take_bit_xor)
    have "k \<le> n \<Longrightarrow> bit x (n - k) = bit y (n - k)"
      using less \<open>0 < k\<close> by simp
    with * show ?case by auto
  qed
qed

text \<open>The low \<open>w\<close> bits of a word, of a sum and of a product, as a remainder of integers.\<close>

lemma uint_take_bit:
  fixes z :: "'a::len word"
  shows "uint (take_bit w z) = uint z mod 2 ^ min w LENGTH('a)"
  by (metis bintr_uint min.cobounded2 min_def nle_le take_bit_eq_mod unsigned_take_bit_eq)

lemma mod_mod_power_min: "(k::int) mod 2 ^ L mod 2 ^ min w L = k mod 2 ^ min w L"
  by (rule mod_mod_cancel) (simp add: le_imp_power_dvd)

lemma uint_take_bit_add:
  fixes x y :: "'a::len word"
  shows "uint (take_bit w (x + y)) = (uint x + uint y) mod 2 ^ min w LENGTH('a)"
  by (simp only: uint_take_bit uint_word_ariths mod_mod_power_min)

lemma uint_take_bit_mult:
  fixes x y :: "'a::len word"
  shows "uint (take_bit w (x * y)) = (uint x * uint y) mod 2 ^ min w LENGTH('a)"
  by (simp only: uint_take_bit uint_word_ariths mod_mod_power_min)

lemma take_bit_word_add: "take_bit w (take_bit w x + y) = take_bit w (x + y)"
  for x y :: "'a::len word"
  by (rule iffD2 [OF word_uint_eq_iff]) (simp only: uint_take_bit_add, simp only: uint_take_bit mod_add_left_eq)

lemma take_bit_word_mult: "take_bit w (take_bit w x * y) = take_bit w (x * y)"
  for x y :: "'a::len word"
  by (rule iffD2 [OF word_uint_eq_iff]) (simp only: uint_take_bit_mult, simp only: uint_take_bit mod_mult_left_eq)

text \<open>An odd factor cancels modulo every power of two, a summand always does.\<close>

lemma odd_mult_cancel [mix_inj]:
  fixes x y c :: "'a::len word"
  assumes odd: "odd c" and eq: "take_bit w (x * c) = take_bit w (y * c)"
  shows "take_bit w x = take_bit w y"
proof -
  let ?w = "min w LENGTH('a)"
  have c: "odd (uint c)"
    using odd by (metis even_of_int_iff word_of_int_uint)
  from eq have "(uint x * uint c) mod 2 ^ ?w = (uint y * uint c) mod 2 ^ ?w"
    by (metis uint_take_bit_mult)
  then have "2 ^ ?w dvd (uint x - uint y) * uint c"
    by (simp add: mod_eq_dvd_iff left_diff_distrib)
  moreover have "coprime (2 ^ ?w) (uint c)"
    using c by simp
  ultimately have "uint x mod 2 ^ ?w = uint y mod 2 ^ ?w"
    by (simp add: coprime_dvd_mult_left_iff mod_eq_dvd_iff)
  then show ?thesis
    by (simp add: word_uint_eq_iff uint_take_bit)
qed

lemma add_cancel [mix_inj]:
  fixes x y c :: "'a::len word"
  assumes "take_bit w (x + c) = take_bit w (y + c)"
  shows "take_bit w x = take_bit w y"
proof -
  have "take_bit w (take_bit w (x + c) + (- c)) = take_bit w (take_bit w (y + c) + (- c))"
    by (simp only: assms)
  then show ?thesis by (simp only: take_bit_word_add) simp
qed

lemma word_xor_right_cancel: "x XOR c = y XOR c \<longleftrightarrow> x = y" for x y c :: "'a::len word"
  by (auto simp: bit_eq_iff bit_xor_iff)

lemma xor_cancel [mix_inj]:
  fixes x y c :: "'a::len word"
  assumes "take_bit w (x XOR c) = take_bit w (y XOR c)"
  shows "take_bit w x = take_bit w y"
proof -
  have "take_bit w z = take_bit w (z XOR c) XOR take_bit w c" for z
    by (rule word_eq_by_bits) (auto simp: bit_simps)
  with assms show ?thesis by metis
qed

text \<open>Numbers below \<open>2^k\<close> are told apart by their low \<open>k\<close> bits.\<close>

lemma take_bit_of_nat_inj:
  assumes "take_bit k (of_nat a :: 'a::len word) = take_bit k (of_nat b)"
    and "a < 2 ^ k" and "b < 2 ^ k" and "k \<le> LENGTH('a)"
  shows "a = b"
proof -
  have "unat (take_bit k (of_nat n :: 'a word)) = n" if "n < 2 ^ k" for n
  proof -
    have "n < 2 ^ LENGTH('a)"
      using that assms(4) by (meson less_le_trans one_le_numeral power_increasing)
    then show ?thesis
      using that by (simp add: unsigned_take_bit_eq unat_of_nat take_bit_nat_eq_self)
  qed
  with assms show ?thesis by metis
qed

lemma mod_add_left_inj:
  fixes i j p s :: nat
  assumes "(s + i) mod p = (s + j) mod p" and "i < p" and "j < p"
  shows "i = j"
proof -
  have "(int s + int i) mod int p = (int s + int j) mod int p"
    using assms(1) by (metis of_nat_add zmod_int)
  then have "int i mod int p = int j mod int p"
    by (metis add_diff_cancel_left' mod_diff_left_eq)
  with assms(2,3) show ?thesis by (simp add: zmod_int [symmetric])
qed

end
