(* ===== verification/KeyMix.thy ===== *)
theory KeyMix
  imports Prelude
begin

text \<open>
  The key mixer of \<open>src/ia_kv.c\<close>: the substitution box \<open>sbox\<close>, its shuffle
  \<open>kv_sbox_init\<close>, and \<open>kv_mod2n_injection\<close>, which turns the running number of a record into
  the scrambled number its key is printed from.  The C library's \<open>rand_r\<close> is a parameter: a
  function from the seed to the number drawn and the next seed.  The lemmas show that the box is a
  permutation whatever \<open>rand_r\<close> draws, and that at every width the key generator selects the mixer
  is injective modulo \<open>2^width\<close>.
\<close>

section \<open>The substitution box\<close>

definition SBOX_SIZE :: nat where
  "SBOX_SIZE = 2048"

text \<open>The C expression \<open>x & (SBOX_SIZE - 1)\<close>, used as an index.\<close>

definition sbox_index :: "'a::len word \<Rightarrow> nat" where
  "sbox_index x = unat (x AND 2047)"

fun kv_sbox_swap :: "(u32 \<Rightarrow> u32 \<times> u32) \<Rightarrow> u32 \<times> u16 list \<Rightarrow> nat \<Rightarrow> u32 \<times> u16 list" where
  "kv_sbox_swap rand_r (seed, sbox) i =
     (let (r, seed') = rand_r seed;
          n = sbox_index (r mod 280583);
          x = sbox ! i XOR sbox ! n;
          sbox' = sbox[i := sbox ! i XOR x]
      in (seed', sbox'[n := sbox' ! n XOR x]))"

definition kv_sbox_init :: "(u32 \<Rightarrow> u32 \<times> u32) \<Rightarrow> u32 \<Rightarrow> u16 list" where
  "kv_sbox_init rand_r seed =
     (let sbox0 = map of_nat [0..<SBOX_SIZE];
          (_, sbox1) = foldl (kv_sbox_swap rand_r) (seed, sbox0) [0..<SBOX_SIZE]
      in map (\<lambda>i. sbox1 ! i XOR of_nat i) [0..<SBOX_SIZE])"

section \<open>The mixer\<close>

text \<open>
  The widths are bytes.  The compound assignments on the narrow types \<open>uint8_t\<close>, \<open>uint16_t\<close> and
  \<open>uint32_t\<close> are computed at the width of the variable, which is what the truncation of the
  promoted result amounts to.  A width the switch does not name is undefined behaviour for gcc and
  clang and falls through to the 64-bit case elsewhere; the model takes the fall-through.
\<close>

definition BITMASK :: "nat \<Rightarrow> u64" where
  "BITMASK n = drop_bit (64 - n) (NOT 0)"

definition kv_mod2n_injection :: "u16 list \<Rightarrow> u32 \<Rightarrow> u64 \<Rightarrow> u64" where
  "kv_mod2n_injection sbox width x0 =
     (let x1 = x0 + 10042331536242289283;
          x = x1 XOR ucast (sbox ! sbox_index x1)
      in if width = 1 then
           (let y = ucast x :: u8; y = y XOR drop_bit 1 y; y = y * 113; y = y XOR push_bit 2 y
            in ucast y)
         else if width = 2 then
           (let y = ucast x :: u16; y = y XOR drop_bit 1 y; y = y * 25693; y = y XOR push_bit 7 y
            in ucast y)
         else if width = 3 then
           (let m = ucast (BITMASK 24) :: u32; y = ucast x AND m; y = y XOR drop_bit 1 y;
                y = y * 5537317; y = y XOR push_bit 12 y
            in ucast (y AND m))
         else if width = 4 then
           (let y = ucast x :: u32; y = y XOR drop_bit 1 y; y = y * 1923730889;
                y = y XOR push_bit 15 y
            in ucast y)
         else if width = 5 then
           (let m = BITMASK 40; y = x AND m; y = y XOR drop_bit 1 y; y = y * 274992889273;
                y = y XOR push_bit 13 y
            in y AND m)
         else if width = 6 then
           (let m = BITMASK 48; y = x AND m; y = y XOR drop_bit 1 y; y = y * 70375646670269;
                y = y XOR push_bit 15 y
            in y AND m)
         else if width = 7 then
           (let m = BITMASK 56; y = x AND m; y = y XOR drop_bit 1 y; y = y * 23022548244171181;
                y = y XOR push_bit 4 y
            in y AND m)
         else
           (let y = x; y = y XOR drop_bit 1 y; y = y * 4613509448041658233;
                y = y XOR push_bit 25 y
            in y))"

section \<open>The box is a permutation\<close>

lemma xor_swap: "(a XOR (a XOR b) :: u16) = b" "(b XOR (a XOR b) :: u16) = a"
  by (simp_all add: ac_simps flip: xor.assoc)

lemma sbox_index_lt [simp]: "sbox_index x < SBOX_SIZE"
proof -
  have "x AND 2047 \<le> 2047"
    by (rule word_and_le1)
  then have "unat (x AND 2047) \<le> unat (2047 :: 'a::len word)"
    by (simp add: word_le_nat_alt)
  also have "\<dots> \<le> 2047"
    by (metis unat_numeral mod_less_eq_dividend unsigned_numeral take_bit_nat_less_eq_self)
  finally show ?thesis
    by (simp add: sbox_index_def SBOX_SIZE_def)
qed

lemma kv_sbox_swap_mset:
  assumes "length sbox = SBOX_SIZE" and "i < SBOX_SIZE"
  shows "mset (snd (kv_sbox_swap rand_r (seed, sbox) i)) = mset sbox"
proof -
  define n where "n = sbox_index (fst (rand_r seed) mod 280583)"
  have n: "n < SBOX_SIZE" by (simp add: n_def)
  have "snd (kv_sbox_swap rand_r (seed, sbox) i) = sbox[i := sbox ! n, n := sbox ! i]"
    using n assms
    by (cases "n = i")
       (auto simp: Let_def case_prod_beta n_def [symmetric] xor_swap nth_list_update)
  then show ?thesis using n assms by (simp add: mset_swap)
qed

lemma kv_sbox_shuffle_mset:
  assumes "length sbox = SBOX_SIZE" and "set is \<subseteq> {..<SBOX_SIZE}"
  shows "mset (snd (foldl (kv_sbox_swap rand_r) (seed, sbox) is)) = mset sbox"
  using assms
proof (induction "is" arbitrary: seed sbox)
  case Nil
  then show ?case by simp
next
  case (Cons i "is")
  obtain seed' sbox' where step: "kv_sbox_swap rand_r (seed, sbox) i = (seed', sbox')"
    by (meson surj_pair)
  have "mset sbox' = mset sbox"
    using kv_sbox_swap_mset [of sbox i rand_r seed] Cons.prems step by simp
  moreover from this have "length sbox' = SBOX_SIZE"
    using Cons.prems by (metis mset_eq_length)
  ultimately show ?case using Cons.IH Cons.prems step by simp
qed

text \<open>
  What the mixer needs of a box: entry \<open>i\<close> is \<open>p i XOR i\<close> for a permutation \<open>p\<close> of the indices.
\<close>

definition sbox_perm :: "u16 list \<Rightarrow> nat \<Rightarrow> u16" where
  "sbox_perm sbox i = sbox ! i XOR of_nat i"

definition sbox_ok :: "u16 list \<Rightarrow> bool" where
  "sbox_ok sbox \<longleftrightarrow> length sbox = SBOX_SIZE \<and>
     mset (map (sbox_perm sbox) [0..<SBOX_SIZE]) = mset (map of_nat [0..<SBOX_SIZE])"

lemma sbox_ok_init [simp]: "sbox_ok (kv_sbox_init rand_r seed)"
proof -
  define sbox1 where
    "sbox1 = snd (foldl (kv_sbox_swap rand_r) (seed, map of_nat [0..<SBOX_SIZE]) [0..<SBOX_SIZE])"
  have m: "mset sbox1 = mset (map of_nat [0..<SBOX_SIZE])"
    unfolding sbox1_def by (rule kv_sbox_shuffle_mset) auto
  then have len: "length sbox1 = SBOX_SIZE"
    by (metis diff_zero length_map length_upt mset_eq_length)
  have init: "kv_sbox_init rand_r seed = map (\<lambda>i. sbox1 ! i XOR of_nat i) [0..<SBOX_SIZE]"
    by (simp add: kv_sbox_init_def sbox1_def case_prod_beta Let_def)
  have "map (sbox_perm (kv_sbox_init rand_r seed)) [0..<SBOX_SIZE] = map ((!) sbox1) [0..<SBOX_SIZE]"
    by (rule map_cong) (auto simp: init sbox_perm_def xor.assoc)
  also have "\<dots> = sbox1"
    by (simp add: map_nth flip: len)
  finally show ?thesis
    by (simp add: sbox_ok_def m) (simp add: init)
qed

lemma sbox_perm_inj:
  assumes "sbox_ok sbox" and "i < SBOX_SIZE" and "j < SBOX_SIZE"
    and "sbox_perm sbox i = sbox_perm sbox j"
  shows "i = j"
proof -
  have "distinct (map of_nat [0..<SBOX_SIZE] :: u16 list)"
    by (auto simp: distinct_map inj_on_def SBOX_SIZE_def word_unat_eq_iff unat_of_nat)
  then have "distinct (map (sbox_perm sbox) [0..<SBOX_SIZE])"
    using assms(1) by (metis mset_eq_imp_distinct_iff sbox_ok_def)
  then show ?thesis
    using assms(2-4) by (auto simp: distinct_map inj_on_def)
qed

lemma sbox_perm_bound:
  assumes "sbox_ok sbox" and "i < SBOX_SIZE"
  shows "unat (sbox_perm sbox i) < SBOX_SIZE"
proof -
  have "sbox_perm sbox i \<in> set (map of_nat [0..<SBOX_SIZE])"
    using assms by (metis atLeastLessThan_iff imageI image_set mset_eq_setD sbox_ok_def set_upt zero_le)
  then show ?thesis
    by (auto simp: SBOX_SIZE_def unat_of_nat)
qed

section \<open>The mixer is injective modulo the width\<close>

text \<open>The first stage permutes the low eleven bits and leaves the others alone.\<close>

lemma sbox_index_take_bit: "sbox_index (x :: u64) = unat (take_bit 11 x)"
proof -
  have "(2047 :: u64) = mask 11"
    by (simp add: mask_eq_exp_minus_1)
  then show ?thesis
    by (simp add: sbox_index_def take_bit_eq_mask)
qed

lemma of_nat_sbox_index: "(of_nat (sbox_index (x :: u64)) :: u16) = ucast (take_bit 11 x)"
  by (simp add: sbox_index_take_bit)

lemma stir_low_bits:
  assumes "sbox_ok sbox"
  shows "take_bit 11 ((x :: u64) XOR ucast (sbox ! sbox_index x)) = ucast (sbox_perm sbox (sbox_index x))"
proof -
  let ?p = "sbox_perm sbox (sbox_index x)"
  have "unat ?p < 2 ^ 11"
    using sbox_perm_bound [OF assms sbox_index_lt, of x] by (simp add: SBOX_SIZE_def)
  then have p: "take_bit 11 ?p = ?p"
    by (simp add: word_unat_eq_iff unsigned_take_bit_eq take_bit_nat_eq_self)
  have "take_bit 11 (x XOR ucast (sbox ! sbox_index x)) = ucast (take_bit 11 ?p)"
    by (rule word_eq_by_bits)
      (auto simp: sbox_perm_def of_nat_sbox_index bit_simps)
  with p show ?thesis by simp
qed

lemma stir_cancel:
  fixes x y :: u64
  assumes ok: "sbox_ok sbox" and "11 \<le> w"
    and eq: "take_bit w (x XOR ucast (sbox ! sbox_index x)) = take_bit w (y XOR ucast (sbox ! sbox_index y))"
  shows "take_bit w x = take_bit w y"
proof -
  have "take_bit 11 (x XOR ucast (sbox ! sbox_index x)) = take_bit 11 (y XOR ucast (sbox ! sbox_index y))"
    using arg_cong [OF eq, of "take_bit 11"] \<open>11 \<le> w\<close> by (simp only: take_bit_take_bit min.absorb1)
  then have "ucast (sbox_perm sbox (sbox_index x)) = (ucast (sbox_perm sbox (sbox_index y)) :: u64)"
    by (simp only: stir_low_bits [OF ok])
  then have "sbox_perm sbox (sbox_index x) = sbox_perm sbox (sbox_index y)"
    by simp
  then have "sbox_index x = sbox_index y"
    using sbox_perm_inj [OF ok] by simp
  then have same: "sbox ! sbox_index x = sbox ! sbox_index y"
    by simp
  show ?thesis
    using eq unfolding same by (rule xor_cancel)
qed

text \<open>The three arithmetic stages, at any word type and any number of low bits \<open>w\<close>.\<close>

definition mix_core :: "nat \<Rightarrow> 'a::len word \<Rightarrow> nat \<Rightarrow> 'a word \<Rightarrow> 'a word" where
  "mix_core w c s z =
     (let y = take_bit w z; y = y XOR drop_bit 1 y; y = y * c; y = y XOR push_bit s y
      in take_bit w y)"

lemma take_bit_shift_xor:
  "take_bit w (take_bit w z XOR drop_bit k (take_bit w z)) = take_bit w z XOR drop_bit k (take_bit w z)"
  for z :: "'a::len word"
  by (rule bit_word_eqI) (auto simp: bit_simps)

lemma mix_core_inj:
  assumes "odd c" and "0 < s" and "mix_core w c s z = mix_core w c s z'"
  shows "take_bit w z = take_bit w z'"
proof -
  let ?y = "\<lambda>z. take_bit w z XOR drop_bit 1 (take_bit w z)"
  have "take_bit w (?y z * c XOR push_bit s (?y z * c)) = take_bit w (?y z' * c XOR push_bit s (?y z' * c))"
    using assms(3) by (simp only: mix_core_def Let_def)
  then have "take_bit w (?y z * c) = take_bit w (?y z' * c)"
    by (rule mix_inj(2) [OF \<open>0 < s\<close>])
  then have "take_bit w (?y z) = take_bit w (?y z')"
    by (rule mix_inj(3) [OF \<open>odd c\<close>])
  then show ?thesis
    by (simp only: take_bit_shift_xor) (rule mix_inj(1) [of 1], simp_all)
qed

lemma mix_core_eq_iff:
  assumes "odd c" and "0 < s"
  shows "mix_core w c s z = mix_core w c s z' \<longleftrightarrow> take_bit w z = take_bit w z'"
  using mix_core_inj [OF assms] by (auto simp: mix_core_def)

lemma mix_core_bound: "take_bit w (mix_core w c s z) = mix_core w c s z"
  by (simp add: mix_core_def Let_def)

text \<open>Every width of the switch is an instance.\<close>

lemma BITMASK_eq: "n \<le> 64 \<Longrightarrow> BITMASK n = mask n"
  by (rule bit_word_eqI) (auto simp: BITMASK_def bit_simps)


definition stir :: "u16 list \<Rightarrow> u64 \<Rightarrow> u64" where
  "stir sbox x = (x + 10042331536242289283) XOR
     ucast (sbox ! sbox_index (x + 10042331536242289283))"

lemma kv_mod2n_injection_core:
  "kv_mod2n_injection sbox 2 x = ucast (mix_core 16 25693 7 (ucast (stir sbox x) :: u16))"
  "kv_mod2n_injection sbox 3 x = ucast (mix_core 24 5537317 12 (ucast (stir sbox x) :: u32))"
  "kv_mod2n_injection sbox 4 x = ucast (mix_core 32 1923730889 15 (ucast (stir sbox x) :: u32))"
  "kv_mod2n_injection sbox 5 x = mix_core 40 274992889273 13 (stir sbox x)"
  "kv_mod2n_injection sbox 6 x = mix_core 48 70375646670269 15 (stir sbox x)"
  "kv_mod2n_injection sbox 7 x = mix_core 56 23022548244171181 4 (stir sbox x)"
  "kv_mod2n_injection sbox 8 x = mix_core 64 4613509448041658233 25 (stir sbox x)"
proof -
  have t32: "ucast (BITMASK 24) = (mask 24 :: u32)"
    by (rule word_eq_by_bits) (auto simp: BITMASK_eq bit_simps)
  show "kv_mod2n_injection sbox 2 x = ucast (mix_core 16 25693 7 (ucast (stir sbox x) :: u16))"
    using take_bit_full_word [where 'a = 16] by (simp add: kv_mod2n_injection_def mix_core_def stir_def Let_def)
  show "kv_mod2n_injection sbox 3 x = ucast (mix_core 24 5537317 12 (ucast (stir sbox x) :: u32))"
    by (simp add: kv_mod2n_injection_def mix_core_def stir_def Let_def t32 del: drop_bit_and flip: take_bit_eq_mask)
  show "kv_mod2n_injection sbox 4 x = ucast (mix_core 32 1923730889 15 (ucast (stir sbox x) :: u32))"
    using take_bit_full_word [where 'a = 32] by (simp add: kv_mod2n_injection_def mix_core_def stir_def Let_def)
  show "kv_mod2n_injection sbox 5 x = mix_core 40 274992889273 13 (stir sbox x)"
    by (simp add: kv_mod2n_injection_def mix_core_def stir_def Let_def BITMASK_eq del: drop_bit_and flip: take_bit_eq_mask)
  show "kv_mod2n_injection sbox 6 x = mix_core 48 70375646670269 15 (stir sbox x)"
    by (simp add: kv_mod2n_injection_def mix_core_def stir_def Let_def BITMASK_eq del: drop_bit_and flip: take_bit_eq_mask)
  show "kv_mod2n_injection sbox 7 x = mix_core 56 23022548244171181 4 (stir sbox x)"
    by (simp add: kv_mod2n_injection_def mix_core_def stir_def Let_def BITMASK_eq del: drop_bit_and flip: take_bit_eq_mask)
  show "kv_mod2n_injection sbox 8 x = mix_core 64 4613509448041658233 25 (stir sbox x)"
    using take_bit_full_word [where 'a = 64] by (simp add: kv_mod2n_injection_def mix_core_def stir_def Let_def)
qed

text \<open>
  The result fits the width, and two numbers collide only if they are equal modulo \<open>2^(8 * width)\<close>.
  Width 1 is left out: the first stage moves bits 8 to 10 into the byte, and the key generator
  never selects it.
\<close>

lemma stir_cong:
  assumes "take_bit w x = take_bit w y" and "11 \<le> w"
  shows "take_bit w (stir sbox x) = take_bit w (stir sbox y)"
proof -
  have c: "take_bit w (x + 10042331536242289283) = take_bit w (y + 10042331536242289283)"
    by (metis assms(1) take_bit_word_add)
  have "take_bit 11 (x + 10042331536242289283) = take_bit 11 (y + 10042331536242289283)"
    using arg_cong [OF c, of "take_bit 11"] \<open>11 \<le> w\<close> by (simp only: take_bit_take_bit min.absorb1)
  then have "sbox_index (x + 10042331536242289283) = sbox_index (y + 10042331536242289283)"
    by (simp add: sbox_index_take_bit)
  then show ?thesis by (simp add: stir_def c)
qed

lemma stir_eq_iff:
  assumes "sbox_ok sbox" and "11 \<le> w"
  shows "take_bit w (stir sbox x) = take_bit w (stir sbox y) \<longleftrightarrow> take_bit w x = take_bit w y"
  using stir_cancel [OF assms] add_cancel stir_cong [OF _ assms(2)] unfolding stir_def by blast

lemma kv_mod2n_injection_inj:
  assumes ok: "sbox_ok sbox" and "2 \<le> unat width" and "unat width \<le> 8"
  shows "kv_mod2n_injection sbox width x = kv_mod2n_injection sbox width y \<longleftrightarrow>
    take_bit (8 * unat width) x = take_bit (8 * unat width) y"
proof -
  have "unat width \<in> {2, 3, 4, 5, 6, 7, 8}"
    using assms(2,3) by auto
  then have w: "width \<in> {2, 3, 4, 5, 6, 7, 8}"
    by (auto simp: word_unat_eq_iff)
  note stir = stir_eq_iff [OF ok, of _ x y]
  from w show ?thesis
    by (elim insertE emptyE)
      (simp_all add: kv_mod2n_injection_core mix_core_eq_iff take_bit_ucast_down stir)
qed

lemma kv_mod2n_injection_bound:
  assumes "2 \<le> unat width" and "unat width \<le> 8"
  shows "take_bit (8 * unat width) (kv_mod2n_injection sbox width x) = kv_mod2n_injection sbox width x"
proof -
  have "unat width \<in> {2, 3, 4, 5, 6, 7, 8}"
    using assms by auto
  then have w: "width \<in> {2, 3, 4, 5, 6, 7, 8}"
    by (auto simp: word_unat_eq_iff)
  have up: "take_bit w (ucast z) = (ucast (take_bit w z) :: u64)" for z :: "'a::len word" and w
    by (rule word_eq_by_bits) (auto simp: bit_simps)
  from w show ?thesis
    by (elim insertE emptyE)
      (simp_all add: kv_mod2n_injection_core up mix_core_bound)
qed

lemma fits_width: "unat x < 2 ^ k \<longleftrightarrow> take_bit k x = x" for x :: u64
  by (metis take_bit_nat_less_exp take_bit_small unsigned_take_bit_eq)

lemma kv_mod2n_injection_bij:
  assumes "sbox_ok sbox" and "2 \<le> unat width" and "unat width \<le> 8"
  shows "bij_betw (kv_mod2n_injection sbox width)
    {x. unat x < 2 ^ (8 * unat width)} {x. unat x < 2 ^ (8 * unat width)}"
proof -
  let ?A = "{x :: u64. unat x < 2 ^ (8 * unat width)}"
  let ?f = "kv_mod2n_injection sbox width"
  have "?f ` ?A \<subseteq> ?A"
    using kv_mod2n_injection_bound [OF assms(2,3)] by (auto simp: fits_width)
  moreover have inj: "inj_on ?f ?A"
    by (rule inj_onI) (simp add: fits_width kv_mod2n_injection_inj [OF assms])
  ultimately show ?thesis
    by (intro bij_betw_imageI endo_inj_surj) auto
qed

text \<open>
  C1: at every width the key generator selects, and whatever the random numbers of the shuffle,
  the mixer permutes the numbers of that many bytes: no two records of the numbered range are
  mixed into the same number, and none leaves the range.
\<close>

theorem mixer_permutes_width:
  assumes "2 \<le> unat width" and "unat width \<le> 8"
  shows "bij_betw (kv_mod2n_injection (kv_sbox_init rand_r seed) width)
    {x. unat x < 2 ^ (8 * unat width)} {x. unat x < 2 ^ (8 * unat width)}"
  using assms by (intro kv_mod2n_injection_bij) simp_all

theorem mixer_permutes_width_witness:
  "bij_betw (kv_mod2n_injection (kv_sbox_init (\<lambda>s. (s * 5, s + 7)) 42) 3)
    {x. unat x < 2 ^ 24} {x. unat x < 2 ^ 24}"
  using mixer_permutes_width [of 3 "\<lambda>s. (s * 5, s + 7)" 42] by simp

end
