(* ===== verification/KeyGen.thy ===== *)
theory KeyGen
  imports KeyMix
begin

text \<open>
  The rest of \<open>src/ia_kv.c\<close>: the set-up of the generator (\<open>ia_kvgen_setup\<close>), the printing of a
  number as a key or value (\<open>kv_fill\<close>, \<open>kv_pair\<close>), the generators (\<open>ia_kvgen_*\<close>) and the
  pools of pre-computed pairs (\<open>ia_kvpool_*\<close>).

  A buffer is the list of its bytes; a write past its end, a failed assertion and the undefined
  behaviours of the C text are the result \<open>None\<close>.  A pointer into a buffer is the list of the
  bytes from there to the end of the block.  The \<open>debug\<close> branches are compiled out
  (\<open>DEBUG_KEYGEN\<close> is 0 and nothing sets the flag) and are not modelled; the log lines are not
  either.  Two library functions are parameters: \<open>rand_r\<close> and the allocator, which returns
  the bytes of a fresh block of the size asked for, or \<open>None\<close>.
\<close>

section \<open>Double arithmetic on whole numbers\<close>

text \<open>
  The key generator computes with \<open>double\<close> only what starts as whole numbers.  \<open>dbl n\<close> is the
  double nearest to the whole number \<open>n\<close> (53 significant bits, ties to even), which is whole
  again; \<open>dbl_div_trunc a b\<close> is the correctly rounded quotient of two whole doubles, truncated
  towards zero.
\<close>

definition round_div :: "nat \<Rightarrow> nat \<Rightarrow> nat" where
  "round_div p q =
     (let d = p div q; r = p mod q
      in if 2 * r < q \<or> 2 * r = q \<and> even d then d else Suc d)"

fun dbl_exp :: "nat \<Rightarrow> nat" where
  "dbl_exp n = (if n < 2 ^ 53 then 0 else Suc (dbl_exp (n div 2)))"

declare dbl_exp.simps [simp del]

definition dbl :: "nat \<Rightarrow> nat" where
  "dbl n = (let e = dbl_exp n in round_div n (2 ^ e) * 2 ^ e)"

function dbl_frac :: "nat \<Rightarrow> nat \<Rightarrow> nat" where
  "dbl_frac a b = (if a = 0 \<or> 2 ^ 52 * b \<le> a then 0 else Suc (dbl_frac (2 * a) b))"
  by pat_completeness auto
termination
  by (relation "measure (\<lambda>(a, b). 2 ^ 52 * b - a)") auto

declare dbl_frac.simps [simp del]

definition dbl_div_trunc :: "nat \<Rightarrow> nat \<Rightarrow> nat" where
  "dbl_div_trunc a b =
     (if 2 ^ 52 * b \<le> a then (let e = dbl_exp (a div b) in round_div a (b * 2 ^ e) * 2 ^ e)
      else (let s = dbl_frac a b in round_div (a * 2 ^ s) b div 2 ^ s))"

section \<open>Global parameters and their set-up\<close>

record kv_globals =
  g_printable :: bool
  g_ksize :: u32
  g_width :: u32
  g_nsectors :: u32
  g_period :: u64
  g_sbox :: "u16 list"

definition ALPHABET_CARDINALITY :: nat where
  "ALPHABET_CARDINALITY = 64"

definition alphabet :: "u8 list" where
  "alphabet = map of_char
     ''@0123456789abcdefghijklmnopqrstuvwxyzABCDEFGHIJKLMNOPQRSTUVWXYZ_''"

definition ALIGN :: "u64 \<Rightarrow> u64" where
  "ALIGN n = (n + 8 - 1) AND NOT (8 - 1)"

text \<open>The comparison chain of \<open>ia_kvgen_setup\<close>: the width in bytes and the mask \<open>mask_top\<close>.\<close>

definition kvgen_width :: "nat \<Rightarrow> (u32 \<times> u64) option" where
  "kvgen_width maxkey =
     (if maxkey < 2 then None
      else if maxkey < unat (BITMASK 16) then Some (2, BITMASK 16)
      else if maxkey < unat (BITMASK 24) then Some (3, BITMASK 24)
      else if maxkey < unat (BITMASK 32) then Some (4, BITMASK 32)
      else if maxkey < unat (BITMASK 40) then Some (5, BITMASK 40)
      else if maxkey < unat (BITMASK 48) then Some (6, BITMASK 48)
      else if maxkey < dbl (unat (BITMASK 56)) then Some (7, BITMASK 56)
      else if maxkey < dbl (unat (NOT 0 :: u64)) then Some (8, NOT 0)
      else None)"

text \<open>
  \<open>log(top) / log(base) > ksize\<close> is read as the exact statement \<open>base ^ ksize < top\<close>: for the
  seven masks and both bases the IEEE doubles computed with the C library compare with every whole
  number the same way.
\<close>

definition key_too_short :: "bool \<Rightarrow> u64 \<Rightarrow> u32 \<Rightarrow> bool" where
  "key_too_short pr mask_top key_size \<longleftrightarrow>
     (if pr then ALPHABET_CARDINALITY else 256) ^ unat key_size < dbl (unat mask_top)"

definition ia_kvgen_setup ::
  "(u32 \<Rightarrow> u32 \<times> u32) \<Rightarrow> int \<Rightarrow> kv_globals \<Rightarrow> bool \<Rightarrow> u32 \<Rightarrow> u32 \<Rightarrow> u32 \<Rightarrow> u64 \<Rightarrow> int \<Rightarrow> int \<times> kv_globals" where
  "ia_kvgen_setup rand_r time_now g pr key_size nspaces nsectors period seed =
     (let maxkey = dbl (dbl (unat period) * dbl (unat nspaces))
      in case kvgen_width maxkey of
           None \<Rightarrow> (-1, g)
         | Some (width, mask_top) \<Rightarrow>
             if key_too_short pr mask_top key_size then (-1, g)
             else
               (let seed' = (if seed < 0 then time_now else seed)
                in (0, \<lparr>g_printable = pr, g_ksize = key_size, g_width = width,
                        g_nsectors = nsectors, g_period = period,
                        g_sbox = kv_sbox_init rand_r (of_int seed')\<rparr>)))"

section \<open>Printing a number\<close>

definition kvpair_bytes :: "kv_globals \<Rightarrow> u64 \<Rightarrow> u64" where
  "kvpair_bytes g vsize =
     (if g_printable g then ucast (g_ksize g) + (if 0 < vsize then vsize + 2 else 1)
      else ALIGN (ucast (g_ksize g)) + ALIGN vsize)"

definition remix4tail :: "u64 \<Rightarrow> u64" where
  "remix4tail point =
     point XOR ((push_bit 47 point OR drop_bit 17 point) + 7015912586649315971)"

text \<open>
  The printable loop: \<open>n\<close> more characters after the one being printed, \<open>bits\<close> is
  \<open>width * 8\<close>.
\<close>

fun fill_chars :: "int \<Rightarrow> u64 \<Rightarrow> u64 \<Rightarrow> int \<Rightarrow> nat \<Rightarrow> u8 list \<times> u64" where
  "fill_chars bits point acc left 0 = ([alphabet ! unat (acc AND 63)], point)"
| "fill_chars bits point acc left (Suc n) =
     (let c = alphabet ! unat (acc AND 63);
          acc' = drop_bit 6 acc;
          left' = left - 6
      in if left' < 6 then
           (let p = remix4tail (point + acc');
                (cs, q) = fill_chars bits p p bits n
            in (c # cs, q))
         else
           (let (cs, q) = fill_chars bits point acc' left' n in (c # cs, q)))"

text \<open>
  The binary loop.  \<open>left\<close> is a signed \<open>int\<close> that doubles until it reaches 64 and is
  not reset between two words, so it overflows (undefined behaviour, \<open>None\<close>) when the
  output is long; the unsigned \<open>length\<close> only stops the loop when it hits 0 exactly.
\<close>

function remix_until :: "u64 \<Rightarrow> int \<Rightarrow> (u64 \<times> int) option" where
  "remix_until point left =
     (if left \<le> 0 \<or> 2 ^ 31 \<le> left + left then None
      else (let p = remix4tail point; left' = left + left
            in if left' < 64 then remix_until p left' else Some (p, left')))"
  by pat_completeness auto
termination
  by (relation "measure (\<lambda>(p, left). nat (64 - left))") auto

declare remix_until.simps [simp del]

lemma remix_until_grows:
  "remix_until point left = Some (p, left') \<Longrightarrow> 0 < left \<and> left < left' \<and> 64 \<le> left' \<and> left' < 2 ^ 31"
proof (induction point left rule: remix_until.induct)
  case (1 point left)
  then show ?case
    by (subst (asm) (2) remix_until.simps) (fastforce simp: Let_def split: if_splits)
qed

definition htole64 :: "u64 \<Rightarrow> u8 list" where
  "htole64 x = map (\<lambda>i. ucast (drop_bit (8 * i) x)) [0..<8]"

function fill_words :: "u64 \<Rightarrow> int \<Rightarrow> u32 \<Rightarrow> (u8 list \<times> u64) option" where
  "fill_words point left len =
     (let len' = len - 8
      in if len' = 0 then Some (htole64 point, point)
         else case remix_until point left of
                None \<Rightarrow> None
              | Some (p, left') \<Rightarrow>
                  map_option (\<lambda>(bs, q). (htole64 point @ bs, q)) (fill_words p left' len'))"
  by pat_completeness auto
termination
  by (relation "measure (\<lambda>(p, left, len). nat (2 ^ 31 - left))") (auto dest: remix_until_grows)

declare fill_words.simps [simp del]

definition kv_fill :: "kv_globals \<Rightarrow> u64 \<Rightarrow> u32 \<Rightarrow> (u8 list \<times> u64) option" where
  "kv_fill g point len =
     (if len = 0 then None
      else let bits = int (unat (g_width g)) * 8
           in if g_printable g then
                (let (cs, q) = fill_chars bits point point bits (unat len - 1)
                 in Some (cs @ [0], q))
              else fill_words point bits len)"

definition kv_pair :: "kv_globals \<Rightarrow> u32 \<Rightarrow> u32 \<Rightarrow> u64 \<Rightarrow> u8 list option" where
  "kv_pair g vsize vage point0 =
     (case kv_fill g (kv_mod2n_injection (g_sbox g) (g_width g) point0) (g_ksize g) of
        None \<Rightarrow> None
      | Some (kbytes, point) \<Rightarrow>
          if vsize \<noteq> 0 then
            map_option (\<lambda>(vbytes, _). kbytes @ vbytes)
              (kv_fill g (remix4tail (point + ucast vage)) vsize)
          else Some kbytes)"

section \<open>Generators\<close>

record iakv =
  kv_ksize :: u64
  kv_vsize :: u64
  kv_k :: "u8 list option"
  kv_v :: "u8 list option"

record ia_kvgen =
  kg_base :: u64
  kg_serial :: u64
  kg_vsize :: u32
  kg_vage :: u32
  kg_pair_bytes :: u32
  kg_buf :: "u8 list"

text \<open>
  \<open>period * (double)ksector / nsectors\<close> converted back to \<open>uint64_t\<close>; a quotient that does not
  fit, a zero \<open>nsectors\<close> and a zero \<open>period\<close> are undefined.
\<close>

definition sector_start :: "kv_globals \<Rightarrow> u32 \<Rightarrow> u64 option" where
  "sector_start g ksector =
     (if g_nsectors g = 0 \<or> g_period g = 0 then None
      else let q = dbl_div_trunc (dbl (dbl (unat (g_period g)) * unat ksector)) (unat (g_nsectors g))
           in if q < 2 ^ 64 then Some (of_nat q mod g_period g) else None)"

definition ia_kvgen_init ::
  "(nat \<Rightarrow> u8 list option) \<Rightarrow> kv_globals \<Rightarrow> ia_kvgen option \<Rightarrow> u32 \<Rightarrow> u32 \<Rightarrow> u32 \<Rightarrow> u32
     \<Rightarrow> (int \<times> ia_kvgen option) option" where
  "ia_kvgen_init alloc g genptr kspace ksector vsize vage =
     (let pair_size = kvpair_bytes g (ucast vsize)
      in case alloc (unat pair_size) of
           None \<Rightarrow> Some (-1, genptr)
         | Some block \<Rightarrow>
             map_option
               (\<lambda>serial. (0, Some \<lparr>kg_base = ucast kspace * g_period g, kg_serial = serial,
                                   kg_vsize = vsize, kg_vage = vage,
                                   kg_pair_bytes = ucast pair_size, kg_buf = block\<rparr>))
               (if ksector \<noteq> 0 then sector_start g ksector else Some 0))"

definition ia_kvgen_destroy :: "ia_kvgen option \<Rightarrow> ia_kvgen option" where
  "ia_kvgen_destroy genptr = None"

text \<open>Writing \<open>bs\<close> at the start of a block.\<close>

definition write_block :: "u8 list \<Rightarrow> u8 list \<Rightarrow> u8 list option" where
  "write_block bs block = (if length bs \<le> length block then Some (bs @ drop (length bs) block) else None)"

definition key_stride :: "kv_globals \<Rightarrow> u64 \<Rightarrow> u64" where
  "key_stride g n = (if g_printable g then n + 1 else ALIGN n)"

definition next_serial :: "kv_globals \<Rightarrow> u64 \<Rightarrow> u64" where
  "next_serial g s = (s + 1) mod g_period g"

definition ia_kvgen_get :: "kv_globals \<Rightarrow> ia_kvgen \<Rightarrow> bool \<Rightarrow> (ia_kvgen \<times> iakv) option" where
  "ia_kvgen_get g gen key_only =
     (let vsize = (if key_only then 0 else ucast (kg_vsize gen)) :: u64;
          point = kg_base gen + kg_serial gen
      in if g_period g = 0 then None
         else case kv_pair g (ucast vsize) (kg_vage gen) point of
           None \<Rightarrow> None
         | Some bytes \<Rightarrow>
             (case write_block bytes (kg_buf gen) of
                None \<Rightarrow> None
              | Some buf \<Rightarrow>
                  if length bytes \<noteq> unat (kvpair_bytes g vsize) then None
                  else Some (gen\<lparr>kg_serial := next_serial g (kg_serial gen), kg_buf := buf\<rparr>,
                             \<lparr>kv_ksize = ucast (g_ksize g), kv_vsize = vsize, kv_k = Some buf,
                              kv_v = (if key_only then None
                                      else Some (drop (unat (key_stride g (ucast (g_ksize g)))) buf))\<rparr>)))"

section \<open>Pools\<close>

record ia_kvpool =
  pl_pos :: nat
  pl_end :: nat
  pl_buf :: "u8 list"

fun kvpool_fill :: "kv_globals \<Rightarrow> ia_kvgen \<Rightarrow> nat \<Rightarrow> (u8 list \<times> ia_kvgen) option" where
  "kvpool_fill g gen 0 = Some ([], gen)"
| "kvpool_fill g gen (Suc n) =
     (if g_period g = 0 then None
      else case kv_pair g (kg_vsize gen) (kg_vage gen) (kg_base gen + kg_serial gen) of
        None \<Rightarrow> None
      | Some bytes \<Rightarrow>
          map_option (\<lambda>(bs, gen'). (bytes @ bs, gen'))
            (kvpool_fill g (gen\<lparr>kg_serial := next_serial g (kg_serial gen)\<rparr>) n))"

text \<open>
  \<open>gen->pair_bytes * pool_size\<close> is a product of 32-bit unsigned numbers.  All the writes are
  consecutive, so they stay inside the block exactly if the last one does; the closing
  assertion wants the total to be the size of the block.
\<close>

definition ia_kvpool_init ::
  "(nat \<Rightarrow> u8 list option) \<Rightarrow> kv_globals \<Rightarrow> ia_kvpool option \<Rightarrow> ia_kvgen \<Rightarrow> int
     \<Rightarrow> (int \<times> ia_kvpool option \<times> ia_kvgen) option" where
  "ia_kvpool_init alloc g poolptr gen pool_size =
     (if pool_size < 1 \<or> (2 ^ 31 - 1) div 2 < pool_size then Some (-1, poolptr, gen)
      else let bytes = unat (kg_pair_bytes gen * of_int pool_size)
           in case alloc bytes of
                None \<Rightarrow> Some (-1, poolptr, gen)
              | Some block \<Rightarrow>
                  (case kvpool_fill g gen (nat pool_size) of
                     None \<Rightarrow> None
                   | Some (bs, gen') \<Rightarrow>
                       if length bs \<noteq> bytes then None
                       else Some (0, Some \<lparr>pl_pos = 0, pl_end = length bs, pl_buf = bs\<rparr>, gen')))"

definition ia_kvpool_destroy :: "ia_kvpool option \<Rightarrow> ia_kvpool option" where
  "ia_kvpool_destroy pool = None"

definition ia_kvpool_pull :: "kv_globals \<Rightarrow> ia_kvgen \<Rightarrow> ia_kvpool \<Rightarrow> iakv \<Rightarrow> int \<times> ia_kvpool \<times> iakv" where
  "ia_kvpool_pull g gen pool p =
     (if int (pl_end pool) - int (pl_pos pool) < int (unat (kg_pair_bytes gen)) then (-1, pool, p)
      else
        (let ksize = ucast (g_ksize g) :: u64;
             vsize = ucast (kg_vsize gen) :: u64;
             k = drop (pl_pos pool) (pl_buf pool);
             pos = pl_pos pool + unat (key_stride g ksize)
         in if 0 < vsize then
              (0, pool\<lparr>pl_pos := pos + unat (key_stride g vsize)\<rparr>,
               \<lparr>kv_ksize = ksize, kv_vsize = vsize, kv_k = Some k, kv_v = Some (drop pos (pl_buf pool))\<rparr>)
            else
              (0, pool\<lparr>pl_pos := pos\<rparr>,
               \<lparr>kv_ksize = ksize, kv_vsize = vsize, kv_k = Some k, kv_v = None\<rparr>)))"

section \<open>Printable pairs\<close>

lemma length_fill_chars [simp]: "length (fst (fill_chars bits p acc left n)) = Suc n"
  by (induction bits p acc left n rule: fill_chars.induct)
    (auto simp: Let_def case_prod_beta)

lemma alphabet_nth: "alphabet ! unat ((x :: u64) AND 63) \<in> set alphabet"
proof -
  have "x AND 63 \<le> 63" by (rule word_and_le1)
  then have "unat (x AND 63) \<le> unat (63 :: u64)" by (simp add: word_le_nat_alt)
  then have "unat (x AND 63) < length alphabet" by (simp add: alphabet_def)
  then show ?thesis by (rule nth_mem)
qed

lemma fill_chars_alphabet: "set (fst (fill_chars bits p acc left n)) \<subseteq> set alphabet"
  by (induction bits p acc left n rule: fill_chars.induct) (auto simp: alphabet_nth Let_def case_prod_beta)

lemma fill_chars_no_nul: "0 \<notin> set (fst (fill_chars bits p acc left n))"
proof -
  have "0 \<notin> set alphabet" by (simp add: alphabet_def)
  then show ?thesis using fill_chars_alphabet by blast
qed

definition key_chars :: "kv_globals \<Rightarrow> u64 \<Rightarrow> nat \<Rightarrow> u8 list" where
  "key_chars g p n = fst (fill_chars (int (unat (g_width g)) * 8) p p (int (unat (g_width g)) * 8) (n - 1))"

lemma kv_fill_printable:
  assumes "g_printable g" and "len \<noteq> 0"
  shows "\<exists>q. kv_fill g p len = Some (key_chars g p (unat len) @ [0], q)"
  using assms by (auto simp: kv_fill_def key_chars_def Let_def case_prod_beta)

lemma length_key_chars: "0 < n \<Longrightarrow> length (key_chars g p n) = n"
  by (simp add: key_chars_def)

lemma kv_pair_printable:
  assumes "g_printable g" and "g_ksize g \<noteq> 0"
  shows "\<exists>vcs. kv_pair g vsize vage p =
      Some (key_chars g (kv_mod2n_injection (g_sbox g) (g_width g) p) (unat (g_ksize g)) @ [0] @
            (if vsize = 0 then [] else vcs @ [0])) \<and> length vcs = unat vsize \<and> 0 \<notin> set vcs"
proof -
  let ?x = "kv_mod2n_injection (g_sbox g) (g_width g) p"
  obtain q where k: "kv_fill g ?x (g_ksize g) = Some (key_chars g ?x (unat (g_ksize g)) @ [0], q)"
    using kv_fill_printable [OF assms] by blast
  show ?thesis
  proof (cases "vsize = 0")
    case True
    then show ?thesis using k by (auto simp: kv_pair_def)
  next
    case False
    then obtain q' where v: "kv_fill g (remix4tail (q + ucast vage)) vsize =
        Some (key_chars g (remix4tail (q + ucast vage)) (unat vsize) @ [0], q')"
      using kv_fill_printable [OF assms(1)] by blast
    have "0 < unat vsize" using False by (simp add: unat_gt_0)
    then show ?thesis using k v False
      by (auto simp: kv_pair_def length_key_chars key_chars_def fill_chars_no_nul intro!: exI)
  qed
qed

lemma kvpair_bytes_printable:
  fixes vsize :: u32
  assumes "g_printable g"
  shows "unat (kvpair_bytes g (ucast vsize)) =
    unat (g_ksize g) + (if vsize = 0 then 1 else unat vsize + 2)"
proof -
  have "unat (g_ksize g) < 4294967296" and "unat vsize < 4294967296"
    by (rule unat_u32_less)+
  moreover have "(0 :: u64) < ucast vsize \<longleftrightarrow> vsize \<noteq> 0"
    by (simp add: word_less_nat_alt unat_gt_0)
  ultimately show ?thesis
    using assms by (simp add: kvpair_bytes_def unat_word_ariths)
qed

lemma kv_pair_length:
  assumes "g_printable g" and "g_ksize g \<noteq> 0"
  shows "\<exists>bs. kv_pair g vsize vage p = Some bs \<and> length bs = unat (kvpair_bytes g (ucast vsize))"
proof -
  have "0 < unat (g_ksize g)" using assms(2) by (simp add: unat_gt_0)
  then show ?thesis
    using kv_pair_printable [OF assms, of vsize vage p]
    by (auto simp: kvpair_bytes_printable [OF assms(1)] length_key_chars)
qed

section \<open>Generators: well-formedness and the sequence of keys\<close>

definition alloc_ok :: "(nat \<Rightarrow> u8 list option) \<Rightarrow> bool" where
  "alloc_ok alloc \<longleftrightarrow> (\<forall>n bs. alloc n = Some bs \<longrightarrow> length bs = n)"

definition kvgen_ok :: "kv_globals \<Rightarrow> ia_kvgen \<Rightarrow> bool" where
  "kvgen_ok g gen \<longleftrightarrow> g_printable g \<and> g_ksize g \<noteq> 0 \<and> g_period g \<noteq> 0 \<and>
     kg_serial gen < g_period g \<and>
     length (kg_buf gen) = unat (kvpair_bytes g (ucast (kg_vsize gen)))"

definition key_point :: "ia_kvgen \<Rightarrow> u64" where
  "key_point gen = kg_base gen + kg_serial gen"

definition key_text :: "kv_globals \<Rightarrow> u64 \<Rightarrow> u8 list" where
  "key_text g point =
     key_chars g (kv_mod2n_injection (g_sbox g) (g_width g) point) (unat (g_ksize g))"

lemma next_serial_less: "g_period g \<noteq> 0 \<Longrightarrow> next_serial g s < g_period g"
  by (simp add: next_serial_def word_mod_less_divisor word_neq_0_conv)

lemma unat_next_serial:
  assumes "s < g_period g"
  shows "unat (next_serial g s) = Suc (unat s) mod unat (g_period g)"
proof -
  have "Suc (unat s) < 2 ^ 64"
    using assms unat_u64_less [of "g_period g"] by (simp add: word_less_nat_alt)
  then show ?thesis
    by (simp add: next_serial_def unat_mod unat_word_ariths)
qed

lemma kvgen_init_ok:
  assumes "alloc_ok alloc" and "g_printable g" and "g_ksize g \<noteq> 0" and "g_period g \<noteq> 0"
    and "ia_kvgen_init alloc g genptr kspace ksector vsize vage = Some (0, Some gen)"
  shows "kvgen_ok g gen \<and> kg_base gen = ucast kspace * g_period g \<and> kg_vsize gen = vsize"
  using assms
  by (auto simp: ia_kvgen_init_def kvgen_ok_def alloc_ok_def sector_start_def Let_def
      word_mod_less_divisor word_neq_0_conv split: option.splits if_splits)

text \<open>What one call hands out: where the key is, that it is terminated, and where the value is.\<close>

lemma kv_pair_key:
  assumes "g_printable g" and "g_ksize g \<noteq> 0"
  shows "\<exists>tl. kv_pair g vsize vage p = Some (key_text g p @ 0 # tl)"
  using kv_pair_printable [OF assms, of vsize vage p] by (auto simp: key_text_def)

lemma kvgen_get_ok:
  assumes ok: "kvgen_ok g gen"
  obtains gen' kv tl where "ia_kvgen_get g gen key_only = Some (gen', kv)"
    and "kvgen_ok g gen'" and "kg_base gen' = kg_base gen"
    and "kg_serial gen' = next_serial g (kg_serial gen)"
    and "kv_ksize kv = ucast (g_ksize g)"
    and "kv_vsize kv = (if key_only then 0 else ucast (kg_vsize gen))"
    and "kv_k kv = Some (key_text g (key_point gen) @ 0 # tl)"
proof -
  let ?v = "if key_only then 0 else kg_vsize gen"
  have pr: "g_printable g" and ks: "g_ksize g \<noteq> 0" and per: "g_period g \<noteq> 0"
    using ok by (auto simp: kvgen_ok_def)
  obtain tl where "kv_pair g ?v (kg_vage gen) (key_point gen) = Some (key_text g (key_point gen) @ 0 # tl)"
    using kv_pair_key [OF pr ks] by blast
  then obtain bs where pair: "kv_pair g ?v (kg_vage gen) (key_point gen) = Some bs"
    and bs: "bs = key_text g (key_point gen) @ 0 # tl" by blast
  have len: "length bs = unat (kvpair_bytes g (ucast ?v))"
    using kv_pair_length [OF pr ks, of ?v "kg_vage gen" "key_point gen"] pair by auto
  have fits: "length bs \<le> length (kg_buf gen)"
    using ok len by (auto simp: kvgen_ok_def kvpair_bytes_printable [OF pr])
  define buf where "buf = bs @ drop (length bs) (kg_buf gen)"
  have w: "write_block bs (kg_buf gen) = Some buf"
    using fits by (simp add: write_block_def buf_def)
  have u: "ucast (if key_only then 0 else ucast (kg_vsize gen) :: u64) = ?v"
    by simp
  have n: "length bs = unat (kvpair_bytes g (if key_only then 0 else ucast (kg_vsize gen)))"
    using len by (simp split: if_splits)
  define gen' where "gen' = gen\<lparr>kg_serial := next_serial g (kg_serial gen), kg_buf := buf\<rparr>"
  define kv where "kv = \<lparr>kv_ksize = ucast (g_ksize g),
    kv_vsize = (if key_only then 0 else ucast (kg_vsize gen)), kv_k = Some buf,
    kv_v = (if key_only then None else Some (drop (unat (key_stride g (ucast (g_ksize g)))) buf))\<rparr>"
  have "ia_kvgen_get g gen key_only = Some (gen', kv)"
    unfolding ia_kvgen_get_def Let_def u pair [unfolded key_point_def]
    using per n w by (simp add: gen'_def kv_def)
  moreover have "kvgen_ok g gen'"
    using ok fits by (auto simp: kvgen_ok_def gen'_def buf_def next_serial_less)
  ultimately show ?thesis
    by (rule that) (auto simp: gen'_def kv_def buf_def bs)
qed

text \<open>
  A run of the generator: one call per entry of the list, which says whether the caller wants
  the key only (as the delete and get benchmarks do).
\<close>

fun kvgen_gets :: "kv_globals \<Rightarrow> ia_kvgen \<Rightarrow> bool list \<Rightarrow> (ia_kvgen \<times> iakv list) option" where
  "kvgen_gets g gen [] = Some (gen, [])"
| "kvgen_gets g gen (ko # kos) =
     (case ia_kvgen_get g gen ko of
        None \<Rightarrow> None
      | Some (gen', kv) \<Rightarrow> map_option (\<lambda>(gen'', kvs). (gen'', kv # kvs)) (kvgen_gets g gen' kos))"

definition kv_key :: "iakv \<Rightarrow> u8 list" where
  "kv_key kv = (case kv_k kv of None \<Rightarrow> [] | Some bs \<Rightarrow> take (unat (kv_ksize kv)) bs)"

definition point_at :: "kv_globals \<Rightarrow> ia_kvgen \<Rightarrow> nat \<Rightarrow> u64" where
  "point_at g gen i = kg_base gen + of_nat ((unat (kg_serial gen) + i) mod unat (g_period g))"

lemma length_key_text: "g_ksize g \<noteq> 0 \<Longrightarrow> length (key_text g p) = unat (g_ksize g)"
  by (simp add: key_text_def length_key_chars unat_gt_0)

lemma point_at_0: "kvgen_ok g gen \<Longrightarrow> point_at g gen 0 = key_point gen"
  by (simp add: point_at_def key_point_def kvgen_ok_def word_less_nat_alt)

lemma point_at_Suc:
  assumes "kvgen_ok g gen" and "kg_base gen' = kg_base gen"
    and "kg_serial gen' = next_serial g (kg_serial gen)"
  shows "point_at g gen' i = point_at g gen (Suc i)"
  using assms by (simp add: point_at_def kvgen_ok_def unat_next_serial mod_add_left_eq)

lemma kvgen_gets_keys:
  assumes "kvgen_ok g gen"
  shows "\<exists>gen' kvs. kvgen_gets g gen kos = Some (gen', kvs) \<and> kvgen_ok g gen' \<and>
    kg_base gen' = kg_base gen \<and>
    unat (kg_serial gen') = (unat (kg_serial gen) + length kos) mod unat (g_period g) \<and>
    map kv_key kvs = map (\<lambda>i. key_text g (point_at g gen i)) [0..<length kos]"
  using assms
proof (induction kos arbitrary: gen)
  case Nil
  then show ?case by (auto simp: kvgen_ok_def word_less_nat_alt)
next
  case (Cons ko kos)
  obtain gen1 kv tl where get: "ia_kvgen_get g gen ko = Some (gen1, kv)"
    and ok1: "kvgen_ok g gen1" and b1: "kg_base gen1 = kg_base gen"
    and s1: "kg_serial gen1 = next_serial g (kg_serial gen)"
    and ks: "kv_ksize kv = ucast (g_ksize g)"
    and k: "kv_k kv = Some (key_text g (key_point gen) @ 0 # tl)"
    by (rule kvgen_get_ok [OF Cons.prems])
  from Cons.IH [OF ok1] obtain gen' kvs where rest: "kvgen_gets g gen1 kos = Some (gen', kvs)"
    and ok': "kvgen_ok g gen'" and b': "kg_base gen' = kg_base gen1"
    and s': "unat (kg_serial gen') = (unat (kg_serial gen1) + length kos) mod unat (g_period g)"
    and keys: "map kv_key kvs = map (\<lambda>i. key_text g (point_at g gen1 i)) [0..<length kos]"
    by blast
  have "g_ksize g \<noteq> 0" and lt: "kg_serial gen < g_period g"
    using Cons.prems by (auto simp: kvgen_ok_def)
  then have "kv_key kv = key_text g (point_at g gen 0)"
    by (simp add: kv_key_def k ks length_key_text point_at_0 [OF Cons.prems])
  moreover have "map (\<lambda>i. key_text g (point_at g gen1 i)) [0..<length kos] =
      map (\<lambda>i. key_text g (point_at g gen i)) [Suc 0..<Suc (length kos)]"
    by (simp add: point_at_Suc [OF Cons.prems b1 s1] del: upt_Suc flip: map_Suc_upt)
  ultimately have "map kv_key (kv # kvs) =
      map (\<lambda>i. key_text g (point_at g gen i)) [0..<length (ko # kos)]"
    by (simp add: keys upt_conv_Cons del: upt_Suc)
  moreover have "unat (kg_serial gen') = (unat (kg_serial gen) + length (ko # kos)) mod unat (g_period g)"
    by (simp add: s' s1 unat_next_serial [OF lt] mod_add_left_eq)
  ultimately show ?case
    using get rest ok' b' b1 by auto
qed

section \<open>Pools hold what the generator would have handed out\<close>

definition kv_value :: "iakv \<Rightarrow> u8 list" where
  "kv_value kv = (case kv_v kv of None \<Rightarrow> [] | Some bs \<Rightarrow> take (unat (kv_vsize kv)) bs)"

definition kv_text :: "iakv \<Rightarrow> u8 list \<times> u8 list" where
  "kv_text kv = (kv_key kv, kv_value kv)"

fun kvpool_pulls :: "kv_globals \<Rightarrow> ia_kvgen \<Rightarrow> ia_kvpool \<Rightarrow> iakv \<Rightarrow> nat \<Rightarrow> ia_kvpool \<times> (int \<times> iakv) list" where
  "kvpool_pulls g gen pool p 0 = (pool, [])"
| "kvpool_pulls g gen pool p (Suc n) =
     (let (rc, pool', p') = ia_kvpool_pull g gen pool p;
          (pool'', ps) = kvpool_pulls g gen pool' p' n
      in (pool'', (rc, p') # ps))"

text \<open>The text of a record, cut out of the bytes \<open>kv_pair\<close> wrote.\<close>

definition pair_text :: "kv_globals \<Rightarrow> ia_kvgen \<Rightarrow> u8 list \<Rightarrow> u8 list \<times> u8 list" where
  "pair_text g gen bs = (take (unat (g_ksize g)) bs,
     take (unat (kg_vsize gen)) (drop (Suc (unat (g_ksize g))) bs))"

lemma unat_key_stride:
  fixes n :: u32
  shows "g_printable g \<Longrightarrow> unat (key_stride g (ucast n)) = Suc (unat n)"
  using unat_u32_less [of n] by (simp add: key_stride_def unat_word_ariths)

lemma pair_text_append:
  assumes "g_printable g" and "length bs = unat (kvpair_bytes g (ucast (kg_vsize gen)))"
  shows "take (unat (g_ksize g)) (bs @ bs2) = fst (pair_text g gen bs)"
    and "take (unat (kg_vsize gen)) (drop (Suc (unat (g_ksize g))) (bs @ bs2)) = snd (pair_text g gen bs)"
  using assms(2) by (auto simp: pair_text_def kvpair_bytes_printable [OF assms(1)] split: if_splits)

definition same_gen :: "ia_kvgen \<Rightarrow> ia_kvgen \<Rightarrow> bool" where
  "same_gen a b \<longleftrightarrow> kg_base a = kg_base b \<and> kg_serial a = kg_serial b \<and>
     kg_vsize a = kg_vsize b \<and> kg_vage a = kg_vage b"

lemma kvgen_get_text:
  assumes ok: "kvgen_ok g gen"
    and pair: "kv_pair g (kg_vsize gen) (kg_vage gen) (kg_base gen + kg_serial gen) = Some bs"
  obtains gen' kv where "ia_kvgen_get g gen False = Some (gen', kv)" and "kv_text kv = pair_text g gen bs"
    and "kvgen_ok g gen'" and "same_gen gen' (gen\<lparr>kg_serial := next_serial g (kg_serial gen)\<rparr>)"
proof -
  have pr: "g_printable g" and ks: "g_ksize g \<noteq> 0" and per: "g_period g \<noteq> 0"
    using ok by (auto simp: kvgen_ok_def)
  have len: "length bs = unat (kvpair_bytes g (ucast (kg_vsize gen)))"
    using kv_pair_length [OF pr ks, of "kg_vsize gen" "kg_vage gen" "kg_base gen + kg_serial gen"] pair by force
  then have w: "write_block bs (kg_buf gen) = Some bs"
    using ok by (simp add: write_block_def kvgen_ok_def)
  note get = kvgen_get_ok [OF ok, of False]
  show ?thesis
    using ok per
    by (intro that)
      (auto simp: ia_kvgen_get_def Let_def pair w len kv_text_def kv_key_def kv_value_def pair_text_def
        unat_key_stride [OF pr] kvgen_ok_def same_gen_def next_serial_less)
qed

text \<open>The pool holds the records the next \<open>n\<close> calls of the generator would have handed out.\<close>

lemma kvpool_fill_text:
  assumes "kvgen_ok g gen" and "same_gen gen gen0"
  shows "\<exists>bss gen' genf kvs. kvpool_fill g gen0 n = Some (concat bss, gen') \<and>
    length bss = n \<and> (\<forall>bs \<in> set bss. length bs = unat (kvpair_bytes g (ucast (kg_vsize gen)))) \<and>
    kvgen_gets g gen (replicate n False) = Some (genf, kvs) \<and>
    map kv_text kvs = map (pair_text g gen) bss \<and> same_gen genf gen' \<and>
    kg_pair_bytes gen' = kg_pair_bytes gen0 \<and> kg_vsize gen' = kg_vsize gen0"
  using assms
proof (induction n arbitrary: gen gen0)
  case 0
  then show ?case by (auto intro!: exI)
next
  case (Suc n)
  have pr: "g_printable g" and ks: "g_ksize g \<noteq> 0" and per: "g_period g \<noteq> 0"
    using Suc.prems by (auto simp: kvgen_ok_def)
  obtain bs where pair: "kv_pair g (kg_vsize gen) (kg_vage gen) (kg_base gen + kg_serial gen) = Some bs"
    and len: "length bs = unat (kvpair_bytes g (ucast (kg_vsize gen)))"
    using kv_pair_length [OF pr ks] by blast
  obtain gen1 kv where get: "ia_kvgen_get g gen False = Some (gen1, kv)"
    and tx: "kv_text kv = pair_text g gen bs" and ok1: "kvgen_ok g gen1"
    and sm: "same_gen gen1 (gen\<lparr>kg_serial := next_serial g (kg_serial gen)\<rparr>)"
    using kvgen_get_text [OF Suc.prems(1) pair] by metis
  let ?gen01 = "gen0\<lparr>kg_serial := next_serial g (kg_serial gen0)\<rparr>"
  have sm1: "same_gen gen1 ?gen01"
    using sm Suc.prems(2) by (simp add: same_gen_def)
  have v: "kg_vsize gen1 = kg_vsize gen" using sm by (simp add: same_gen_def)
  have pt: "pair_text g gen1 = pair_text g gen" by (simp add: pair_text_def v fun_eq_iff)
  from Suc.IH [OF ok1 sm1] obtain bss gen' genf kvs
    where fill: "kvpool_fill g ?gen01 n = Some (concat bss, gen')"
      and "length bss = n" and "\<forall>bs \<in> set bss. length bs = unat (kvpair_bytes g (ucast (kg_vsize gen)))"
      and "kvgen_gets g gen1 (replicate n False) = Some (genf, kvs)"
      and "map kv_text kvs = map (pair_text g gen) bss" and "same_gen genf gen'"
      and "kg_pair_bytes gen' = kg_pair_bytes gen0" "kg_vsize gen' = kg_vsize gen0"
    by (auto simp: v pt)
  moreover have "kv_pair g (kg_vsize gen0) (kg_vage gen0) (kg_base gen0 + kg_serial gen0) = Some bs"
    using pair Suc.prems(2) by (simp add: same_gen_def)
  ultimately show ?case
    using get tx len per by (intro exI [of _ "bs # bss"]) (auto intro!: exI)
qed

lemma kvpool_pulls_text:
  assumes pr: "g_printable g" and v: "kg_vsize gen' = kg_vsize gen"
    and pb: "unat (kg_pair_bytes gen') = unat (kvpair_bytes g (ucast (kg_vsize gen)))"
    and "\<forall>bs \<in> set bss. length bs = unat (kg_pair_bytes gen')"
    and "pl_buf pool = pre @ concat bss" and "pl_pos pool = length pre" and "pl_end pool = length (pl_buf pool)"
  shows "\<exists>pool' ps. kvpool_pulls g gen' pool p (length bss) = (pool', map (Pair 0) ps) \<and>
    map kv_text ps = map (pair_text g gen) bss \<and> pl_pos pool' = pl_end pool'"
  using assms(4-)
proof (induction bss arbitrary: pre pool p)
  case Nil
  then show ?case by simp
next
  case (Cons bs bss)
  note pb' = pb [unfolded kvpair_bytes_printable [OF pr]]
  have len: "length bs = unat (kg_pair_bytes gen')" using Cons.prems by simp
  obtain pool1 p1 where pull: "ia_kvpool_pull g gen' pool p = (0, pool1, p1)"
    and tx: "kv_text p1 = pair_text g gen bs"
    and pool1: "pl_buf pool1 = (pre @ bs) @ concat bss" "pl_pos pool1 = length (pre @ bs)"
      "pl_end pool1 = length (pl_buf pool1)"
  proof
    let ?r = "ia_kvpool_pull g gen' pool p"
    have nz: "(0 :: u64) < ucast (kg_vsize gen) \<longleftrightarrow> kg_vsize gen \<noteq> 0"
      by (simp add: word_less_nat_alt unat_gt_0)
    show "?r = (0, fst (snd ?r), snd (snd ?r))"
      using Cons.prems len by (simp add: ia_kvpool_pull_def Let_def)
    show "pl_buf (fst (snd ?r)) = (pre @ bs) @ concat bss" "pl_pos (fst (snd ?r)) = length (pre @ bs)"
      "pl_end (fst (snd ?r)) = length (pl_buf (fst (snd ?r)))"
      using Cons.prems len pb' by (auto simp: ia_kvpool_pull_def Let_def v nz unat_key_stride [OF pr])
    show "kv_text (snd (snd ?r)) = pair_text g gen bs"
      using Cons.prems len pb' by (auto simp: ia_kvpool_pull_def Let_def v nz unat_key_stride [OF pr]
        kv_text_def kv_key_def kv_value_def pair_text_def)
  qed
  from Cons.IH [OF _ pool1, of p1] Cons.prems(1) obtain pool' ps
    where "kvpool_pulls g gen' pool1 p1 (length bss) = (pool', map (Pair 0) ps)"
      and "map kv_text ps = map (pair_text g gen) bss" and "pl_pos pool' = pl_end pool'" by auto
  with pull tx show ?case by (auto intro!: exI [of _ "p1 # ps"])
qed

section \<open>Sample inputs\<close>

text \<open>The concrete inputs the witnesses of the key generator's properties are evaluated on.\<close>

definition sample_rand :: "u32 \<Rightarrow> u32 \<times> u32" where
  "sample_rand s = (s * 1103515245 + 12345, s + 1)"

definition initial_globals :: kv_globals where
  "initial_globals = \<lparr>g_printable = False, g_ksize = 0, g_width = 0, g_nsectors = 0, g_period = 0, g_sbox = []\<rparr>"

definition sample_binary :: kv_globals where
  "sample_binary = initial_globals\<lparr>g_ksize := 24, g_width := 2, g_period := 1000\<rparr>"

definition sample_globals :: "u32 \<Rightarrow> u32 \<Rightarrow> u64 \<Rightarrow> kv_globals" where
  "sample_globals key_size width period = \<lparr>g_printable = True, g_ksize = key_size, g_width = width,
     g_nsectors = 4, g_period = period, g_sbox = kv_sbox_init sample_rand 7\<rparr>"

definition sample_alloc :: "nat \<Rightarrow> u8 list option" where
  "sample_alloc n = (if n \<le> 1000000 then Some (replicate n 0) else None)"

definition no_record :: iakv where
  "no_record = \<lparr>kv_ksize = 0, kv_vsize = 0, kv_k = None, kv_v = None\<rparr>"

definition sample_gen :: "kv_globals \<Rightarrow> u32 \<Rightarrow> ia_kvgen" where
  "sample_gen g kspace = \<lparr>kg_base = ucast kspace * g_period g, kg_serial = 0, kg_vsize = 100, kg_vage = 0,
     kg_pair_bytes = 118, kg_buf = replicate 118 0\<rparr>"

lemma sample_alloc_ok: "alloc_ok sample_alloc"
  by (auto simp: alloc_ok_def sample_alloc_def split: if_splits)

lemma sample_gen_ok: "kvgen_ok (sample_globals 16 2 1000) (sample_gen (sample_globals 16 2 1000) kspace)"
  by (simp add: kvgen_ok_def sample_globals_def sample_gen_def kvpair_bytes_def)

lemma sample_init:
  "ia_kvgen_init sample_alloc (sample_globals 16 2 1000) None kspace 0 100 0 =
    Some (0, Some (sample_gen (sample_globals 16 2 1000) kspace))"
  by (simp add: ia_kvgen_init_def Let_def kvpair_bytes_def sample_globals_def sample_gen_def sample_alloc_def)

section \<open>Properties\<close>

text \<open>
  C4: a generator made by \<open>ia_kvgen_init\<close> for printable keys serves any number of calls without
  writing outside its buffer or failing an assertion; call \<open>i\<close> hands out the key of record
  \<open>(serial + i) mod period\<close> of its key space, whether or not the earlier calls wanted values, so
  after \<open>period\<close> calls the keys repeat in the same order.
\<close>

theorem kvgen_run_keys:
  assumes "alloc_ok alloc" and "g_printable g" and "g_ksize g \<noteq> 0" and "g_period g \<noteq> 0"
    and "ia_kvgen_init alloc g genptr kspace ksector vsize vage = Some (0, Some gen)"
  shows "\<exists>gen' kvs. kvgen_gets g gen kos = Some (gen', kvs) \<and>
    unat (kg_serial gen') = (unat (kg_serial gen) + length kos) mod unat (g_period g) \<and>
    map kv_key kvs = map (\<lambda>i. key_text g (ucast kspace * g_period g +
      of_nat ((unat (kg_serial gen) + i) mod unat (g_period g)))) [0..<length kos]"
proof -
  have ok: "kvgen_ok g gen" and base: "kg_base gen = ucast kspace * g_period g"
    using kvgen_init_ok [OF assms] by simp_all
  show ?thesis
    using kvgen_gets_keys [OF ok, of kos] unfolding point_at_def base by blast
qed

theorem kvgen_run_keys_witness:
  "\<exists>g' kv. kvgen_gets (sample_globals 16 2 1000) (sample_gen (sample_globals 16 2 1000) 1) [True] = Some (g', [kv]) \<and>
    kv_key kv = key_text (sample_globals 16 2 1000) 1000 \<and> unat (kg_serial g') = 1"
proof -
  let ?g = "sample_globals 16 2 1000"
  obtain g' kvs where run: "kvgen_gets ?g (sample_gen ?g 1) [True] = Some (g', kvs)"
    and s: "unat (kg_serial g') = (unat (kg_serial (sample_gen ?g 1)) + 1) mod unat (g_period ?g)"
    and k: "map kv_key kvs = map (\<lambda>i. key_text ?g (ucast (1 :: u32) * g_period ?g +
      of_nat ((unat (kg_serial (sample_gen ?g 1)) + i) mod unat (g_period ?g)))) [0..<1]"
    using kvgen_run_keys [OF sample_alloc_ok _ _ _ sample_init, of 1 "[True]"]
    by (auto simp: sample_globals_def simp del: kvgen_gets.simps)
  from k obtain kv where kv: "kvs = [kv]" "kv_key kv = key_text ?g 1000"
    by (auto simp: sample_globals_def sample_gen_def)
  then show ?thesis
    using run s by (intro exI [of _ g'] exI [of _ kv])
      (simp add: sample_globals_def sample_gen_def del: kvgen_gets.simps)
qed

text \<open>
  C5: a pool of \<open>n\<close> records holds exactly what \<open>n\<close> calls of its generator would have handed out:
  the pulls succeed \<open>n\<close> times with the same keys and values in the same order, leave the generator
  at the same place, and the next pull returns -1 without touching pool or record.
\<close>

theorem kvpool_replays_generator:
  assumes ok: "kvgen_ok g gen" and pb: "kg_pair_bytes gen = ucast (kvpair_bytes g (ucast (kg_vsize gen)))"
    and fits: "unat (kvpair_bytes g (ucast (kg_vsize gen))) * n < 2 ^ 32"
    and n: "0 < n" "n < 2 ^ 30"
    and alloc: "alloc (unat (kvpair_bytes g (ucast (kg_vsize gen))) * n) \<noteq> None"
  shows "\<exists>pool gen' genf kvs pool' ps.
    ia_kvpool_init alloc g pp gen (int n) = Some (0, Some pool, gen') \<and>
    kvgen_gets g gen (replicate n False) = Some (genf, kvs) \<and> same_gen genf gen' \<and>
    kvpool_pulls g gen' pool p n = (pool', map (Pair 0) ps) \<and> map kv_text ps = map kv_text kvs \<and>
    (\<forall>q. ia_kvpool_pull g gen' pool' q = (-1, pool', q))"
proof -
  let ?b = "kvpair_bytes g (ucast (kg_vsize gen))"
  have pr: "g_printable g" and ks: "g_ksize g \<noteq> 0" using ok by (auto simp: kvgen_ok_def)
  have "0 < unat ?b" by (simp add: kvpair_bytes_printable [OF pr])
  have "unat ?b < 2 ^ 32" using fits n mult_le_mono2 [of 1 n "unat ?b"] by linarith
  then have b: "unat (kg_pair_bytes gen) = unat ?b"
    by (simp add: pb unsigned_ucast_eq take_bit_nat_eq_self)
  obtain bss gen' genf kvs where fill: "kvpool_fill g gen n = Some (concat bss, gen')"
    and bss: "length bss = n" "\<forall>bs \<in> set bss. length bs = unat ?b"
    and gets: "kvgen_gets g gen (replicate n False) = Some (genf, kvs)"
    and tx: "map kv_text kvs = map (pair_text g gen) bss" and same: "same_gen genf gen'"
    and gen': "kg_pair_bytes gen' = kg_pair_bytes gen" "kg_vsize gen' = kg_vsize gen"
    using kvpool_fill_text [OF ok, of gen n] by (auto simp: same_gen_def)
  have total: "length (concat bss) = unat ?b * n"
    using bss by (simp add: length_concat sum_list_triv cong: map_cong)
  have prod: "unat (kg_pair_bytes gen * of_nat n) = unat ?b * n"
    using fits n b by (simp add: unat_word_ariths unat_of_nat)
  define pool where "pool = \<lparr>pl_pos = 0, pl_end = length (concat bss), pl_buf = concat bss\<rparr>"
  have init: "ia_kvpool_init alloc g pp gen (int n) = Some (0, Some pool, gen')"
    using alloc n by (auto simp: ia_kvpool_init_def Let_def prod fill total pool_def)
  obtain pool' ps where "kvpool_pulls g gen' pool p n = (pool', map (Pair 0) ps)"
    and "map kv_text ps = map (pair_text g gen) bss" and e: "pl_pos pool' = pl_end pool'"
    using kvpool_pulls_text [OF pr gen'(2), of bss pool "[]" p] bss gen' b by (auto simp: pool_def)
  moreover have "\<forall>q. ia_kvpool_pull g gen' pool' q = (-1, pool', q)"
  proof -
    have "0 < int (unat (kg_pair_bytes gen'))" using \<open>0 < unat ?b\<close> by (simp only: gen' b of_nat_0_less_iff)
    then show ?thesis using e by (simp add: ia_kvpool_pull_def)
  qed
  ultimately show ?thesis
    using init gets same tx by auto
qed

theorem kvpool_replays_generator_witness:
  "let g = sample_globals 16 2 1000; gen = sample_gen g 1
   in \<exists>pool gen' genf kvs pool' ps.
     ia_kvpool_init sample_alloc g None gen 5 = Some (0, Some pool, gen') \<and>
     kvgen_gets g gen (replicate 5 False) = Some (genf, kvs) \<and> same_gen genf gen' \<and>
     kvpool_pulls g gen' pool no_record 5 = (pool', map (Pair 0) ps) \<and> map kv_text ps = map kv_text kvs \<and>
     (\<forall>q. ia_kvpool_pull g gen' pool' q = (-1, pool', q))"
proof -
  let ?g = "sample_globals 16 2 1000"
  have "kg_pair_bytes (sample_gen ?g 1) = ucast (kvpair_bytes ?g (ucast (kg_vsize (sample_gen ?g 1))))"
    by (simp add: sample_gen_def sample_globals_def kvpair_bytes_def)
  note replay = kvpool_replays_generator [OF sample_gen_ok this, of 5 sample_alloc None no_record]
  show ?thesis
    unfolding Let_def
    by (rule replay [unfolded of_nat_numeral])
      (simp_all add: sample_gen_def sample_globals_def kvpair_bytes_def sample_alloc_def)
qed

end
