(* ===== verification/KeyUnique.thy ===== *)
theory KeyUnique
  imports KeyGen
begin

text \<open>
  Which records of a data set get different keys.  \<open>ia_kvgen_setup\<close> (\<open>src/ia_kv.c\<close>) promises a
  key for every number below \<open>period * nspaces\<close>: the locale \<open>key_numbering\<close> states what that promise
  needs of the way a number is shown as a key, and is interpreted on the mixer alone (all widths)
  and on the printed keys (the widths at which the characters determine the number).  A printed
  collision at width 4 shows that the second interpretation cannot be widened.  The last section
  bounds the binary format.
\<close>

section \<open>Numbering the records\<close>

locale key_numbering =
  fixes ok :: "'g \<Rightarrow> bool" and show_key :: "'g \<Rightarrow> u64 \<Rightarrow> 'k" and bits :: "'g \<Rightarrow> nat"
  assumes bits_le: "ok g \<Longrightarrow> bits g \<le> 64"
    and show_eq: "ok g \<Longrightarrow> show_key g x = show_key g y \<longleftrightarrow> take_bit (bits g) x = take_bit (bits g) y"
begin

lemma offset_inj:
  assumes "ok g" and "show_key g (base + of_nat a) = show_key g (base + of_nat b)"
    and "a < 2 ^ bits g" and "b < 2 ^ bits g"
  shows "a = b"
proof (rule take_bit_of_nat_inj)
  have "take_bit (bits g) (of_nat a + base) = take_bit (bits g) (of_nat b + base)"
    using assms(1,2) by (simp add: show_eq add.commute)
  then show "take_bit (bits g) (of_nat a :: u64) = take_bit (bits g) (of_nat b)"
    by (rule add_cancel)
qed (use assms bits_le in simp_all)

lemma run_distinct:
  assumes "ok g" and "0 < p" and "p \<le> 2 ^ bits g" and "n \<le> p"
  shows "distinct (map (\<lambda>i. show_key g (base + of_nat ((s + i) mod p))) [0..<n])"
proof -
  have "i = j"
    if ij: "i < n" "j < n"
      and eq: "show_key g (base + of_nat ((s + i) mod p)) = show_key g (base + of_nat ((s + j) mod p))"
    for i j
  proof (rule mod_add_left_inj)
    have "k mod p < 2 ^ bits g" for k
      using assms(2,3) by (meson less_le_trans mod_less_divisor)
    then show "(s + i) mod p = (s + j) mod p"
      using offset_inj [OF assms(1) eq] by blast
  qed (use ij assms in simp_all)
  then show ?thesis by (auto simp: distinct_map inj_on_def)
qed

lemma spaces_disjoint:
  assumes "ok g" and "0 < d" and "Suc d * p \<le> 2 ^ bits g" and "r1 < p" and "r2 < p"
  shows "show_key g (base + of_nat r1) \<noteq> show_key g (base + of_nat (d * p) + of_nat r2)"
proof
  assume "show_key g (base + of_nat r1) = show_key g (base + of_nat (d * p) + of_nat r2)"
  then have "show_key g (base + of_nat r1) = show_key g (base + of_nat (d * p + r2))"
    by (simp add: add.assoc)
  then have "r1 = d * p + r2"
    by (rule offset_inj [OF assms(1)]) (use assms in auto)
  then show False using assms(2,4) by (cases d) auto
qed

end

interpretation mixed: key_numbering
  "\<lambda>g. sbox_ok (g_sbox g) \<and> 2 \<le> unat (g_width g) \<and> unat (g_width g) \<le> 8"
  "\<lambda>g. kv_mod2n_injection (g_sbox g) (g_width g)" "\<lambda>g. 8 * unat (g_width g)"
  by unfold_locales (auto simp: kv_mod2n_injection_inj)

section \<open>Distinct numbers have distinct keys\<close>

lemma distinct_alphabet: "distinct alphabet"
  by (simp add: alphabet_def)

lemma length_alphabet: "length alphabet = 64"
  by (simp add: alphabet_def)

lemma alphabet_inj:
  fixes x y :: u64
  assumes "alphabet ! unat (x AND 63) = alphabet ! unat (y AND 63)"
  shows "take_bit 6 x = take_bit 6 y"
proof -
  have m: "(63 :: u64) = mask 6" by (simp add: mask_eq_exp_minus_1)
  have "unat (take_bit 6 z) < length alphabet" for z :: u64
    using take_bit_nat_less_exp [of 6 "unat z"] by (simp add: length_alphabet unsigned_take_bit_eq)
  then have "unat (take_bit 6 x) = unat (take_bit 6 y)"
    using assms distinct_alphabet by (simp add: m nth_eq_iff_index_eq flip: take_bit_eq_mask)
  then show ?thesis by (simp add: word_unat_eq_iff)
qed

text \<open>The characters printed before the first remix show the number six bits at a time.\<close>

lemma fill_chars_nth:
  assumes "j \<le> n" and "6 * int j + 6 \<le> left"
  shows "fst (fill_chars bits p acc left n) ! j = alphabet ! unat (drop_bit (6 * j) acc AND 63)"
  using assms
proof (induction n arbitrary: acc left j)
  case 0
  then show ?case by simp
next
  case (Suc n)
  show ?case
  proof (cases j)
    case 0
    then show ?thesis by (simp add: Let_def case_prod_beta)
  next
    case (Suc j')
    then have "fst (fill_chars bits p acc left (Suc n)) ! j =
        fst (fill_chars bits p (drop_bit 6 acc) (left - 6) n) ! j'"
      using Suc.prems by (simp add: Let_def case_prod_beta)
    also have "\<dots> = alphabet ! unat (drop_bit (6 * j') (drop_bit 6 acc) AND 63)"
      using Suc Suc.prems by (intro Suc.IH) auto
    also have "\<dots> = alphabet ! unat (drop_bit (6 * j) acc AND 63)"
      by (simp add: Suc ac_simps drop_bit_drop_bit)
    finally show ?thesis .
  qed
qed

lemma take_bit_by_sextets:
  fixes x y :: u64
  assumes "\<And>j. j < q \<Longrightarrow> take_bit 6 (drop_bit (6 * j) x) = take_bit 6 (drop_bit (6 * j) y)"
  shows "take_bit (6 * q) x = take_bit (6 * q) y"
proof (rule take_bit_eq_by_bits)
  fix n assume "n < 6 * q"
  then have "n div 6 < q" by auto
  then have "bit (take_bit 6 (drop_bit (6 * (n div 6)) x)) (n mod 6) =
      bit (take_bit 6 (drop_bit (6 * (n div 6)) y)) (n mod 6)"
    using assms by metis
  then show "bit x n = bit y n"
    by (simp add: bit_take_bit_iff bit_drop_bit_eq)
qed

lemma key_chars_prefix:
  assumes "key_chars g x n = key_chars g y n" and "q \<le> n" and "6 * q \<le> unat (g_width g) * 8"
  shows "take_bit (6 * q) x = take_bit (6 * q) y"
proof (rule take_bit_by_sextets)
  fix j assume "j < q"
  let ?b = "int (unat (g_width g)) * 8"
  have "6 * Suc j \<le> unat (g_width g) * 8"
    using \<open>j < q\<close> assms(3) by simp
  then have "int (6 * Suc j) \<le> int (unat (g_width g) * 8)"
    by (rule iffD2 [OF zle_int])
  then have "fst (fill_chars ?b z z ?b (n - 1)) ! j = alphabet ! unat (drop_bit (6 * j) z AND 63)" for z
    using \<open>j < q\<close> assms(2) by (intro fill_chars_nth) auto
  then show "take_bit 6 (drop_bit (6 * j) x) = take_bit 6 (drop_bit (6 * j) y)"
    using assms(1) by (intro alphabet_inj) (metis key_chars_def)
qed

text \<open>Two bytes need a third character, which shows the remix of what is left.\<close>

lemma fill_chars_third:
  "fst (fill_chars 16 z z 16 (Suc (Suc m))) ! Suc (Suc 0) =
     alphabet ! unat (remix4tail (z + drop_bit 12 z) AND 63)"
  using fill_chars_nth [of 0 m 16 16 "remix4tail (z + drop_bit 12 z)" "remix4tail (z + drop_bit 12 z)"]
  by (simp add: Let_def case_prod_beta drop_bit_drop_bit)

lemma remix4tail_low6:
  assumes "unat u < 2 ^ 17"
  shows "take_bit 6 (remix4tail u) = take_bit 6 u XOR take_bit 6 7015912586649315971"
proof -
  have "take_bit 6 (push_bit 47 u) = 0"
    by (rule bit_word_eqI) (auto simp: bit_simps)
  then have "take_bit 6 (push_bit 47 u + 7015912586649315971) = take_bit 6 7015912586649315971"
    using take_bit_word_add [of 6 "push_bit 47 u" 7015912586649315971] by simp
  with drop_bit_small [OF assms] show ?thesis
    by (simp only: remix4tail_def take_bit_xor or.right_neutral)
qed

lemma key_chars_width2:
  assumes eq: "key_chars g x n = key_chars g y n" and w: "g_width g = 2" and "3 \<le> n"
    and x: "unat x < 2 ^ 16" and y: "unat y < 2 ^ 16"
  shows "x = y"
proof -
  obtain m where n: "n = Suc (Suc (Suc m))"
    using \<open>3 \<le> n\<close> by (metis Suc_le_D Suc_le_mono numeral_3_eq_3)
  have chars: "key_chars g z n = fst (fill_chars 16 z z 16 (Suc (Suc m)))" for z
    unfolding key_chars_def n w by (simp only: diff_Suc_1) simp
  have lo: "take_bit 12 x = take_bit 12 y"
    using key_chars_prefix [OF eq, of 2] w \<open>3 \<le> n\<close> by simp
  have low: "take_bit 6 (remix4tail (z + drop_bit 12 z)) =
      take_bit 6 (z + drop_bit 12 z) XOR take_bit 6 7015912586649315971"
    if "unat z < 2 ^ 16" for z :: u64
  proof (rule remix4tail_low6)
    have "unat (drop_bit 12 z) \<le> unat z"
      by (simp add: drop_bit_eq_div unat_div)
    with that show "unat (z + drop_bit 12 z) < 2 ^ 17"
      by (simp add: unat_word_ariths)
  qed
  have "take_bit 6 (remix4tail (x + drop_bit 12 x)) = take_bit 6 (remix4tail (y + drop_bit 12 y))"
    using eq unfolding chars by (intro alphabet_inj) (metis fill_chars_third)
  then have "take_bit 6 (x + drop_bit 12 x) = take_bit 6 (y + drop_bit 12 y)"
    unfolding low [OF x] low [OF y] word_xor_right_cancel .
  moreover have "take_bit 6 (y + drop_bit 12 y) = take_bit 6 (x + drop_bit 12 y)"
  proof -
    have "take_bit 6 x = take_bit 6 y"
      using arg_cong [OF lo, of "take_bit 6"] by simp
    then have "take_bit 6 (take_bit 6 y + drop_bit 12 y) = take_bit 6 (take_bit 6 x + drop_bit 12 y)"
      by (simp only:)
    then show ?thesis by (simp only: take_bit_word_add)
  qed
  ultimately have "take_bit 6 (drop_bit 12 x + x) = take_bit 6 (drop_bit 12 y + x)"
    by (simp only: add.commute)
  then have hi: "take_bit 6 (drop_bit 12 x) = take_bit 6 (drop_bit 12 y)"
    by (rule add_cancel)
  have "take_bit 16 x = take_bit 16 y"
  proof (rule take_bit_eq_by_bits)
    fix i :: nat assume "i < 16"
    show "bit x i = bit y i"
    proof (cases "i < 12")
      case True
      with lo show ?thesis by (rule bit_eq_from_take_bit)
    next
      case False
      have "bit (drop_bit 12 x) (i - 12) = bit (drop_bit 12 y) (i - 12)"
        using \<open>i < 16\<close> by (intro bit_eq_from_take_bit [OF hi]) auto
      with False show ?thesis by (simp add: bit_drop_bit_eq)
    qed
  qed
  with x y show ?thesis by (simp only: take_bit_small)
qed

text \<open>
  The widths at which the printed characters determine the number: two bytes (16 = 12 + 4 bits,
  the third character adds the rest), three and six bytes (whole sextets).
\<close>

definition key_width_ok :: "kv_globals \<Rightarrow> bool" where
  "key_width_ok g \<longleftrightarrow> g_width g = 2 \<and> 3 \<le> unat (g_ksize g) \<or>
     g_width g = 3 \<and> 4 \<le> unat (g_ksize g) \<or> g_width g = 6 \<and> 8 \<le> unat (g_ksize g)"

lemma key_text_inj:
  assumes "sbox_ok (g_sbox g)" and w: "key_width_ok g"
  shows "key_text g x = key_text g y \<longleftrightarrow>
    take_bit (8 * unat (g_width g)) x = take_bit (8 * unat (g_width g)) y"
proof -
  let ?k = "8 * unat (g_width g)"
  let ?m = "kv_mod2n_injection (g_sbox g) (g_width g)"
  have "2 \<le> unat (g_width g)" "unat (g_width g) \<le> 8"
    using w by (auto simp: key_width_ok_def)
  note inj = kv_mod2n_injection_inj [OF assms(1) this] and bnd = kv_mod2n_injection_bound [OF this]
  have "?m x = ?m y" if eq: "key_chars g (?m x) (unat (g_ksize g)) = key_chars g (?m y) (unat (g_ksize g))"
    using w unfolding key_width_ok_def
  proof (elim disjE conjE)
    assume g: "g_width g = 2" "3 \<le> unat (g_ksize g)"
    have "unat (?m z) < 2 ^ 16" for z
    proof -
      have "take_bit 16 (?m z) = ?m z"
        using bnd [of "g_sbox g" z] g by simp
      then show ?thesis
        by (metis take_bit_nat_less_exp unsigned_take_bit_eq)
    qed
    then show ?thesis using key_chars_width2 [OF eq g] by blast
  next
    assume g: "g_width g = 3" "4 \<le> unat (g_ksize g)"
    have "take_bit (6 * 4) (?m x) = take_bit (6 * 4) (?m y)"
      using g by (intro key_chars_prefix [OF eq]) auto
    then show ?thesis using bnd [of "g_sbox g" x] bnd [of "g_sbox g" y] g by simp
  next
    assume g: "g_width g = 6" "8 \<le> unat (g_ksize g)"
    have "take_bit (6 * 8) (?m x) = take_bit (6 * 8) (?m y)"
      using g by (intro key_chars_prefix [OF eq]) auto
    then show ?thesis using bnd [of "g_sbox g" x] bnd [of "g_sbox g" y] g by simp
  qed
  then show ?thesis using inj [of x y] unfolding key_text_def by metis
qed

interpretation printed: key_numbering
  "\<lambda>g. sbox_ok (g_sbox g) \<and> key_width_ok g" key_text "\<lambda>g. 8 * unat (g_width g)"
  by unfold_locales (auto simp: key_text_inj key_width_ok_def)

lemma run_keys_distinct:
  assumes ok: "kvgen_ok g gen" and sb: "sbox_ok (g_sbox g)" and w: "key_width_ok g"
    and "unat (g_period g) \<le> 2 ^ (8 * unat (g_width g))"
    and "length kos \<le> unat (g_period g)"
    and run: "kvgen_gets g gen kos = Some (gen', kvs)"
  shows "distinct (map kv_key kvs)"
proof -
  have "map kv_key kvs = map (\<lambda>i. key_text g (point_at g gen i)) [0..<length kos]"
    using kvgen_gets_keys [OF ok, of kos] run by auto
  moreover have "0 < unat (g_period g)"
    using ok by (simp add: kvgen_ok_def unat_gt_0)
  ultimately show ?thesis
    using assms unfolding point_at_def by (simp only:) (intro printed.run_distinct, simp_all)
qed

lemma run_spaces_disjoint:
  assumes ok: "kvgen_ok g gen1" "kvgen_ok g gen2"
    and sb: "sbox_ok (g_sbox g)" and w: "key_width_ok g"
    and base: "kg_base gen1 = ucast k1 * g_period g" "kg_base gen2 = ucast k2 * g_period g"
    and sp: "unat (k1 :: u32) < unat (k2 :: u32)" "unat k2 < unat k1 + n"
    and fits: "unat (g_period g) * n \<le> 2 ^ (8 * unat (g_width g))"
    and run: "kvgen_gets g gen1 kos1 = Some (gen1', kvs1)" "kvgen_gets g gen2 kos2 = Some (gen2', kvs2)"
  shows "set (map kv_key kvs1) \<inter> set (map kv_key kvs2) = {}"
proof -
  let ?p = "unat (g_period g)" and ?d = "unat k2 - unat k1"
  have p0: "0 < ?p" using ok by (simp add: kvgen_ok_def unat_gt_0)
  have "Suc ?d * ?p \<le> n * ?p" using sp by (intro mult_le_mono1) auto
  then have d: "0 < ?d" "Suc ?d * ?p \<le> 2 ^ (8 * unat (g_width g))"
    using fits sp by (simp_all add: mult.commute)
  have "(ucast k2 :: u64) = of_nat (unat k1 + ?d)" using sp by simp
  then have "(ucast k2 :: u64) = ucast k1 + of_nat ?d" by (simp only: of_nat_add) simp
  then have b2: "kg_base gen2 = kg_base gen1 + of_nat (?d * ?p)"
    by (simp add: base ring_distribs)
  have "key_text g (point_at g gen1 a) \<noteq> key_text g (point_at g gen2 b)" for a b
    unfolding point_at_def b2 by (intro printed.spaces_disjoint) (use sb w d p0 in simp_all)
  moreover have "map kv_key kvs1 = map (\<lambda>i. key_text g (point_at g gen1 i)) [0..<length kos1]"
    and "map kv_key kvs2 = map (\<lambda>i. key_text g (point_at g gen2 i)) [0..<length kos2]"
    using kvgen_gets_keys [OF ok(1), of kos1] kvgen_gets_keys [OF ok(2), of kos2] run by auto
  ultimately show ?thesis by auto
qed

section \<open>Whole numbers as doubles\<close>

lemma dbl_exp_small: "n < 2 ^ 53 \<Longrightarrow> dbl_exp n = 0"
  by (simp add: dbl_exp.simps)

lemma dbl_exact: "n < 2 ^ 53 \<Longrightarrow> dbl n = n"
  by (simp add: dbl_def dbl_exp_small round_div_def)

lemma dbl_exp_div: "2 ^ 53 \<le> n \<Longrightarrow> 0 < dbl_exp n \<and> 2 ^ 52 \<le> n div 2 ^ dbl_exp n"
proof (induction n rule: dbl_exp.induct)
  case (1 n)
  have e: "dbl_exp n = Suc (dbl_exp (n div 2))"
    using "1.prems" by (subst dbl_exp.simps) simp
  show ?case
  proof (cases "n div 2 < 2 ^ 53")
    case True
    then show ?thesis using "1.prems" by (simp add: e dbl_exp_small)
  next
    case False
    then have "2 ^ 52 \<le> n div 2 div 2 ^ dbl_exp (n div 2)"
      using "1.IH" "1.prems" by simp
    then show ?thesis by (simp add: e div_mult2_eq)
  qed
qed

lemma dbl_large:
  assumes "2 ^ 53 \<le> n"
  shows "2 ^ 53 \<le> dbl n"
proof -
  let ?e = "dbl_exp n"
  have e: "0 < ?e" "2 ^ 52 \<le> n div 2 ^ ?e"
    using dbl_exp_div [OF assms] by auto
  have "n div 2 ^ ?e \<le> round_div n (2 ^ ?e)"
    by (simp add: round_div_def Let_def)
  then have "2 ^ 52 * 2 ^ 1 \<le> round_div n (2 ^ ?e) * (2 :: nat) ^ ?e"
    using e by (intro mult_mono power_increasing) auto
  then show ?thesis by (simp add: dbl_def Let_def)
qed

lemma dbl_eq_small: "dbl n < 2 ^ 53 \<Longrightarrow> dbl n = n"
  using dbl_large [of n] dbl_exact [of n] by force

lemma dbl_product_small:
  assumes "dbl (dbl p * n) < 2 ^ 53" and "0 < n"
  shows "dbl (dbl p * n) = p * n"
proof -
  have prod: "dbl (dbl p * n) = dbl p * n"
    using assms(1) by (rule dbl_eq_small)
  moreover have "dbl p \<le> dbl p * n" using assms(2) by simp
  ultimately have "dbl p < 2 ^ 53" using assms(1) by linarith
  then show ?thesis using prod dbl_eq_small [of p] by simp
qed

section \<open>What a successful set-up guarantees\<close>

lemma unat_BITMASK:
  assumes "n \<le> 64"
  shows "unat (BITMASK n) = 2 ^ n - 1"
proof -
  have "int (unat (BITMASK n)) = mask n"
    using assms by (simp add: BITMASK_eq uint_mask_eq min_def)
  also have "\<dots> = int (2 ^ n - 1)"
    by (simp add: mask_eq_exp_minus_1 of_nat_diff)
  finally show ?thesis by (simp only: of_nat_eq_iff)
qed

lemma BITMASK_64: "BITMASK 64 = - 1"
  by (simp add: BITMASK_def)

lemma kvgen_width_cases:
  assumes "kvgen_width maxkey = Some (width, mtop)"
  shows "2 \<le> maxkey \<and> 2 \<le> unat width \<and> unat width \<le> 8 \<and> mtop = BITMASK (8 * unat width) \<and>
    (unat width \<le> 6 \<longrightarrow> maxkey < 2 ^ (8 * unat width) - 1)"
  using assms
  by (auto simp: kvgen_width_def unat_BITMASK BITMASK_64 split: if_splits)

lemma dbl_BITMASK:
  assumes "k \<in> {2, 3, 4, 5, 6, 7, 8}"
  shows "dbl (unat (BITMASK (8 * k))) = (if k \<le> 6 then 2 ^ (8 * k) - 1 else 2 ^ (8 * k))"
proof -
  have "dbl 72057594037927935 = 72057594037927936"
    and "dbl 18446744073709551615 = 18446744073709551616"
    by (simp_all add: dbl_def dbl_exp.simps round_div_def Let_def)
  then show ?thesis
    using assms by (elim insertE emptyE) (simp_all add: unat_BITMASK dbl_exact)
qed

lemma key_long_enough:
  assumes "\<not> key_too_short pr (BITMASK (8 * k)) key_size" and "k \<in> {2, 3, 4, 5, 6, 7, 8}"
  shows "8 * k \<le> (if pr then 6 else 8) * unat key_size"
proof -
  let ?b = "if pr then 6 else 8 :: nat"
  have "(2 :: nat) ^ (8 * k) - 1 \<le> dbl (unat (BITMASK (8 * k)))"
    by (simp add: dbl_BITMASK [OF assms(2)])
  also have "\<dots> \<le> (if pr then ALPHABET_CARDINALITY else 256) ^ unat key_size"
    using assms(1) by (simp add: key_too_short_def)
  also have "\<dots> = (2 ^ ?b) ^ unat key_size"
    by (simp add: ALPHABET_CARDINALITY_def)
  also have "\<dots> = 2 ^ (?b * unat key_size)"
    by (simp only: power_mult)
  finally have "(2 :: nat) ^ (8 * k) - 1 \<le> 2 ^ (?b * unat key_size)" .
  moreover have "(2 :: nat) ^ (8 * k - 1) < 2 ^ (8 * k) - 1"
    using assms(2) by auto
  ultimately have "(2 :: nat) ^ (8 * k - 1) < 2 ^ (?b * unat key_size)"
    by linarith
  then have "8 * k - 1 < ?b * unat key_size"
    by (simp only: power_strict_increasing_iff one_less_numeral_iff semiring_norm)
  then show ?thesis by linarith
qed

lemma kvgen_setup_ok:
  assumes "ia_kvgen_setup rand_r time_now g0 pr key_size nspaces nsectors period seed = (0, g)"
  shows "sbox_ok (g_sbox g) \<and> g_printable g = pr \<and> g_ksize g = key_size \<and>
    g_period g = period \<and> g_nsectors g = nsectors \<and> period \<noteq> 0 \<and>
    2 \<le> unat (g_width g) \<and> unat (g_width g) \<le> 8 \<and>
    8 * unat (g_width g) \<le> (if pr then 6 else 8) * unat key_size \<and>
    (unat (g_width g) \<le> 6 \<longrightarrow> unat period * unat nspaces < 2 ^ (8 * unat (g_width g)) - 1)"
proof -
  let ?m = "dbl (dbl (unat period) * dbl (unat nspaces))"
  obtain width mtop where w: "kvgen_width ?m = Some (width, mtop)"
    and long: "\<not> key_too_short pr mtop key_size"
    and g: "g = \<lparr>g_printable = pr, g_ksize = key_size, g_width = width, g_nsectors = nsectors,
      g_period = period, g_sbox = kv_sbox_init rand_r (of_int (if seed < 0 then time_now else seed))\<rparr>"
    using assms by (auto simp: ia_kvgen_setup_def Let_def split: option.splits if_splits)
  note c = kvgen_width_cases [OF w]
  have n: "dbl (unat nspaces) = unat nspaces"
    using unat_u32_less [of nspaces] by (simp add: dbl_exact)
  have pos: "period \<noteq> 0" "0 < unat nspaces"
    using c by (auto simp: dbl_exact n intro!: Nat.gr0I)
  have small: "unat period * unat nspaces < 2 ^ (8 * unat width) - 1" if "unat width \<le> 6"
  proof -
    have "?m < 2 ^ (8 * unat width) - 1" using c that by blast
    also have "\<dots> < 2 ^ 53"
    proof -
      have "(2 :: nat) ^ (8 * unat width) \<le> 2 ^ 48" using that by (intro power_increasing) auto
      then show ?thesis by simp
    qed
    finally have "?m = unat period * unat nspaces"
      using dbl_product_small [of "unat period" "unat nspaces"] pos by (simp add: n)
    then show ?thesis using c that by simp
  qed
  have "unat width \<in> {2, 3, 4, 5, 6, 7, 8}" using c by auto
  then have "8 * unat width \<le> (if pr then 6 else 8) * unat key_size"
    using long c key_long_enough by blast
  then show ?thesis
    using c pos small by (simp add: g sbox_ok_init)
qed

lemma chars_collision:
  "fst (fill_chars 32 3801087 3801087 32 5) = fst (fill_chars 32 1077542911 1077542911 32 5)"
  by code_simp

section \<open>The binary format\<close>

lemma remix_until_doubles:
  "remix_until point left = Some (p, left') \<Longrightarrow> 2 * left \<le> left'"
proof (induction point left rule: remix_until.induct)
  case (1 point left)
  then show ?case
    by (subst (asm) (2) remix_until.simps) (fastforce simp: Let_def split: if_splits)
qed

lemma fill_words_length:
  assumes "fill_words point left len = Some (bs, q)" and "0 < left" and "left < 2 ^ 31"
  shows "\<exists>n. unat len = 8 * Suc n \<and> length bs = 8 * Suc n \<and> left * 2 ^ n < 2 ^ 31 \<and>
    (0 < n \<longrightarrow> 32 * 2 ^ n < (2 :: int) ^ 31)"
  using assms
proof (induction point left len arbitrary: bs q rule: fill_words.induct)
  case (1 point left len)
  show ?case
  proof (cases "len - 8 = 0")
    case True
    then have "len = 8" by simp
    then show ?thesis
      using "1.prems" by (subst (asm) fill_words.simps) (auto simp: htole64_def)
  next
    case False
    then obtain p left' bs' where r: "remix_until point left = Some (p, left')"
      and f: "fill_words p left' (len - 8) = Some (bs', q)" and bs: "bs = htole64 point @ bs'"
      using "1.prems" by (subst (asm) fill_words.simps) (auto split: option.splits)
    note grows = remix_until_grows [OF r] remix_until_doubles [OF r]
    from "1.IH" [OF refl False r refl f] grows obtain n
      where n: "unat (len - 8) = 8 * Suc n" "length bs' = 8 * Suc n" "left' * 2 ^ n < 2 ^ 31" by auto
    have "left * 2 ^ Suc n \<le> left' * 2 ^ n"
      using grows by simp
    with n have lt: "left * 2 ^ Suc n < 2 ^ 31" by linarith
    have "(2::int) ^ Suc n \<le> left * 2 ^ Suc n" using "1.prems"(2) by simp
    with lt have "(2::int) ^ Suc n < 2 ^ 31" by linarith
    then have "Suc n < 31" by (simp only: power_strict_increasing_iff one_less_numeral_iff semiring_norm)
    moreover define m where "m = len - 8"
    then have "len = m + 8" by simp
    ultimately have "unat len = 8 * Suc n + 8"
      using n(1) by (simp add: unat_word_ariths flip: m_def)
    moreover have "32 * 2 ^ Suc n \<le> left' * 2 ^ n" using grows by simp
    then have "32 * 2 ^ Suc n < (2 :: int) ^ 31" using n(3) by linarith
    ultimately show ?thesis using n lt by (intro exI [of _ "Suc n"]) (simp add: bs htole64_def)
  qed
qed

lemma kvgen_setup_spaces:
  assumes "ia_kvgen_setup rand_r time_now g0 pr key_size nspaces nsectors period seed = (0, g)"
  shows "nspaces \<noteq> 0"
proof
  assume "nspaces = 0"
  then show False
    using assms by (simp add: ia_kvgen_setup_def Let_def kvgen_width_def dbl_exact)
qed

lemma setup_printable:
  assumes "ia_kvgen_setup rand_r time_now g0 True key_size nspaces nsectors period seed = (0, g)"
    and "g_width g \<in> {2, 3, 6}"
  shows "sbox_ok (g_sbox g)" and "key_width_ok g" and "g_printable g" and "g_ksize g \<noteq> 0"
    and "g_period g \<noteq> 0" and "g_period g = period"
    and "unat (g_period g) * unat nspaces \<le> 2 ^ (8 * unat (g_width g))"
    and "unat (g_period g) \<le> 2 ^ (8 * unat (g_width g))"
proof -
  note st = kvgen_setup_ok [OF assms(1)]
  have len: "8 * unat (g_width g) \<le> 6 * unat (g_ksize g)" using st by simp
  have w: "unat (g_width g) \<in> {2, 3, 6}" using assms(2) by auto
  show "sbox_ok (g_sbox g)" "g_printable g" "g_period g \<noteq> 0" "g_period g = period"
    using st by simp_all
  show "key_width_ok g" using assms(2) len by (auto simp: key_width_ok_def)
  show "g_ksize g \<noteq> 0" using len w by auto
  show fits: "unat (g_period g) * unat nspaces \<le> 2 ^ (8 * unat (g_width g))"
    using st w by auto
  show "unat (g_period g) \<le> 2 ^ (8 * unat (g_width g))"
  proof -
    have "unat (g_period g) * 1 \<le> unat (g_period g) * unat nspaces"
      using kvgen_setup_spaces [OF assms(1)] by (intro mult_le_mono2) (simp add: unat_gt_0 Suc_leI)
    with fits show ?thesis by linarith
  qed
qed

text \<open>The set-ups of the samples.\<close>

lemmas setup_eval = ia_kvgen_setup_def Let_def kvgen_width_def unat_BITMASK dbl_exact
  key_too_short_def ALPHABET_CARDINALITY_def sample_globals_def

lemma sample_setup:
  "ia_kvgen_setup sample_rand 0 initial_globals True 16 4 4 1000 7 = (0, sample_globals 16 2 1000)"
  "ia_kvgen_setup sample_rand 0 initial_globals True 6 4 4 10000000 7 = (0, sample_globals 6 4 10000000)"
  by (simp_all add: setup_eval)

section \<open>Properties\<close>

text \<open>
  C6: a set-up that succeeds has chosen a key size with enough characters for the width, a width
  with enough numbers for all the key spaces (stated up to 48 bits, where the comparison of the
  doubles is exact), and filled the box with a permutation; a set-up that fails changes nothing.
\<close>

theorem kvgen_setup_sound:
  assumes "ia_kvgen_setup rand_r time_now g0 pr key_size nspaces nsectors period seed = (rc, g)"
  shows "rc = 0 \<and> sbox_ok (g_sbox g) \<and> g_printable g = pr \<and> g_ksize g = key_size \<and>
      g_period g = period \<and> period \<noteq> 0 \<and> 2 \<le> unat (g_width g) \<and> unat (g_width g) \<le> 8 \<and>
      8 * unat (g_width g) \<le> (if pr then 6 else 8) * unat key_size \<and>
      (unat (g_width g) \<le> 6 \<longrightarrow> unat period * unat nspaces < 2 ^ (8 * unat (g_width g)) - 1)
    \<or> rc = -1 \<and> g = g0"
proof (cases "rc = 0")
  case True
  then show ?thesis using kvgen_setup_ok assms by blast
next
  case False
  then show ?thesis using assms by (auto simp: ia_kvgen_setup_def Let_def split: option.splits if_splits)
qed

theorem kvgen_setup_sound_witness:
  "ia_kvgen_setup sample_rand 0 initial_globals True 16 4 4 1000 7 = (0, sample_globals 16 2 1000) \<and>
    sbox_ok (g_sbox (sample_globals 16 2 1000)) \<and> g_width (sample_globals 16 2 1000) = 2"
  using kvgen_setup_sound [OF sample_setup(1)] sample_setup(1) by (simp add: sample_globals_def)

text \<open>
  C2: after a successful set-up of printable keys with a width of 2, 3 or 6 bytes, the records a
  generator hands out over one period have pairwise different keys, whatever mixture of
  key-only and full calls is made, at whatever key space and sector the generator starts.
\<close>

theorem keys_distinct_in_period:
  assumes "ia_kvgen_setup rand_r time_now g0 True key_size nspaces nsectors period seed = (0, g)"
    and "g_width g \<in> {2, 3, 6}"
    and "alloc_ok alloc" and "ia_kvgen_init alloc g genptr kspace ksector vsize vage = Some (0, Some gen)"
    and "length kos \<le> unat period"
  shows "\<exists>gen' kvs. kvgen_gets g gen kos = Some (gen', kvs) \<and> distinct (map kv_key kvs)"
proof -
  note st = setup_printable [OF assms(1,2)]
  have ok: "kvgen_ok g gen" using kvgen_init_ok [OF assms(3) _ _ _ assms(4)] st by simp
  obtain gen' kvs where run: "kvgen_gets g gen kos = Some (gen', kvs)"
    using kvgen_gets_keys [OF ok] by blast
  moreover have "distinct (map kv_key kvs)"
    by (rule run_keys_distinct [OF ok _ _ _ _ run]) (use st assms(5) in simp_all)
  ultimately show ?thesis by blast
qed

theorem keys_distinct_in_period_witness:
  "\<exists>gen' kvs. kvgen_gets (sample_globals 16 2 1000) (sample_gen (sample_globals 16 2 1000) 3)
      (replicate 1000 True) = Some (gen', kvs) \<and> distinct (map kv_key kvs)"
  by (rule keys_distinct_in_period [OF sample_setup(1) _ sample_alloc_ok sample_init])
    (simp_all add: sample_globals_def)

lemma setup_spaces_disjoint:
  assumes "ia_kvgen_setup rand_r time_now g0 True key_size nspaces nsectors period seed = (0, g)"
    and "g_width g \<in> {2, 3, 6}" and "alloc_ok alloc"
    and "ia_kvgen_init alloc g genptr1 k1 ksector1 vsize1 vage1 = Some (0, Some gen1)"
    and "ia_kvgen_init alloc g genptr2 k2 ksector2 vsize2 vage2 = Some (0, Some gen2)"
    and "unat k1 < unat k2" and "unat k2 < unat k1 + unat nspaces"
    and "kvgen_gets g gen1 kos1 = Some (gen1', kvs1)" and "kvgen_gets g gen2 kos2 = Some (gen2', kvs2)"
  shows "set (map kv_key kvs1) \<inter> set (map kv_key kvs2) = {}"
proof -
  note st = setup_printable [OF assms(1,2)]
  have ok: "kvgen_ok g gen1" "kvgen_ok g gen2"
    and base: "kg_base gen1 = ucast k1 * g_period g" "kg_base gen2 = ucast k2 * g_period g"
    using kvgen_init_ok [OF assms(3) _ _ _ assms(4)] kvgen_init_ok [OF assms(3) _ _ _ assms(5)] st
    by simp_all
  show ?thesis
    by (rule run_spaces_disjoint [OF ok _ _ base assms(6,7) _ assms(8,9)]) (use st in simp_all)
qed



text \<open>
  C7: at a width of four bytes the shortest key the set-up accepts, six characters, is too short:
  two different numbers below \<open>2^32\<close> are printed as the same key.  (The sixth character shows
  the two left-over bits only after they went through the remix of the tail.)
\<close>

theorem key_collision_width4:
  assumes "ia_kvgen_setup rand_r time_now g0 True 6 nspaces nsectors period seed = (0, g)"
    and "g_width g = 4"
  shows "\<exists>x y. unat x < 2 ^ 32 \<and> unat y < 2 ^ 32 \<and> x \<noteq> y \<and>
    kv_pair g 0 vage x = kv_pair g 0 vage y"
proof -
  have ok: "sbox_ok (g_sbox g)" and g: "g_printable g" "g_ksize g = 6"
    using kvgen_setup_ok [OF assms(1)] by simp_all
  have onto: "kv_mod2n_injection (g_sbox g) 4 ` {x. unat x < 2 ^ 32} = {x. unat x < 2 ^ 32}"
    using kv_mod2n_injection_bij [OF ok, of 4] by (simp add: bij_betw_def)
  have "3801087 \<in> kv_mod2n_injection (g_sbox g) 4 ` {x. unat x < 2 ^ 32}"
    "1077542911 \<in> kv_mod2n_injection (g_sbox g) 4 ` {x. unat x < 2 ^ 32}"
    unfolding onto by simp_all
  then obtain x y where x: "unat x < 2 ^ 32" "kv_mod2n_injection (g_sbox g) 4 x = 3801087"
    and y: "unat y < 2 ^ 32" "kv_mod2n_injection (g_sbox g) 4 y = 1077542911"
    by (elim imageE) simp
  have "x \<noteq> y" using x y by force
  moreover have "kv_pair g 0 vage x = kv_pair g 0 vage y"
    using chars_collision by (simp add: kv_pair_def kv_fill_def g assms(2) x y case_prod_beta Let_def)
  ultimately show ?thesis using x y by blast
qed

theorem key_collision_width4_witness:
  "\<exists>x y. unat x < 2 ^ 32 \<and> unat y < 2 ^ 32 \<and> x \<noteq> y \<and>
    kv_pair (sample_globals 6 4 10000000) 0 0 x = kv_pair (sample_globals 6 4 10000000) 0 0 y"
  using key_collision_width4 [OF sample_setup(2)] by (simp add: sample_globals_def)

text \<open>
  C8: when binary data is printed at all, the length is a positive multiple of eight and at most
  208 bytes (26 words): every other length overruns the buffer or overflows the shift counter.
\<close>

theorem kv_fill_binary:
  assumes "\<not> g_printable g" and "2 \<le> unat (g_width g)" and "unat (g_width g) \<le> 8"
    and "kv_fill g point len = Some (bs, q)"
  shows "length bs = unat len \<and> 8 dvd unat len \<and> 0 < unat len \<and> unat len \<le> 208"
proof -
  have f: "fill_words point (int (unat (g_width g)) * 8) len = Some (bs, q)"
    using assms by (auto simp: kv_fill_def Let_def split: if_splits)
  have "int (unat (g_width g)) * 8 \<le> 64" using assms(3) by linarith
  then have left: "0 < int (unat (g_width g)) * 8" "int (unat (g_width g)) * 8 < 2 ^ 31"
    using assms(2) by (linarith, simp)
  obtain n where n: "unat len = 8 * Suc n" "length bs = 8 * Suc n" "0 < n \<longrightarrow> 32 * 2 ^ n < (2 :: int) ^ 31"
    using fill_words_length [OF f left] by blast
  have "n < 26"
  proof (cases "n = 0")
    case False
    then have "(2::int) ^ n < 2 ^ 26" using n by simp
    then show ?thesis by (simp only: power_strict_increasing_iff one_less_numeral_iff semiring_norm)
  qed simp
  with n show ?thesis by auto
qed


theorem kv_fill_binary_witness:
  "kv_fill sample_binary 5 24 \<noteq> None \<and> kv_fill sample_binary 5 216 = None \<and>
   (case kv_fill sample_binary 5 24 of None \<Rightarrow> False | Some (bs, _) \<Rightarrow> length bs = 24)"
proof -
  have "kv_fill sample_binary 5 24 \<noteq> None" and none: "kv_fill sample_binary 5 216 = None"
    by (simp_all add: kv_fill_def sample_binary_def initial_globals_def Let_def fill_words.simps remix_until.simps)
  then obtain bs q where f: "kv_fill sample_binary 5 24 = Some (bs, q)" by auto
  then have "length bs = 24"
    using kv_fill_binary [of sample_binary 5 24 bs q] by (simp add: sample_binary_def initial_globals_def)
  then show ?thesis by (simp add: f none)
qed

end
