(* ===== verification/Common.thy ===== *)
theory Common
  imports Prelude
begin

text \<open>
  The types of \<open>src/ioarena.h\<close>, \<open>src/ia_time.h\<close> and \<open>src/ia_kv.h\<close> that several components share:
  the benchmarks in the order of their enumeration (the loops of the program run over it), the
  durability modes, the time units, and the benchmark masks of \<open>src/ia_benchmark.c\<close>.
\<close>

section \<open>Enumerations\<close>

datatype iabenchmark = IA_SET | IA_BATCH | IA_CRUD | IA_DELETE | IA_ITERATE | IA_GET | IA_MAX

datatype iasyncmode = IA_SYNC | IA_LAZY | IA_NOSYNC

datatype iawalmode = IA_WAL_INDEF | IA_WAL_ON | IA_WAL_OFF

text \<open>The numbers C gives to the benchmarks, and the order of the loops over them.\<close>

fun bench_nat :: "iabenchmark \<Rightarrow> nat" where
  "bench_nat IA_SET = 0"
| "bench_nat IA_BATCH = 1"
| "bench_nat IA_CRUD = 2"
| "bench_nat IA_DELETE = 3"
| "bench_nat IA_ITERATE = 4"
| "bench_nat IA_GET = 5"
| "bench_nat IA_MAX = 6"

lemma bench_nat_inj [simp]: "bench_nat a = bench_nat b \<longleftrightarrow> a = b"
  by (cases a; cases b) simp_all

instantiation iabenchmark :: linorder
begin

definition less_eq_iabenchmark :: "iabenchmark \<Rightarrow> iabenchmark \<Rightarrow> bool" where
  "less_eq_iabenchmark a b \<longleftrightarrow> bench_nat a \<le> bench_nat b"

definition less_iabenchmark :: "iabenchmark \<Rightarrow> iabenchmark \<Rightarrow> bool" where
  "less_iabenchmark a b \<longleftrightarrow> bench_nat a < bench_nat b"

instance
  by standard (auto simp: less_eq_iabenchmark_def less_iabenchmark_def)

end

text \<open>\<open>for (bench = IA_SET; bench < IA_MAX; ++bench)\<close>\<close>

definition benchmarks :: "iabenchmark list" where
  "benchmarks = [IA_SET, IA_BATCH, IA_CRUD, IA_DELETE, IA_ITERATE, IA_GET]"

lemma set_benchmarks: "b \<in> set benchmarks \<longleftrightarrow> b < IA_MAX"
  by (cases b) (simp_all add: benchmarks_def less_iabenchmark_def)

lemma sorted_benchmarks: "sorted benchmarks"
  and distinct_benchmarks: "distinct benchmarks"
  by (simp_all add: benchmarks_def less_eq_iabenchmark_def)

section \<open>Time\<close>

text \<open>A timestamp counts nanoseconds in an unsigned 64-bit integer.\<close>

definition US :: u64 where "US = 1000"
definition MS :: u64 where "MS = 1000000"
definition S :: u64 where "S = 1000000000"

end
