(* ===== verification/Histogram.thy ===== *)
theory Histogram
  imports Common
begin

text \<open>
  The latency statistics of \<open>src/ia_histogram.c\<close>.  Every doer (worker) has an \<open>iahistogram\<close> of its
  own; now and then it merges what is new into the global histogram of its benchmark, and the
  doer that is last to merge in a round prints the periodic report.  The definitions follow the C
  functions; \<open>None\<close> is \<open>ia_fatal\<close> (the process aborts) or a search that does not return.  The
  clock and the outcome of \<open>pthread_mutex_trylock\<close> are arguments; \<open>pthread_mutex_lock\<close> always
  succeeds.  What is printed is modelled as the values of each row, not as text: the conversion
  to seconds and the layout (\<open>snpf_val\<close>, \<open>snpf_lat\<close>, the csv files) are left out, and instead of
  the root mean square a row holds the mean square, the argument of \<open>sqrt\<close>.
\<close>

section \<open>Data\<close>

definition ST_HISTOGRAM_COUNT :: nat where
  "ST_HISTOGRAM_COUNT = 167"

definition INTERVAL_STAT :: u64 where "INTERVAL_STAT = S"
definition INTERVAL_MERGE :: u64 where "INTERVAL_MERGE = S div 100"

definition LINE_12_100 :: "u64 \<Rightarrow> u64 list" where
  "LINE_12_100 M = map (\<lambda>k. M * k) [12, 14, 16, 18, 20, 25, 30, 35, 40, 45, 50, 60, 70, 80, 90, 100]"

definition ia_histogram_buckets :: "u64 list" where
  "ia_histogram_buckets =
     [9] @ LINE_12_100 1 @ LINE_12_100 10 @ LINE_12_100 100
         @ LINE_12_100 US @ LINE_12_100 (US * 10) @ LINE_12_100 (US * 100)
         @ LINE_12_100 MS @ LINE_12_100 (MS * 10) @ LINE_12_100 (MS * 100)
         @ LINE_12_100 S @ [S * 5 * 60, S * 30 * 60, S * 3600 * 4, S * 3600 * 8, S * 3600 * 24, NOT 0]"

text \<open>The table computed once, for evaluation.\<close>

lemma ia_histogram_buckets_eval [code]:
  "ia_histogram_buckets =
     [9, 12, 14, 16, 18, 20, 25, 30, 35, 40, 45, 50, 60, 70, 80, 90, 100, 120, 140, 160, 180, 200,
      250, 300, 350, 400, 450, 500, 600, 700, 800, 900, 1000, 1200, 1400, 1600, 1800, 2000, 2500,
      3000, 3500, 4000, 4500, 5000, 6000, 7000, 8000, 9000, 10000, 12000, 14000, 16000, 18000,
      20000, 25000, 30000, 35000, 40000, 45000, 50000, 60000, 70000, 80000, 90000, 100000, 120000,
      140000, 160000, 180000, 200000, 250000, 300000, 350000, 400000, 450000, 500000, 600000,
      700000, 800000, 900000, 1000000, 1200000, 1400000, 1600000, 1800000, 2000000, 2500000,
      3000000, 3500000, 4000000, 4500000, 5000000, 6000000, 7000000, 8000000, 9000000, 10000000,
      12000000, 14000000, 16000000, 18000000, 20000000, 25000000, 30000000, 35000000, 40000000,
      45000000, 50000000, 60000000, 70000000, 80000000, 90000000, 100000000, 120000000, 140000000,
      160000000, 180000000, 200000000, 250000000, 300000000, 350000000, 400000000, 450000000,
      500000000, 600000000, 700000000, 800000000, 900000000, 1000000000, 1200000000, 1400000000,
      1600000000, 1800000000, 2000000000, 2500000000, 3000000000, 3500000000, 4000000000,
      4500000000, 5000000000, 6000000000, 7000000000, 8000000000, 9000000000, 10000000000,
      12000000000, 14000000000, 16000000000, 18000000000, 20000000000, 25000000000, 30000000000,
      35000000000, 40000000000, 45000000000, 50000000000, 60000000000, 70000000000, 80000000000,
      90000000000, 100000000000, 300000000000, 1800000000000, 14400000000000, 28800000000000,
      86400000000000, - 1]"
  by (simp add: ia_histogram_buckets_def LINE_12_100_def US_def MS_def S_def)

record iastat =
  latency_sum_ns :: u64
  latency_sum_square :: u64
  stat_n :: u64
  volume_sum :: u64

record iahistogram =
  h_checkpoint_ns :: u64
  h_begin_ns :: u64
  h_end_ns :: u64
  h_bench :: iabenchmark
  h_enabled :: bool
  h_whole_min :: u64
  h_whole_max :: u64
  h_last :: iastat
  h_min :: u64
  h_max :: u64
  h_acc :: iastat
  h_buckets :: "u64 list"
  h_merge_evo :: int

record hglobal =
  starting_point :: u64
  checkpoint_ns :: u64
  per_bench :: "iabenchmark \<Rightarrow> iahistogram"
  doers_active :: int
  doers_merged :: int
  merge_evo :: int

text \<open>One row of the periodic report (\<open>None\<close>: the dashes of a benchmark with nothing new).\<close>

record hrow =
  row_n :: u64
  row_vol :: u64
  row_min :: u64
  row_avg :: u64
  row_mean_square :: u64
  row_max :: u64
  row_total :: u64

record hreport =
  rep_header :: bool
  rep_time :: u64
  rep_wall :: u64
  rep_rows :: "(iabenchmark \<times> hrow option) list"

definition zero_stat :: iastat where
  "zero_stat = \<lparr>latency_sum_ns = 0, latency_sum_square = 0, stat_n = 0, volume_sum = 0\<rparr>"

definition zero_histogram :: iahistogram where
  "zero_histogram = \<lparr>h_checkpoint_ns = 0, h_begin_ns = 0, h_end_ns = 0, h_bench = IA_SET,
     h_enabled = False, h_whole_min = 0, h_whole_max = 0, h_last = zero_stat, h_min = 0, h_max = 0,
     h_acc = zero_stat, h_buckets = replicate ST_HISTOGRAM_COUNT 0, h_merge_evo = 0\<rparr>"

section \<open>Operations\<close>

definition ia_global_init :: "u64 \<Rightarrow> hglobal" where
  "ia_global_init clock = \<lparr>starting_point = clock, checkpoint_ns = clock,
     per_bench = (\<lambda>_. zero_histogram), doers_active = 0, doers_merged = 0, merge_evo = 0\<rparr>"

definition ia_histogram_reset :: "u64 \<Rightarrow> iabenchmark \<Rightarrow> iahistogram \<Rightarrow> iahistogram" where
  "ia_histogram_reset clock bench h = zero_histogram\<lparr>h_min := NOT 0, h_whole_min := NOT 0,
     h_checkpoint_ns := clock, h_bench := bench, h_enabled := True, h_merge_evo := h_merge_evo h\<rparr>"

definition ia_histogram_init :: "hglobal \<Rightarrow> iahistogram \<times> hglobal" where
  "ia_histogram_init g =
     (zero_histogram\<lparr>h_merge_evo := merge_evo g\<rparr>, g\<lparr>doers_active := doers_active g + 1\<rparr>)"

definition ia_histogram_destroy :: "iahistogram \<Rightarrow> hglobal \<Rightarrow> iahistogram \<times> hglobal" where
  "ia_histogram_destroy h g =
     (if h_enabled h then
        (h\<lparr>h_enabled := False\<rparr>,
         if h_merge_evo h = merge_evo g + 1
         then g\<lparr>doers_merged := doers_merged g - 1, doers_active := doers_active g - 1\<rparr>
         else g\<lparr>doers_active := doers_active g - 1\<rparr>)
      else (h, g))"

definition ia_histogram_enable :: "u64 \<Rightarrow> iabenchmark \<Rightarrow> hglobal \<Rightarrow> hglobal" where
  "ia_histogram_enable clock bench g =
     (if h_enabled (per_bench g bench) then g
      else g\<lparr>per_bench := (per_bench g)(bench := ia_histogram_reset clock bench (per_bench g bench))\<rparr>)"

text \<open>Arithmetic on all counters of a statistic, as the C code writes it field by field.\<close>

definition stat_plus :: "iastat \<Rightarrow> iastat \<Rightarrow> iastat" where
  "stat_plus a b = \<lparr>latency_sum_ns = latency_sum_ns a + latency_sum_ns b,
     latency_sum_square = latency_sum_square a + latency_sum_square b,
     stat_n = stat_n a + stat_n b, volume_sum = volume_sum a + volume_sum b\<rparr>"

definition stat_minus :: "iastat \<Rightarrow> iastat \<Rightarrow> iastat" where
  "stat_minus a b = \<lparr>latency_sum_ns = latency_sum_ns a - latency_sum_ns b,
     latency_sum_square = latency_sum_square a - latency_sum_square b,
     stat_n = stat_n a - stat_n b, volume_sum = volume_sum a - volume_sum b\<rparr>"

text \<open>The body of the report loop: the row of one benchmark, and its histogram afterwards.\<close>

definition checkpoint_row :: "iahistogram \<Rightarrow> hrow option" where
  "checkpoint_row h =
     (let d = stat_minus (h_acc h) (h_last h); n = stat_n d
      in if n = 0 then None
         else Some \<lparr>row_n = n, row_vol = volume_sum d, row_min = h_min h,
                    row_avg = latency_sum_ns d div n, row_mean_square = latency_sum_square d div n,
                    row_max = h_max h, row_total = stat_n (h_acc h)\<rparr>)"

definition checkpoint_roll :: "iahistogram \<Rightarrow> iahistogram" where
  "checkpoint_roll h = h\<lparr>h_whole_min := (if h_min h < h_whole_min h then h_min h else h_whole_min h),
     h_min := NOT 0,
     h_whole_max := (if h_whole_max h < h_max h then h_max h else h_whole_max h),
     h_max := 0,
     h_last := h_acc h\<rparr>"

definition enabled_benchmarks :: "hglobal \<Rightarrow> iabenchmark list" where
  "enabled_benchmarks g = filter (\<lambda>b. h_enabled (per_bench g b)) benchmarks"

definition checkpoint_print :: "u64 \<Rightarrow> hglobal \<Rightarrow> hglobal \<times> hreport" where
  "checkpoint_print now g =
     (g\<lparr>checkpoint_ns := now,
        per_bench := (\<lambda>b. if b \<in> set (enabled_benchmarks g) then checkpoint_roll (per_bench g b)
                          else per_bench g b),
        doers_merged := 0, merge_evo := merge_evo g + 1\<rparr>,
      \<lparr>rep_header = (checkpoint_ns g = starting_point g), rep_time = now - starting_point g,
       rep_wall = now - checkpoint_ns g,
       rep_rows = map (\<lambda>b. (b, checkpoint_row (per_bench g b))) (enabled_benchmarks g)\<rparr>)"

definition ia_histogram_checkpoint ::
  "u64 \<Rightarrow> u64 \<Rightarrow> hglobal \<Rightarrow> (int \<times> hglobal \<times> hreport option) option" where
  "ia_histogram_checkpoint clock now g =
     (if now \<noteq> 0 \<and> now - checkpoint_ns g < INTERVAL_STAT then Some (-1, g, None)
      else
        (let g' = (if now \<noteq> 0 then g\<lparr>doers_merged := doers_merged g + 1\<rparr> else g)
         in if now \<noteq> 0 \<and> doers_active g' > doers_merged g' then Some (0, g', None)
            else if doers_active g' \<noteq> doers_merged g' then None
            else (let (g'', r) = checkpoint_print (if now = 0 then clock else now) g'
                  in Some (1, g'', Some r))))"

definition merge_histogram :: "iahistogram \<Rightarrow> iahistogram \<Rightarrow> iahistogram" where
  "merge_histogram dst src = dst\<lparr>
     h_acc := stat_plus (h_acc dst) (stat_minus (h_acc src) (h_last src)),
     h_buckets := map2 (+) (h_buckets dst) (h_buckets src),
     h_begin_ns := (if h_begin_ns dst = 0 \<or> h_begin_ns src < h_begin_ns dst
                    then h_begin_ns src else h_begin_ns dst),
     h_end_ns := (if h_end_ns dst < h_end_ns src then h_end_ns src else h_end_ns dst),
     h_min := (if h_min src < h_min dst then h_min src else h_min dst),
     h_max := (if h_max dst < h_max src then h_max src else h_max dst)\<rparr>"

definition ia_histogram_merge_locked ::
  "u64 \<Rightarrow> iahistogram \<Rightarrow> u64 \<Rightarrow> hglobal \<Rightarrow> (iahistogram \<times> hglobal \<times> hreport option) option" where
  "ia_histogram_merge_locked clock src now g =
     (let dst = per_bench g (h_bench src)
      in if h_enabled dst \<and> stat_n (h_acc src) \<noteq> stat_n (h_last src) then
           (let g' = g\<lparr>per_bench := (per_bench g)(h_bench src := merge_histogram dst src)\<rparr>
            in if h_merge_evo src = merge_evo g' then
                 map_option (\<lambda>(rc, g'', r). (if 0 \<le> rc then src\<lparr>h_merge_evo := h_merge_evo src + 1\<rparr> else src, g'', r))
                   (ia_histogram_checkpoint clock now g')
               else Some (src, g', None))
         else Some (src, g, None))"

definition ia_histogram_merge ::
  "u64 \<Rightarrow> iahistogram \<Rightarrow> hglobal \<Rightarrow> (iahistogram \<times> hglobal \<times> hreport option) option" where
  "ia_histogram_merge clock src g =
     (if stat_n (h_acc src) - stat_n (h_last src) \<noteq> 0
      then ia_histogram_merge_locked clock src clock g
      else Some (src, g, None))"

text \<open>The search for the bucket: halving down to a neighbourhood, then a scan from its end.\<close>

fun bucket_scan :: "u64 \<Rightarrow> nat \<Rightarrow> nat \<Rightarrow> nat" where
  "bucket_scan latency begin mid =
     (if begin < mid \<and> \<not> ia_histogram_buckets ! (mid - 1) < latency
      then bucket_scan latency begin (mid - 1) else mid)"

declare bucket_scan.simps [simp del]

partial_function (option) bucket_search :: "u64 \<Rightarrow> nat \<Rightarrow> nat \<Rightarrow> nat option" where
  "bucket_search latency begin end' =
     (let mid = begin div 2 + end' div 2
      in if mid = begin then Some (bucket_scan latency begin end')
         else if ia_histogram_buckets ! (mid - 1) < latency then bucket_search latency mid end'
         else bucket_search latency begin mid)"

declare bucket_search.simps [code]

definition record_latency :: "u64 \<Rightarrow> u64 \<Rightarrow> u64 \<Rightarrow> iahistogram \<Rightarrow> iahistogram" where
  "record_latency t0 now volume h =
     (let latency = now - t0; a = h_acc h
      in h\<lparr>h_begin_ns := (if h_begin_ns h = 0 then t0 else h_begin_ns h), h_end_ns := now,
           h_acc := \<lparr>latency_sum_ns = latency_sum_ns a + latency,
                     latency_sum_square = latency_sum_square a + latency * latency,
                     stat_n = stat_n a + 1, volume_sum = volume_sum a + volume\<rparr>,
           h_min := (if latency < h_min h then latency else h_min h),
           h_max := (if h_max h < latency then latency else h_max h)\<rparr>)"

definition ia_histogram_add ::
  "u64 \<Rightarrow> bool \<Rightarrow> iahistogram \<Rightarrow> u64 \<Rightarrow> u64 \<Rightarrow> hglobal \<Rightarrow> (iahistogram \<times> hglobal \<times> hreport option) option" where
  "ia_histogram_add now trylock h t0 volume g =
     (case bucket_search (now - t0) 0 (ST_HISTOGRAM_COUNT - 1) of
        None \<Rightarrow> None
      | Some mid \<Rightarrow>
          (let h1 = record_latency t0 now volume h;
               h2 = h1\<lparr>h_buckets := (h_buckets h1)[mid := h_buckets h1 ! mid + 1]\<rparr>
           in if INTERVAL_MERGE \<le> now - h_checkpoint_ns h2 \<and> h_merge_evo h2 = merge_evo g \<and> trylock
              then map_option (\<lambda>(h3, g', r).
                     (h3\<lparr>h_checkpoint_ns := now, h_min := NOT 0, h_max := 0, h_last := h_acc h3,
                         h_buckets := replicate ST_HISTOGRAM_COUNT 0\<rparr>, g', r))
                     (ia_histogram_merge_locked now h2 now g)
              else Some (h2, g, None)))"

section \<open>The final table\<close>

text \<open>
  A line of the table: the two bounds as printed, the number of operations and the running total.
\<close>

record hline =
  line_from :: u64
  line_to :: u64
  line_count :: u64
  line_total :: u64

fun print_lines :: "nat \<Rightarrow> u64 \<Rightarrow> u64 list \<Rightarrow> hline list \<times> u64" where
  "print_lines i n [] = ([], n)"
| "print_lines i n (c # cs) =
     (if c = 0 then print_lines (Suc i) n cs
      else (let n' = n + c;
                l = \<lparr>line_from = (if 0 < i then ia_histogram_buckets ! (i - 1) else 0),
                     line_to = ia_histogram_buckets ! i - 1, line_count = c, line_total = n'\<rparr>;
                (ls, t) = print_lines (Suc i) n' cs
            in (l # ls, t)))"

record hsummary =
  sum_ops :: u64
  sum_lines :: "hline list"
  sum_total_ns :: u64
  sum_count :: u64
  sum_min :: u64
  sum_avg :: u64
  sum_mean_square :: u64
  sum_max :: u64
  sum_wall :: u64

definition print_summary :: "iahistogram \<Rightarrow> hsummary" where
  "print_summary h =
     (let (ls, n) = print_lines 0 0 (h_buckets h); a = h_acc h
      in \<lparr>sum_ops = stat_n a, sum_lines = ls, sum_total_ns = latency_sum_ns a, sum_count = n,
          sum_min = h_whole_min h, sum_avg = latency_sum_ns a div stat_n a,
          sum_mean_square = latency_sum_square a div stat_n a, sum_max = h_whole_max h,
          sum_wall = h_end_ns h - h_begin_ns h\<rparr>)"

definition ia_histogram_print :: "hglobal \<Rightarrow> (iabenchmark \<times> hsummary) list" where
  "ia_histogram_print g =
     map (\<lambda>b. (b, print_summary (per_bench g b)))
       (filter (\<lambda>b. h_enabled (per_bench g b) \<and> stat_n (h_acc (per_bench g b)) \<noteq> 0) benchmarks)"

section \<open>The bucket search\<close>

lemma length_buckets [simp]: "length ia_histogram_buckets = ST_HISTOGRAM_COUNT"
  by (simp add: ia_histogram_buckets_def LINE_12_100_def ST_HISTOGRAM_COUNT_def)

lemma last_bucket: "ia_histogram_buckets ! 166 = - 1"
  by (simp add: ia_histogram_buckets_def LINE_12_100_def)

definition bucket_ok :: "u64 \<Rightarrow> nat \<Rightarrow> bool" where
  "bucket_ok latency i \<longleftrightarrow> i < ST_HISTOGRAM_COUNT \<and>
     (i = 0 \<or> ia_histogram_buckets ! (i - 1) < latency) \<and> latency \<le> ia_histogram_buckets ! i"

lemma bucket_scan_step:
  "bucket_scan latency b m =
    (if b < m \<and> \<not> ia_histogram_buckets ! (m - 1) < latency then bucket_scan latency b (m - 1) else m)"
  by (rule bucket_scan.simps)

lemma bucket_scan_ok:
  assumes "b = 0 \<or> ia_histogram_buckets ! (b - 1) < latency"
    and "b \<le> m" and "m < ST_HISTOGRAM_COUNT"
    and "latency \<le> ia_histogram_buckets ! m \<or> b < m \<and> latency \<le> ia_histogram_buckets ! (m - 1)"
  shows "bucket_ok latency (bucket_scan latency b m)"
  using assms
proof (induction latency b m rule: bucket_scan.induct)
  case (1 latency b m)
  show ?case
  proof (cases "b < m \<and> \<not> ia_histogram_buckets ! (m - 1) < latency")
    case True
    then have "bucket_ok latency (bucket_scan latency b (m - 1))"
      using 1 by (auto simp: not_less)
    then show ?thesis using True bucket_scan_step [of latency b m] by presburger
  next
    case False
    then have "bucket_scan latency b m = m"
      using bucket_scan_step [of latency b m] by presburger
    then show ?thesis using False "1.prems" by (auto simp: bucket_ok_def)
  qed
qed

lemma bucket_search_ok:
  assumes "b = 0 \<or> ia_histogram_buckets ! (b - 1) < latency"
    and "b < e" and "e < ST_HISTOGRAM_COUNT"
    and "latency \<le> ia_histogram_buckets ! e \<or> latency \<le> ia_histogram_buckets ! (e - 1)"
  shows "\<exists>i. bucket_search latency b e = Some i \<and> bucket_ok latency i"
  using assms
proof (induction "e - b" arbitrary: b e rule: less_induct)
  case less
  let ?m = "b div 2 + e div 2"
  consider "?m = b" | "?m \<noteq> b" "ia_histogram_buckets ! (?m - 1) < latency"
    | "?m \<noteq> b" "\<not> ia_histogram_buckets ! (?m - 1) < latency" by blast
  then show ?case
  proof cases
    case 1
    then have "bucket_search latency b e = Some (bucket_scan latency b e)"
      by (subst bucket_search.simps) simp
    then show ?thesis using bucket_scan_ok less.prems by auto
  next
    case 2
    then have "bucket_search latency b e = bucket_search latency ?m e"
      by (subst bucket_search.simps) (simp add: Let_def)
    moreover have "b < ?m" "?m < e" using 2 less.prems(2) by linarith+
    ultimately show ?thesis using less.hyps [of e ?m] less.prems 2 by auto
  next
    case 3
    then have "bucket_search latency b e = bucket_search latency b ?m"
      by (subst bucket_search.simps) (simp add: Let_def)
    moreover have "b < ?m" "?m < e" using 3 less.prems(2) by linarith+
    ultimately show ?thesis using less.hyps [of ?m b] less.prems 3 by (auto simp: not_less)
  qed
qed

lemma bucket_search_whole:
  "\<exists>i. bucket_search latency 0 (ST_HISTOGRAM_COUNT - 1) = Some i \<and> bucket_ok latency i"
  by (rule bucket_search_ok) (simp_all add: ST_HISTOGRAM_COUNT_def last_bucket)

lemma buckets_increasing: "sorted_wrt (<) ia_histogram_buckets"
proof -
  have "\<forall>i \<in> set [0..<166]. ia_histogram_buckets ! i < ia_histogram_buckets ! Suc i"
    by code_simp
  then have "i < 166 \<Longrightarrow> ia_histogram_buckets ! i < ia_histogram_buckets ! Suc i" for i
    by simp
  then show ?thesis
    by (simp add: sorted_wrt_iff_nth_Suc_transp ST_HISTOGRAM_COUNT_def)
qed

section \<open>Properties\<close>

text \<open>
  C13: for every latency the bucket search returns, and returns the number of the one bucket whose
  range, open below and closed above, holds the latency; the bounds of the table are strictly
  increasing, so no other bucket does.
\<close>

theorem bucket_search_correct:
  "\<exists>i. bucket_search latency 0 (ST_HISTOGRAM_COUNT - 1) = Some i \<and> i < ST_HISTOGRAM_COUNT \<and>
    latency \<le> ia_histogram_buckets ! i \<and>
    i = length (filter (\<lambda>b. b < latency) ia_histogram_buckets)"
proof -
  obtain i where s: "bucket_search latency 0 (ST_HISTOGRAM_COUNT - 1) = Some i" and ok: "bucket_ok latency i"
    using bucket_search_whole by blast
  have len: "i < length ia_histogram_buckets" and le: "latency \<le> ia_histogram_buckets ! i"
    using ok by (auto simp: bucket_ok_def)
  have mono: "ia_histogram_buckets ! j < ia_histogram_buckets ! k" if "j < k" "k < length ia_histogram_buckets" for j k
    using buckets_increasing that by (simp add: sorted_wrt_nth_less)
  have "ia_histogram_buckets ! j < latency \<longleftrightarrow> j < i" if j: "j < length ia_histogram_buckets" for j
  proof
    assume lt: "ia_histogram_buckets ! j < latency"
    show "j < i"
    proof (rule ccontr)
      assume "\<not> j < i"
      then have "ia_histogram_buckets ! i \<le> ia_histogram_buckets ! j"
        using mono [of i j] j by (cases "i = j") (auto intro: less_imp_le)
      then show False using lt le by (metis leD order.trans)
    qed
  next
    assume "j < i"
    then have "0 < i" and "j \<le> i - 1" by auto
    then have "ia_histogram_buckets ! j \<le> ia_histogram_buckets ! (i - 1)"
      using mono [of j "i - 1"] len by (cases "j = i - 1") (auto intro: less_imp_le)
    then show "ia_histogram_buckets ! j < latency" using ok \<open>0 < i\<close> by (auto simp: bucket_ok_def)
  qed
  then have "{j. j < length ia_histogram_buckets \<and> ia_histogram_buckets ! j < latency} = {..<i}"
    using len by auto
  then have "length (filter (\<lambda>b. b < latency) ia_histogram_buckets) = i"
    by (simp only: length_filter_conv_card card_lessThan)
  then show ?thesis using s len le by simp
qed

end
