(* ===== verification/HistogramSpec.thy ===== *)
theory HistogramSpec
  imports Histogram
begin

text \<open>
  What \<open>src/ia_histogram.c\<close> promises: a specification that keeps the measured operations
  themselves, per benchmark and per doer, and nothing else; the step relation of the histograms
  under any interleaving of the doers; and the simulation that shows every step to be a step of the
  specification with the same report rows.
\<close>

section \<open>Specification: what was measured\<close>

text \<open>A sample is a latency and a volume.  The summaries a histogram keeps, as functions of the samples.\<close>

type_synonym sample = "u64 \<times> u64"

definition stat_of :: "sample list \<Rightarrow> iastat" where
  "stat_of ss = \<lparr>latency_sum_ns = sum_list (map fst ss),
     latency_sum_square = sum_list (map (\<lambda>s. fst s * fst s) ss),
     stat_n = of_nat (length ss), volume_sum = sum_list (map snd ss)\<rparr>"

definition bucket_of :: "u64 \<Rightarrow> nat" where
  "bucket_of latency = the (bucket_search latency 0 (ST_HISTOGRAM_COUNT - 1))"

definition counts_of :: "sample list \<Rightarrow> u64 list" where
  "counts_of ss = map (\<lambda>i. of_nat (length (filter (\<lambda>s. bucket_of (fst s) = i) ss))) [0..<ST_HISTOGRAM_COUNT]"

definition min_of :: "sample list \<Rightarrow> u64" where
  "min_of ss = foldr (\<lambda>s. min (fst s)) ss (- 1)"

definition max_of :: "sample list \<Rightarrow> u64" where
  "max_of ss = foldr (\<lambda>s. max (fst s)) ss 0"

lemma bucket_search_of: "bucket_search latency 0 (ST_HISTOGRAM_COUNT - 1) = Some (bucket_of latency)"
  using bucket_search_whole [of latency] by (auto simp: bucket_of_def)

lemma bucket_of_less: "bucket_of latency < ST_HISTOGRAM_COUNT"
  using bucket_search_whole [of latency] by (auto simp: bucket_of_def bucket_ok_def)

lemma stat_of_Nil [simp]: "stat_of [] = zero_stat"
  by (simp add: stat_of_def zero_stat_def)

lemma stat_of_append: "stat_of (xs @ ys) = stat_plus (stat_of xs) (stat_of ys)"
  by (simp add: stat_of_def stat_plus_def)

lemma stat_n_of [simp]: "stat_n (stat_of ss) = of_nat (length ss)"
  by (simp add: stat_of_def)

lemma stat_plus_minus [simp]: "stat_minus (stat_plus a b) a = b"
  "stat_plus zero_stat a = a" "stat_plus a zero_stat = a" "stat_minus a a = zero_stat"
  by (simp_all add: stat_plus_def stat_minus_def zero_stat_def)

lemma stat_plus_assoc: "stat_plus (stat_plus a b) c = stat_plus a (stat_plus b c)"
  by (simp add: stat_plus_def add.assoc)

lemma counts_of_Nil [simp]: "counts_of [] = replicate ST_HISTOGRAM_COUNT 0"
  by (simp add: counts_of_def map_replicate_const)

lemma length_counts_of [simp]: "length (counts_of ss) = ST_HISTOGRAM_COUNT"
  by (simp add: counts_of_def)

lemma counts_of_append: "counts_of (xs @ ys) = map2 (+) (counts_of xs) (counts_of ys)"
  by (rule nth_equalityI) (auto simp: counts_of_def)

lemma counts_of_snoc:
  "counts_of (ss @ [s]) = (counts_of ss)[bucket_of (fst s) := counts_of ss ! bucket_of (fst s) + 1]"
  by (rule nth_equalityI) (auto simp: counts_of_def nth_list_update bucket_of_less)

lemma min_of_Nil [simp]: "min_of [] = - 1" and max_of_Nil [simp]: "max_of [] = 0"
  by (simp_all add: min_of_def max_of_def)

lemma min_of_append: "min_of (xs @ ys) = min (min_of xs) (min_of ys)"
  by (induction xs) (simp_all add: min_of_def min.assoc)

lemma max_of_append: "max_of (xs @ ys) = max (max_of xs) (max_of ys)"
  by (induction xs) (simp_all add: max_of_def max.assoc)

lemmas summary_append = stat_of_append counts_of_append min_of_append max_of_append

section \<open>Specification: the benchmark's book-keeping\<close>

datatype phase = Fresh | Running | Flushed | Gone

datatype hevent =
    Enable iabenchmark
  | Start
  | Reset nat iabenchmark
  | Add nat sample
  | Merge nat
  | Destroy nat
  | Final

text \<open>
  The samples of each benchmark: all of them, those already reported and those merged since; and for
  each doer its phase, its benchmark and the samples it has not merged yet.
\<close>

record hspec =
  sp_log :: "iabenchmark \<Rightarrow> sample list"
  sp_reported :: "iabenchmark \<Rightarrow> sample list"
  sp_fresh :: "iabenchmark \<Rightarrow> sample list"
  sp_on :: "iabenchmark \<Rightarrow> bool"
  sp_doers :: "(phase \<times> iabenchmark \<times> sample list) list"

definition spec_row :: "sample list \<Rightarrow> sample list \<Rightarrow> hrow option" where
  "spec_row reported fresh =
     (let s = stat_of fresh; n = stat_n s
      in if n = 0 then None
         else Some \<lparr>row_n = n, row_vol = volume_sum s, row_min = min_of fresh,
                    row_avg = latency_sum_ns s div n, row_mean_square = latency_sum_square s div n,
                    row_max = max_of fresh, row_total = of_nat (length (reported @ fresh))\<rparr>)"

definition spec_rows :: "hspec \<Rightarrow> (iabenchmark \<times> hrow option) list" where
  "spec_rows a = map (\<lambda>b. (b, spec_row (sp_reported a b) (sp_fresh a b))) (filter (sp_on a) benchmarks)"

definition spec_report :: "hspec \<Rightarrow> hspec" where
  "spec_report a = a\<lparr>sp_reported := (\<lambda>b. sp_reported a b @ sp_fresh a b), sp_fresh := (\<lambda>_. [])\<rparr>"

definition spec_add :: "nat \<Rightarrow> iabenchmark \<Rightarrow> sample list \<Rightarrow> sample \<Rightarrow> hspec \<Rightarrow> hspec" where
  "spec_add i b p s a = a\<lparr>sp_log := (sp_log a)(b := sp_log a b @ [s]),
     sp_doers := (sp_doers a)[i := (Running, b, p @ [s])]\<rparr>"

definition spec_flush :: "nat \<Rightarrow> phase \<Rightarrow> iabenchmark \<Rightarrow> sample list \<Rightarrow> hspec \<Rightarrow> hspec" where
  "spec_flush i ph b p a = a\<lparr>sp_fresh := (sp_fresh a)(b := sp_fresh a b @ p),
     sp_doers := (sp_doers a)[i := (ph, b, [])]\<rparr>"

definition doer_at :: "'a list \<Rightarrow> nat \<Rightarrow> 'a \<Rightarrow> bool" where
  "doer_at ds i d \<longleftrightarrow> i < length ds \<and> ds ! i = d"

inductive spec_step ::
  "hspec \<Rightarrow> hevent \<Rightarrow> (iabenchmark \<times> hrow option) list option \<Rightarrow> hspec \<Rightarrow> bool" where
  enable: "b < IA_MAX \<Longrightarrow> spec_step a (Enable b) None (a\<lparr>sp_on := (sp_on a)(b := True)\<rparr>)"
| start: "spec_step a Start None (a\<lparr>sp_doers := sp_doers a @ [(Fresh, IA_SET, [])]\<rparr>)"
| reset: "doer_at (sp_doers a) i (ph, b0, []) \<Longrightarrow> ph \<in> {Fresh, Flushed} \<Longrightarrow> sp_on a b \<Longrightarrow>
    spec_step a (Reset i b) None (a\<lparr>sp_doers := (sp_doers a)[i := (Running, b, [])]\<rparr>)"
| add_keep: "doer_at (sp_doers a) i (Running, b, p) \<Longrightarrow> spec_step a (Add i s) None (spec_add i b p s a)"
| add_flush: "doer_at (sp_doers a) i (Running, b, p) \<Longrightarrow>
    spec_step a (Add i s) None (spec_flush i Running b (p @ [s]) (spec_add i b p s a))"
| add_report: "doer_at (sp_doers a) i (Running, b, p) \<Longrightarrow>
    a' = spec_flush i Running b (p @ [s]) (spec_add i b p s a) \<Longrightarrow>
    spec_step a (Add i s) (Some (spec_rows a')) (spec_report a')"
| merge: "doer_at (sp_doers a) i (Running, b, p) \<Longrightarrow>
    spec_step a (Merge i) None (spec_flush i Flushed b p a)"
| merge_report: "doer_at (sp_doers a) i (Running, b, p) \<Longrightarrow> a' = spec_flush i Flushed b p a \<Longrightarrow>
    spec_step a (Merge i) (Some (spec_rows a')) (spec_report a')"
| destroy: "doer_at (sp_doers a) i (Flushed, b, []) \<Longrightarrow>
    spec_step a (Destroy i) None (a\<lparr>sp_doers := (sp_doers a)[i := (Gone, b, [])]\<rparr>)"
| final: "spec_step a Final (Some (spec_rows a)) (spec_report a)"

section \<open>The histograms of a run\<close>

text \<open>
  A run interleaves the operations of the doers; each is one step (they hold the mutex wherever two
  of them touch the same data).  The protocol is the one \<open>ia_run_benchmark\<close> and \<open>ia_doer_thread\<close>
  follow: reset, any number of measurements, a final merge, then the next benchmark or the end.
  The guard of \<open>add\<close> on the counters says that a doer never has \<open>2^64\<close> unmerged samples.
\<close>

record hworld =
  w_global :: hglobal
  w_doers :: "(phase \<times> iahistogram) list"

inductive hstep :: "hworld \<Rightarrow> hevent \<Rightarrow> hreport option \<Rightarrow> hworld \<Rightarrow> bool" where
  enable: "b < IA_MAX \<Longrightarrow>
    hstep w (Enable b) None (w\<lparr>w_global := ia_histogram_enable clock b (w_global w)\<rparr>)"
| start: "ia_histogram_init (w_global w) = (h, g) \<Longrightarrow>
    hstep w Start None \<lparr>w_global = g, w_doers = w_doers w @ [(Fresh, h)]\<rparr>"
| reset: "doer_at (w_doers w) i (ph, h) \<Longrightarrow> ph \<in> {Fresh, Flushed} \<Longrightarrow> h_enabled (per_bench (w_global w) b) \<Longrightarrow>
    hstep w (Reset i b) None (w\<lparr>w_doers := (w_doers w)[i := (Running, ia_histogram_reset clock b h)]\<rparr>)"
| add: "doer_at (w_doers w) i (Running, h) \<Longrightarrow> now \<noteq> 0 \<Longrightarrow>
    stat_n (h_acc h) - stat_n (h_last h) \<noteq> - 1 \<Longrightarrow>
    ia_histogram_add now trylock h t0 volume (w_global w) = Some (h', g, r) \<Longrightarrow>
    hstep w (Add i (now - t0, volume)) r \<lparr>w_global = g, w_doers = (w_doers w)[i := (Running, h')]\<rparr>"
| merge: "doer_at (w_doers w) i (Running, h) \<Longrightarrow> clock \<noteq> 0 \<Longrightarrow>
    ia_histogram_merge clock h (w_global w) = Some (h', g, r) \<Longrightarrow>
    hstep w (Merge i) r \<lparr>w_global = g, w_doers = (w_doers w)[i := (Flushed, h')]\<rparr>"
| destroy: "doer_at (w_doers w) i (Flushed, h) \<Longrightarrow> ia_histogram_destroy h (w_global w) = (h', g) \<Longrightarrow>
    hstep w (Destroy i) None \<lparr>w_global = g, w_doers = (w_doers w)[i := (Gone, h')]\<rparr>"
| final: "ia_histogram_checkpoint clock 0 (w_global w) = Some (rc, g, r) \<Longrightarrow>
    hstep w Final r (w\<lparr>w_global := g\<rparr>)"

inductive_cases hstep_cases: "hstep w e r w'"

section \<open>The rounds of the periodic report\<close>

text \<open>
  \<open>merge_evo\<close> numbers the rounds: a doer that has merged in the current round is one ahead of the
  global number, \<open>doers_merged\<close> counts those, \<open>doers_active\<close> counts all.
\<close>

definition round_ok :: "hglobal \<Rightarrow> int multiset \<Rightarrow> bool" where
  "round_ok g M \<longleftrightarrow> set_mset M \<subseteq> {merge_evo g, merge_evo g + 1} \<and>
     doers_active g = int (size M) \<and> doers_merged g = int (count M (merge_evo g + 1))"

definition live_evos :: "(phase \<times> iahistogram) list \<Rightarrow> int multiset" where
  "live_evos ds = image_mset (\<lambda>d. h_merge_evo (snd d)) (filter_mset (\<lambda>d. fst d \<noteq> Gone) (mset ds))"

lemma count_eq_size:
  assumes "size M \<le> count M x"
  shows "set_mset M \<subseteq> {x}"
proof -
  have "size M = size (filter_mset ((=) x) M) + size (filter_mset (\<lambda>y. x \<noteq> y) M)"
    by (metis multiset_partition size_union)
  moreover have "size (filter_mset ((=) x) M) = count M x"
    by (induction M) auto
  ultimately have "filter_mset (\<lambda>y. x \<noteq> y) M = {#}" using assms by simp
  then have "set_mset (filter_mset (\<lambda>y. x \<noteq> y) M) = {}" by (simp only: set_mset_empty)
  then show ?thesis by auto
qed

lemma live_evos_update:
  assumes "doer_at ds i (ph, h)"
  obtains M where "live_evos ds = (if ph = Gone then M else add_mset (h_merge_evo h) M)"
    and "\<And>ph' h'. live_evos (ds[i := (ph', h')]) = (if ph' = Gone then M else add_mset (h_merge_evo h') M)"
proof -
  have "(ph, h) \<in># mset ds" using assms by (auto simp: doer_at_def dest: nth_mem)
  then obtain N where N: "mset ds = add_mset (ph, h) N" by (metis insert_DiffM)
  have upd: "mset (ds[i := d]) = add_mset d N" for d
    using assms N by (simp add: doer_at_def mset_update)
  show ?thesis
    by (rule that [of "image_mset (\<lambda>d. h_merge_evo (snd d)) (filter_mset (\<lambda>d. fst d \<noteq> Gone) N)"])
      (simp_all add: live_evos_def N upd)
qed

lemma checkpoint_round:
  assumes ok: "round_ok g (add_mset evo M)" and evo: "evo = merge_evo g" and "now \<noteq> 0"
  obtains rc g' r where "ia_histogram_checkpoint clock now g = Some (rc, g', r)"
    and "round_ok g' (add_mset (if 0 \<le> rc then evo + 1 else evo) M)"
    and "r = None \<and> per_bench g' = per_bench g \<or>
      (\<exists>g1 rep. per_bench g1 = per_bench g \<and> checkpoint_print now g1 = (g', rep) \<and> r = Some rep)"
proof -
  let ?g1 = "g\<lparr>doers_merged := doers_merged g + 1\<rparr>"
  have act: "doers_active g = int (size M) + 1" and mer: "doers_merged g = int (count M (merge_evo g + 1))"
    and sub: "set_mset M \<subseteq> {merge_evo g, merge_evo g + 1}"
    using ok by (simp_all add: round_ok_def evo)
  consider "now - checkpoint_ns g < INTERVAL_STAT"
    | "\<not> now - checkpoint_ns g < INTERVAL_STAT" "doers_active g > doers_merged g + 1"
    | "\<not> now - checkpoint_ns g < INTERVAL_STAT" "\<not> doers_active g > doers_merged g + 1"
    by blast
  then show ?thesis
  proof cases
    case 1
    then show ?thesis
      using assms by (intro that [of "-1" g None]) (auto simp: ia_histogram_checkpoint_def)
  next
    case 2
    have "round_ok ?g1 (add_mset (merge_evo g + 1) M)"
      using act mer sub by (simp add: round_ok_def)
    then show ?thesis
      using 2 \<open>now \<noteq> 0\<close> by (intro that [of 0 ?g1 None]) (auto simp: ia_histogram_checkpoint_def evo)
  next
    case 3
    then have "size M \<le> count M (merge_evo g + 1)" using act mer by simp
    then have all: "set_mset M \<subseteq> {merge_evo g + 1}" by (rule count_eq_size)
    have eq: "doers_active g = doers_merged g + 1"
      using 3(2) act mer count_le_size [of M "merge_evo g + 1"] by simp
    obtain g' rep where p: "checkpoint_print now ?g1 = (g', rep)" by (meson surj_pair)
    have "count M (2 + merge_evo g) = 0"
      using all by (auto simp: count_eq_zero_iff)
    then have "round_ok g' (add_mset (merge_evo g + 1) M)"
      using p all act by (auto simp: round_ok_def checkpoint_print_def)
    moreover have "ia_histogram_checkpoint clock now g = Some (1, g', Some rep)"
      using 3(1) eq p \<open>now \<noteq> 0\<close> by (simp add: ia_histogram_checkpoint_def)
    ultimately show ?thesis
      using p by (intro that [of 1 g' "Some rep"] disjI2 exI [of _ ?g1] exI [of _ rep]) (simp_all add: evo)
  qed
qed

section \<open>The histograms implement the specification\<close>

definition bench_rel :: "iahistogram \<Rightarrow> bool \<Rightarrow> sample list \<Rightarrow> sample list \<Rightarrow> bool" where
  "bench_rel h on reported fresh \<longleftrightarrow> h_enabled h = on \<and>
     (if on then h_last h = stat_of reported \<and> h_acc h = stat_of (reported @ fresh) \<and>
        h_buckets h = counts_of (reported @ fresh) \<and>
        h_min h = min_of fresh \<and> h_max h = max_of fresh \<and>
        h_whole_min h = min_of reported \<and> h_whole_max h = max_of reported
      else reported = [] \<and> fresh = [])"

definition benches_rel :: "hglobal \<Rightarrow> hspec \<Rightarrow> bool" where
  "benches_rel g a \<longleftrightarrow> \<not> sp_on a IA_MAX \<and>
     (\<forall>b. bench_rel (per_bench g b) (sp_on a b) (sp_reported a b) (sp_fresh a b))"

definition pending_rel :: "iahistogram \<Rightarrow> iabenchmark \<Rightarrow> sample list \<Rightarrow> bool" where
  "pending_rel h b p \<longleftrightarrow> h_enabled h \<and> h_bench h = b \<and> length p < 2 ^ 64 \<and>
     stat_minus (h_acc h) (h_last h) = stat_of p \<and> h_buckets h = counts_of p \<and>
     h_min h = min_of p \<and> h_max h = max_of p"

definition doer_rel :: "(iabenchmark \<Rightarrow> bool) \<Rightarrow> phase \<times> iahistogram \<Rightarrow> phase \<times> iabenchmark \<times> sample list \<Rightarrow> bool" where
  "doer_rel on d a = (case d of (ph, h) \<Rightarrow> case a of (ph', b, p) \<Rightarrow>
     ph = ph' \<and> (if ph = Running then on b \<and> pending_rel h b p else p = []) \<and>
     (ph = Flushed \<longrightarrow> h_enabled h))"

definition hsim :: "hworld \<Rightarrow> hspec \<Rightarrow> bool" where
  "hsim w a \<longleftrightarrow> round_ok (w_global w) (live_evos (w_doers w)) \<and> benches_rel (w_global w) a \<and>
     list_all2 (doer_rel (sp_on a)) (w_doers w) (sp_doers a)"

lemma checkpoint_print_sim:
  assumes rel: "benches_rel g a" and p: "checkpoint_print now g = (g', rep)"
  shows "rep_rows rep = spec_rows a" and "benches_rel g' (spec_report a)"
proof -
  have on: "h_enabled (per_bench g b) = sp_on a b" for b
    using rel by (simp add: benches_rel_def bench_rel_def)
  then have en: "enabled_benchmarks g = filter (sp_on a) benchmarks"
    by (simp add: enabled_benchmarks_def)
  have mem: "b \<in> set (enabled_benchmarks g) \<longleftrightarrow> sp_on a b" for b
    using rel unfolding en benches_rel_def
    by (cases b) (auto simp: set_benchmarks less_iabenchmark_def)
  have row: "checkpoint_row (per_bench g b) = spec_row (sp_reported a b) (sp_fresh a b)" if "sp_on a b" for b
  proof -
    have "bench_rel (per_bench g b) True (sp_reported a b) (sp_fresh a b)"
      using rel that by (simp add: benches_rel_def) metis
    then show ?thesis
      by (simp add: bench_rel_def checkpoint_row_def spec_row_def stat_of_append Let_def)
        (simp add: stat_plus_def)
  qed
  show "rep_rows rep = spec_rows a"
    using p by (auto simp: checkpoint_print_def spec_rows_def en row)
  show "benches_rel g' (spec_report a)"
    unfolding benches_rel_def
  proof (intro conjI allI)
    show "\<not> sp_on (spec_report a) IA_MAX" using rel by (simp add: benches_rel_def spec_report_def)
    fix b
    have b: "bench_rel (per_bench g b) (sp_on a b) (sp_reported a b) (sp_fresh a b)"
      using rel by (simp add: benches_rel_def)
    have "per_bench g' b = (if sp_on a b then checkpoint_roll (per_bench g b) else per_bench g b)"
      using p by (auto simp: checkpoint_print_def mem)
    then show "bench_rel (per_bench g' b) (sp_on (spec_report a) b) (sp_reported (spec_report a) b) (sp_fresh (spec_report a) b)"
      using b by (auto simp: bench_rel_def spec_report_def checkpoint_roll_def min_of_append max_of_append min_def max_def)
  qed
qed

lemma merge_histogram_rel:
  assumes "bench_rel dst True reported fresh" and "pending_rel src b p"
  shows "bench_rel (merge_histogram dst src) True reported (fresh @ p)"
  using assms
  by (auto simp: bench_rel_def pending_rel_def merge_histogram_def summary_append stat_plus_assoc
      counts_of_append min_def max_def simp flip: append_assoc)

lemma of_nat_length_zero:
  "length p < 2 ^ 64 \<Longrightarrow> (of_nat (length p) :: u64) = 0 \<longleftrightarrow> p = []"
  by (auto simp: word_of_nat_eq_0_iff dest: dvd_imp_le)

lemma stat_n_minus [simp]: "stat_n (stat_minus a b) = stat_n a - stat_n b"
  by (simp add: stat_minus_def)

lemma pending_rel_n: "pending_rel h b p \<Longrightarrow> stat_n (h_acc h) - stat_n (h_last h) = of_nat (length p)"
  unfolding pending_rel_def by (metis stat_n_minus stat_n_of)

lemma merge_locked_sim:
  assumes round: "round_ok g (add_mset (h_merge_evo h) M)" and "now \<noteq> 0"
    and rel: "benches_rel g a" and pend: "pending_rel h b p" and on: "sp_on a b"
  obtains h' g' r e where "ia_histogram_merge_locked clock h now g = Some (h', g', r)"
    and "h' = h\<lparr>h_merge_evo := e\<rparr>" and "round_ok g' (add_mset e M)"
    and "r = None \<and> benches_rel g' (spec_flush i ph b p a) \<or>
      (\<exists>rep. r = Some rep \<and> rep_rows rep = spec_rows (spec_flush i ph b p a) \<and>
        benches_rel g' (spec_report (spec_flush i ph b p a)))"
proof -
  let ?dst = "per_bench g b"
  let ?g1 = "g\<lparr>per_bench := (per_bench g)(b := merge_histogram ?dst h)\<rparr>"
  let ?a = "spec_flush i ph b p a"
  have bench: "h_bench h = b" and len: "length p < 2 ^ 64"
    using pend by (simp_all add: pending_rel_def)
  have dst: "bench_rel ?dst True (sp_reported a b) (sp_fresh a b)"
    using rel on by (simp add: benches_rel_def) metis
  then have en: "h_enabled ?dst" by (simp add: bench_rel_def)
  show ?thesis
  proof (cases "p = []")
    case True
    then have "stat_n (h_acc h) = stat_n (h_last h)"
      using pending_rel_n [OF pend] by simp
    moreover have "benches_rel g ?a"
      using rel True by (simp add: benches_rel_def spec_flush_def)
    ultimately show ?thesis
      using round by (intro that [of h g None "h_merge_evo h"]) (auto simp: ia_histogram_merge_locked_def)
  next
    case False
    then have new: "stat_n (h_acc h) \<noteq> stat_n (h_last h)"
      using pending_rel_n [OF pend] of_nat_length_zero [OF len] by auto
    have rel1: "benches_rel ?g1 ?a"
      using rel on merge_histogram_rel [OF dst pend] by (auto simp: benches_rel_def spec_flush_def)
    show ?thesis
    proof (cases "h_merge_evo h = merge_evo g")
      case other: False
      have "round_ok ?g1 (add_mset (h_merge_evo h) M)" using round by (simp add: round_ok_def)
      then show ?thesis
        using other new en rel1
        by (intro that [of h ?g1 None "h_merge_evo h"])
          (auto simp: ia_histogram_merge_locked_def Let_def bench)
    next
      case same: True
      have "round_ok ?g1 (add_mset (h_merge_evo h) M)" and "h_merge_evo h = merge_evo ?g1"
        using round same by (simp_all add: round_ok_def)
      from checkpoint_round [OF this \<open>now \<noteq> 0\<close>, of clock] obtain rc g' r
        where chk: "ia_histogram_checkpoint clock now ?g1 = Some (rc, g', r)"
          and round': "round_ok g' (add_mset (if 0 \<le> rc then h_merge_evo h + 1 else h_merge_evo h) M)"
          and out: "r = None \<and> per_bench g' = per_bench ?g1 \<or>
            (\<exists>g2 rep. per_bench g2 = per_bench ?g1 \<and> checkpoint_print now g2 = (g', rep) \<and> r = Some rep)"
        by blast
      let ?e = "if 0 \<le> rc then h_merge_evo h + 1 else h_merge_evo h"
      have "ia_histogram_merge_locked clock h now g = Some (h\<lparr>h_merge_evo := ?e\<rparr>, g', r)"
        using new en same chk by (simp add: ia_histogram_merge_locked_def Let_def bench)
      moreover have "r = None \<and> benches_rel g' ?a \<or>
          (\<exists>rep. r = Some rep \<and> rep_rows rep = spec_rows ?a \<and> benches_rel g' (spec_report ?a))"
        using out rel1 checkpoint_print_sim
        by (metis (no_types, lifting) benches_rel_def)
      ultimately show ?thesis using round' that by blast
    qed
  qed
qed

lemma min_of_snoc: "min_of (ss @ [(l, v)]) = (if l < min_of ss then l else min_of ss)"
  by (simp add: min_of_append) (auto simp: min_of_def min_def dest: leD)

lemma max_of_snoc: "max_of (ss @ [(l, v)]) = (if max_of ss < l then l else max_of ss)"
  by (simp add: max_of_append) (auto simp: max_of_def max_def dest: leD)

lemma record_latency_rel:
  assumes pend: "pending_rel h b p" and room: "stat_n (h_acc h) - stat_n (h_last h) \<noteq> - 1"
  shows "pending_rel ((record_latency t0 now volume h)\<lparr>h_buckets :=
      (h_buckets h)[bucket_of (now - t0) := h_buckets h ! bucket_of (now - t0) + 1]\<rparr>) b (p @ [(now - t0, volume)])"
proof -
  have len: "length p < 2 ^ 64" and d: "stat_minus (h_acc h) (h_last h) = stat_of p"
    using pend by (simp_all add: pending_rel_def)
  have "length p \<noteq> 2 ^ 64 - 1"
  proof
    assume "length p = 2 ^ 64 - 1"
    then have "(of_nat (length p) :: u64) = - 1" by simp
    then show False using room pending_rel_n [OF pend] by simp
  qed
  then have len': "length (p @ [(now - t0, volume)]) < 2 ^ 64" using len by simp
  have "stat_minus (h_acc (record_latency t0 now volume h)) (h_last h) =
      stat_plus (stat_minus (h_acc h) (h_last h)) (stat_of [(now - t0, volume)])"
    by (simp add: record_latency_def Let_def stat_minus_def stat_plus_def stat_of_def)
  then have "stat_minus (h_acc (record_latency t0 now volume h)) (h_last h) = stat_of (p @ [(now - t0, volume)])"
    by (simp add: d stat_of_append)
  then show ?thesis
    using pend len' counts_of_snoc [of p "(now - t0, volume)"]
    by (auto simp: pending_rel_def record_latency_def Let_def min_of_snoc max_of_snoc)
qed

lemma pending_rel_evo [simp]: "pending_rel (h\<lparr>h_merge_evo := e\<rparr>) b p = pending_rel h b p"
  by (simp add: pending_rel_def)

lemma add_sim:
  assumes round: "round_ok g (add_mset (h_merge_evo h) M)" and "now \<noteq> 0"
    and rel: "benches_rel g a" and pend: "pending_rel h b p" and on: "sp_on a b"
    and room: "stat_n (h_acc h) - stat_n (h_last h) \<noteq> - 1"
  obtains h' g' r where "ia_histogram_add now trylock h t0 volume g = Some (h', g', r)"
    and "round_ok g' (add_mset (h_merge_evo h') M)"
    and "r = None \<and> benches_rel g' a \<and> pending_rel h' b (p @ [(now - t0, volume)]) \<or>
      pending_rel h' b [] \<and>
      (r = None \<and> benches_rel g' (spec_flush i Running b (p @ [(now - t0, volume)]) a) \<or>
       (\<exists>rep. r = Some rep \<and> rep_rows rep = spec_rows (spec_flush i Running b (p @ [(now - t0, volume)]) a) \<and>
         benches_rel g' (spec_report (spec_flush i Running b (p @ [(now - t0, volume)]) a))))"
proof -
  let ?h1 = "record_latency t0 now volume h"
  define h2 where "h2 = ?h1\<lparr>h_buckets := (h_buckets ?h1)[bucket_of (now - t0) := h_buckets ?h1 ! bucket_of (now - t0) + 1]\<rparr>"
  have b1: "h_buckets ?h1 = h_buckets h" by (simp add: record_latency_def Let_def)
  have pend2: "pending_rel h2 b (p @ [(now - t0, volume)])"
    using record_latency_rel [OF pend room, of now t0 volume] by (simp add: h2_def b1)
  have evo2: "h_merge_evo h2 = h_merge_evo h" by (simp add: h2_def record_latency_def Let_def)
  let ?due = "INTERVAL_MERGE \<le> now - h_checkpoint_ns h2 \<and> h_merge_evo h2 = merge_evo g \<and> trylock"
  let ?done = "\<lambda>h3. h3\<lparr>h_checkpoint_ns := now, h_min := NOT 0, h_max := 0, h_last := h_acc h3,
                         h_buckets := replicate ST_HISTOGRAM_COUNT (0 :: u64)\<rparr>"
  have add: "ia_histogram_add now trylock h t0 volume g = (if ?due
      then map_option (\<lambda>(h3, g', r). (?done h3, g', r)) (ia_histogram_merge_locked now h2 now g)
      else Some (h2, g, None))"
    by (simp add: ia_histogram_add_def bucket_search_of [unfolded ST_HISTOGRAM_COUNT_def, simplified]
        ST_HISTOGRAM_COUNT_def h2_def Let_def)
  show ?thesis
  proof (cases ?due)
    case False
    then show ?thesis
      using add round pend2 rel evo2 by (intro that [of h2 g None]) auto
  next
    case True
    have "round_ok g (add_mset (h_merge_evo h2) M)" using round evo2 by simp
    from merge_locked_sim [OF this \<open>now \<noteq> 0\<close> rel pend2 on, of now i Running]
    obtain h3 g' r e where locked: "ia_histogram_merge_locked now h2 now g = Some (h3, g', r)"
      and h3: "h3 = h2\<lparr>h_merge_evo := e\<rparr>" and round': "round_ok g' (add_mset e M)"
      and out: "r = None \<and> benches_rel g' (spec_flush i Running b (p @ [(now - t0, volume)]) a) \<or>
        (\<exists>rep. r = Some rep \<and> rep_rows rep = spec_rows (spec_flush i Running b (p @ [(now - t0, volume)]) a) \<and>
          benches_rel g' (spec_report (spec_flush i Running b (p @ [(now - t0, volume)]) a)))"
      by metis
    have "ia_histogram_add now trylock h t0 volume g = Some (?done h3, g', r)"
      using add True locked by simp
    moreover have "pending_rel (?done h3) b []"
      using pend2 by (simp add: h3 pending_rel_def)
    ultimately show ?thesis
      using round' out by (intro that [of "?done h3" g' r]) (simp_all add: h3)
  qed
qed

lemma benches_rel_other [simp]:
  "benches_rel g (a\<lparr>sp_doers := ds\<rparr>) = benches_rel g a"
  "benches_rel g (spec_add i b p s a) = benches_rel g a"
  "benches_rel g (spec_flush i ph b p (spec_add i b q s a)) = benches_rel g (spec_flush i ph b p a)"
  "benches_rel g (spec_report (spec_flush i ph b p (spec_add i b q s a))) = benches_rel g (spec_report (spec_flush i ph b p a))"
  by (simp_all add: benches_rel_def spec_add_def spec_flush_def spec_report_def)

lemma spec_rows_other [simp]:
  "spec_rows (spec_flush i ph b p (spec_add i b q s a)) = spec_rows (spec_flush i ph b p a)"
  by (simp add: spec_rows_def spec_flush_def spec_add_def)

lemma doers_rel_update:
  assumes "list_all2 (doer_rel on) ds as" and "doer_rel on d a"
  shows "list_all2 (doer_rel on) (ds[i := d]) (as[i := a])"
  using assms by (simp add: list_all2_update_cong)

lemma doers_rel_at:
  assumes "list_all2 (doer_rel on) ds as" and "doer_at ds i (ph, h)"
  obtains b p where "doer_at as i (ph, b, p)" and "doer_rel on (ph, h) (ph, b, p)"
proof -
  obtain ph' b p where a: "as ! i = (ph', b, p)" by (metis surj_pair)
  have "doer_rel on (ph, h) (ph', b, p)"
    using assms a unfolding doer_at_def by (metis list_all2_nthD)
  moreover from this have "ph' = ph" by (simp add: doer_rel_def)
  ultimately show ?thesis
    using assms a that by (auto simp: doer_at_def list_all2_lengthD)
qed

lemma doers_rel_mono:
  assumes "list_all2 (doer_rel on) ds as" and "\<And>b. on b \<Longrightarrow> on' b"
  shows "list_all2 (doer_rel on') ds as"
  using assms(1) by (rule list_all2_mono) (auto simp: doer_rel_def assms(2))

lemma doers_of_spec [simp]:
  "sp_doers (spec_flush i ph b p a) = (sp_doers a)[i := (ph, b, [])]"
  "sp_doers (spec_add i b p s a) = (sp_doers a)[i := (Running, b, p @ [s])]"
  "sp_doers (spec_report a) = sp_doers a"
  "sp_on (spec_flush i ph b p a) = sp_on a"
  "sp_on (spec_add i b p s a) = sp_on a"
  "sp_on (spec_report a) = sp_on a"
  by (simp_all add: spec_flush_def spec_add_def spec_report_def)

definition spec_init :: hspec where
  "spec_init = \<lparr>sp_log = (\<lambda>_. []), sp_reported = (\<lambda>_. []), sp_fresh = (\<lambda>_. []), sp_on = (\<lambda>_. False), sp_doers = []\<rparr>"

definition world_init :: "u64 \<Rightarrow> hworld" where
  "world_init clock = \<lparr>w_global = ia_global_init clock, w_doers = []\<rparr>"

lemma hsim_init: "hsim (world_init clock) spec_init"
  by (simp add: hsim_def world_init_def spec_init_def round_ok_def live_evos_def ia_global_init_def
      benches_rel_def bench_rel_def zero_histogram_def)

lemma hsim_enable:
  assumes "hsim w a" and "b < IA_MAX"
  shows "hsim (w\<lparr>w_global := ia_histogram_enable clock b (w_global w)\<rparr>) (a\<lparr>sp_on := (sp_on a)(b := True)\<rparr>)"
proof -
  let ?g = "w_global w"
  have b: "bench_rel (per_bench ?g b) (sp_on a b) (sp_reported a b) (sp_fresh a b)"
    using assms(1) by (simp add: hsim_def benches_rel_def)
  have "round_ok (ia_histogram_enable clock b ?g) M = round_ok ?g M" for M
    by (simp add: round_ok_def ia_histogram_enable_def)
  moreover have "bench_rel (per_bench (ia_histogram_enable clock b ?g) b) True (sp_reported a b) (sp_fresh a b)"
    using b by (auto simp: bench_rel_def ia_histogram_enable_def ia_histogram_reset_def zero_histogram_def)
  then have "benches_rel (ia_histogram_enable clock b ?g) (a\<lparr>sp_on := (sp_on a)(b := True)\<rparr>)"
    using assms by (auto simp: hsim_def benches_rel_def ia_histogram_enable_def less_iabenchmark_def)
  moreover have "list_all2 (doer_rel ((sp_on a)(b := True))) (w_doers w) (sp_doers a)"
    using assms(1) by (auto simp: hsim_def elim!: doers_rel_mono)
  ultimately show ?thesis
    using assms(1) by (simp add: hsim_def)
qed

lemma hsim_start:
  assumes "hsim w a" and "ia_histogram_init (w_global w) = (h, g)"
  shows "hsim \<lparr>w_global = g, w_doers = w_doers w @ [(Fresh, h)]\<rparr>
    (a\<lparr>sp_doers := sp_doers a @ [(Fresh, IA_SET, [])]\<rparr>)"
  using assms
  by (auto simp: hsim_def ia_histogram_init_def round_ok_def live_evos_def benches_rel_def
      doer_rel_def list_all2_appendI)

lemma hsim_reset:
  assumes sim: "hsim w a" and at: "doer_at (w_doers w) i (ph, h)" and ph: "ph \<in> {Fresh, Flushed}"
    and en: "h_enabled (per_bench (w_global w) b)"
  shows "\<exists>a'. spec_step a (Reset i b) None a' \<and>
    hsim (w\<lparr>w_doers := (w_doers w)[i := (Running, ia_histogram_reset clock b h)]\<rparr>) a'"
proof -
  let ?h = "ia_histogram_reset clock b h"
  have rel: "list_all2 (doer_rel (sp_on a)) (w_doers w) (sp_doers a)" using sim by (simp add: hsim_def)
  obtain b0 p where at': "doer_at (sp_doers a) i (ph, b0, p)" and d: "doer_rel (sp_on a) (ph, h) (ph, b0, p)"
    using doers_rel_at [OF rel at] by blast
  have p: "p = []" using d ph by (auto simp: doer_rel_def)
  have on: "sp_on a b" using sim en by (simp add: hsim_def benches_rel_def bench_rel_def)
  have evo: "h_merge_evo ?h = h_merge_evo h" by (simp add: ia_histogram_reset_def)
  obtain M where M: "live_evos (w_doers w) = add_mset (h_merge_evo h) M"
    "live_evos ((w_doers w)[i := (Running, ?h)]) = add_mset (h_merge_evo h) M"
    using live_evos_update [OF at] ph evo by (metis insertE phase.distinct(5,9,11) singletonD)
  have "doer_rel (sp_on a) (Running, ?h) (Running, b, [])"
    using on by (simp add: doer_rel_def pending_rel_def ia_histogram_reset_def zero_histogram_def)
  from doers_rel_update [OF rel this]
  have "hsim (w\<lparr>w_doers := (w_doers w)[i := (Running, ?h)]\<rparr>) (a\<lparr>sp_doers := (sp_doers a)[i := (Running, b, [])]\<rparr>)"
    using sim M by (simp add: hsim_def)
  then show ?thesis
    using spec_step.reset [OF at' [unfolded p] ph on] by blast
qed

lemma hsim_running:
  assumes sim: "hsim w a" and at: "doer_at (w_doers w) i (Running, h)"
  obtains b p M where "doer_at (sp_doers a) i (Running, b, p)" and "pending_rel h b p" and "sp_on a b"
    and "round_ok (w_global w) (add_mset (h_merge_evo h) M)" and "benches_rel (w_global w) a"
    and "list_all2 (doer_rel (sp_on a)) (w_doers w) (sp_doers a)"
    and "\<And>ph' h'. live_evos ((w_doers w)[i := (ph', h')]) = (if ph' = Gone then M else add_mset (h_merge_evo h') M)"
proof -
  have rel: "list_all2 (doer_rel (sp_on a)) (w_doers w) (sp_doers a)" using sim by (simp add: hsim_def)
  obtain b p where at': "doer_at (sp_doers a) i (Running, b, p)" and d: "doer_rel (sp_on a) (Running, h) (Running, b, p)"
    using doers_rel_at [OF rel at] by blast
  obtain M where M: "live_evos (w_doers w) = (if Running = Gone then M else add_mset (h_merge_evo h) M)"
    "\<And>ph' h'. live_evos ((w_doers w)[i := (ph', h')]) = (if ph' = Gone then M else add_mset (h_merge_evo h') M)"
    using live_evos_update [OF at] by blast
  then have "round_ok (w_global w) (add_mset (h_merge_evo h) M)"
    using sim by (simp add: hsim_def)
  with at' d rel M sim show ?thesis by (intro that) (auto simp: doer_rel_def hsim_def)
qed

lemma hsim_add:
  assumes sim: "hsim w a" and at: "doer_at (w_doers w) i (Running, h)" and "now \<noteq> 0"
    and room: "stat_n (h_acc h) - stat_n (h_last h) \<noteq> - 1"
  obtains h' g r a' where "ia_histogram_add now trylock h t0 volume (w_global w) = Some (h', g, r)"
    and "spec_step a (Add i (now - t0, volume)) (map_option rep_rows r) a'"
    and "hsim \<lparr>w_global = g, w_doers = (w_doers w)[i := (Running, h')]\<rparr> a'"
proof -
  let ?s = "(now - t0, volume)"
  obtain b p M where at': "doer_at (sp_doers a) i (Running, b, p)" and pend: "pending_rel h b p"
    and on: "sp_on a b" and round: "round_ok (w_global w) (add_mset (h_merge_evo h) M)"
    and benches: "benches_rel (w_global w) a"
    and rel: "list_all2 (doer_rel (sp_on a)) (w_doers w) (sp_doers a)"
    and live: "\<And>ph' h'. live_evos ((w_doers w)[i := (ph', h')]) = (if ph' = Gone then M else add_mset (h_merge_evo h') M)"
    by (rule hsim_running [OF sim at]) blast
  let ?a1 = "spec_add i b p ?s a"
  let ?a2 = "spec_flush i Running b (p @ [?s]) ?a1"
  obtain h' g r where add: "ia_histogram_add now trylock h t0 volume (w_global w) = Some (h', g, r)"
    and round': "round_ok g (add_mset (h_merge_evo h') M)"
    and out: "r = None \<and> benches_rel g ?a1 \<and> pending_rel h' b (p @ [?s]) \<or>
      pending_rel h' b [] \<and> (r = None \<and> benches_rel g ?a2 \<or>
        (\<exists>rep. r = Some rep \<and> rep_rows rep = spec_rows ?a2 \<and> benches_rel g (spec_report ?a2)))"
    using add_sim [OF round \<open>now \<noteq> 0\<close> benches pend on room, of trylock t0 volume i]
    unfolding benches_rel_other spec_rows_other by blast
  have doers: "list_all2 (doer_rel (sp_on a)) ((w_doers w)[i := (Running, h')]) ((sp_doers a)[i := (Running, b, q)])"
    if "pending_rel h' b q" for q
    using doers_rel_update [OF rel, of "(Running, h')" "(Running, b, q)" i] on that by (simp add: doer_rel_def)
  have ev: "round_ok g (live_evos ((w_doers w)[i := (Running, h')]))"
    using round' by (simp add: live)
  note steps = spec_step.add_keep [OF at', of ?s] spec_step.add_flush [OF at', of ?s]
    spec_step.add_report [OF at' refl, of ?s]
  from out show ?thesis
  proof (elim disjE conjE exE)
    assume "r = None" "benches_rel g ?a1" "pending_rel h' b (p @ [?s])"
    then show ?thesis using add steps(1) ev doers by (intro that [of h' g r ?a1]) (simp_all add: hsim_def)
  next
    assume "pending_rel h' b []" "r = None" "benches_rel g ?a2"
    then show ?thesis using add steps(2) ev doers by (intro that [of h' g r ?a2]) (simp_all add: hsim_def)
  next
    fix rep assume "pending_rel h' b []" "r = Some rep" "rep_rows rep = spec_rows ?a2" "benches_rel g (spec_report ?a2)"
    then show ?thesis using add steps(3) ev doers
      by (intro that [of h' g r "spec_report ?a2"]) (simp_all add: hsim_def)
  qed
qed

lemma hsim_merge:
  assumes sim: "hsim w a" and at: "doer_at (w_doers w) i (Running, h)" and "clock \<noteq> 0"
  obtains h' g r a' where "ia_histogram_merge clock h (w_global w) = Some (h', g, r)"
    and "spec_step a (Merge i) (map_option rep_rows r) a'"
    and "hsim \<lparr>w_global = g, w_doers = (w_doers w)[i := (Flushed, h')]\<rparr> a'"
proof -
  obtain b p M where at': "doer_at (sp_doers a) i (Running, b, p)" and pend: "pending_rel h b p"
    and on: "sp_on a b" and round: "round_ok (w_global w) (add_mset (h_merge_evo h) M)"
    and benches: "benches_rel (w_global w) a"
    and rel: "list_all2 (doer_rel (sp_on a)) (w_doers w) (sp_doers a)"
    and live: "\<And>ph' h'. live_evos ((w_doers w)[i := (ph', h')]) = (if ph' = Gone then M else add_mset (h_merge_evo h') M)"
    by (rule hsim_running [OF sim at]) blast
  let ?a1 = "spec_flush i Flushed b p a"
  obtain h' g r e where locked: "ia_histogram_merge_locked clock h clock (w_global w) = Some (h', g, r)"
    and h': "h' = h\<lparr>h_merge_evo := e\<rparr>" and round': "round_ok g (add_mset e M)"
    and out: "r = None \<and> benches_rel g ?a1 \<or>
      (\<exists>rep. r = Some rep \<and> rep_rows rep = spec_rows ?a1 \<and> benches_rel g (spec_report ?a1))"
    using merge_locked_sim [OF round \<open>clock \<noteq> 0\<close> benches pend on, of clock i Flushed] by metis
  have same: "ia_histogram_merge clock h (w_global w) = ia_histogram_merge_locked clock h clock (w_global w)"
    by (simp add: ia_histogram_merge_def ia_histogram_merge_locked_def)
  have doers: "list_all2 (doer_rel (sp_on a)) ((w_doers w)[i := (Flushed, h')]) ((sp_doers a)[i := (Flushed, b, [])])"
    using doers_rel_update [OF rel, of "(Flushed, h')" "(Flushed, b, [])" i] pend
    by (simp add: doer_rel_def h' pending_rel_def)
  have ev: "round_ok g (live_evos ((w_doers w)[i := (Flushed, h')]))"
    using round' by (simp add: live h')
  note steps = spec_step.merge [OF at'] spec_step.merge_report [OF at' refl]
  from out show ?thesis
  proof (elim disjE conjE exE)
    assume "r = None" "benches_rel g ?a1"
    then show ?thesis using same locked steps(1) ev doers by (intro that [of h' g r ?a1]) (simp_all add: hsim_def)
  next
    fix rep assume "r = Some rep" "rep_rows rep = spec_rows ?a1" "benches_rel g (spec_report ?a1)"
    then show ?thesis using same locked steps(2) ev doers
      by (intro that [of h' g r "spec_report ?a1"]) (simp_all add: hsim_def)
  qed
qed

lemma hsim_destroy:
  assumes sim: "hsim w a" and at: "doer_at (w_doers w) i (Flushed, h)"
    and d: "ia_histogram_destroy h (w_global w) = (h', g)"
  shows "\<exists>a'. spec_step a (Destroy i) None a' \<and>
    hsim \<lparr>w_global = g, w_doers = (w_doers w)[i := (Gone, h')]\<rparr> a'"
proof -
  have rel: "list_all2 (doer_rel (sp_on a)) (w_doers w) (sp_doers a)" using sim by (simp add: hsim_def)
  obtain b p where at': "doer_at (sp_doers a) i (Flushed, b, p)" and dr: "doer_rel (sp_on a) (Flushed, h) (Flushed, b, p)"
    using doers_rel_at [OF rel at] by blast
  have p: "p = []" and en: "h_enabled h" using dr by (auto simp: doer_rel_def)
  obtain M where M: "live_evos (w_doers w) = add_mset (h_merge_evo h) M"
    "live_evos ((w_doers w)[i := (Gone, h')]) = M"
    using live_evos_update [OF at] by (metis phase.distinct(11))
  have "round_ok (w_global w) (add_mset (h_merge_evo h) M)" using sim M by (simp add: hsim_def)
  then have "round_ok g M"
    using d en by (auto simp: round_ok_def ia_histogram_destroy_def split: if_splits)
  moreover have "benches_rel g a"
    using sim d en by (auto simp: hsim_def benches_rel_def ia_histogram_destroy_def split: if_splits)
  moreover have "list_all2 (doer_rel (sp_on a)) ((w_doers w)[i := (Gone, h')]) ((sp_doers a)[i := (Gone, b, [])])"
    by (rule doers_rel_update [OF rel]) (simp add: doer_rel_def)
  ultimately have "hsim \<lparr>w_global = g, w_doers = (w_doers w)[i := (Gone, h')]\<rparr> (a\<lparr>sp_doers := (sp_doers a)[i := (Gone, b, [])]\<rparr>)"
    using M by (simp add: hsim_def)
  then show ?thesis using spec_step.destroy [OF at' [unfolded p]] by blast
qed

lemma hsim_final:
  assumes sim: "hsim w a" and c: "ia_histogram_checkpoint clock 0 (w_global w) = Some (rc, g, r)"
  shows "spec_step a Final (map_option rep_rows r) (spec_report a) \<and> hsim (w\<lparr>w_global := g\<rparr>) (spec_report a)"
proof -
  let ?M = "live_evos (w_doers w)"
  have round: "round_ok (w_global w) ?M" and benches: "benches_rel (w_global w) a"
    using sim by (simp_all add: hsim_def)
  obtain rep where p: "checkpoint_print clock (w_global w) = (g, rep)" and r: "r = Some rep"
    and eq: "doers_active (w_global w) = doers_merged (w_global w)"
    using c by (auto simp: ia_histogram_checkpoint_def Let_def split: if_splits prod.splits)
  have "size ?M \<le> count ?M (merge_evo (w_global w) + 1)" using round eq by (simp add: round_ok_def)
  then have all: "set_mset ?M \<subseteq> {merge_evo (w_global w) + 1}" by (rule count_eq_size)
  then have "count ?M (2 + merge_evo (w_global w)) = 0" by (auto simp: count_eq_zero_iff)
  then have "round_ok g ?M"
    using p all round by (auto simp: round_ok_def checkpoint_print_def)
  then show ?thesis
    using checkpoint_print_sim [OF benches p] sim spec_step.final [of a] r by (simp add: hsim_def)
qed

lemma hstep_sim:
  assumes "hsim w a" and "hstep w e r w'"
  shows "\<exists>a'. spec_step a e (map_option rep_rows r) a' \<and> hsim w' a'"
  using assms(2)
proof cases
  case (enable b clock)
  then show ?thesis using hsim_enable [OF assms(1)] spec_step.enable by force
next
  case (start h g)
  then show ?thesis using hsim_start [OF assms(1)] spec_step.start by force
next
  case (reset i ph h b clock)
  then show ?thesis using hsim_reset [OF assms(1)] by force
next
  case (add i h now trylock t0 volume h' g)
  then show ?thesis using hsim_add [OF assms(1)] by (metis option.inject prod.inject)
next
  case (merge i h clock h' g)
  then show ?thesis using hsim_merge [OF assms(1)] by (metis option.inject prod.inject)
next
  case (destroy i h h' g)
  then show ?thesis using hsim_destroy [OF assms(1)] by force
next
  case (final clock rc g)
  then show ?thesis using hsim_final [OF assms(1)] by force
qed

end
