(* ===== verification/HistogramRuns.thy ===== *)
theory HistogramRuns
  imports HistogramSpec
begin

text \<open>
  Whole runs of the histograms of \<open>src/ia_histogram.c\<close>: the log of what was measured, an
  executable form of the step relation, and the properties of the reports and of the final table.
\<close>

section \<open>Whole runs\<close>

inductive hruns :: "hworld \<Rightarrow> (hevent \<times> hreport option) list \<Rightarrow> hworld \<Rightarrow> bool" where
  nil: "hruns w [] w"
| cons: "hstep w e r w1 \<Longrightarrow> hruns w1 tr w2 \<Longrightarrow> hruns w ((e, r) # tr) w2"

inductive spec_runs :: "hspec \<Rightarrow> (hevent \<times> (iabenchmark \<times> hrow option) list option) list \<Rightarrow> hspec \<Rightarrow> bool" where
  nil: "spec_runs a [] a"
| cons: "spec_step a e r a1 \<Longrightarrow> spec_runs a1 tr a2 \<Longrightarrow> spec_runs a ((e, r) # tr) a2"

inductive_cases spec_stepE: "spec_step a e r a'"

text \<open>What is compared with the specification: the events and the rows of the reports.\<close>

definition observe :: "(hevent \<times> hreport option) list \<Rightarrow> (hevent \<times> (iabenchmark \<times> hrow option) list option) list" where
  "observe tr = map (\<lambda>(e, r). (e, map_option rep_rows r)) tr"

lemma map_fst_observe [simp]: "map fst (observe tr) = map fst tr"
  by (induction tr) (auto simp: observe_def)

lemma hruns_refine:
  "hruns w tr w' \<Longrightarrow> hsim w a \<Longrightarrow> \<exists>a'. spec_runs a (observe tr) a' \<and> hsim w' a'"
proof (induction arbitrary: a rule: hruns.induct)
  case (nil w)
  then show ?case using spec_runs.nil by (auto simp: observe_def)
next
  case (cons w e r w1 tr w2)
  obtain a1 where "spec_step a e (map_option rep_rows r) a1" "hsim w1 a1"
    using hstep_sim [OF cons.prems cons.hyps(1)] by blast
  moreover from cons.IH [OF this(2)] obtain a2
    where "spec_runs a1 (observe tr) a2" "hsim w2 a2" by blast
  ultimately show ?case using spec_runs.cons by (fastforce simp: observe_def)
qed

text \<open>The samples a trace of events adds to a benchmark; \<open>cur\<close> is what each doer is running.\<close>

fun added :: "(nat \<Rightarrow> iabenchmark) \<Rightarrow> hevent list \<Rightarrow> iabenchmark \<Rightarrow> sample list" where
  "added cur [] b = []"
| "added cur (Reset i b' # es) b = added (cur(i := b')) es b"
| "added cur (Add i s # es) b = (if cur i = b then s # added cur es b else added cur es b)"
| "added cur (_ # es) b = added cur es b"

definition running_at :: "(nat \<Rightarrow> iabenchmark) \<Rightarrow> hspec \<Rightarrow> bool" where
  "running_at cur a \<longleftrightarrow> (\<forall>i b p. doer_at (sp_doers a) i (Running, b, p) \<longrightarrow> cur i = b)"

lemma doer_at_update:
  "doer_at (ds[i := d]) j e \<longleftrightarrow> doer_at ds j (if i = j then ds ! j else e) \<and> (i = j \<longrightarrow> d = e)"
  by (auto simp: doer_at_def nth_list_update)

lemma spec_log_step:
  assumes "spec_step a e r a'" and "running_at cur a"
  shows "\<exists>cur'. running_at cur' a' \<and>
    (\<forall>es b. sp_log a' b @ added cur' es b = sp_log a b @ added cur (e # es) b)"
  using assms
proof (induction rule: spec_step.induct)
  case (reset a i ph b0 b)
  then show ?case
    by (intro exI [of _ "cur(i := b)"]) (auto simp: running_at_def doer_at_def nth_list_update simp flip: fun_upd_def)
next
  case (add_report a i b p a' s)
  then have "cur i = b" unfolding running_at_def by blast
  with add_report show ?case
    by (intro exI [of _ cur])
      (auto simp: running_at_def doer_at_def nth_list_update spec_add_def spec_flush_def spec_report_def)
next
  case (start a)
  then show ?case
    by (intro exI [of _ cur]) (auto simp: running_at_def doer_at_def nth_append split: if_splits)
qed (intro exI [of _ cur]; auto simp: running_at_def doer_at_def nth_list_update nth_append spec_add_def
  spec_flush_def spec_report_def split: if_splits)+

lemma spec_runs_log:
  "spec_runs a tr a' \<Longrightarrow> running_at cur a \<Longrightarrow> sp_log a' b = sp_log a b @ added cur (map fst tr) b"
proof (induction arbitrary: cur rule: spec_runs.induct)
  case (cons a e r a1 tr a2)
  then obtain cur' where "running_at cur' a1"
    "\<forall>es b. sp_log a1 b @ added cur' es b = sp_log a b @ added cur (e # es) b"
    using spec_log_step by blast
  then show ?case using cons.IH [of cur'] by simp
qed simp

text \<open>No sample is lost or counted twice: the log is what was reported, merged or is pending.\<close>

definition pending_of :: "(phase \<times> iabenchmark \<times> sample list) list \<Rightarrow> iabenchmark \<Rightarrow> sample multiset" where
  "pending_of ds b = (\<Sum>d \<in># mset ds. if fst (snd d) = b then mset (snd (snd d)) else {#})"

definition balanced :: "hspec \<Rightarrow> bool" where
  "balanced a \<longleftrightarrow> (\<forall>b. mset (sp_log a b) = mset (sp_reported a b) + mset (sp_fresh a b) + pending_of (sp_doers a) b)"

lemma pending_of_update:
  assumes "doer_at ds i (ph, b0, p)"
  obtains N where "\<And>b. pending_of ds b = (if b0 = b then mset p else {#}) + N b"
    and "\<And>ph' b' p' b. pending_of (ds[i := (ph', b', p')]) b = (if b' = b then mset p' else {#}) + N b"
proof -
  have "(ph, b0, p) \<in># mset ds" using assms by (auto simp: doer_at_def dest: nth_mem)
  then obtain M where M: "mset ds = add_mset (ph, b0, p) M" by (metis insert_DiffM)
  have "mset (ds[i := d]) = add_mset d M" for d
    using assms M by (simp add: doer_at_def mset_update)
  with M show ?thesis
    by (intro that [of "\<lambda>b. \<Sum>d \<in># M. if fst (snd d) = b then mset (snd (snd d)) else {#}"])
      (simp_all add: pending_of_def)
qed

lemma spec_step_balanced:
  assumes "spec_step a e r a'" and "balanced a"
  shows "balanced a'"
  using assms
proof (cases rule: spec_step.cases)
  case (enable b)
  then show ?thesis using assms(2) by (simp add: balanced_def)
next
  case start
  then show ?thesis using assms(2) by (simp add: balanced_def pending_of_def)
next
  case (reset i ph b0 b)
  then show ?thesis using assms(2) by (auto simp: balanced_def elim!: pending_of_update)
next
  case (add_keep i b p s)
  then show ?thesis using assms(2) by (auto simp: balanced_def spec_add_def elim!: pending_of_update)
next
  case (add_flush i b p s)
  then show ?thesis using assms(2) by (auto simp: balanced_def spec_add_def spec_flush_def elim!: pending_of_update)
next
  case (add_report i b p a1 s)
  then show ?thesis using assms(2)
    by (auto simp: balanced_def spec_add_def spec_flush_def spec_report_def elim!: pending_of_update)
next
  case (merge i b p)
  then show ?thesis using assms(2) by (auto simp: balanced_def spec_flush_def elim!: pending_of_update)
next
  case (merge_report i b p a1)
  then show ?thesis using assms(2)
    by (auto simp: balanced_def spec_flush_def spec_report_def elim!: pending_of_update)
next
  case (destroy i b)
  then show ?thesis using assms(2) by (auto simp: balanced_def elim!: pending_of_update)
next
  case final
  then show ?thesis using assms(2) by (auto simp: balanced_def spec_report_def)
qed

lemma spec_runs_balanced: "spec_runs a tr a' \<Longrightarrow> balanced a \<Longrightarrow> balanced a'"
  by (induction rule: spec_runs.induct) (auto intro: spec_step_balanced)

section \<open>Summaries do not depend on the order\<close>

lemma stat_of_mset:
  assumes "mset xs = mset ys"
  shows "stat_of xs = stat_of ys"
proof -
  have "sum_list (map f xs) = sum_list (map f ys)" for f :: "sample \<Rightarrow> u64"
    by (metis assms mset_map sum_mset_sum_list)
  then show ?thesis using mset_eq_length [OF assms] by (simp only: stat_of_def)
qed

lemma counts_of_mset:
  assumes "mset xs = mset ys"
  shows "counts_of xs = counts_of ys"
proof -
  have "length (filter P xs) = length (filter P ys)" for P
    using assms by (metis mset_filter size_mset)
  then show ?thesis by (simp add: counts_of_def)
qed

lemma le_min_of: "z \<le> min_of ss \<longleftrightarrow> (\<forall>s \<in> set ss. z \<le> fst s)"
  by (induction ss) (auto simp: min_of_def)

lemma max_of_le: "max_of ss \<le> z \<longleftrightarrow> (\<forall>s \<in> set ss. fst s \<le> z)"
  by (induction ss) (auto simp: max_of_def)

lemma min_of_mset: "mset xs = mset ys \<Longrightarrow> min_of xs = min_of ys"
  by (rule order.antisym) (metis le_min_of mset_eq_setD order.refl)+

lemma max_of_mset: "mset xs = mset ys \<Longrightarrow> max_of xs = max_of ys"
  by (rule order.antisym) (metis max_of_le mset_eq_setD order.refl)+

lemmas summary_mset = stat_of_mset counts_of_mset min_of_mset max_of_mset

lemma sum_counts_of: "sum_list (counts_of ss) = of_nat (length ss)"
proof (induction ss rule: rev_induct)
  case Nil
  then show ?case by (simp add: sum_list_replicate)
next
  case (snoc s ss)
  have "sum_list (xs[i := xs ! i + 1]) = sum_list xs + (1 :: u64)" if "i < length xs" for xs :: "u64 list" and i
    using that by (induction xs arbitrary: i) (auto split: nat.splits)
  then show ?case using snoc by (simp add: counts_of_snoc bucket_of_less)
qed

section \<open>The printed table\<close>

lemma print_lines_total: "snd (print_lines i n cs) = n + sum_list cs"
  by (induction i n cs rule: print_lines.induct) (auto simp: Let_def case_prod_beta add.assoc)

lemma print_lines_empty: "fst (print_lines i n cs) = [] \<Longrightarrow> snd (print_lines i n cs) = n"
  by (induction i n cs rule: print_lines.induct) (auto simp: Let_def case_prod_beta split: if_splits)

lemma print_lines_last:
  assumes "fst (print_lines i n cs) \<noteq> []"
  shows "line_total (last (fst (print_lines i n cs))) = snd (print_lines i n cs)"
  using assms
proof (induction i n cs rule: print_lines.induct)
  case (2 i n c cs)
  show ?case
  proof (cases "c = 0 \<or> fst (print_lines (Suc i) (n + c) cs) \<noteq> []")
    case True
    then show ?thesis using 2 by (auto simp: Let_def case_prod_beta)
  next
    case False
    then show ?thesis using print_lines_empty [of "Suc i" "n + c" cs] by (auto simp: Let_def case_prod_beta)
  qed
qed simp

section \<open>Reachable states\<close>

lemma reachable_spec:
  assumes "hruns (world_init c) tr w"
  obtains a where "hsim w a" and "balanced a"
    and "\<And>b. sp_log a b = added (\<lambda>_. IA_SET) (map fst tr) b"
    and "spec_runs spec_init (observe tr) a"
proof -
  obtain a where a: "spec_runs spec_init (observe tr) a" "hsim w a"
    using hruns_refine [OF assms hsim_init] by blast
  have "balanced spec_init" by (simp add: balanced_def spec_init_def pending_of_def)
  moreover have "running_at (\<lambda>_. IA_SET) spec_init"
    by (simp add: running_at_def spec_init_def doer_at_def)
  moreover have "sp_log spec_init b = []" for b by (simp add: spec_init_def)
  ultimately show ?thesis
    using a spec_runs_balanced [OF a(1)] spec_runs_log [OF a(1)] by (intro that) auto
qed

definition quiescent :: "hworld \<Rightarrow> bool" where
  "quiescent w \<longleftrightarrow> (\<forall>d \<in> set (w_doers w). fst d \<noteq> Running)"

lemma quiescent_pending:
  assumes sim: "hsim w a" and q: "quiescent w"
  shows "pending_of (sp_doers a) b = {#}"
proof -
  have rel: "list_all2 (doer_rel (sp_on a)) (w_doers w) (sp_doers a)" using sim by (simp add: hsim_def)
  have "snd (snd d) = []" if mem: "d \<in> set (sp_doers a)" for d
  proof -
    obtain i where i: "i < length (sp_doers a)" "sp_doers a ! i = d"
      using mem by (auto simp: in_set_conv_nth)
    have len: "length (w_doers w) = length (sp_doers a)" using rel by (rule list_all2_lengthD)
    then have "doer_rel (sp_on a) (w_doers w ! i) d"
      using list_all2_nthD [OF rel, of i] i by simp
    with i len obtain x where x: "x \<in> set (w_doers w)" "doer_rel (sp_on a) x d"
      by (metis nth_mem)
    obtain ph h b p where "x = (ph, h)" "d = (ph, b, p)" using x(2) by (cases x; cases d) (auto simp: doer_rel_def)
    moreover have "fst x \<noteq> Running" using q x(1) by (simp add: quiescent_def)
    ultimately show ?thesis using x(2) by (simp add: doer_rel_def)
  qed
  then show ?thesis by (auto simp: pending_of_def intro!: sum_mset.neutral)
qed

section \<open>Executing a run\<close>

text \<open>An action is an event with the clock readings and the outcome of \<open>trylock\<close> it meets.\<close>

datatype haction =
    Do_enable iabenchmark u64
  | Do_start
  | Do_reset nat iabenchmark u64
  | Do_add nat u64 bool u64 u64
  | Do_merge nat u64
  | Do_destroy nat
  | Do_final u64

fun hexec :: "hworld \<Rightarrow> haction \<Rightarrow> (hevent \<times> hreport option \<times> hworld) option" where
  "hexec w (Do_enable b clock) =
     (if b = IA_MAX then None
      else Some (Enable b, None, w\<lparr>w_global := ia_histogram_enable clock b (w_global w)\<rparr>))"
| "hexec w Do_start =
     (let (h, g) = ia_histogram_init (w_global w)
      in Some (Start, None, \<lparr>w_global = g, w_doers = w_doers w @ [(Fresh, h)]\<rparr>))"
| "hexec w (Do_reset i b clock) =
     (if i < length (w_doers w) \<and> fst (w_doers w ! i) \<in> {Fresh, Flushed} \<and> h_enabled (per_bench (w_global w) b)
      then Some (Reset i b, None, w\<lparr>w_doers := (w_doers w)[i := (Running, ia_histogram_reset clock b (snd (w_doers w ! i)))]\<rparr>)
      else None)"
| "hexec w (Do_add i now trylock t0 volume) =
     (if i < length (w_doers w) \<and> fst (w_doers w ! i) = Running \<and> now \<noteq> 0 \<and>
         stat_n (h_acc (snd (w_doers w ! i))) - stat_n (h_last (snd (w_doers w ! i))) \<noteq> - 1
      then map_option (\<lambda>(h', g, r). (Add i (now - t0, volume), r, \<lparr>w_global = g, w_doers = (w_doers w)[i := (Running, h')]\<rparr>))
             (ia_histogram_add now trylock (snd (w_doers w ! i)) t0 volume (w_global w))
      else None)"
| "hexec w (Do_merge i clock) =
     (if i < length (w_doers w) \<and> fst (w_doers w ! i) = Running \<and> clock \<noteq> 0
      then map_option (\<lambda>(h', g, r). (Merge i, r, \<lparr>w_global = g, w_doers = (w_doers w)[i := (Flushed, h')]\<rparr>))
             (ia_histogram_merge clock (snd (w_doers w ! i)) (w_global w))
      else None)"
| "hexec w (Do_destroy i) =
     (if i < length (w_doers w) \<and> fst (w_doers w ! i) = Flushed
      then (let (h', g) = ia_histogram_destroy (snd (w_doers w ! i)) (w_global w)
            in Some (Destroy i, None, \<lparr>w_global = g, w_doers = (w_doers w)[i := (Gone, h')]\<rparr>))
      else None)"
| "hexec w (Do_final clock) =
     map_option (\<lambda>(rc, g, r). (Final, r, w\<lparr>w_global := g\<rparr>)) (ia_histogram_checkpoint clock 0 (w_global w))"

fun hexec_all :: "hworld \<Rightarrow> haction list \<Rightarrow> ((hevent \<times> hreport option) list \<times> hworld) option" where
  "hexec_all w [] = Some ([], w)"
| "hexec_all w (x # xs) =
     (case hexec w x of
        None \<Rightarrow> None
      | Some (e, r, w') \<Rightarrow> map_option (\<lambda>(tr, w''). ((e, r) # tr, w'')) (hexec_all w' xs))"

lemma hexec_step: "hexec w x = Some (e, r, w') \<Longrightarrow> hstep w e r w'"
proof (induction w x rule: hexec.induct)
  case (1 w b clock)
  then show ?case
    by (cases b) (auto intro!: hstep.enable simp: less_iabenchmark_def)
next
  case (2 w)
  then show ?case by (auto intro: hstep.start split: prod.splits)
next
  case (3 w i b clock)
  then show ?case
    by (cases "w_doers w ! i") (auto intro!: hstep.reset simp: doer_at_def split: if_splits)
next
  case (4 w i now trylock t0 volume)
  then show ?case
    by (cases "w_doers w ! i") (auto intro!: hstep.add simp: doer_at_def split: if_splits)
next
  case (5 w i clock)
  then show ?case
    by (cases "w_doers w ! i") (auto intro!: hstep.merge simp: doer_at_def split: if_splits)
next
  case (6 w i)
  then show ?case
    by (cases "w_doers w ! i") (auto intro!: hstep.destroy simp: doer_at_def split: if_splits prod.splits)
next
  case (7 w clock)
  then show ?case by (auto intro: hstep.final)
qed

lemma hexec_all_runs: "hexec_all w xs = Some (tr, w') \<Longrightarrow> hruns w tr w'"
proof (induction xs arbitrary: w tr)
  case Nil
  then show ?case by (auto intro: hruns.nil)
next
  case (Cons x xs)
  then show ?case by (auto split: option.splits intro: hruns.cons hexec_step)
qed

lemma hexec_all_length: "hexec_all w xs = Some (tr, w') \<Longrightarrow> length tr = length xs"
  by (induction xs arbitrary: w tr) (auto split: option.splits)

definition sample_actions :: "haction list" where
  "sample_actions = [Do_enable IA_SET 1, Do_start, Do_start, Do_reset 0 IA_SET 10, Do_reset 1 IA_SET 11,
     Do_add 0 20000000 True 19999995 48, Do_add 1 20000100 True 20000000 48, Do_merge 0 1500000000,
     Do_destroy 0, Do_add 1 1600000000 True 1599999000 48, Do_merge 1 1700000000, Do_destroy 1]"

section \<open>Reports that stop\<close>

definition stalled :: "hworld \<Rightarrow> bool" where
  "stalled w \<longleftrightarrow> (\<forall>d \<in> set (w_doers w). fst d \<noteq> Gone \<longrightarrow> h_merge_evo (snd d) = merge_evo (w_global w) + 1)"

lemma stalled_add:
  assumes "stalled w" and "hstep w (Add i s) r w'"
  shows "w_global w' = w_global w \<and> r = None \<and> stalled w'"
  using assms(2)
proof cases
  case (add h now trylock t0 volume h' g)
  have "(Running, h) \<in> set (w_doers w)" using add by (auto simp: doer_at_def dest: nth_mem)
  then have ahead: "h_merge_evo h = merge_evo (w_global w) + 1" using assms(1) by (force simp: stalled_def)
  have "g = w_global w \<and> r = None \<and> h_merge_evo h' = h_merge_evo h"
    using add(6) ahead by (auto simp: ia_histogram_add_def record_latency_def Let_def split: option.splits)
  moreover have "set ((w_doers w)[i := (Running, h')]) \<subseteq> insert (Running, h') (set (w_doers w))"
    by (rule set_update_subset_insert)
  ultimately show ?thesis
    using add assms(1) ahead by (auto simp: stalled_def)
qed

definition stall_actions :: "haction list" where
  "stall_actions = [Do_enable IA_SET 1, Do_start, Do_start, Do_reset 0 IA_SET 10, Do_reset 1 IA_SET 11,
     Do_add 1 400 False 300 48, Do_merge 1 500000000, Do_add 0 1500000000 True 1499999000 48, Do_destroy 1]"

definition later_action :: haction where
  "later_action = Do_add 0 3000000000 True 2999999000 48"

lemma stall_run:
  "map_option (\<lambda>(_, w). (stalled w, map_option (\<lambda>_. ()) (hexec w later_action)))
    (hexec_all (world_init 1) stall_actions) = Some (True, Some ())"
  by code_simp

section \<open>A sample run\<close>

text \<open>
  Two doers measure three operations; the second to merge after the first second prints a report.
\<close>

lemma sample_run:
  "map_option (\<lambda>(tr, w). (quiescent w, h_enabled (per_bench (w_global w) IA_SET), map fst tr,
      hexec w (Do_final 1800000000) \<noteq> None, \<forall>d \<in> set (w_doers w). fst d = Gone))
    (hexec_all (world_init 1) sample_actions) =
   Some (True, True, [Enable IA_SET, Start, Start, Reset 0 IA_SET, Reset 1 IA_SET,
     Add 0 (5, 48), Add 1 (100, 48), Merge 0, Destroy 0, Add 1 (1000, 48), Merge 1, Destroy 1], True, True)"
  by code_simp

lemma sample_reached:
  obtains tr w where "hruns (world_init 1) tr w" and "quiescent w"
    and "h_enabled (per_bench (w_global w) IA_SET)"
    and "added (\<lambda>_. IA_SET) (map fst tr) IA_SET = [(5, 48), (100, 48), (1000, 48)]"
    and "\<exists>r w'. hstep w Final r w'" and "length tr = 12" and "\<forall>d \<in> set (w_doers w). fst d = Gone"
proof -
  obtain tr w where run: "hexec_all (world_init 1) sample_actions = Some (tr, w)"
    and q: "quiescent w" "h_enabled (per_bench (w_global w) IA_SET)"
    and ev: "map fst tr = [Enable IA_SET, Start, Start, Reset 0 IA_SET, Reset 1 IA_SET,
     Add 0 (5, 48), Add 1 (100, 48), Merge 0, Destroy 0, Add 1 (1000, 48), Merge 1, Destroy 1]"
    and fin: "hexec w (Do_final 1800000000) \<noteq> None" and gone: "\<forall>d \<in> set (w_doers w). fst d = Gone"
    using sample_run by (auto simp del: hexec.simps)
  have "\<exists>r w'. hstep w Final r w'"
    using fin by (auto intro: hstep.final)
  moreover have "length tr = 12" using arg_cong [OF ev, of length] by simp
  ultimately show ?thesis
    using that hexec_all_runs [OF run] q ev gone by simp
qed

section \<open>Properties\<close>

text \<open>
  C9: nothing is lost and nothing is counted twice: after any interleaving of doers that have all
  merged or ended, the global histogram of a benchmark holds the count, the sums, the bucket
  counts and the extreme latencies of exactly the operations measured for that benchmark.
\<close>

theorem histogram_complete:
  assumes "hruns (world_init c) tr w" and "quiescent w"
    and "h_enabled (per_bench (w_global w) b)"
  shows "let h = per_bench (w_global w) b; ss = added (\<lambda>_. IA_SET) (map fst tr) b
    in h_acc h = stat_of ss \<and> h_buckets h = counts_of ss \<and>
       min (h_whole_min h) (h_min h) = min_of ss \<and> max (h_whole_max h) (h_max h) = max_of ss"
proof -
  obtain a where sim: "hsim w a" and bal: "balanced a" and log: "\<And>b. sp_log a b = added (\<lambda>_. IA_SET) (map fst tr) b"
    using reachable_spec [OF assms(1)] by blast
  have "mset (added (\<lambda>_. IA_SET) (map fst tr) b) = mset (sp_reported a b @ sp_fresh a b)"
    using bal quiescent_pending [OF sim assms(2)] by (simp add: balanced_def log)
  note same = summary_mset [OF this]
  have "bench_rel (per_bench (w_global w) b) (sp_on a b) (sp_reported a b) (sp_fresh a b)"
    using sim by (simp add: hsim_def benches_rel_def)
  then have "bench_rel (per_bench (w_global w) b) True (sp_reported a b) (sp_fresh a b)"
    using assms(3) by (cases "sp_on a b") (simp_all add: bench_rel_def)
  then show ?thesis
    by (simp add: bench_rel_def same Let_def min_of_append max_of_append)
qed

theorem histogram_complete_witness:
  "\<exists>tr w. hruns (world_init 1) tr w \<and> length tr = 12 \<and>
    (let h = per_bench (w_global w) IA_SET; ss = [(5, 48), (100, 48), (1000, 48)]
     in h_acc h = stat_of ss \<and> h_buckets h = counts_of ss \<and>
        min (h_whole_min h) (h_min h) = min_of ss \<and> max (h_whole_max h) (h_max h) = max_of ss)"
proof -
  obtain tr w where r: "hruns (world_init 1) tr w" "quiescent w" "h_enabled (per_bench (w_global w) IA_SET)"
    and ss: "added (\<lambda>_. IA_SET) (map fst tr) IA_SET = [(5, 48), (100, 48), (1000, 48)]" and len: "length tr = 12"
    by (rule sample_reached)
  show ?thesis
    using histogram_complete [OF r, unfolded ss] r(1) len by blast
qed

text \<open>
  C10: every periodic report (and the final one) is the one the specification allows: its rows
  summarise exactly the operations merged since the previous report.
\<close>

theorem histogram_refines_spec:
  assumes "hruns (world_init c) tr w"
  shows "\<exists>a. spec_runs spec_init (observe tr) a \<and> hsim w a"
  using reachable_spec [OF assms] by metis

theorem histogram_refines_spec_witness:
  "\<exists>tr w a. hruns (world_init 1) tr w \<and> length tr = 12 \<and> spec_runs spec_init (observe tr) a \<and> hsim w a"
proof -
  obtain tr w where r: "hruns (world_init 1) tr w" and len: "length tr = 12"
    by (rule sample_reached)
  show ?thesis
    using histogram_refines_spec [OF r] r len by blast
qed

text \<open>With all doers gone the final report is due.\<close>

lemma hsim_all_gone:
  assumes sim: "hsim w a" and gone: "\<forall>d \<in> set (w_doers w). fst d = Gone"
  shows "ia_histogram_checkpoint clock 0 (w_global w) \<noteq> None"
proof -
  have "filter_mset (\<lambda>d. fst d \<noteq> Gone) (mset (w_doers w)) = {#}"
    using gone by (induction "w_doers w" arbitrary: w) auto
  then have "live_evos (w_doers w) = {#}" by (simp add: live_evos_def)
  then show ?thesis
    using sim by (simp add: hsim_def round_ok_def ia_histogram_checkpoint_def Let_def split: prod.split)
qed

text \<open>
  C11: no interleaving makes the histograms abort: in a reachable state a running doer can always
  record an operation and can always merge, and once all doers have ended the final report works.
\<close>

theorem histogram_never_aborts:
  assumes "hruns (world_init c) tr w"
  shows "(\<forall>i h. doer_at (w_doers w) i (Running, h) \<longrightarrow>
      (\<forall>now trylock t0 volume. now \<noteq> 0 \<and> stat_n (h_acc h) - stat_n (h_last h) \<noteq> - 1 \<longrightarrow>
         ia_histogram_add now trylock h t0 volume (w_global w) \<noteq> None) \<and>
      (\<forall>clock. clock \<noteq> 0 \<longrightarrow> ia_histogram_merge clock h (w_global w) \<noteq> None)) \<and>
    ((\<forall>d \<in> set (w_doers w). fst d = Gone) \<longrightarrow>
      (\<forall>clock. ia_histogram_checkpoint clock 0 (w_global w) \<noteq> None))"
proof -
  obtain a where sim: "hsim w a" using reachable_spec [OF assms] by blast
  have run: "ia_histogram_add now trylock h t0 volume (w_global w) \<noteq> None"
    if "doer_at (w_doers w) i (Running, h)" "now \<noteq> 0" "stat_n (h_acc h) - stat_n (h_last h) \<noteq> - 1"
    for i h now trylock t0 volume
    by (rule hsim_add [OF sim that, of trylock t0 volume]) simp
  have merge: "ia_histogram_merge clock h (w_global w) \<noteq> None"
    if "doer_at (w_doers w) i (Running, h)" "clock \<noteq> 0" for i h clock
    by (rule hsim_merge [OF sim that]) simp
  have "ia_histogram_checkpoint clock 0 (w_global w) \<noteq> None"
    if "\<forall>d \<in> set (w_doers w). fst d = Gone" for clock
    by (rule hsim_all_gone [OF sim that])
  with run merge show ?thesis by blast
qed

theorem histogram_never_aborts_witness:
  "\<exists>tr w. hruns (world_init 1) tr w \<and> length tr = 12 \<and> ia_histogram_checkpoint 5 0 (w_global w) \<noteq> None"
proof -
  obtain tr w where r: "hruns (world_init 1) tr w" and len: "length tr = 12"
    and gone: "\<forall>d \<in> set (w_doers w). fst d = Gone"
    by (rule sample_reached)
  show ?thesis
    using histogram_never_aborts [OF r] gone r len by blast
qed

text \<open>
  C12: the table printed after the final report accounts for every operation: the total and the last
  cumulative count equal the number of operations measured, the extremes are theirs, and the
  average is their latency sum divided by their number.
\<close>

theorem printed_table:
  assumes "hruns (world_init c) tr w" and "quiescent w" and "hstep w Final r w'"
    and "h_enabled (per_bench (w_global w) b)" and "added (\<lambda>_. IA_SET) (map fst tr) b = ss"
    and "(of_nat (length ss) :: u64) \<noteq> 0"
  shows "\<exists>s. (b, s) \<in> set (ia_histogram_print (w_global w')) \<and>
    sum_ops s = of_nat (length ss) \<and> sum_count s = sum_ops s \<and>
    line_total (last (sum_lines s)) = sum_ops s \<and>
    sum_min s = min_of ss \<and> sum_max s = max_of ss \<and>
    sum_avg s = sum_list (map fst ss) div of_nat (length ss)"
proof -
  obtain a where sim: "hsim w a" and bal: "balanced a" and log: "\<And>b. sp_log a b = added (\<lambda>_. IA_SET) (map fst tr) b"
    using reachable_spec [OF assms(1)] by blast
  obtain clock rc g where w': "w' = w\<lparr>w_global := g\<rparr>"
    and chk: "ia_histogram_checkpoint clock 0 (w_global w) = Some (rc, g, r)"
    using assms(3) by cases auto
  let ?h = "per_bench g b"
  have benches: "benches_rel g (spec_report a)"
    using hsim_final [OF sim chk] by (simp add: hsim_def)
  have on: "sp_on a b"
    using sim assms(4) by (simp add: hsim_def benches_rel_def bench_rel_def)
  then have rel: "bench_rel ?h True (sp_reported a b @ sp_fresh a b) []"
    using benches by (simp add: benches_rel_def spec_report_def) metis
  have "b \<in> set benchmarks"
    using on benches unfolding benches_rel_def by (cases b) (auto simp: benchmarks_def)
  have "mset (sp_log a b) = mset (sp_reported a b @ sp_fresh a b)"
    using bal quiescent_pending [OF sim assms(2)] by (simp add: balanced_def)
  then have "mset (sp_reported a b @ sp_fresh a b) = mset ss"
    by (simp only: log assms(5))
  note same = summary_mset [OF this]
  have h: "h_enabled ?h" "h_acc ?h = stat_of ss" "h_buckets ?h = counts_of ss"
    "h_whole_min ?h = min_of ss" "h_whole_max ?h = max_of ss"
    using rel by (simp_all add: bench_rel_def same)
  have total: "snd (print_lines 0 0 (counts_of ss)) = of_nat (length ss)"
    by (simp add: print_lines_total sum_counts_of)
  then have "fst (print_lines 0 0 (counts_of ss)) \<noteq> []"
    using assms(6) print_lines_empty by metis
  then have "line_total (last (fst (print_lines 0 0 (counts_of ss)))) = of_nat (length ss)"
    using print_lines_last total by metis
  then have "sum_ops (print_summary ?h) = of_nat (length ss) \<and> sum_count (print_summary ?h) = of_nat (length ss) \<and>
      line_total (last (sum_lines (print_summary ?h))) = of_nat (length ss) \<and>
      sum_min (print_summary ?h) = min_of ss \<and> sum_max (print_summary ?h) = max_of ss \<and>
      sum_avg (print_summary ?h) = sum_list (map fst ss) div of_nat (length ss)"
    using total by (simp add: print_summary_def h case_prod_beta Let_def stat_of_def)
  moreover have "(b, print_summary ?h) \<in> set (ia_histogram_print g)"
    using \<open>b \<in> set benchmarks\<close> assms(6) by (simp add: ia_histogram_print_def h)
  ultimately show ?thesis by (auto simp: w')
qed

theorem printed_table_witness:
  "\<exists>tr w r w' s. hruns (world_init 1) tr w \<and> hstep w Final r w' \<and>
    (IA_SET, s) \<in> set (ia_histogram_print (w_global w')) \<and> sum_ops s = 3 \<and> sum_count s = 3 \<and>
    sum_min s = min_of [(5, 48), (100, 48), (1000, 48)] \<and> sum_avg s = 368"
proof -
  obtain tr w where r: "hruns (world_init 1) tr w" "quiescent w" and on: "h_enabled (per_bench (w_global w) IA_SET)"
    and ss: "added (\<lambda>_. IA_SET) (map fst tr) IA_SET = [(5, 48), (100, 48), (1000, 48)]"
    and "\<exists>r w'. hstep w Final r w'"
    by (rule sample_reached)
  then obtain rep w' where f: "hstep w Final rep w'" by blast
  obtain s where s: "(IA_SET, s) \<in> set (ia_histogram_print (w_global w'))" "sum_ops s = 3" "sum_count s = 3"
    "sum_min s = min_of [(5, 48), (100, 48), (1000, 48)]" "sum_avg s = 368"
    using printed_table [OF r f on ss] by auto
  then show ?thesis using r(1) f by blast
qed

text \<open>
  C14: once every live doer has merged ahead of the others of its round - which happens when the one
  doer that had not merged ends - no measurement brings a periodic report any more and nothing
  is merged until the final one.
\<close>

theorem reports_stall:
  assumes "stalled w" and "hruns w tr w'" and "\<forall>e \<in> set tr. \<exists>i s. fst e = Add i s"
  shows "w_global w' = w_global w \<and> (\<forall>e \<in> set tr. snd e = None)"
  using assms(2,1,3)
proof (induction rule: hruns.induct)
  case (cons w e r w1 tr w2)
  then obtain i s where "e = Add i s" by auto
  then show ?case using cons stalled_add by auto
qed simp

theorem reports_stall_witness:
  "\<exists>tr0 w w' r. hruns (world_init 1) tr0 w \<and> hruns w [(Add 0 (1000, 48), r)] w' \<and> r = None"
proof -
  obtain tr0 w where w: "hexec_all (world_init 1) stall_actions = Some (tr0, w)" "stalled w"
    and l: "hexec w later_action \<noteq> None"
    using stall_run by auto
  obtain e r w' where e: "hexec w later_action = Some (e, r, w')" using l by auto
  then have "e = Add 0 (1000, 48)"
    by (auto simp: later_action_def split: if_splits)
  then have run: "hruns w [(Add 0 (1000, 48), r)] w'"
    using hexec_step [OF e] by (auto intro: hruns.intros)
  then have "r = None"
    using reports_stall [OF w(2) run] by auto
  then show ?thesis
    using run hexec_all_runs [OF w(1)] by blast
qed

end
