(* ===== verification/Config.thy ===== *)
theory Config
  imports Common
begin

text \<open>
  The configuration (\<open>src/ia_config.c\<close>) and the table of drivers (\<open>src/ia_build.h.in\<close>).  C strings
  are lists of characters.  The C library functions the code uses (\<open>strcasecmp\<close>, \<open>strncasecmp\<close>,
  \<open>strtok\<close>, \<open>atoi\<close>, \<open>atoll\<close>, \<open>getopt\<close>) are written out for the "C" locale; the allocations of
  \<open>strdup\<close> and \<open>calloc\<close> succeed or fail as the argument \<open>mem\<close> says.  Which drivers are compiled in is
  an argument as well: the \<open>HAVE_\<close> switches are set by the build.  The messages and the usage text
  are not modelled.
\<close>

section \<open>Strings\<close>

definition tolower :: "char \<Rightarrow> char" where
  "tolower c = (let n = of_char c :: nat in if 65 \<le> n \<and> n \<le> 90 then char_of (n + 32) else c)"

definition strcaseeq :: "string \<Rightarrow> string \<Rightarrow> bool" where
  "strcaseeq a b \<longleftrightarrow> map tolower a = map tolower b"

definition strncaseeq :: "string \<Rightarrow> string \<Rightarrow> nat \<Rightarrow> bool" where
  "strncaseeq a b n \<longleftrightarrow> strcaseeq (take n a) (take n b)"

definition isspace :: "char \<Rightarrow> bool" where
  "isspace c \<longleftrightarrow> (of_char c :: nat) \<in> {9, 10, 11, 12, 13, 32}"

definition isdigit :: "char \<Rightarrow> bool" where
  "isdigit c \<longleftrightarrow> 48 \<le> (of_char c :: nat) \<and> (of_char c :: nat) \<le> 57"

definition digits_value :: "string \<Rightarrow> int" where
  "digits_value s = foldl (\<lambda>v c. 10 * v + (of_char c - 48)) 0 (takeWhile isdigit s)"

text \<open>
  \<open>strtoll\<close> saturates at the ends of \<open>long long\<close>; \<open>atoi\<close> is its truncation to \<open>int\<close>, as in glibc.
\<close>

definition atoll :: "string \<Rightarrow> int" where
  "atoll s =
     (let t = dropWhile isspace s;
          v = (case t of CHR ''-'' # u \<Rightarrow> - digits_value u | CHR ''+'' # u \<Rightarrow> digits_value u | _ \<Rightarrow> digits_value t)
      in max (- (2 ^ 63)) (min (2 ^ 63 - 1) v))"

definition atoi :: "string \<Rightarrow> int" where
  "atoi s = signed_take_bit 31 (atoll s)"

text \<open>The tokens \<open>strtok\<close> hands out, one after the other.\<close>

fun strtok_from :: "string \<Rightarrow> string \<Rightarrow> string \<Rightarrow> string list" where
  "strtok_from sep [] tok = (if tok = [] then [] else [tok])"
| "strtok_from sep (c # s) tok =
     (if c \<in> set sep then (if tok = [] then strtok_from sep s [] else tok # strtok_from sep s [])
      else strtok_from sep s (tok @ [c]))"

definition strtok :: "string \<Rightarrow> string \<Rightarrow> string list" where
  "strtok sep s = strtok_from sep s []"

section \<open>Names\<close>

fun ia_syncmode2str :: "iasyncmode \<Rightarrow> string" where
  "ia_syncmode2str IA_SYNC = ''sync''"
| "ia_syncmode2str IA_LAZY = ''lazy''"
| "ia_syncmode2str IA_NOSYNC = ''nosync''"

definition ia_str2syncmode :: "string \<Rightarrow> iasyncmode option" where
  "ia_str2syncmode str =
     (if strcaseeq str (ia_syncmode2str IA_SYNC) then Some IA_SYNC
      else if strcaseeq str (ia_syncmode2str IA_LAZY) then Some IA_LAZY
      else if strcaseeq str (ia_syncmode2str IA_NOSYNC) then Some IA_NOSYNC
      else None)"

fun ia_walmode2str :: "iawalmode \<Rightarrow> string" where
  "ia_walmode2str IA_WAL_INDEF = ''indef''"
| "ia_walmode2str IA_WAL_ON = ''walon''"
| "ia_walmode2str IA_WAL_OFF = ''waloff''"

definition ia_str2walmode :: "string \<Rightarrow> iawalmode option" where
  "ia_str2walmode str =
     (if strcaseeq str (ia_walmode2str IA_WAL_INDEF) then Some IA_WAL_INDEF
      else if strcaseeq str (ia_walmode2str IA_WAL_ON) then Some IA_WAL_ON
      else if strcaseeq str (ia_walmode2str IA_WAL_OFF) then Some IA_WAL_OFF
      else None)"

text \<open>\<open>NULL\<close> for \<open>IA_MAX\<close> (after the assertion, when it is compiled out).\<close>

fun ia_benchmarkof :: "iabenchmark \<Rightarrow> string option" where
  "ia_benchmarkof IA_SET = Some ''set''"
| "ia_benchmarkof IA_GET = Some ''get''"
| "ia_benchmarkof IA_DELETE = Some ''del''"
| "ia_benchmarkof IA_ITERATE = Some ''iter''"
| "ia_benchmarkof IA_BATCH = Some ''batch''"
| "ia_benchmarkof IA_CRUD = Some ''crud''"
| "ia_benchmarkof IA_MAX = None"

definition ia_benchmark :: "string \<Rightarrow> iabenchmark" where
  "ia_benchmark name =
     (if strcaseeq name ''set'' then IA_SET
      else if strcaseeq name ''get'' then IA_GET
      else if strcaseeq name ''del'' \<or> strcaseeq name ''delete'' then IA_DELETE
      else if strcaseeq name ''iter'' \<or> strcaseeq name ''iterate'' then IA_ITERATE
      else if strcaseeq name ''batch'' then IA_BATCH
      else if strcaseeq name ''crud'' \<or> strcaseeq name ''transact'' then IA_CRUD
      else IA_MAX)"

section \<open>The table of drivers\<close>

datatype driver_id = Ia_dummy | Ia_debug | Ia_sophia | Ia_rocksdb | Ia_mdbx | Ia_lmdb | Ia_leveldb
  | Ia_wt | Ia_forestdb | Ia_sqlite3 | Ia_unqlite | Ia_upscaledb | Ia_vedisdb | Ia_iowow

text \<open>The \<open>.name\<close> members, and whether the \<open>.option\<close> member is set.\<close>

fun driver_name :: "driver_id \<Rightarrow> string" where
  "driver_name Ia_dummy = ''dummy''"
| "driver_name Ia_debug = ''debug''"
| "driver_name Ia_sophia = ''sophia''"
| "driver_name Ia_rocksdb = ''rocksdb''"
| "driver_name Ia_mdbx = ''mdbx''"
| "driver_name Ia_lmdb = ''lmdb''"
| "driver_name Ia_leveldb = ''leveldb''"
| "driver_name Ia_wt = ''wiredtiger''"
| "driver_name Ia_forestdb = ''forestdb''"
| "driver_name Ia_sqlite3 = ''sqlite3''"
| "driver_name Ia_unqlite = ''unqlite''"
| "driver_name Ia_upscaledb = ''upscaledb''"
| "driver_name Ia_vedisdb = ''vedisdb''"
| "driver_name Ia_iowow = ''iowow''"

definition driver_has_option :: "driver_id \<Rightarrow> bool" where
  "driver_has_option d \<longleftrightarrow> d \<in> {Ia_dummy, Ia_debug, Ia_mdbx}"

text \<open>The chain of comparisons; the first two drivers are always there.\<close>

definition driver_table :: "(driver_id \<Rightarrow> bool) \<Rightarrow> driver_id list" where
  "driver_table have = [Ia_dummy, Ia_debug] @
     filter have [Ia_sophia, Ia_rocksdb, Ia_mdbx, Ia_lmdb, Ia_leveldb, Ia_wt, Ia_forestdb,
       Ia_sqlite3, Ia_unqlite, Ia_upscaledb, Ia_vedisdb, Ia_iowow]"

definition ia_get_driver_for :: "(driver_id \<Rightarrow> bool) \<Rightarrow> string \<Rightarrow> driver_id option" where
  "ia_get_driver_for have name = find (\<lambda>d. strcaseeq name (driver_name d)) (driver_table have)"

section \<open>The configuration\<close>

record iaconfig =
  c_driver :: "string option"
  c_driver_if :: "driver_id option"
  c_path :: "string option"
  c_benchmark :: "string option"
  c_drv_opts :: "string option list"
  c_benchmark_list :: "iabenchmark \<Rightarrow> bool"
  c_ksize :: int
  c_vsize :: int
  c_count :: u64
  c_syncmode :: iasyncmode
  c_walmode :: iawalmode
  c_rthr :: int
  c_wthr :: int
  c_batch_length :: int
  c_nrepeat :: int
  c_kvseed :: int
  c_csv_prefix :: "string option"
  c_binary :: bool
  c_separate :: bool
  c_ignore_keynotfound :: bool
  c_continuous_completing :: bool

text \<open>Outcomes of the allocations: of \<open>strdup s\<close>, and of the list node for option number \<open>n\<close>.\<close>

record memory =
  strdup :: "string \<Rightarrow> string option"
  node_ok :: "nat \<Rightarrow> bool"

definition ia_configinit :: "memory \<Rightarrow> iaconfig \<Rightarrow> int \<times> iaconfig" where
  "ia_configinit mem c0 =
     (let c1 = c0\<lparr>c_driver := None, c_driver_if := None, c_drv_opts := [], c_path := strdup mem ''./_ioarena''\<rparr>
      in if c_path c1 = None then (-1, c1)
         else
           (let c2 = c1\<lparr>c_count := 1000000, c_ksize := 16, c_vsize := 32, c_csv_prefix := None,
                        c_rthr := 0, c_wthr := 0, c_batch_length := 500, c_benchmark := strdup mem ''set, get''\<rparr>
            in if c_benchmark c2 = None then (-1, c2\<lparr>c_path := None\<rparr>)
               else (0, c2\<lparr>c_benchmark_list := (\<lambda>_. False), c_syncmode := IA_LAZY, c_walmode := IA_WAL_INDEF,
                           c_continuous_completing := False, c_nrepeat := 1, c_kvseed := 42, c_binary := False,
                           c_separate := False, c_ignore_keynotfound := False\<rparr>)))"

text \<open>
  What \<open>getopt\<close> hands out for the arguments after the program name: option characters with their
  arguments (\<open>?\<close> for an unknown option or a missing argument).  Arguments that are no options are
  skipped, \<open>--\<close> ends the options.
\<close>

definition plain_options :: string where "plain_options = ''hic''"
definition arg_options :: string where "arg_options = ''DTBpnkvCmlrwo''"

fun getopt_cluster :: "string \<Rightarrow> string list \<Rightarrow> (char \<times> string) list \<times> bool" where
  "getopt_cluster [] rest = ([], False)"
| "getopt_cluster (c # cs) rest =
     (if c \<in> set plain_options then
        (let (os, used) = getopt_cluster cs rest in ((c, []) # os, used))
      else if c \<in> set arg_options then
        (if cs \<noteq> [] then ([(c, cs)], False)
         else case rest of [] \<Rightarrow> ([(CHR ''?'', [])], False) | a # _ \<Rightarrow> ([(c, a)], True))
      else (let (os, used) = getopt_cluster cs rest in ((CHR ''?'', []) # os, used)))"

function getopt :: "string list \<Rightarrow> (char \<times> string) list" where
  "getopt [] = []"
| "getopt (a # rest) =
     (if a = ''--'' then []
      else if 2 \<le> length a \<and> hd a = CHR ''-'' then
        (let (os, used) = getopt_cluster (tl a) rest in os @ getopt (if used then tl rest else rest))
      else getopt rest)"
  by pat_completeness auto
termination
  by (relation "measure length") (auto split: if_splits)

text \<open>One turn of the loop of \<open>ia_configparse\<close>: go on with the new configuration, or return a code.\<close>

definition parse_one :: "memory \<Rightarrow> (driver_id \<Rightarrow> bool) \<Rightarrow> iaconfig \<Rightarrow> char \<times> string \<Rightarrow> int option \<times> iaconfig" where
  "parse_one mem have c opt =
     (let (o', optarg) = opt
      in if o' = CHR ''D'' then
           (let c' = c\<lparr>c_driver := strdup mem optarg\<rparr>
            in case c_driver c' of
                 None \<Rightarrow> (Some (-1), c')
               | Some d \<Rightarrow>
                   (let c'' = c'\<lparr>c_driver_if := ia_get_driver_for have d\<rparr>
                    in (if c_driver_if c'' = None then Some (-1) else None, c'')))
         else if o' = CHR ''o'' then
           (if \<not> node_ok mem (length (c_drv_opts c)) then (Some (-1), c)
            else (let a = strdup mem optarg
                  in (if a = None then Some (-1) else None, c\<lparr>c_drv_opts := c_drv_opts c @ [a]\<rparr>)))
         else if o' = CHR ''T'' \<or> o' = CHR ''B'' then
           (let b = strdup mem optarg in (if b = None then Some (-1) else None, c\<lparr>c_benchmark := b\<rparr>))
         else if o' = CHR ''p'' then
           (let p = strdup mem optarg in (if p = None then Some (-1) else None, c\<lparr>c_path := p\<rparr>))
         else if o' = CHR ''n'' then (None, c\<lparr>c_count := of_int (atoll optarg)\<rparr>)
         else if o' = CHR ''k'' then (None, c\<lparr>c_ksize := atoi optarg\<rparr>)
         else if o' = CHR ''v'' then (None, c\<lparr>c_vsize := atoi optarg\<rparr>)
         else if o' = CHR ''C'' then (None, c\<lparr>c_csv_prefix := Some optarg\<rparr>)
         else if o' = CHR ''m'' then
           (case ia_str2syncmode optarg of
              None \<Rightarrow> (Some (-1), c)
            | Some m \<Rightarrow> (None, c\<lparr>c_syncmode := m\<rparr>))
         else if o' = CHR ''l'' then
           (case ia_str2walmode optarg of
              None \<Rightarrow> (Some (-1), c)
            | Some m \<Rightarrow> (None, c\<lparr>c_walmode := m\<rparr>))
         else if o' = CHR ''r'' then (None, c\<lparr>c_rthr := atoi optarg\<rparr>)
         else if o' = CHR ''w'' then (None, c\<lparr>c_wthr := atoi optarg\<rparr>)
         else if o' = CHR ''i'' then (None, c\<lparr>c_ignore_keynotfound := True\<rparr>)
         else if o' = CHR ''c'' then (None, c\<lparr>c_continuous_completing := True\<rparr>)
         else if o' = CHR ''h'' then (Some 1, c)
         else (Some (-1), c))"

fun parse_loop :: "memory \<Rightarrow> (driver_id \<Rightarrow> bool) \<Rightarrow> iaconfig \<Rightarrow> (char \<times> string) list \<Rightarrow> int option \<times> iaconfig" where
  "parse_loop mem have c [] = (None, c)"
| "parse_loop mem have c (x # xs) =
     (case parse_one mem have c x of
        (Some rc, c') \<Rightarrow> (Some rc, c')
      | (None, c') \<Rightarrow> parse_loop mem have c' xs)"

text \<open>The last loop of \<open>ia_configparse\<close>: the benchmarks by name.\<close>

fun parse_benchmarks :: "iaconfig \<Rightarrow> string list \<Rightarrow> int \<times> iaconfig" where
  "parse_benchmarks c [] = (0, c)"
| "parse_benchmarks c (p # ps) =
     (let bench = ia_benchmark p
      in if bench = IA_MAX then (-1, c)
         else parse_benchmarks (c\<lparr>c_benchmark_list := (c_benchmark_list c)(bench := True)\<rparr>) ps)"

definition ia_configparse ::
  "memory \<Rightarrow> (driver_id \<Rightarrow> bool) \<Rightarrow> iaconfig \<Rightarrow> string list \<Rightarrow> int \<times> iaconfig" where
  "ia_configparse mem have c0 argv =
     (case parse_loop mem have c0 (getopt (tl argv)) of
        (Some rc, c) \<Rightarrow> (rc, c)
      | (None, c) \<Rightarrow>
          if c_driver c = None then (-1, c)
          else if c_drv_opts c \<noteq> [] \<and> \<not> driver_has_option (the (c_driver_if c)) then (-1, c)
          else if c_ksize c \<le> 0 then (-1, c)
          else parse_benchmarks c (strtok '', '' (take 127 (the (c_benchmark c)))))"

text \<open>The blocks \<open>ia_configfree\<close> hands to \<open>free\<close>, in order.\<close>

definition ia_configfree :: "iaconfig \<Rightarrow> string list" where
  "ia_configfree c = List.map_filter id ([c_path c, c_driver c, c_benchmark c] @ c_drv_opts c)"

section \<open>Boolean driver options\<close>

definition ia_opt_bool_default :: int where "ia_opt_bool_default = 0"
definition ia_opt_bool_off :: int where "ia_opt_bool_off = -1"
definition ia_opt_bool_on :: int where "ia_opt_bool_on = 1"

definition partmatch :: "string \<Rightarrow> nat \<Rightarrow> string \<Rightarrow> bool" where
  "partmatch part part_len item \<longleftrightarrow> part_len = length item \<and> strncaseeq part item part_len"

text \<open>
  The result is the return code, the text the pointer \<open>*parg\<close> is left at, and \<open>*target\<close>.
\<close>

definition ia_parse_option_bool :: "string \<Rightarrow> string \<Rightarrow> int \<Rightarrow> int \<times> string \<times> int" where
  "ia_parse_option_bool parg opt target =
     (let name_len = length opt
      in if \<not> strncaseeq parg opt name_len \<or> \<not> (name_len < length parg \<and> parg ! name_len = CHR ''='')
         then (0, parg, target)
         else
           (let value = drop (name_len + 1) parg;
                comma = CHR '','' \<in> set value;
                value_len = length (takeWhile (\<lambda>c. c \<noteq> CHR '','') value);
                on = partmatch value value_len ''ON'' \<or> partmatch value value_len ''YES'' \<or>
                     partmatch value value_len ''TRUE'' \<or> partmatch value value_len ''1'';
                off = partmatch value value_len ''OFF'' \<or> partmatch value value_len ''NO'' \<or>
                      partmatch value value_len ''FALSE'' \<or> partmatch value value_len ''0''
            in if \<not> on \<and> \<not> off then (-1, parg, target)
               else
                 (let target' = (if on then ia_opt_bool_on else ia_opt_bool_off);
                      rest = drop (value_len + 1) value
                  in if \<not> comma then (1, parg, target')
                     else (if rest = [] then 1 else 0, rest, target'))))"

section \<open>Names and what they denote\<close>

lemma strcaseeq_refl [simp]: "strcaseeq s s"
  by (simp add: strcaseeq_def)

lemma find_self:
  assumes "d \<in> set ds" and "\<And>e. e \<in> set ds \<Longrightarrow> P e \<longleftrightarrow> e = d"
  shows "find P ds = Some d"
  using assms by (induction ds) auto

lemma driver_name_inj: "strcaseeq (driver_name a) (driver_name b) \<longleftrightarrow> a = b"
  by (cases a; cases b) (simp_all add: strcaseeq_def tolower_def)

lemma get_driver_for_name:
  assumes "d \<in> set (driver_table have)"
  shows "ia_get_driver_for have (driver_name d) = Some d"
  unfolding ia_get_driver_for_def by (rule find_self [OF assms]) (auto simp: driver_name_inj)

lemma get_driver_for_sound:
  assumes "ia_get_driver_for have name = Some d"
  shows "d \<in> set (driver_table have) \<and> strcaseeq name (driver_name d)"
  using assms by (auto simp: ia_get_driver_for_def find_Some_iff in_set_conv_nth)

section \<open>Parsing the command line\<close>

text \<open>What every turn of the option loop keeps.\<close>

definition config_ok :: "(driver_id \<Rightarrow> bool) \<Rightarrow> iaconfig \<Rightarrow> bool" where
  "config_ok have c \<longleftrightarrow> c_benchmark c \<noteq> None \<and> c_path c \<noteq> None \<and>
     (case c_driver c of
        None \<Rightarrow> c_driver_if c = None
      | Some name \<Rightarrow> \<exists>d. c_driver_if c = Some d \<and> d \<in> set (driver_table have) \<and> strcaseeq name (driver_name d)) \<and>
     (\<forall>a \<in> set (c_drv_opts c). a \<noteq> None)"

lemma configinit_ok:
  "ia_configinit mem c0 = (0, c) \<Longrightarrow> config_ok have c \<and> c_benchmark_list c = (\<lambda>_. False)"
  by (auto simp: ia_configinit_def config_ok_def Let_def split: if_splits)

lemma config_ok_update [simp]:
  "config_ok have (c\<lparr>c_count := n\<rparr>) = config_ok have c"
  "config_ok have (c\<lparr>c_ksize := k\<rparr>) = config_ok have c"
  "config_ok have (c\<lparr>c_vsize := k\<rparr>) = config_ok have c"
  "config_ok have (c\<lparr>c_rthr := k\<rparr>) = config_ok have c"
  "config_ok have (c\<lparr>c_wthr := k\<rparr>) = config_ok have c"
  "config_ok have (c\<lparr>c_csv_prefix := p\<rparr>) = config_ok have c"
  "config_ok have (c\<lparr>c_syncmode := m\<rparr>) = config_ok have c"
  "config_ok have (c\<lparr>c_walmode := w\<rparr>) = config_ok have c"
  "config_ok have (c\<lparr>c_ignore_keynotfound := b\<rparr>) = config_ok have c"
  "config_ok have (c\<lparr>c_continuous_completing := b\<rparr>) = config_ok have c"
  "config_ok have (c\<lparr>c_benchmark_list := l\<rparr>) = config_ok have c"
  by (simp_all add: config_ok_def split: option.split)

lemma config_ok_set [simp]:
  "config_ok have c \<Longrightarrow> config_ok have (c\<lparr>c_path := Some p\<rparr>)"
  "config_ok have c \<Longrightarrow> config_ok have (c\<lparr>c_benchmark := Some s\<rparr>)"
  "config_ok have c \<Longrightarrow> config_ok have (c\<lparr>c_drv_opts := c_drv_opts c @ [Some a]\<rparr>)"
  "config_ok have c \<Longrightarrow> ia_get_driver_for have name = Some d \<Longrightarrow>
    config_ok have (c\<lparr>c_driver := Some name, c_driver_if := Some d\<rparr>)"
  by (auto simp: config_ok_def dest: get_driver_for_sound split: option.splits)

lemma parse_one_ok:
  assumes ok: "config_ok have c" and p: "parse_one mem have c opt = (None, c')"
  shows "config_ok have c' \<and> c_benchmark_list c' = c_benchmark_list c"
proof (cases opt)
  case (Pair o' optarg)
  show ?thesis
    using p ok unfolding Pair parse_one_def Let_def prod.case
    by (simp split: if_split_asm option.split_asm) auto
qed

lemma parse_loop_ok:
  "parse_loop mem have c opts = (None, c') \<Longrightarrow> config_ok have c \<Longrightarrow>
    config_ok have c' \<and> c_benchmark_list c' = c_benchmark_list c"
proof (induction opts arbitrary: c)
  case (Cons x xs)
  then obtain c1 where "parse_one mem have c x = (None, c1)" "parse_loop mem have c1 xs = (None, c')"
    by (auto split: prod.splits option.splits)
  then show ?case using Cons parse_one_ok by metis
qed simp

lemma parse_loop_returns: "parse_loop mem have c opts = (Some rc, c') \<Longrightarrow> rc = -1 \<or> rc = 1"
proof (induction opts arbitrary: c)
  case (Cons x xs)
  have "parse_one mem have c x = (Some rc, c') \<Longrightarrow> rc = -1 \<or> rc = 1"
    by (auto simp: parse_one_def Let_def split: prod.splits if_splits option.splits)
  then show ?case using Cons by (auto split: prod.splits option.splits)
qed simp

lemma parse_benchmarks_ok:
  "parse_benchmarks c ps = (0, c') \<Longrightarrow>
    (\<forall>b. c_benchmark_list c' b \<longleftrightarrow> c_benchmark_list c b \<or> b \<in> ia_benchmark ` set ps) \<and>
    IA_MAX \<notin> ia_benchmark ` set ps \<and> (\<exists>l. c' = c\<lparr>c_benchmark_list := l\<rparr>)"
proof (induction ps arbitrary: c)
  case Nil
  then show ?case by (auto intro: exI [of _ "c_benchmark_list c"])
next
  case (Cons p ps)
  then have "ia_benchmark p \<noteq> IA_MAX" "parse_benchmarks (c\<lparr>c_benchmark_list := (c_benchmark_list c)(ia_benchmark p := True)\<rparr>) ps = (0, c')"
    by (auto simp: Let_def split: if_splits)
  with Cons.IH [OF this(2)] show ?case by auto
qed

lemma parse_benchmarks_rc: "fst (parse_benchmarks c ps) \<in> {0, -1}"
  by (induction c ps rule: parse_benchmarks.induct) (auto simp: Let_def)

section \<open>Boolean options\<close>

definition bool_words :: "bool \<Rightarrow> string list" where
  "bool_words b = (if b then [''ON'', ''YES'', ''TRUE'', ''1''] else [''OFF'', ''NO'', ''FALSE'', ''0''])"

lemma strcaseeq_length: "strcaseeq a b \<Longrightarrow> length a = length b"
  by (auto simp: strcaseeq_def dest: arg_cong [of _ _ length])

lemma partmatch_append: "partmatch (v @ r) (length v) item \<longleftrightarrow> strcaseeq v item"
proof
  assume "strcaseeq v item"
  then have "length v = length item" by (rule strcaseeq_length)
  with \<open>strcaseeq v item\<close> show "partmatch (v @ r) (length v) item"
    by (simp add: partmatch_def strncaseeq_def)
qed (auto simp: partmatch_def strncaseeq_def)

lemma strncaseeq_prefix: "strncaseeq (name @ r) opt (length opt) \<longleftrightarrow> strcaseeq name opt"
  if "length name = length opt"
  using that by (simp add: strncaseeq_def)

lemma bool_words_disjoint:
  "strcaseeq v w \<Longrightarrow> w \<in> set (bool_words b) \<Longrightarrow> strcaseeq v u \<Longrightarrow> u \<in> set (bool_words c) \<Longrightarrow> b = c"
  by (auto simp: bool_words_def strcaseeq_def tolower_def split: if_splits)

lemma parse_option_bool_match:
  assumes name: "strcaseeq name opt" and v: "strcaseeq v w" "w \<in> set (bool_words b)"
    and comma: "CHR '','' \<notin> set v"
  shows "ia_parse_option_bool (name @ ''='' @ v) opt t = (1, name @ ''='' @ v, if b then ia_opt_bool_on else ia_opt_bool_off)"
    and "ia_parse_option_bool (name @ ''='' @ v @ '','' @ rest) opt t =
      (if rest = [] then 1 else 0, rest, if b then ia_opt_bool_on else ia_opt_bool_off)"
proof -
  have len: "length opt = length name" using strcaseeq_length [OF name] by simp
  have on: "(\<exists>u \<in> set (bool_words c). strcaseeq v u) \<longleftrightarrow> c = b" for c
    using v bool_words_disjoint by blast
  have tk: "takeWhile (\<lambda>c. c \<noteq> CHR '','') (v @ '','' @ rest) = v" "takeWhile (\<lambda>c. c \<noteq> CHR '','') v = v"
    using comma by (auto simp: takeWhile_tail takeWhile_eq_all_conv)
  note words = on [of True, unfolded bool_words_def] on [of False, unfolded bool_words_def]
  have 1: "strncaseeq (name @ r) opt (length name)" for r
    using strncaseeq_prefix [of name opt r] name len by simp
  show "ia_parse_option_bool (name @ ''='' @ v) opt t = (1, name @ ''='' @ v, if b then ia_opt_bool_on else ia_opt_bool_off)"
    using 1 [of "''='' @ v"] comma words partmatch_append [of v "[]"]
    by (auto simp: ia_parse_option_bool_def len Let_def tk)
  show "ia_parse_option_bool (name @ ''='' @ v @ '','' @ rest) opt t =
      (if rest = [] then 1 else 0, rest, if b then ia_opt_bool_on else ia_opt_bool_off)"
    using 1 [of "''='' @ v @ '','' @ rest"] words partmatch_append [of v "'','' @ rest"] tk(1)
    by (auto simp: ia_parse_option_bool_def len Let_def)
qed

text \<open>A text that does not start with the name of the option is left alone.\<close>

definition option_head :: "string \<Rightarrow> string" where
  "option_head s = takeWhile (\<lambda>c. c \<noteq> CHR ''='') s"

lemma tolower_equals: "tolower c = CHR ''='' \<longleftrightarrow> c = CHR ''=''"
proof
  assume t: "tolower c = CHR ''=''"
  show "c = CHR ''=''"
  proof (cases "65 \<le> (of_char c :: nat) \<and> (of_char c :: nat) \<le> 90")
    case True
    then have "(of_char (char_of ((of_char c :: nat) + 32)) :: nat) = of_char (CHR ''='')"
      using t by (simp add: tolower_def Let_def)
    then show ?thesis using True by simp
  next
    case False
    then show ?thesis using t by (simp add: tolower_def Let_def split: if_splits)
  qed
qed (simp add: tolower_def)

lemma parse_option_bool_other:
  assumes opt: "CHR ''='' \<notin> set opt" and head: "\<not> strcaseeq (option_head s) opt"
  shows "ia_parse_option_bool s opt t = (0, s, t)"
proof (cases "strncaseeq s opt (length opt) \<and> length opt < length s \<and> s ! length opt = CHR ''=''")
  case False
  then show ?thesis by (auto simp: ia_parse_option_bool_def)
next
  case True
  let ?n = "length opt"
  have eq: "strcaseeq (take ?n s) opt" using True by (simp add: strncaseeq_def)
  have s: "s = take ?n s @ CHR ''='' # drop (Suc ?n) s"
    using True id_take_nth_drop [of ?n s] by simp
  have "CHR ''='' \<notin> set (take ?n s)"
  proof
    assume "CHR ''='' \<in> set (take ?n s)"
    then have "tolower (CHR ''='') \<in> set (map tolower (take ?n s))" by simp
    then have "tolower (CHR ''='') \<in> tolower ` set opt"
      using eq unfolding strcaseeq_def by (metis set_map)
    then show False using opt tolower_equals by (metis imageE)
  qed
  then have "option_head (take ?n s @ CHR ''='' # drop (Suc ?n) s) = take ?n s"
    unfolding option_head_def by (subst takeWhile_append2) auto
  then show ?thesis using head eq s by simp
qed

section \<open>Properties\<close>

text \<open>
  C15: every benchmark, durability mode, log mode and compiled-in driver is found again under the
  name the program prints for it.
\<close>

theorem names_roundtrip:
  "map ia_benchmark (List.map_filter ia_benchmarkof benchmarks) = benchmarks \<and>
    ia_str2syncmode (ia_syncmode2str m) = Some m \<and> ia_str2walmode (ia_walmode2str w) = Some w \<and>
    map (ia_get_driver_for have \<circ> driver_name) (driver_table have) = map Some (driver_table have)"
proof (intro conjI)
  show "map ia_benchmark (List.map_filter ia_benchmarkof benchmarks) = benchmarks"
    by code_simp
  show "ia_str2syncmode (ia_syncmode2str m) = Some m"
    by (cases m) (simp_all add: ia_str2syncmode_def strcaseeq_def tolower_def)
  show "ia_str2walmode (ia_walmode2str w) = Some w"
    by (cases w) (simp_all add: ia_str2walmode_def strcaseeq_def tolower_def)
  show "map (ia_get_driver_for have \<circ> driver_name) (driver_table have) = map Some (driver_table have)"
    by (simp add: get_driver_for_name)
qed

text \<open>
  C16: a command line is accepted (0) only with a driver that is compiled in and found under the
  name given, a positive key size, no driver options for a driver that takes none, and every
  benchmark name known; the benchmarks to run are then exactly those named.  Otherwise the result
  is -1, or 1 for a request for help.
\<close>

theorem configparse_sound:
  assumes "ia_configinit mem c0 = (0, c1)" and "ia_configparse mem have c1 argv = (rc, c)"
  shows "rc \<in> {0, -1, 1} \<and> (rc = 0 \<longrightarrow>
    (\<exists>d name bench. c_driver_if c = Some d \<and> d \<in> set (driver_table have) \<and> c_driver c = Some name \<and>
       strcaseeq name (driver_name d) \<and> 0 < c_ksize c \<and>
       (c_drv_opts c = [] \<or> driver_has_option d) \<and> c_benchmark c = Some bench \<and>
       (let names = strtok '', '' (take 127 bench)
        in IA_MAX \<notin> ia_benchmark ` set names \<and> {b. c_benchmark_list c b} = ia_benchmark ` set names)))"
proof (cases "parse_loop mem have c1 (getopt (tl argv))")
  case (Pair res c2)
  show ?thesis
  proof (cases res)
    case (Some r)
    then show ?thesis using parse_loop_returns [OF Pair [unfolded Some]] Pair assms(2)
      by (auto simp: ia_configparse_def)
  next
    case None
    have ok: "config_ok have c2" and empty: "c_benchmark_list c2 = (\<lambda>_. False)"
      using parse_loop_ok [OF Pair [unfolded None]] configinit_ok [OF assms(1)] by auto
    show ?thesis
    proof (cases "c_driver c2 = None \<or> c_drv_opts c2 \<noteq> [] \<and> \<not> driver_has_option (the (c_driver_if c2)) \<or> c_ksize c2 \<le> 0")
      case True
      then show ?thesis using assms(2) Pair None by (auto simp: ia_configparse_def split: if_splits)
    next
      case False
      then obtain name d bench where d: "c_driver c2 = Some name" "c_driver_if c2 = Some d"
        "d \<in> set (driver_table have)" "strcaseeq name (driver_name d)" "c_benchmark c2 = Some bench"
        using ok by (auto simp: config_ok_def)
      have p: "parse_benchmarks c2 (strtok '', '' (take 127 bench)) = (rc, c)"
        using assms(2) Pair None False d by (auto simp: ia_configparse_def)
      then have "rc \<in> {0, -1}" using parse_benchmarks_rc by (metis fst_conv)
      moreover have ?thesis if "rc = 0"
        using parse_benchmarks_ok [OF p [unfolded that]] False d that empty by (auto simp: Let_def)
      ultimately show ?thesis by auto
    qed
  qed
qed

definition sample_memory :: memory where
  "sample_memory = \<lparr>strdup = Some, node_ok = (\<lambda>_. True)\<rparr>"

definition blank_config :: iaconfig where
  "blank_config = \<lparr>c_driver = None, c_driver_if = None, c_path = None, c_benchmark = None, c_drv_opts = [],
     c_benchmark_list = (\<lambda>_. False), c_ksize = 0, c_vsize = 0, c_count = 0, c_syncmode = IA_SYNC,
     c_walmode = IA_WAL_INDEF, c_rthr = 0, c_wthr = 0, c_batch_length = 0, c_nrepeat = 0, c_kvseed = 0,
     c_csv_prefix = None, c_binary = False, c_separate = False, c_ignore_keynotfound = False,
     c_continuous_completing = False\<rparr>"

definition sample_argv :: "string list" where
  "sample_argv = [''ioarena'', ''-D'', ''LMDB'', ''-B'', ''crud, get'', ''-n1000'', ''-ik'', ''24'']"

lemma sample_parse:
  "case ia_configparse sample_memory (\<lambda>d. d = Ia_lmdb) (snd (ia_configinit sample_memory blank_config)) sample_argv of
    (rc, c) \<Rightarrow> (rc, c_ksize c, c_count c, c_ignore_keynotfound c) = (0, 24, 1000, True)"
  by code_simp

theorem configparse_sound_witness:
  "\<exists>c d. ia_configparse sample_memory (\<lambda>d. d = Ia_lmdb) (snd (ia_configinit sample_memory blank_config)) sample_argv = (0, c) \<and>
    c_driver_if c = Some d \<and> d \<in> set (driver_table (\<lambda>d. d = Ia_lmdb)) \<and> 0 < c_ksize c"
proof -
  let ?c1 = "snd (ia_configinit sample_memory blank_config)"
  have init: "ia_configinit sample_memory blank_config = (0, ?c1)"
    by (simp add: ia_configinit_def sample_memory_def Let_def)
  obtain c where p: "ia_configparse sample_memory (\<lambda>d. d = Ia_lmdb) ?c1 sample_argv = (0, c)"
    using sample_parse by (auto split: prod.splits)
  show ?thesis using configparse_sound [OF init p] p by auto
qed

end
