(* ===== verification/Driver.thy ===== *)
theory Driver
  imports KeyGen Config
begin

text \<open>
  The interface between the benchmark and the databases (\<open>src/ia_driver.h\<close>): a record of
  operations, as in the C struct, and the contract the benchmark relies on, as a locale.  \<open>'w\<close> is
  what a driver's operations share (its private struct and the state of its library), \<open>'c\<close> is the
  context of one doer.  An operation that fails returns its error code; \<open>None\<close> stands for an
  assertion that does not hold or a null pointer that is followed.

  The two drivers without a database, \<open>src/drivers/ia_dummy.c\<close> and \<open>src/drivers/ia_debug.c\<close>, are
  here as well, as the first interpretations of the contract.
\<close>

section \<open>The interface\<close>

record ('w, 'c) iadriver =
  d_name :: string
  d_open :: "iaconfig \<Rightarrow> string \<Rightarrow> 'w \<Rightarrow> (int \<times> 'w) option"
  d_close :: "'w \<Rightarrow> (int \<times> 'w) option"
  d_thread_new :: "'w \<Rightarrow> ('c option \<times> 'w) option"
  d_thread_dispose :: "'c \<Rightarrow> 'w \<Rightarrow> 'w option"
  d_begin :: "'c \<Rightarrow> iabenchmark \<Rightarrow> 'w \<Rightarrow> (int \<times> 'c \<times> 'w) option"
  d_next :: "'c \<Rightarrow> iabenchmark \<Rightarrow> iakv \<Rightarrow> 'w \<Rightarrow> (int \<times> iakv \<times> 'c \<times> 'w) option"
  d_done :: "'c \<Rightarrow> iabenchmark \<Rightarrow> 'w \<Rightarrow> (int \<times> 'c \<times> 'w) option"
  d_option :: "('c option \<Rightarrow> string \<Rightarrow> 'w \<Rightarrow> (int \<times> 'w) option) option"

text \<open>The operations \<open>next\<close> is asked for inside a benchmark.\<close>

definition step_allowed :: "iabenchmark \<Rightarrow> iabenchmark \<Rightarrow> bool" where
  "step_allowed bench step \<longleftrightarrow>
     (if bench \<in> {IA_CRUD, IA_BATCH} then step \<in> {IA_SET, IA_DELETE, IA_GET}
      else step = bench \<and> bench \<noteq> IA_MAX)"

text \<open>What the operations may read of a record: as many bytes as its sizes say.\<close>

definition readable :: "u8 list option \<Rightarrow> u64 \<Rightarrow> bool" where
  "readable p n \<longleftrightarrow> n = 0 \<or> (\<exists>bs. p = Some bs \<and> unat n \<le> length bs)"

definition kv_ready :: "iakv \<Rightarrow> bool" where
  "kv_ready kv \<longleftrightarrow> readable (kv_k kv) (kv_ksize kv) \<and> readable (kv_v kv) (kv_vsize kv)"

text \<open>
  The contract.  \<open>idle\<close> is what a doer may assume of its context between two transactions, \<open>ready\<close>
  within one; \<open>rely\<close> bounds what the other doers do to the shared state in between, and every
  operation stays within it.
\<close>

locale driver_contract =
  fixes drv :: "('w, 'c) iadriver"
    and opened :: "'w \<Rightarrow> bool"
    and idle :: "'c \<Rightarrow> 'w \<Rightarrow> bool"
    and ready :: "iabenchmark \<Rightarrow> 'c \<Rightarrow> 'w \<Rightarrow> bool"
    and rely :: "'w \<Rightarrow> 'w \<Rightarrow> bool"
  assumes rely_refl: "rely w w"
    and rely_trans: "rely w w1 \<Longrightarrow> rely w1 w2 \<Longrightarrow> rely w w2"
    and opened_rely: "opened w \<Longrightarrow> rely w w' \<Longrightarrow> opened w'"
    and idle_opened: "idle c w \<Longrightarrow> opened w"
    and idle_rely: "idle c w \<Longrightarrow> rely w w' \<Longrightarrow> idle c w'"
    and ready_rely: "ready b c w \<Longrightarrow> rely w w' \<Longrightarrow> ready b c w'"
    and thread_new_ok: "opened w \<Longrightarrow> \<exists>r w'. d_thread_new drv w = Some (r, w') \<and> rely w w' \<and>
      (\<forall>c. r = Some c \<longrightarrow> idle c w')"
    and dispose_ok: "idle c w \<Longrightarrow> \<exists>w'. d_thread_dispose drv c w = Some w' \<and> rely w w'"
    and begin_ok: "idle c w \<Longrightarrow> b < IA_MAX \<Longrightarrow> \<exists>rc c' w'. d_begin drv c b w = Some (rc, c', w') \<and>
      rely w w' \<and> idle c' w' \<and> (rc = 0 \<and> ready b c' w' \<or> rc = -1)"
    and next_ok: "ready b c w \<Longrightarrow> idle c w \<Longrightarrow> step_allowed b step \<Longrightarrow> (step \<noteq> IA_ITERATE \<Longrightarrow> kv_ready kv) \<Longrightarrow>
      \<exists>rc kv' c' w'. d_next drv c step kv w = Some (rc, kv', c', w') \<and>
        rely w w' \<and> idle c' w' \<and> ready b c' w' \<and> rc \<in> {0, ENOENT, -1} \<and> (step \<in> {IA_SET, IA_DELETE} \<longrightarrow> kv' = kv)"
    and done_ok: "idle c w \<Longrightarrow> b < IA_MAX \<Longrightarrow> \<exists>rc c' w'. d_done drv c b w = Some (rc, c', w') \<and>
      rely w w' \<and> idle c' w' \<and> rc \<in> {0, -1}"
    and option_ok: "idle c w \<Longrightarrow> d_option drv = Some opt \<Longrightarrow>
      \<exists>rc w'. opt (Some c) arg w = Some (rc, w') \<and> rely w w'"

text \<open>
  A driver that also survives an operation after a \<open>begin\<close> that failed; the batch benchmark asks
  for one.
\<close>

locale robust_driver = driver_contract +
  assumes next_idle: "idle c w \<Longrightarrow> step \<in> {IA_SET, IA_DELETE, IA_GET} \<Longrightarrow> kv_ready kv \<Longrightarrow>
      \<exists>rc kv' c' w'. d_next drv c step kv w = Some (rc, kv', c', w') \<and>
        rely w w' \<and> idle c' w' \<and> rc \<in> {0, ENOENT, -1} \<and> (step \<in> {IA_SET, IA_DELETE} \<longrightarrow> kv' = kv)"

text \<open>
  The whole life of a driver: \<open>fresh\<close> before \<open>open\<close>, when the program only gives it the options of
  the command line; \<open>closeable\<close> is what \<open>close\<close> asks for, which the program calls whether or not
  \<open>open\<close> has succeeded, or has been called at all.
\<close>

locale program_driver = robust_driver +
  fixes fresh :: "'w \<Rightarrow> bool"
    and closeable :: "'w \<Rightarrow> bool"
  assumes open_ok: "fresh w \<Longrightarrow> \<exists>rc w'. d_open drv conf dir w = Some (rc, w') \<and>
      (rc = 0 \<and> opened w' \<or> rc = -1 \<and> closeable w')"
    and close_ok: "closeable w \<Longrightarrow> d_close drv w \<noteq> None"
    and opened_closeable: "opened w \<Longrightarrow> closeable w"
    and fresh_closeable: "fresh w \<Longrightarrow> closeable w"
    and global_option: "fresh w \<Longrightarrow> d_option drv = Some opt \<Longrightarrow> opt None arg w = Some (rc, w') \<Longrightarrow> fresh w'"

text \<open>
  The contract for the drivers of the simpler kind: no doer changes the private struct of an open
  driver, a context is good or not whatever the others do, and the driver takes no options.
\<close>

lemma private_driverI:
  fixes priv :: "'w \<Rightarrow> 'p" and drv :: "('w, 'c) iadriver"
  assumes opened_same: "\<And>w w'. opened w \<Longrightarrow> priv w' = priv w \<Longrightarrow> opened w'"
    and new: "\<And>w. opened w \<Longrightarrow> \<exists>r w'. d_thread_new drv w = Some (r, w') \<and> priv w' = priv w \<and> (\<forall>c. r = Some c \<longrightarrow> good c)"
    and dispose: "\<And>c w. opened w \<Longrightarrow> good c \<Longrightarrow> \<exists>w'. d_thread_dispose drv c w = Some w' \<and> priv w' = priv w"
    and begins: "\<And>b c w. opened w \<Longrightarrow> good c \<Longrightarrow> b < IA_MAX \<Longrightarrow> \<exists>rc c' w'. d_begin drv c b w = Some (rc, c', w') \<and>
      priv w' = priv w \<and> good c' \<and> (rc = 0 \<and> ready b c' \<or> rc = -1)"
    and dones: "\<And>b c w. opened w \<Longrightarrow> good c \<Longrightarrow> b < IA_MAX \<Longrightarrow> \<exists>rc c' w'. d_done drv c b w = Some (rc, c', w') \<and>
      priv w' = priv w \<and> good c' \<and> rc \<in> {0, -1}"
    and data: "\<And>step kv c w. opened w \<Longrightarrow> good c \<Longrightarrow> step \<in> {IA_SET, IA_DELETE, IA_GET} \<Longrightarrow> kv_ready kv \<Longrightarrow>
      \<exists>rc kv' c' w'. d_next drv c step kv w = Some (rc, kv', c', w') \<and> priv w' = priv w \<and> good c' \<and>
        (\<forall>b. ready b c \<longrightarrow> ready b c') \<and> rc \<in> {0, ENOENT, -1} \<and> (step \<in> {IA_SET, IA_DELETE} \<longrightarrow> kv' = kv)"
    and iterate: "\<And>kv c w. opened w \<Longrightarrow> good c \<Longrightarrow> ready IA_ITERATE c \<Longrightarrow>
      \<exists>rc kv' c' w'. d_next drv c IA_ITERATE kv w = Some (rc, kv', c', w') \<and> priv w' = priv w \<and> good c' \<and>
        ready IA_ITERATE c' \<and> rc \<in> {0, ENOENT, -1}"
    and no_option: "d_option drv = None"
    and opens: "\<And>conf dir w. fresh w \<Longrightarrow> \<exists>rc w'. d_open drv conf dir w = Some (rc, w') \<and> (rc = 0 \<and> opened w' \<or> rc = -1 \<and> closeable w')"
    and closes: "\<And>w. closeable w \<Longrightarrow> d_close drv w \<noteq> None" "\<And>w. opened w \<Longrightarrow> closeable w" "\<And>w. fresh w \<Longrightarrow> closeable w"
  shows "program_driver drv opened (\<lambda>c w. opened w \<and> good c) (\<lambda>b c w. ready b c) (\<lambda>w w'. priv w' = priv w) fresh closeable"
proof
  fix c :: 'c and w w' w1 :: 'w and b step kv arg opt
  show "\<exists>rc kv' c' w'. d_next drv c step kv w = Some (rc, kv', c', w') \<and> priv w' = priv w \<and> (opened w' \<and> good c') \<and>
      ready b c' \<and> rc \<in> {0, ENOENT, -1} \<and> (step \<in> {IA_SET, IA_DELETE} \<longrightarrow> kv' = kv)"
    if "ready b c" "opened w \<and> good c" "step_allowed b step" "step \<noteq> IA_ITERATE \<Longrightarrow> kv_ready kv"
  proof (cases "step = IA_ITERATE")
    case True
    then have "b = IA_ITERATE" using that(3) by (auto simp: step_allowed_def split: if_splits)
    then show ?thesis using iterate [of w c kv] that True opened_same by fastforce
  next
    case False
    then have "step \<in> {IA_SET, IA_DELETE, IA_GET}" using that(3) by (cases b) (auto simp: step_allowed_def)
    then show ?thesis using data [of w c step kv] that False opened_same by fastforce
  qed
  show "\<exists>rc kv' c' w'. d_next drv c step kv w = Some (rc, kv', c', w') \<and> priv w' = priv w \<and> (opened w' \<and> good c') \<and>
      rc \<in> {0, ENOENT, -1} \<and> (step \<in> {IA_SET, IA_DELETE} \<longrightarrow> kv' = kv)"
    if "opened w \<and> good c" "step \<in> {IA_SET, IA_DELETE, IA_GET}" "kv_ready kv"
    using data [of w c step kv] that opened_same [of w] by blast
  show "\<exists>rc c' w'. d_begin drv c b w = Some (rc, c', w') \<and> priv w' = priv w \<and> (opened w' \<and> good c') \<and>
      (rc = 0 \<and> ready b c' \<or> rc = -1)" if "opened w \<and> good c" "b < IA_MAX"
    using begins [of w c b] that opened_same [of w] by blast
  show "\<exists>rc c' w'. d_done drv c b w = Some (rc, c', w') \<and> priv w' = priv w \<and> (opened w' \<and> good c') \<and> rc \<in> {0, -1}"
    if "opened w \<and> good c" "b < IA_MAX"
    using dones [of w c b] that opened_same [of w] by blast
  show "\<exists>r w'. d_thread_new drv w = Some (r, w') \<and> priv w' = priv w \<and> (\<forall>c. r = Some c \<longrightarrow> opened w' \<and> good c)" if "opened w"
    using new [OF that] that opened_same [of w] by blast
  show "\<exists>w'. d_thread_dispose drv c w = Some w' \<and> priv w' = priv w" if "opened w \<and> good c"
    using dispose that by blast
  show "opened w'" if "opened w" "priv w' = priv w" by (rule opened_same [OF that])
  show "opened w' \<and> good c" if "opened w \<and> good c" "priv w' = priv w" using that opened_same by blast
  show "d_close drv w \<noteq> None" if "closeable w" by (rule closes(1) [OF that])
  show "closeable w" if "opened w" by (rule closes(2) [OF that])
  show "closeable w" if "fresh w" by (rule closes(3) [OF that])
qed (use opens no_option in simp_all)

text \<open>
  Objects of a library behind a pointer of a driver, for the drivers that have a library: null or
  an object that may be used, and what a call leaves behind that pointer.
\<close>

definition live_or_null :: "('txn \<Rightarrow> bool) \<Rightarrow> 'txn option \<Rightarrow> bool" where
  "live_or_null alive tp \<longleftrightarrow> (case tp of None \<Rightarrow> True | Some t \<Rightarrow> alive t)"

definition same_or_live :: "('txn \<Rightarrow> bool) \<Rightarrow> 'txn option \<Rightarrow> 'txn option \<Rightarrow> bool" where
  "same_or_live alive tp tp' \<longleftrightarrow> (case tp of None \<Rightarrow> tp' = None | Some t \<Rightarrow> \<exists>t'. tp' = Some t' \<and> alive t')"

lemma live_or_null_simps [simp]: "live_or_null alive None" "live_or_null alive (Some t) = alive t"
  by (simp_all add: live_or_null_def)

lemma same_or_live_simps [simp]: "same_or_live alive None tp \<longleftrightarrow> tp = None"
  "same_or_live alive (Some t) tp \<longleftrightarrow> (\<exists>t'. tp = Some t' \<and> alive t')"
  by (simp_all add: same_or_live_def)

section \<open>The dummy driver\<close>

text \<open>The context is a block of one integer; \<open>mem\<close> says whether \<open>calloc\<close> succeeds.\<close>

definition ia_dummy_open :: "iaconfig \<Rightarrow> string \<Rightarrow> unit \<Rightarrow> (int \<times> unit) option" where
  "ia_dummy_open conf datadir w = Some (0, w)"

definition ia_dummy_close :: "unit \<Rightarrow> (int \<times> unit) option" where
  "ia_dummy_close w = Some (0, w)"

definition ia_dummy_thread_new :: "bool \<Rightarrow> unit \<Rightarrow> (int option \<times> unit) option" where
  "ia_dummy_thread_new mem w = Some (if mem then Some 0 else None, w)"

definition ia_dummy_thread_dispose :: "int \<Rightarrow> unit \<Rightarrow> unit option" where
  "ia_dummy_thread_dispose ctx w = Some w"

fun ia_dummy_begin :: "int \<Rightarrow> iabenchmark \<Rightarrow> unit \<Rightarrow> (int \<times> int \<times> unit) option" where
  "ia_dummy_begin ctx IA_MAX w = None"
| "ia_dummy_begin ctx step w = Some (0, ctx, w)"

fun ia_dummy_done :: "int \<Rightarrow> iabenchmark \<Rightarrow> unit \<Rightarrow> (int \<times> int \<times> unit) option" where
  "ia_dummy_done ctx IA_MAX w = None"
| "ia_dummy_done ctx step w = Some (0, ctx, w)"

definition ia_dummy_next :: "int \<Rightarrow> iabenchmark \<Rightarrow> iakv \<Rightarrow> unit \<Rightarrow> (int \<times> iakv \<times> int \<times> unit) option" where
  "ia_dummy_next ctx step kv w =
     (if step \<in> {IA_SET, IA_DELETE, IA_ITERATE, IA_GET} then Some (0, kv, ctx, w) else None)"

definition ia_dummy_option :: "int option \<Rightarrow> string \<Rightarrow> unit \<Rightarrow> (int \<times> unit) option" where
  "ia_dummy_option ctx arg w = Some (0, w)"

definition ia_dummy :: "bool \<Rightarrow> (unit, int) iadriver" where
  "ia_dummy mem = \<lparr>d_name = ''dummy'', d_open = ia_dummy_open, d_close = ia_dummy_close,
     d_thread_new = ia_dummy_thread_new mem, d_thread_dispose = ia_dummy_thread_dispose,
     d_begin = ia_dummy_begin, d_next = ia_dummy_next, d_done = ia_dummy_done,
     d_option = Some ia_dummy_option\<rparr>"

section \<open>The debug driver\<close>

text \<open>The lines it prints (pointers are left out of them).\<close>

datatype debug_line =
    Dbg_open string
  | Dbg_close
  | Dbg_thread_new
  | Dbg_thread_dispose
  | Dbg_begin "string option"
  | Dbg_next "string option" "u8 list option" "u8 list option"
  | Dbg_done "string option"
  | Dbg_option bool string

type_synonym debug_out = "debug_line list"

definition ia_debug_open :: "iaconfig \<Rightarrow> string \<Rightarrow> debug_out \<Rightarrow> (int \<times> debug_out) option" where
  "ia_debug_open conf datadir w = Some (0, w @ [Dbg_open datadir])"

definition ia_debug_close :: "debug_out \<Rightarrow> (int \<times> debug_out) option" where
  "ia_debug_close w = Some (0, w @ [Dbg_close])"

definition ia_debug_thread_new :: "bool \<Rightarrow> debug_out \<Rightarrow> (int option \<times> debug_out) option" where
  "ia_debug_thread_new mem w = Some (if mem then Some 0 else None, w @ [Dbg_thread_new])"

definition ia_debug_thread_dispose :: "int \<Rightarrow> debug_out \<Rightarrow> debug_out option" where
  "ia_debug_thread_dispose ctx w = Some (w @ [Dbg_thread_dispose])"

definition ia_debug_begin :: "int \<Rightarrow> iabenchmark \<Rightarrow> debug_out \<Rightarrow> (int \<times> int \<times> debug_out) option" where
  "ia_debug_begin ctx step w =
     (if step = IA_MAX then None else Some (0, ctx, w @ [Dbg_begin (ia_benchmarkof step)]))"

definition ia_debug_done :: "int \<Rightarrow> iabenchmark \<Rightarrow> debug_out \<Rightarrow> (int \<times> int \<times> debug_out) option" where
  "ia_debug_done ctx step w =
     (if step = IA_MAX then None else Some (0, ctx, w @ [Dbg_done (ia_benchmarkof step)]))"

definition ia_debug_next :: "int \<Rightarrow> iabenchmark \<Rightarrow> iakv \<Rightarrow> debug_out \<Rightarrow> (int \<times> iakv \<times> int \<times> debug_out) option" where
  "ia_debug_next ctx step kv w =
     (case step of
        IA_SET \<Rightarrow> Some (0, kv, ctx, w @ [Dbg_next (ia_benchmarkof step) (kv_k kv) (kv_v kv)])
      | IA_GET \<Rightarrow> Some (0, kv, ctx, w @ [Dbg_next (ia_benchmarkof step) (kv_k kv) None])
      | IA_DELETE \<Rightarrow> Some (0, kv, ctx, w @ [Dbg_next (ia_benchmarkof step) (kv_k kv) None])
      | IA_ITERATE \<Rightarrow> Some (0, kv, ctx, w @ [Dbg_next (ia_benchmarkof step) None None])
      | _ \<Rightarrow> None)"

definition ia_debug_option :: "int option \<Rightarrow> string \<Rightarrow> debug_out \<Rightarrow> (int \<times> debug_out) option" where
  "ia_debug_option ctx arg w = Some (0, w @ [Dbg_option (ctx \<noteq> None) arg])"

definition ia_debug :: "bool \<Rightarrow> (debug_out, int) iadriver" where
  "ia_debug mem = \<lparr>d_name = ''debug'', d_open = ia_debug_open, d_close = ia_debug_close,
     d_thread_new = ia_debug_thread_new mem, d_thread_dispose = ia_debug_thread_dispose,
     d_begin = ia_debug_begin, d_next = ia_debug_next, d_done = ia_debug_done,
     d_option = Some ia_debug_option\<rparr>"

lemmas ia_dummy_ops = ia_dummy_open_def ia_dummy_close_def ia_dummy_thread_new_def
  ia_dummy_thread_dispose_def ia_dummy_next_def ia_dummy_option_def

lemmas ia_debug_ops = ia_debug_open_def ia_debug_close_def ia_debug_thread_new_def
  ia_debug_thread_dispose_def ia_debug_begin_def ia_debug_next_def ia_debug_done_def ia_debug_option_def

section \<open>Both keep the contract\<close>

lemma below_MAX: "b < IA_MAX \<longleftrightarrow> b \<noteq> IA_MAX"
  by (cases b) (simp_all add: less_iabenchmark_def)

lemma step_allowed_cases:
  "step_allowed b step \<Longrightarrow> step \<in> {IA_SET, IA_DELETE, IA_ITERATE, IA_GET}"
  by (cases b) (auto simp: step_allowed_def)

interpretation dummy: program_driver "ia_dummy mem" "\<lambda>_. True" "\<lambda>_ _. True" "\<lambda>_ _ _. True" "\<lambda>_ _. True" "\<lambda>_. True" "\<lambda>_. True"
proof unfold_locales
  show "\<exists>rc c' w'. d_begin (ia_dummy mem) c b w = Some (rc, c', w') \<and> True \<and> True \<and> (rc = 0 \<and> True \<or> rc = -1)"
    if "b < IA_MAX" for c b w
    using that by (cases b) (auto simp: ia_dummy_def below_MAX)
  show "\<exists>rc c' w'. d_done (ia_dummy mem) c b w = Some (rc, c', w') \<and> True \<and> True \<and> rc \<in> {0, -1}"
    if "b < IA_MAX" for c b w
    using that by (cases b) (auto simp: ia_dummy_def below_MAX)
qed (auto simp: ia_dummy_def ia_dummy_ops dest: step_allowed_cases)

interpretation debug: program_driver "ia_debug mem" "\<lambda>_. True" "\<lambda>_ _. True" "\<lambda>_ _ _. True" "\<lambda>_ _. True" "\<lambda>_. True" "\<lambda>_. True"
  by unfold_locales
    (auto simp: ia_debug_def ia_debug_ops below_MAX dest!: step_allowed_cases split: iabenchmark.split)

end
