(* ===== verification/Benchmark.thy ===== *)
theory Benchmark
  imports Driver HistogramRuns "HOL-Library.Monad_Syntax"
begin

text \<open>
  The benchmark loops and the doers (\<open>src/ia_benchmark.c\<close>).  A doer runs the operations of its
  driver, its key generators and its histogram.  What the doers share (the driver's state, the
  histograms, the counters of the run) changes between two calls of one doer as the others run:
  before every call that touches it, the function \<open>others\<close> of the environment is applied to it.
  The environment also holds the configuration, the allocator, and the readings of the clock and
  the outcomes of \<open>trylock\<close>, one per call.

  A result \<open>None\<close> is an abort (an assertion, a null pointer, \<open>ia_fatal\<close>) or a loop that does not
  end.  The messages are left out.
\<close>

section \<open>State\<close>

text \<open>\<open>1ull << bench\<close>\<close>

definition bench_bit :: "iabenchmark \<Rightarrow> u64" where
  "bench_bit b = push_bit (bench_nat b) 1"

definition bench_mask_read :: u64 where
  "bench_mask_read = 0 OR bench_bit IA_BATCH OR bench_bit IA_CRUD OR bench_bit IA_ITERATE OR bench_bit IA_GET"

definition bench_mask_write :: u64 where
  "bench_mask_write = 0 OR bench_bit IA_SET OR bench_bit IA_BATCH OR bench_bit IA_CRUD OR bench_bit IA_DELETE"

definition bench_mask_2keyspace :: u64 where
  "bench_mask_2keyspace = 0 OR bench_bit IA_BATCH OR bench_bit IA_CRUD"

definition in_mask :: "u64 \<Rightarrow> iabenchmark \<Rightarrow> bool" where
  "in_mask msk b \<longleftrightarrow> msk AND bench_bit b \<noteq> 0"

text \<open>
  The histograms of all doers are kept together (\<open>sh_hist\<close>), each with the phase of its life; the
  member \<open>hg\<close> of a doer is the position of its own.
\<close>

record 'w shared =
  sh_priv :: 'w
  sh_hist :: hworld
  sh_doers_count :: int
  sh_doers_done :: int
  sh_failed :: bool

record ('w, 'c) benv =
  e_conf :: iaconfig
  e_kv :: kv_globals
  e_drv :: "('w, 'c) iadriver"
  e_alloc :: "nat \<Rightarrow> u8 list option"
  e_clock :: "nat \<Rightarrow> u64"
  e_trylock :: "nat \<Rightarrow> bool"
  e_others :: "nat \<Rightarrow> 'w shared \<Rightarrow> 'w shared"

text \<open>
  The calls of the driver with their results, and the operations measured, are recorded as they
  happen: a log for the properties, which no operation reads.
\<close>

datatype call =
    Call_begin iabenchmark int
  | Call_next iabenchmark iakv iakv int
  | Call_done iabenchmark int
  | Measured u64

record 'c iadoer =
  do_nth :: nat
  do_key_space :: int
  do_key_sequence :: int
  do_benchmask :: u64
  do_ctx :: "'c option"
  do_gen_a :: "ia_kvgen option"
  do_gen_b :: "ia_kvgen option"
  do_hg :: nat

record ('w, 'c) sys =
  s_doer :: "'c iadoer"
  s_shared :: "'w shared"
  s_tick :: nat
  s_calls :: "call list"

section \<open>Calls\<close>

text \<open>The other doers run; then it is this doer's turn.\<close>

definition turn :: "('w, 'c) benv \<Rightarrow> ('w, 'c) sys \<Rightarrow> ('w, 'c) sys" where
  "turn env s = s\<lparr>s_shared := e_others env (s_tick s) (s_shared s), s_tick := Suc (s_tick s)\<rparr>"

definition with_call :: "call \<Rightarrow> 'c \<Rightarrow> 'w \<Rightarrow> ('w, 'c) sys \<Rightarrow> ('w, 'c) sys" where
  "with_call e c w s = s\<lparr>s_doer := (s_doer s)\<lparr>do_ctx := Some c\<rparr>,
     s_shared := (s_shared s)\<lparr>sh_priv := w\<rparr>, s_calls := s_calls s @ [e]\<rparr>"

definition driver_begin :: "('w, 'c) benv \<Rightarrow> iabenchmark \<Rightarrow> ('w, 'c) sys \<Rightarrow> (int \<times> ('w, 'c) sys) option" where
  "driver_begin env b s0 =
     (let s = turn env s0
      in do { c \<leftarrow> do_ctx (s_doer s);
              (rc, c', w') \<leftarrow> d_begin (e_drv env) c b (sh_priv (s_shared s));
              Some (rc, with_call (Call_begin b rc) c' w' s) })"

definition driver_next ::
  "('w, 'c) benv \<Rightarrow> iabenchmark \<Rightarrow> iakv \<Rightarrow> ('w, 'c) sys \<Rightarrow> (int \<times> iakv \<times> ('w, 'c) sys) option" where
  "driver_next env b kv s0 =
     (let s = turn env s0
      in do { c \<leftarrow> do_ctx (s_doer s);
              (rc, kv', c', w') \<leftarrow> d_next (e_drv env) c b kv (sh_priv (s_shared s));
              Some (rc, kv', with_call (Call_next b kv kv' rc) c' w' s) })"

definition driver_done :: "('w, 'c) benv \<Rightarrow> iabenchmark \<Rightarrow> ('w, 'c) sys \<Rightarrow> (int \<times> ('w, 'c) sys) option" where
  "driver_done env b s0 =
     (let s = turn env s0
      in do { c \<leftarrow> do_ctx (s_doer s);
              (rc, c', w') \<leftarrow> d_done (e_drv env) c b (sh_priv (s_shared s));
              Some (rc, with_call (Call_done b rc) c' w' s) })"

definition timestamp :: "('w, 'c) benv \<Rightarrow> ('w, 'c) sys \<Rightarrow> u64 \<times> ('w, 'c) sys" where
  "timestamp env s = (e_clock env (s_tick s), s\<lparr>s_tick := Suc (s_tick s)\<rparr>)"

text \<open>The histogram of this doer: reset, add and merge.\<close>

definition set_hist :: "phase \<Rightarrow> iahistogram \<Rightarrow> hglobal \<Rightarrow> ('w, 'c) sys \<Rightarrow> ('w, 'c) sys" where
  "set_hist ph h g s =
     (let w = sh_hist (s_shared s)
      in s\<lparr>s_shared := (s_shared s)\<lparr>sh_hist :=
            \<lparr>w_global = g, w_doers = (w_doers w)[do_hg (s_doer s) := (ph, h)]\<rparr>\<rparr>\<rparr>)"

definition own_hist :: "('w, 'c) sys \<Rightarrow> iahistogram option" where
  "own_hist s =
     (let ds = w_doers (sh_hist (s_shared s)); n = do_hg (s_doer s)
      in if n < length ds then Some (snd (ds ! n)) else None)"

definition hist_reset :: "('w, 'c) benv \<Rightarrow> iabenchmark \<Rightarrow> ('w, 'c) sys \<Rightarrow> ('w, 'c) sys option" where
  "hist_reset env b s0 =
     (let s = turn env s0
      in do { h \<leftarrow> own_hist s;
              Some (set_hist Running (ia_histogram_reset (e_clock env (s_tick s0)) b h)
                (w_global (sh_hist (s_shared s))) s) })"

definition hist_add :: "('w, 'c) benv \<Rightarrow> u64 \<Rightarrow> u64 \<Rightarrow> ('w, 'c) sys \<Rightarrow> ('w, 'c) sys option" where
  "hist_add env t0 volume s0 =
     (let s = turn env s0
      in do { h \<leftarrow> own_hist s;
              (h', g', r) \<leftarrow> ia_histogram_add (e_clock env (s_tick s0)) (e_trylock env (s_tick s0)) h t0 volume
                 (w_global (sh_hist (s_shared s)));
              Some ((set_hist Running h' g' s)\<lparr>s_calls := s_calls s @ [Measured volume]\<rparr>) })"

definition hist_merge :: "('w, 'c) benv \<Rightarrow> ('w, 'c) sys \<Rightarrow> ('w, 'c) sys option" where
  "hist_merge env s0 =
     (let s = turn env s0
      in do { h \<leftarrow> own_hist s;
              (h', g', r) \<leftarrow> ia_histogram_merge (e_clock env (s_tick s0)) h (w_global (sh_hist (s_shared s)));
              Some (set_hist Flushed h' g' s) })"

text \<open>A record of one of the two generators.\<close>

definition gen_get_a :: "('w, 'c) benv \<Rightarrow> bool \<Rightarrow> ('w, 'c) sys \<Rightarrow> (iakv \<times> ('w, 'c) sys) option" where
  "gen_get_a env key_only s =
     do { gen \<leftarrow> do_gen_a (s_doer s);
          (gen', kv) \<leftarrow> ia_kvgen_get (e_kv env) gen key_only;
          Some (kv, s\<lparr>s_doer := (s_doer s)\<lparr>do_gen_a := Some gen'\<rparr>\<rparr>) }"

definition gen_get_b :: "('w, 'c) benv \<Rightarrow> bool \<Rightarrow> ('w, 'c) sys \<Rightarrow> (iakv \<times> ('w, 'c) sys) option" where
  "gen_get_b env key_only s =
     do { gen \<leftarrow> do_gen_b (s_doer s);
          (gen', kv) \<leftarrow> ia_kvgen_get (e_kv env) gen key_only;
          Some (kv, s\<lparr>s_doer := (s_doer s)\<lparr>do_gen_b := Some gen'\<rparr>\<rparr>) }"

section \<open>One benchmark\<close>

text \<open>\<open>ENOENT\<close> counts as success when the configuration says so.\<close>

definition forgive :: "('w, 'c) benv \<Rightarrow> int \<Rightarrow> int" where
  "forgive env rc = (if rc = ENOENT \<and> c_ignore_keynotfound (e_conf env) then 0 else rc)"

definition ia_quadruple ::
  "('w, 'c) benv \<Rightarrow> iakv \<Rightarrow> iakv \<Rightarrow> ('w, 'c) sys \<Rightarrow> (int \<times> iakv \<times> iakv \<times> ('w, 'c) sys) option" where
  "ia_quadruple env a b s =
     do { (rc, b, s) \<leftarrow> driver_next env IA_SET b s;
          (rc, a, s) \<leftarrow> (if rc = 0 then driver_next env IA_SET a s else Some (rc, a, s));
          (rc, b, s) \<leftarrow> (if rc = 0
             then do { (rc, b, s) \<leftarrow> driver_next env IA_DELETE b s; Some (forgive env rc, b, s) }
             else Some (rc, b, s));
          (rc, a, s) \<leftarrow> (if rc = 0
             then do { (rc, a, s) \<leftarrow> driver_next env IA_GET a s; Some (forgive env rc, a, s) }
             else Some (rc, a, s));
          Some (rc, a, b, s) }"

definition quad_volume :: "iakv \<Rightarrow> iakv \<Rightarrow> u64" where
  "quad_volume a b = kv_ksize a + kv_vsize a + kv_ksize b + kv_vsize b + kv_ksize a + kv_ksize b + kv_vsize b"

text \<open>
  What one turn of the loop leaves behind: whether it jumps to \<open>bailout\<close>, \<open>rc\<close>, \<open>i\<close>, the two
  pools and the state.
\<close>

record ('w, 'c) bloop =
  bl_goto :: bool
  bl_rc :: int
  bl_i :: u64
  bl_pool_a :: "ia_kvpool option"
  bl_pool_b :: "ia_kvpool option"
  bl_sys :: "('w, 'c) sys"

definition bench_simple :: "('w, 'c) benv \<Rightarrow> iabenchmark \<Rightarrow> ('w, 'c) bloop \<Rightarrow> ('w, 'c) bloop option" where
  "bench_simple env bench l =
     do { (a, s) \<leftarrow> gen_get_a env (bench \<noteq> IA_SET) (bl_sys l);
          let (t0, s) = timestamp env s;
          (rc, s) \<leftarrow> driver_begin env bench s;
          (rc, a, s) \<leftarrow> (if rc = 0 then driver_next env bench a s else Some (rc, a, s));
          (rc2, s) \<leftarrow> driver_done env bench s;
          s \<leftarrow> hist_add env t0 (if bench = IA_DELETE then kv_ksize a else kv_ksize a + kv_vsize a) s;
          let rc = forgive env rc;
          let rc = (if rc = 0 then rc2 else rc);
          Some (if rc \<noteq> 0 then l\<lparr>bl_goto := True, bl_rc := rc, bl_sys := s\<rparr>
                else l\<lparr>bl_rc := 0, bl_i := bl_i l + 1, bl_sys := s\<rparr>) }"

definition bench_crud :: "('w, 'c) benv \<Rightarrow> ('w, 'c) bloop \<Rightarrow> ('w, 'c) bloop option" where
  "bench_crud env l =
     do { (a, s) \<leftarrow> gen_get_a env False (bl_sys l);
          (b, s) \<leftarrow> gen_get_b env False s;
          let (t0, s) = timestamp env s;
          (rc, s) \<leftarrow> driver_begin env IA_CRUD s;
          (rc, a, b, s) \<leftarrow> (if rc = 0 then ia_quadruple env a b s else Some (rc, a, b, s));
          (rc, s) \<leftarrow> (if rc = 0 then driver_done env IA_CRUD s else Some (rc, s));
          s \<leftarrow> hist_add env t0 (quad_volume a b) s;
          Some (if rc \<noteq> 0 then l\<lparr>bl_goto := True, bl_rc := rc, bl_sys := s\<rparr>
                else l\<lparr>bl_rc := 0, bl_i := bl_i l + 1, bl_sys := s\<rparr>) }"

text \<open>The loop over \<open>j\<close>, with \<open>n\<close> turns left; \<open>a\<close> and \<open>b\<close> are the local records.\<close>

fun batch_loop ::
  "('w, 'c) benv \<Rightarrow> ia_kvgen \<Rightarrow> ia_kvgen \<Rightarrow> nat \<Rightarrow> ia_kvpool \<Rightarrow> ia_kvpool \<Rightarrow> iakv \<Rightarrow> iakv \<Rightarrow> ('w, 'c) bloop
     \<Rightarrow> (iakv \<times> iakv \<times> ('w, 'c) bloop) option" where
  "batch_loop env ga gb 0 pa pb a b l = Some (a, b, l\<lparr>bl_pool_a := Some pa, bl_pool_b := Some pb\<rparr>)"
| "batch_loop env ga gb (Suc n) pa pb a b l =
     (let (rca, pa, a) = ia_kvpool_pull (e_kv env) ga pa a
      in if rca \<noteq> 0 then Some (a, b, l\<lparr>bl_goto := True, bl_pool_a := Some pa, bl_pool_b := Some pb\<rparr>)
         else
           (let (rcb, pb, b) = ia_kvpool_pull (e_kv env) gb pb b
            in if rcb \<noteq> 0 then Some (a, b, l\<lparr>bl_goto := True, bl_pool_a := Some pa, bl_pool_b := Some pb\<rparr>)
               else
                 do { (rc, a, b, s) \<leftarrow> ia_quadruple env a b (bl_sys l);
                      if rc \<noteq> 0
                      then Some (a, b, l\<lparr>bl_rc := rc, bl_sys := s, bl_pool_a := Some pa, bl_pool_b := Some pb\<rparr>)
                      else if bl_i l + 1 = c_count (e_conf env)
                      then Some (a, b, l\<lparr>bl_rc := 0, bl_i := bl_i l + 1, bl_sys := s,
                             bl_pool_a := Some pa, bl_pool_b := Some pb\<rparr>)
                      else batch_loop env ga gb n pa pb a b (l\<lparr>bl_rc := 0, bl_i := bl_i l + 1, bl_sys := s\<rparr>) }))"

text \<open>The batch from \<open>begin\<close> on; \<open>rc0\<close> is what \<open>begin\<close> returned.\<close>

definition batch_body ::
  "('w, 'c) benv \<Rightarrow> u64 \<Rightarrow> int \<Rightarrow> ia_kvgen \<Rightarrow> ia_kvgen \<Rightarrow> ia_kvpool \<Rightarrow> ia_kvpool \<Rightarrow> ('w, 'c) bloop
     \<Rightarrow> ('w, 'c) bloop option" where
  "batch_body env t0 rc0 gen_a gen_b pa pb l =
     (let n = c_batch_length (e_conf env)
      in do { (a, b, l) \<leftarrow> batch_loop env gen_a gen_b (nat n) pa pb no_record no_record (l\<lparr>bl_rc := rc0\<rparr>);
              if bl_goto l then Some l
              else do {
                (rc, s) \<leftarrow> (if bl_rc l = 0 then driver_done env IA_BATCH (bl_sys l) else Some (bl_rc l, bl_sys l));
                s \<leftarrow> hist_add env t0 (quad_volume a b * of_int n) s;
                Some (l\<lparr>bl_goto := (rc \<noteq> 0), bl_rc := rc, bl_sys := s\<rparr>) } })"

definition bench_batch :: "('w, 'c) benv \<Rightarrow> ('w, 'c) bloop \<Rightarrow> ('w, 'c) bloop option" where
  "bench_batch env l =
     (let n = c_batch_length (e_conf env)
      in do { gen_a \<leftarrow> do_gen_a (s_doer (bl_sys l));
              (rc, pool_a, gen_a) \<leftarrow> ia_kvpool_init (e_alloc env) (e_kv env) (bl_pool_a l) gen_a n;
              let s = (bl_sys l)\<lparr>s_doer := (s_doer (bl_sys l))\<lparr>do_gen_a := Some gen_a\<rparr>\<rparr>;
              let l = l\<lparr>bl_pool_a := pool_a, bl_sys := s\<rparr>;
              if rc \<noteq> 0 then Some (l\<lparr>bl_goto := True, bl_rc := rc\<rparr>)
              else do {
                gen_b \<leftarrow> do_gen_b (s_doer s);
                (rc, pool_b, gen_b) \<leftarrow> ia_kvpool_init (e_alloc env) (e_kv env) (bl_pool_b l) gen_b n;
                let s = s\<lparr>s_doer := (s_doer s)\<lparr>do_gen_b := Some gen_b\<rparr>\<rparr>;
                let l = l\<lparr>bl_pool_b := pool_b, bl_sys := s\<rparr>;
                if rc \<noteq> 0 then Some (l\<lparr>bl_goto := True, bl_rc := rc\<rparr>)
                else do {
                  let (t0, s) = timestamp env s;
                  (rc, s) \<leftarrow> driver_begin env IA_BATCH s;
                  pa \<leftarrow> pool_a;
                  pb \<leftarrow> pool_b;
                  batch_body env t0 rc gen_a gen_b pa pb (l\<lparr>bl_sys := s\<rparr>) } } })"

partial_function (option) iterate_loop ::
  "('w, 'c) benv \<Rightarrow> u64 \<Rightarrow> int \<Rightarrow> u64 \<Rightarrow> ('w, 'c) sys \<Rightarrow> (int \<times> u64 \<times> ('w, 'c) sys) option" where
  "iterate_loop env t0 rc i s =
     (if rc \<noteq> 0 then Some (rc, i, s)
      else
        do { (rc, a, s) \<leftarrow> driver_next env IA_ITERATE no_record s;
             s \<leftarrow> hist_add env t0 (kv_ksize a + kv_vsize a) s;
             if i + 1 = c_count (e_conf env) then Some (rc, i + 1, s)
             else (let (t0, s) = timestamp env s in iterate_loop env t0 rc (i + 1) s) })"

declare iterate_loop.simps [code]

definition bench_iterate :: "('w, 'c) benv \<Rightarrow> ('w, 'c) bloop \<Rightarrow> ('w, 'c) bloop option" where
  "bench_iterate env l =
     do { let (t0, s) = timestamp env (bl_sys l);
          (rc, s) \<leftarrow> driver_begin env IA_ITERATE s;
          (rc, i, s) \<leftarrow> iterate_loop env t0 rc (bl_i l) s;
          let rc = (if rc = ENOENT then 0 else rc);
          (rc, s) \<leftarrow> (if rc = 0 then driver_done env IA_ITERATE s else Some (rc, s));
          Some (l\<lparr>bl_rc := rc, bl_i := i, bl_sys := s\<rparr>) }"

fun bench_step :: "('w, 'c) benv \<Rightarrow> iabenchmark \<Rightarrow> ('w, 'c) bloop \<Rightarrow> ('w, 'c) bloop option" where
  "bench_step env IA_SET l = bench_simple env IA_SET l"
| "bench_step env IA_DELETE l = bench_simple env IA_DELETE l"
| "bench_step env IA_GET l = bench_simple env IA_GET l"
| "bench_step env IA_CRUD l = bench_crud env l"
| "bench_step env IA_BATCH l = bench_batch env l"
| "bench_step env IA_ITERATE l = bench_iterate env l"
| "bench_step env IA_MAX l = None"

partial_function (option) bench_loop ::
  "('w, 'c) benv \<Rightarrow> iabenchmark \<Rightarrow> ('w, 'c) bloop \<Rightarrow> ('w, 'c) bloop option" where
  "bench_loop env bench l =
     (if \<not> bl_goto l \<and> bl_rc l = 0 \<and> bl_i l < c_count (e_conf env)
      then do { l \<leftarrow> bench_step env bench l; bench_loop env bench l }
      else Some l)"

declare bench_loop.simps [code]

definition ia_run_benchmark ::
  "('w, 'c) benv \<Rightarrow> iabenchmark \<Rightarrow> ('w, 'c) sys \<Rightarrow> (int \<times> ('w, 'c) sys) option" where
  "ia_run_benchmark env bench s =
     do { s \<leftarrow> hist_reset env bench s;
          l \<leftarrow> bench_loop env bench \<lparr>bl_goto = False, bl_rc = 0, bl_i = 0,
                 bl_pool_a = None, bl_pool_b = None, bl_sys = s\<rparr>;
          s \<leftarrow> hist_merge env (bl_sys l);
          let pool_a = ia_kvpool_destroy (bl_pool_a l);
          let pool_b = ia_kvpool_destroy (bl_pool_b l);
          Some (bl_rc l, s) }"

section \<open>The doer\<close>

fun give_options :: "('w, 'c) benv \<Rightarrow> string option list \<Rightarrow> ('w, 'c) sys \<Rightarrow> (int \<times> ('w, 'c) sys) option" where
  "give_options env [] s = Some (0, s)"
| "give_options env (a # as) s0 =
     (let s = turn env s0
      in do { opt \<leftarrow> d_option (e_drv env);
              arg \<leftarrow> a;
              (rc, w') \<leftarrow> opt (do_ctx (s_doer s)) arg (sh_priv (s_shared s));
              let s = s\<lparr>s_shared := (s_shared s)\<lparr>sh_priv := w'\<rparr>\<rparr>;
              if rc \<noteq> 0 then Some (-1, s) else give_options env as s })"

text \<open>\<open>for (bench = IA_SET; !rc && bench < IA_MAX; bench++)\<close>\<close>

fun run_masked :: "('w, 'c) benv \<Rightarrow> iabenchmark list \<Rightarrow> int \<Rightarrow> ('w, 'c) sys \<Rightarrow> (int \<times> ('w, 'c) sys) option" where
  "run_masked env [] rc s = Some (rc, s)"
| "run_masked env (b # bs) rc s =
     (if rc \<noteq> 0 then Some (rc, s)
      else if in_mask (do_benchmask (s_doer s)) b
      then do { (rc, s) \<leftarrow> ia_run_benchmark env b s; run_masked env bs rc s }
      else run_masked env bs rc s)"

partial_function (option) repeat_loop ::
  "('w, 'c) benv \<Rightarrow> int \<Rightarrow> int \<Rightarrow> ('w, 'c) sys \<Rightarrow> (int \<times> ('w, 'c) sys) option" where
  "repeat_loop env passes rc s0 =
     (let s = turn env s0; conf = e_conf env
      in if passes < c_nrepeat conf \<or>
            c_continuous_completing conf \<and> sh_doers_done (s_shared s) < sh_doers_count (s_shared s)
         then
           do { (rc, s) \<leftarrow> run_masked env benchmarks rc s;
                let s = (if passes + 1 = c_nrepeat conf
                         then s\<lparr>s_shared := (s_shared s)\<lparr>sh_doers_done := sh_doers_done (s_shared s) + 1\<rparr>\<rparr>
                         else s);
                if rc \<noteq> 0 \<or> sh_failed (s_shared s) then Some (rc, s)
                else repeat_loop env (passes + 1) rc s }
         else Some (rc, s))"

declare repeat_loop.simps [code]

definition obtain_context :: "('w, 'c) benv \<Rightarrow> ('w, 'c) sys \<Rightarrow> ('w, 'c) sys option" where
  "obtain_context env s0 =
     (if do_ctx (s_doer s0) = None then
        (let s = turn env s0
         in do { (ctx, w') \<leftarrow> d_thread_new (e_drv env) (sh_priv (s_shared s));
                 Some (s\<lparr>s_doer := (s_doer s)\<lparr>do_ctx := ctx\<rparr>, s_shared := (s_shared s)\<lparr>sh_priv := w'\<rparr>\<rparr>) })
      else Some s0)"

definition release_context :: "('w, 'c) benv \<Rightarrow> ('w, 'c) sys \<Rightarrow> ('w, 'c) sys option" where
  "release_context env s0 =
     (case do_ctx (s_doer s0) of
        None \<Rightarrow> Some s0
      | Some c \<Rightarrow>
          (let s = turn env s0
           in do { w' \<leftarrow> d_thread_dispose (e_drv env) c (sh_priv (s_shared s));
                   Some (s\<lparr>s_doer := (s_doer s)\<lparr>do_ctx := None\<rparr>, s_shared := (s_shared s)\<lparr>sh_priv := w'\<rparr>\<rparr>) }))"

definition ia_doer_fulfil :: "('w, 'c) benv \<Rightarrow> ('w, 'c) sys \<Rightarrow> (int \<times> ('w, 'c) sys) option" where
  "ia_doer_fulfil env s =
     do { s \<leftarrow> obtain_context env s;
          if do_ctx (s_doer s) = None then Some (-1, s)
          else do {
            (rc, s) \<leftarrow> give_options env (c_drv_opts (e_conf env)) s;
            if rc \<noteq> 0 then Some (-1, s)
            else do {
              (rc, s) \<leftarrow> repeat_loop env 0 0 s;
              s \<leftarrow> release_context env s;
              Some (rc, s) } } }"

text \<open>A doer starts with the generators its benchmarks need, and with a histogram at the end of the list.\<close>

definition ia_doer_init ::
  "('w, 'c) benv \<Rightarrow> nat \<Rightarrow> u64 \<Rightarrow> int \<Rightarrow> int \<Rightarrow> 'w shared \<Rightarrow> (int \<times> 'c iadoer \<times> 'w shared) option" where
  "ia_doer_init env nr benchmask key_space key_sequence sh =
     (if benchmask = 0 then None
      else
        (let d = \<lparr>do_nth = nr, do_key_space = key_space, do_key_sequence = key_sequence,
                  do_benchmask = benchmask, do_ctx = None, do_gen_a = None, do_gen_b = None, do_hg = 0\<rparr>;
             vsize = of_int (c_vsize (e_conf env)) :: u32;
             start = (\<lambda>d. let (h, g) = ia_histogram_init (w_global (sh_hist sh))
               in Some (0, d\<lparr>do_hg := length (w_doers (sh_hist sh))\<rparr>, sh\<lparr>sh_hist := \<lparr>w_global = g, w_doers = w_doers (sh_hist sh) @ [(Fresh, h)]\<rparr>,
                                 sh_doers_count := sh_doers_count sh + 1\<rparr>))
         in do { (rc, gen) \<leftarrow> ia_kvgen_init (e_alloc env) (e_kv env) None (of_int key_space)
                   (of_int key_sequence) vsize 0;
                 let d = d\<lparr>do_gen_a := gen\<rparr>;
                 if rc \<noteq> 0 then Some (-1, d, sh)
                 else if benchmask AND bench_mask_2keyspace \<noteq> 0 then
                   do { (rc, gen) \<leftarrow> ia_kvgen_init (e_alloc env) (e_kv env) None (of_int (key_space + 1))
                          (of_int key_sequence) vsize 0;
                        let d = d\<lparr>do_gen_b := gen\<rparr>;
                        if rc \<noteq> 0 then Some (-1, d, sh) else start d }
                 else start d }))"

definition ia_doer_destroy :: "('w, 'c) sys \<Rightarrow> ('w, 'c) sys option" where
  "ia_doer_destroy s0 =
     (let s = s0\<lparr>s_shared := (s_shared s0)\<lparr>sh_doers_count := sh_doers_count (s_shared s0) - 1\<rparr>\<rparr>
      in do { h \<leftarrow> own_hist s;
              let (h', g) = ia_histogram_destroy h (w_global (sh_hist (s_shared s)));
              let s = set_hist Gone h' g s;
              Some (s\<lparr>s_doer := (s_doer s)\<lparr>do_gen_a := ia_kvgen_destroy (do_gen_a (s_doer s)),
                                          do_gen_b := ia_kvgen_destroy (do_gen_b (s_doer s))\<rparr>\<rparr>) })"

text \<open>One more operation, still within the count.\<close>

lemma count_step:
  assumes "i < c"
  shows "unat (i + 1 :: u64) = Suc (unat i)" and "i < i + 1" and "i + 1 \<le> c" and "unat i < 2 ^ 64 - 1"
proof -
  have "unat i < unat c" using assms by (simp add: word_less_nat_alt)
  then show b: "unat i < 2 ^ 64 - 1" using unat_u64_less [of c] by simp
  then show u: "unat (i + 1) = Suc (unat i)" by (simp add: unat_word_ariths(1))
  then show "i < i + 1" by (simp add: word_less_nat_alt)
  show "i + 1 \<le> c" using \<open>unat i < unat c\<close> u by (simp add: word_le_nat_alt)
qed

end
