(* ===== verification/DoerState.thy ===== *)
theory DoerState
  imports Benchmark
begin

text \<open>
  What the operations of a doer keep (\<open>src/ia_benchmark.c\<close>): the histograms stay in the relation with
  their specification whatever the other doers do, the driver's context stays usable, the
  generators stay well-formed; and every call of the doer adds to the run of the histograms the
  events the histogram protocol expects of it.
\<close>

section \<open>Runs of the histograms, seen from one doer\<close>

fun event_doer :: "hevent \<Rightarrow> nat option" where
  "event_doer (Reset i b) = Some i"
| "event_doer (Add i s) = Some i"
| "event_doer (Merge i) = Some i"
| "event_doer (Destroy i) = Some i"
| "event_doer _ = None"

text \<open>
  The events of doer \<open>n\<close>, and the starts of doers: there is none while a doer runs, since all are
  started before the start barrier opens.
\<close>

definition own_events :: "nat \<Rightarrow> (hevent \<times> hreport option) list \<Rightarrow> hevent list" where
  "own_events n tr = filter (\<lambda>e. event_doer e = Some n \<or> e = Start) (map fst tr)"

lemma own_events_simps [simp]:
  "own_events n [] = []"
  "own_events n (tr @ tr') = own_events n tr @ own_events n tr'"
  "own_events n ((e, r) # tr) = (if event_doer e = Some n \<or> e = Start then e # own_events n tr else own_events n tr)"
  by (simp_all add: own_events_def)

lemma hruns_append: "hruns w tr w1 \<Longrightarrow> hruns w1 tr' w2 \<Longrightarrow> hruns w (tr @ tr') w2"
  by (induction rule: hruns.induct) (auto intro: hruns.cons)

lemma hruns_one: "hstep w e r w' \<Longrightarrow> hruns w [(e, r)] w'"
  by (auto intro: hruns.intros)

lemma hstep_other:
  assumes "hstep w e r w'" and "event_doer e \<noteq> Some n" and "doer_at (w_doers w) n d"
  shows "doer_at (w_doers w') n d"
  using assms by cases (auto simp: doer_at_def nth_append nth_list_update)

lemma hstep_length: "hstep w e r w' \<Longrightarrow> e \<noteq> Start \<Longrightarrow> length (w_doers w') = length (w_doers w)"
  by (erule hstep.cases) simp_all

lemma hruns_length:
  "hruns w tr w' \<Longrightarrow> Start \<notin> set (own_events n tr) \<Longrightarrow> length (w_doers w') = length (w_doers w)"
  by (induction rule: hruns.induct) (auto dest: hstep_length split: if_splits)

lemma hruns_other:
  "hruns w tr w' \<Longrightarrow> own_events n tr = [] \<Longrightarrow> doer_at (w_doers w) n d \<Longrightarrow> doer_at (w_doers w') n d"
  by (induction rule: hruns.induct) (auto dest: hstep_other split: if_splits)

lemma spec_step_on: "spec_step a e r a' \<Longrightarrow> sp_on a b \<Longrightarrow> sp_on a' b"
  by (induction rule: spec_step.induct) auto

lemma hruns_sim:
  "hruns w tr w' \<Longrightarrow> hsim w a \<Longrightarrow> \<exists>a'. hsim w' a' \<and> (\<forall>b. sp_on a b \<longrightarrow> sp_on a' b)"
proof (induction arbitrary: a rule: hruns.induct)
  case (cons w e r w1 tr w2)
  obtain a1 where "spec_step a e (map_option rep_rows r) a1" "hsim w1 a1"
    using hstep_sim [OF cons.prems cons.hyps(1)] by blast
  then show ?case using cons.IH spec_step_on by meson
qed auto

lemma hsim_enabled: "hsim w a \<Longrightarrow> h_enabled (per_bench (w_global w) b) \<longleftrightarrow> sp_on a b"
  by (simp add: hsim_def benches_rel_def bench_rel_def)

lemma hworld_doers: "w\<lparr>w_doers := ds\<rparr> = \<lparr>w_global = w_global w, w_doers = ds\<rparr>"
  by (cases w) simp

text \<open>The histograms are in order, and those of the benchmarks in \<open>B\<close> are switched on.\<close>

definition hist_ok :: "iabenchmark set \<Rightarrow> hworld \<Rightarrow> bool" where
  "hist_ok B w \<longleftrightarrow> (\<exists>a. hsim w a) \<and> (\<forall>b \<in> B. h_enabled (per_bench (w_global w) b))"

lemma hist_ok_runs: "hruns w tr w' \<Longrightarrow> hist_ok B w \<Longrightarrow> hist_ok B w'"
  using hruns_sim hsim_enabled unfolding hist_ok_def by metis

section \<open>One doer's operations\<close>

definition unmerged :: "iahistogram \<Rightarrow> nat" where
  "unmerged h = unat (stat_n (h_acc h) - stat_n (h_last h))"

lemma unmerged_reset [simp]: "unmerged (ia_histogram_reset clock b h) = 0"
  by (simp add: unmerged_def ia_histogram_reset_def zero_histogram_def)

lemma unmerged_add:
  assumes "ia_histogram_add now trylock h t0 volume g = Some (h', g', r)"
  shows "unmerged h' \<le> Suc (unmerged h)"
proof -
  let ?d = "stat_n (h_acc h) - stat_n (h_last h)"
  have "unat (?d + 1) \<le> Suc (unat ?d)"
    by (simp add: unat_word_ariths(1))
  moreover have "stat_n (h_acc h') - stat_n (h_last h') = ?d + 1 \<or> stat_n (h_acc h') - stat_n (h_last h') = 0"
  proof -
    have "stat_n (h_acc h') = stat_n (h_acc h) + 1 \<and> h_last h' = h_last h \<or> h_last h' = h_acc h'"
      using assms by (auto simp: ia_histogram_add_def record_latency_def Let_def split: option.splits if_splits)
    then show ?thesis by auto
  qed
  ultimately show ?thesis by (auto simp: unmerged_def)
qed

lemma unat_minus_one_u64: "unat (- 1 :: u64) = 2 ^ 64 - 1"
  by (simp add: unsigned_minus_1_eq_mask mask_eq_exp_minus_1)

lemma hist_add_ok:
  assumes ok: "hist_ok B w" and at: "doer_at (w_doers w) n (Running, h)" and "now \<noteq> 0"
    and room: "unmerged h < 2 ^ 64 - 1"
  obtains h' g r where "ia_histogram_add now trylock h t0 volume (w_global w) = Some (h', g, r)"
    and "hruns w [(Add n (now - t0, volume), r)] \<lparr>w_global = g, w_doers = (w_doers w)[n := (Running, h')]\<rparr>"
    and "unmerged h' \<le> Suc (unmerged h)"
proof -
  obtain a where sim: "hsim w a" using ok by (auto simp: hist_ok_def)
  have r: "stat_n (h_acc h) - stat_n (h_last h) \<noteq> - 1"
    using room by (auto simp: unmerged_def unat_minus_one_u64)
  obtain h' g r where add: "ia_histogram_add now trylock h t0 volume (w_global w) = Some (h', g, r)"
    by (rule hsim_add [OF sim at \<open>now \<noteq> 0\<close> r])
  show ?thesis
    by (rule that [OF add hruns_one [OF hstep.add [OF at \<open>now \<noteq> 0\<close> r add]] unmerged_add [OF add]])
qed

text \<open>
  The environment of a doer: the others stay within \<open>rely\<close>, run their own histograms only and never
  take back the mark of a failure, the clock never reads 0, and a block that is allocated has the size asked for.
\<close>

definition benv_ok :: "('w \<Rightarrow> 'w \<Rightarrow> bool) \<Rightarrow> nat \<Rightarrow> ('w, 'c) benv \<Rightarrow> bool" where
  "benv_ok rely n env \<longleftrightarrow>
     (\<forall>t sh. rely (sh_priv sh) (sh_priv (e_others env t sh)) \<and>
        (\<exists>tr. hruns (sh_hist sh) tr (sh_hist (e_others env t sh)) \<and> own_events n tr = []) \<and>
        (sh_failed sh \<longrightarrow> sh_failed (e_others env t sh))) \<and>
     (\<forall>t. e_clock env t \<noteq> 0) \<and> alloc_ok (e_alloc env)"

text \<open>A generator for printable keys whose pools of one batch fit into 32 bits.\<close>

definition gen_ok :: "('w, 'c) benv \<Rightarrow> ia_kvgen option \<Rightarrow> bool" where
  "gen_ok env gp \<longleftrightarrow> (\<exists>gen. gp = Some gen \<and> kvgen_ok (e_kv env) gen \<and>
     kg_pair_bytes gen = ucast (kvpair_bytes (e_kv env) (ucast (kg_vsize gen))) \<and>
     unat (kvpair_bytes (e_kv env) (ucast (kg_vsize gen))) * nat (c_batch_length (e_conf env)) < 2 ^ 32)"

definition gens_ok :: "('w, 'c) benv \<Rightarrow> 'c iadoer \<Rightarrow> bool" where
  "gens_ok env d \<longleftrightarrow> gen_ok env (do_gen_a d) \<and>
     (do_benchmask d AND bench_mask_2keyspace \<noteq> 0 \<longrightarrow> gen_ok env (do_gen_b d))"

definition mask_set :: "u64 \<Rightarrow> iabenchmark set" where
  "mask_set msk = {b. in_mask msk b \<and> b < IA_MAX}"

text \<open>
  The doer is in phase \<open>ph\<close>, with at most \<open>k\<close> unmerged operations; its context satisfies \<open>C\<close>.
\<close>

definition sys_ok :: "('c \<Rightarrow> 'w \<Rightarrow> bool) \<Rightarrow> ('w, 'c) benv \<Rightarrow> phase \<Rightarrow> nat \<Rightarrow> ('w, 'c) sys \<Rightarrow> bool" where
  "sys_ok C env ph k s \<longleftrightarrow>
     hist_ok (mask_set (do_benchmask (s_doer s))) (sh_hist (s_shared s)) \<and>
     (\<exists>h. doer_at (w_doers (sh_hist (s_shared s))) (do_hg (s_doer s)) (ph, h) \<and> unmerged h \<le> k) \<and>
     gens_ok env (s_doer s) \<and>
     (\<exists>c. do_ctx (s_doer s) = Some c \<and> C c (sh_priv (s_shared s)))"

text \<open>
  From \<open>s\<close> to \<open>s'\<close> the histograms have made a run in which this doer's events are \<open>es\<close>, and the
  calls \<open>cs\<close> were made.
\<close>

definition steps :: "('w, 'c) sys \<Rightarrow> hevent list \<Rightarrow> call list \<Rightarrow> ('w, 'c) sys \<Rightarrow> bool" where
  "steps s es cs s' \<longleftrightarrow>
     do_hg (s_doer s') = do_hg (s_doer s) \<and> do_benchmask (s_doer s') = do_benchmask (s_doer s) \<and>
     s_calls s' = s_calls s @ cs \<and> s_tick s \<le> s_tick s' \<and>
     (\<exists>tr. hruns (sh_hist (s_shared s)) tr (sh_hist (s_shared s')) \<and> own_events (do_hg (s_doer s)) tr = es)"

lemma steps_refl [simp]: "steps s [] [] s"
  by (auto simp: steps_def intro!: exI [of _ "[]"] hruns.nil)

lemma steps_trans [trans]: "steps s es cs s1 \<Longrightarrow> steps s1 es' cs' s2 \<Longrightarrow> steps s (es @ es') (cs @ cs') s2"
  unfolding steps_def using hruns_append by (metis own_events_simps(2) append.assoc order.trans)

section \<open>A context that stays usable\<close>

locale doer_context =
  fixes rely :: "'w \<Rightarrow> 'w \<Rightarrow> bool" and C :: "'c \<Rightarrow> 'w \<Rightarrow> bool"
  assumes stable: "C c w \<Longrightarrow> rely w w' \<Longrightarrow> C c w'"
begin

lemma turn_ok:
  assumes env: "benv_ok rely (do_hg (s_doer s)) env" and ok: "sys_ok C env ph k s"
  shows "sys_ok C env ph k (turn env s)" and "steps s [] [] (turn env s)"
proof -
  obtain tr where run: "hruns (sh_hist (s_shared s)) tr (sh_hist (e_others env (s_tick s) (s_shared s)))"
    and own: "own_events (do_hg (s_doer s)) tr = []"
    and rely: "rely (sh_priv (s_shared s)) (sh_priv (e_others env (s_tick s) (s_shared s)))"
    using env unfolding benv_ok_def by blast
  show "sys_ok C env ph k (turn env s)"
    using ok hist_ok_runs [OF run] hruns_other [OF run own] stable [OF _ rely]
    unfolding sys_ok_def turn_def by auto
  show "steps s [] [] (turn env s)"
    using run own unfolding steps_def turn_def by auto
qed

lemma own_hist_ok:
  assumes "sys_ok C env ph k s"
  obtains h where "own_hist s = Some h" and "unmerged h \<le> k"
    and "doer_at (w_doers (sh_hist (s_shared s))) (do_hg (s_doer s)) (ph, h)"
  using assms by (auto simp: sys_ok_def own_hist_def doer_at_def Let_def)

lemma set_hist_ok:
  assumes ok: "sys_ok C env ph k s" and k: "unmerged h' \<le> k'"
    and run: "hruns (sh_hist (s_shared s)) [(e, r)]
      \<lparr>w_global = g, w_doers = (w_doers (sh_hist (s_shared s)))[do_hg (s_doer s) := (ph', h')]\<rparr>"
    and own: "event_doer e = Some (do_hg (s_doer s))"
  shows "sys_ok C env ph' k' (set_hist ph' h' g s)" and "steps s [e] [] (set_hist ph' h' g s)"
proof -
  show "sys_ok C env ph' k' (set_hist ph' h' g s)"
    using ok k hist_ok_runs [OF run] unfolding sys_ok_def set_hist_def Let_def
    by (auto simp: doer_at_def)
  show "steps s [e] [] (set_hist ph' h' g s)"
    using run own unfolding steps_def set_hist_def Let_def
    by (auto intro!: exI [of _ "[(e, r)]"])
qed

lemma hist_reset_sys:
  assumes env: "benv_ok rely (do_hg (s_doer s)) env" and ok: "sys_ok C env ph k s"
    and ph: "ph \<in> {Fresh, Flushed}" and b: "b \<in> mask_set (do_benchmask (s_doer s))"
  obtains s' where "hist_reset env b s = Some s'" and "sys_ok C env Running 0 s'"
    and "steps s [Reset (do_hg (s_doer s)) b] [] s'"
proof -
  let ?s = "turn env s"
  note t = turn_ok [OF env ok]
  have d: "do_hg (s_doer ?s) = do_hg (s_doer s)" "do_benchmask (s_doer ?s) = do_benchmask (s_doer s)"
    by (simp_all add: turn_def)
  obtain h where h: "own_hist ?s = Some h"
    and at: "doer_at (w_doers (sh_hist (s_shared ?s))) (do_hg (s_doer ?s)) (ph, h)"
    by (rule own_hist_ok [OF t(1)])
  have "h_enabled (per_bench (w_global (sh_hist (s_shared ?s))) b)"
    using t(1) b d by (auto simp: sys_ok_def hist_ok_def)
  from hruns_one [OF hstep.reset [OF at ph this, of "e_clock env (s_tick s)"]]
  have run: "hruns (sh_hist (s_shared ?s)) [(Reset (do_hg (s_doer ?s)) b, None)]
      \<lparr>w_global = w_global (sh_hist (s_shared ?s)),
       w_doers = (w_doers (sh_hist (s_shared ?s)))[do_hg (s_doer ?s) :=
         (Running, ia_histogram_reset (e_clock env (s_tick s)) b h)]\<rparr>"
    by (simp only: hworld_doers)
  have z: "unmerged (ia_histogram_reset (e_clock env (s_tick s)) b h) \<le> 0" by simp
  note s2 = set_hist_ok [OF t(1) z run event_doer.simps(1)]
  show ?thesis
    using h s2(1) steps_trans [OF t(2) s2(2)] d
    by (intro that) (simp_all add: hist_reset_def Let_def)
qed

lemma hist_add_sys:
  assumes env: "benv_ok rely (do_hg (s_doer s)) env" and ok: "sys_ok C env Running k s"
    and room: "k < 2 ^ 64 - 1"
  obtains s' l where "hist_add env t0 v s = Some s'" and "sys_ok C env Running (Suc k) s'"
    and "steps s [Add (do_hg (s_doer s)) (l, v)] [Measured v] s'"
proof -
  let ?s = "turn env s"
  note t = turn_ok [OF env ok]
  have d: "do_hg (s_doer ?s) = do_hg (s_doer s)" by (simp add: turn_def)
  obtain h where h: "own_hist ?s = Some h" and k: "unmerged h \<le> k"
    and at: "doer_at (w_doers (sh_hist (s_shared ?s))) (do_hg (s_doer ?s)) (Running, h)"
    by (rule own_hist_ok [OF t(1)])
  have "hist_ok (mask_set (do_benchmask (s_doer ?s))) (sh_hist (s_shared ?s))" using t(1) by (simp add: sys_ok_def)
  moreover have "e_clock env (s_tick s) \<noteq> 0" using env by (simp add: benv_ok_def)
  moreover have "unmerged h < 2 ^ 64 - 1" using room k by simp
  ultimately obtain h' g r where
    add: "ia_histogram_add (e_clock env (s_tick s)) (e_trylock env (s_tick s)) h t0 v (w_global (sh_hist (s_shared ?s))) = Some (h', g, r)"
    and run: "hruns (sh_hist (s_shared ?s)) [(Add (do_hg (s_doer ?s)) (e_clock env (s_tick s) - t0, v), r)]
      \<lparr>w_global = g, w_doers = (w_doers (sh_hist (s_shared ?s)))[do_hg (s_doer ?s) := (Running, h')]\<rparr>"
    and k': "unmerged h' \<le> Suc (unmerged h)"
    using hist_add_ok [OF _ at] by metis
  have k'': "unmerged h' \<le> Suc k" using k k' by simp
  let ?s2 = "set_hist Running h' g ?s"
  note s2 = set_hist_ok [OF t(1) k'' run event_doer.simps(2)]
  have calls: "s_calls ?s2 = s_calls ?s" by (simp add: set_hist_def Let_def)
  let ?s3 = "?s2\<lparr>s_calls := s_calls ?s @ [Measured v]\<rparr>"
  have "sys_ok C env Running (Suc k) ?s3" using s2(1) by (simp add: sys_ok_def)
  moreover have "steps ?s2 [] [Measured v] ?s3"
    using calls by (auto simp: steps_def intro!: exI [of _ "[]"] hruns.nil)
  then have "steps s [Add (do_hg (s_doer s)) (e_clock env (s_tick s) - t0, v)] [Measured v] ?s3"
    using steps_trans [OF steps_trans [OF t(2) s2(2)]] d by fastforce
  ultimately show ?thesis
    using add h by (intro that [of ?s3]) (simp_all add: hist_add_def Let_def)
qed

lemma hist_merge_sys:
  assumes env: "benv_ok rely (do_hg (s_doer s)) env" and ok: "sys_ok C env Running k s"
  obtains s' where "hist_merge env s = Some s'" and "\<exists>k. sys_ok C env Flushed k s'"
    and "steps s [Merge (do_hg (s_doer s))] [] s'"
proof -
  let ?s = "turn env s"
  note t = turn_ok [OF env ok]
  have d: "do_hg (s_doer ?s) = do_hg (s_doer s)" by (simp add: turn_def)
  obtain h where h: "own_hist ?s = Some h"
    and at: "doer_at (w_doers (sh_hist (s_shared ?s))) (do_hg (s_doer ?s)) (Running, h)"
    by (rule own_hist_ok [OF t(1)])
  obtain a where sim: "hsim (sh_hist (s_shared ?s)) a" using t(1) by (auto simp: sys_ok_def hist_ok_def)
  have clock: "e_clock env (s_tick s) \<noteq> 0" using env by (simp add: benv_ok_def)
  obtain h' g r where m: "ia_histogram_merge (e_clock env (s_tick s)) h (w_global (sh_hist (s_shared ?s))) = Some (h', g, r)"
    by (rule hsim_merge [OF sim at clock])
  note s2 = set_hist_ok [OF t(1) order.refl hruns_one [OF hstep.merge [OF at clock m]] event_doer.simps(3)]
  have "steps s [Merge (do_hg (s_doer s))] [] (set_hist Flushed h' g ?s)"
    using steps_trans [OF t(2) s2(2)] d by simp
  then show ?thesis
    using m h s2(1) by (intro that [of "set_hist Flushed h' g ?s"]) (auto simp: hist_merge_def Let_def)
qed

lemma timestamp_sys:
  assumes "sys_ok C env ph k s"
  shows "sys_ok C env ph k (snd (timestamp env s))" and "steps s [] [] (snd (timestamp env s))"
  using assms by (auto simp: timestamp_def sys_ok_def steps_def intro!: exI [of _ "[]"] hruns.nil)

end

end
