(* ===== verification/DoerRuns.thy ===== *)
theory DoerRuns
  imports DoerState
begin

text \<open>
  The benchmarks of a doer return (\<open>src/ia_benchmark.c\<close>): with a driver that keeps the contract no
  call aborts, no loop runs forever, and every operation measured is an event of the histograms.
\<close>

section \<open>Operations measured\<close>

fun measured :: "call list \<Rightarrow> u64 list" where
  "measured [] = []"
| "measured (Measured v # cs) = v # measured cs"
| "measured (_ # cs) = measured cs"

lemma measured_append [simp]: "measured (xs @ ys) = measured xs @ measured ys"
  by (induction xs rule: measured.induct) auto

text \<open>From \<open>s0\<close> to \<open>s\<close> this doer has added the operations \<open>ss\<close> to its histogram, and no other event.\<close>

definition trace :: "('w, 'c) sys \<Rightarrow> sample list \<Rightarrow> ('w, 'c) sys \<Rightarrow> bool" where
  "trace s0 ss s \<longleftrightarrow> (\<exists>cs. steps s0 (map (Add (do_hg (s_doer s0))) ss) cs s \<and> measured cs = map snd ss)"

definition live ::
  "('c \<Rightarrow> 'w \<Rightarrow> bool) \<Rightarrow> ('w, 'c) benv \<Rightarrow> nat \<Rightarrow> ('w, 'c) sys \<Rightarrow> sample list \<Rightarrow> ('w, 'c) sys \<Rightarrow> bool" where
  "live C env k s0 ss s \<longleftrightarrow> sys_ok C env Running k s \<and> trace s0 ss s"

lemma trace_refl [simp]: "trace s [] s"
  by (auto simp: trace_def intro!: exI [of _ "[]"])

lemma trace_doer: "trace s0 ss s \<Longrightarrow> do_hg (s_doer s) = do_hg (s_doer s0) \<and> do_benchmask (s_doer s) = do_benchmask (s_doer s0)"
  by (auto simp: trace_def steps_def)

lemma trace_step:
  assumes "trace s0 ss s" and "steps s (map (Add (do_hg (s_doer s))) ss') cs s'" and "measured cs = map snd ss'"
  shows "trace s0 (ss @ ss') s'"
proof -
  obtain cs0 where "steps s0 (map (Add (do_hg (s_doer s0))) ss) cs0 s" and m: "measured cs0 = map snd ss"
    using assms(1) by (auto simp: trace_def)
  from steps_trans [OF this(1) assms(2)]
  have "steps s0 (map (Add (do_hg (s_doer s0))) (ss @ ss')) (cs0 @ cs) s'"
    using trace_doer [OF assms(1)] by simp
  then show ?thesis using m assms(3) unfolding trace_def by (metis map_append measured_append)
qed

lemma trace_quiet: "trace s0 ss s \<Longrightarrow> steps s [] cs s' \<Longrightarrow> measured cs = [] \<Longrightarrow> trace s0 ss s'"
  using trace_step [of s0 ss s "[]" cs s'] by simp

lemma trace_trans:
  assumes "trace s0 ss s" and "trace s ss' s'"
  shows "trace s0 (ss @ ss') s'"
  using assms(2) trace_step [OF assms(1)] unfolding trace_def [of s] by blast

lemma live_mono: "live C env k s0 ss s \<Longrightarrow> k \<le> k' \<Longrightarrow> live C env k' s0 ss s"
  unfolding live_def sys_ok_def by (meson order.trans)

lemma live_weaken: "live (\<lambda>c w. C c w \<and> D c w) env k s0 ss s \<Longrightarrow> live C env k s0 ss s"
  unfolding live_def sys_ok_def by blast

lemma with_call_ok:
  assumes "sys_ok C env ph k s" and "C' c' w'"
  shows "sys_ok C' env ph k (with_call e c' w' s)" and "steps s [] [e] (with_call e c' w' s)"
  using assms by (auto simp: with_call_def sys_ok_def steps_def gens_ok_def intro!: exI [of _ "[]"] hruns.nil)

section \<open>Generators and pools\<close>

text \<open>Only the generators of a doer change.\<close>

definition same_but_gens :: "('w, 'c) sys \<Rightarrow> ('w, 'c) sys \<Rightarrow> bool" where
  "same_but_gens s s' \<longleftrightarrow> s' = s\<lparr>s_doer := (s_doer s)
     \<lparr>do_gen_a := do_gen_a (s_doer s'), do_gen_b := do_gen_b (s_doer s')\<rparr>\<rparr>"

lemma live_gens:
  assumes "live C env k s0 ss s" and "same_but_gens s s'" and "gens_ok env (s_doer s')"
  shows "live C env k s0 ss s'"
proof -
  have eq: "do_hg (s_doer s') = do_hg (s_doer s)" "do_benchmask (s_doer s') = do_benchmask (s_doer s)"
    "do_ctx (s_doer s') = do_ctx (s_doer s)" "s_shared s' = s_shared s" "s_calls s' = s_calls s"
    "s_tick s' = s_tick s"
    by (subst assms(2) [unfolded same_but_gens_def], simp)+
  then have "steps s [] [] s'"
    by (auto simp: steps_def intro!: exI [of _ "[]"] hruns.nil)
  then have "trace s0 ss s'" using assms(1) trace_quiet [of s0 ss s "[]" s'] by (simp add: live_def)
  then show ?thesis
    using assms(1,3) eq by (auto simp: live_def sys_ok_def)
qed

text \<open>What a generator or a pool hands out can be read.\<close>

lemma kvgen_get_ready:
  assumes ok: "kvgen_ok g gen" and get: "ia_kvgen_get g gen key_only = Some (gen', kv)"
  shows "kv_ready kv"
proof -
  have pr: "g_printable g" and ks: "g_ksize g \<noteq> 0" using ok by (auto simp: kvgen_ok_def)
  obtain tl where k: "kv_ksize kv = ucast (g_ksize g)" "kv_k kv = Some (key_text g (key_point gen) @ 0 # tl)"
    and v: "kv_vsize kv = (if key_only then 0 else ucast (kg_vsize gen))"
    using kvgen_get_ok [OF ok, of key_only] get by force
  have "readable (kv_v kv) (kv_vsize kv)"
  proof (cases "key_only \<or> kg_vsize gen = 0")
    case True
    then show ?thesis using v by (auto simp: readable_def)
  next
    case False
    obtain bytes buf where w: "write_block bytes (kg_buf gen) = Some buf"
      and kv: "kv_v kv = Some (drop (unat (key_stride g (ucast (g_ksize g)))) buf)"
      and len: "length bytes = unat (kvpair_bytes g (ucast (kg_vsize gen)))"
      using get False unfolding ia_kvgen_get_def Let_def by (auto split: option.splits if_splits)
    have "length bytes \<le> length buf" using w by (auto simp: write_block_def split: if_splits)
    moreover have "unat (ucast (kg_vsize gen) :: u64) = unat (kg_vsize gen)" by simp
    ultimately show ?thesis
      using len False by (auto simp: readable_def kv v unat_key_stride [OF pr] kvpair_bytes_printable [OF pr])
  qed
  then show ?thesis
    using k ks by (simp add: kv_ready_def) (simp add: readable_def length_key_text)
qed

lemma kvgen_get_gen_ok:
  assumes "gen_ok env (Some gen)"
  obtains gen' kv where "ia_kvgen_get (e_kv env) gen key_only = Some (gen', kv)" and "gen_ok env (Some gen')"
    and "kv_ready kv"
proof -
  have ok: "kvgen_ok (e_kv env) gen" using assms by (simp add: gen_ok_def)
  obtain gen' kv where get: "ia_kvgen_get (e_kv env) gen key_only = Some (gen', kv)" and ok': "kvgen_ok (e_kv env) gen'"
    by (rule kvgen_get_ok [OF ok])
  have "kg_pair_bytes gen' = kg_pair_bytes gen \<and> kg_vsize gen' = kg_vsize gen"
    using get unfolding ia_kvgen_get_def Let_def by (simp split: option.splits if_split_asm) auto
  then show ?thesis using ok' assms kvgen_get_ready [OF ok get] by (intro that [OF get]) (auto simp: gen_ok_def)
qed

lemma gen_get_a_ok:
  assumes "live C env k s0 ss s"
  obtains a s' where "gen_get_a env key_only s = Some (a, s')" and "live C env k s0 ss s'" and "kv_ready a"
proof -
  have "gens_ok env (s_doer s)" using assms by (simp add: live_def sys_ok_def)
  then obtain gen where gen: "do_gen_a (s_doer s) = Some gen" "gen_ok env (Some gen)"
    by (auto simp: gens_ok_def gen_ok_def)
  obtain gen' kv where "ia_kvgen_get (e_kv env) gen key_only = Some (gen', kv)" and "gen_ok env (Some gen')"
    and "kv_ready kv"
    by (rule kvgen_get_gen_ok [OF gen(2)])
  then show ?thesis
    using gen \<open>gens_ok env (s_doer s)\<close>
    by (intro that live_gens [OF assms])
      (auto simp: gen_get_a_def same_but_gens_def gens_ok_def)
qed

lemma gen_get_b_ok:
  assumes "live C env k s0 ss s" and "do_benchmask (s_doer s) AND bench_mask_2keyspace \<noteq> 0"
  obtains b s' where "gen_get_b env key_only s = Some (b, s')" and "live C env k s0 ss s'" and "kv_ready b"
proof -
  have "gens_ok env (s_doer s)" using assms by (simp add: live_def sys_ok_def)
  then obtain gen where gen: "do_gen_b (s_doer s) = Some gen" "gen_ok env (Some gen)"
    using assms(2) by (auto simp: gens_ok_def gen_ok_def)
  obtain gen' kv where "ia_kvgen_get (e_kv env) gen key_only = Some (gen', kv)" and "gen_ok env (Some gen')"
    and "kv_ready kv"
    by (rule kvgen_get_gen_ok [OF gen(2)])
  then show ?thesis
    using gen \<open>gens_ok env (s_doer s)\<close>
    by (intro that live_gens [OF assms(1)])
      (auto simp: gen_get_b_def same_but_gens_def gens_ok_def)
qed

lemma kvpool_fill_buf: "kvpool_fill g gen n = Some (bs, gen') \<Longrightarrow> kg_buf gen' = kg_buf gen"
  by (induction n arbitrary: gen bs) (fastforce split: if_splits option.splits)+

definition pool_ok :: "ia_kvpool \<Rightarrow> bool" where
  "pool_ok p \<longleftrightarrow> pl_end p = length (pl_buf p)"

lemma kvpool_pull_ready:
  assumes ok: "gen_ok env (Some gen)" and n: "0 < c_batch_length (e_conf env)" and pool: "pool_ok p"
    and pull: "ia_kvpool_pull (e_kv env) gen p kv = (rc, p', kv')"
  shows "pool_ok p' \<and> (rc = 0 \<longrightarrow> kv_ready kv')"
proof -
  let ?b = "kvpair_bytes (e_kv env) (ucast (kg_vsize gen))"
  have kv: "kvgen_ok (e_kv env) gen" and pb: "kg_pair_bytes gen = ucast ?b"
    and fits: "unat ?b * nat (c_batch_length (e_conf env)) < 2 ^ 32"
    using ok by (auto simp: gen_ok_def)
  have pr: "g_printable (e_kv env)" using kv by (simp add: kvgen_ok_def)
  obtain m where "nat (c_batch_length (e_conf env)) = Suc m" using n by (metis gr0_implies_Suc zero_less_nat_eq)
  then have "unat ?b < 2 ^ 32" using fits by simp
  then have b: "unat (kg_pair_bytes gen) = unat ?b"
    by (simp add: pb unsigned_ucast_eq take_bit_nat_eq_self)
  have pos: "(0 :: u64) < ucast (kg_vsize gen) \<longleftrightarrow> kg_vsize gen \<noteq> 0"
    unfolding word_less_nat_alt by (simp add: unat_gt_0)
  have "pl_pos p + unat ?b \<le> length (pl_buf p)" if "rc = 0"
    using pull pool that b
    by (auto simp: ia_kvpool_pull_def Let_def pool_ok_def simp del: of_nat_unat split: if_splits)
  then have room: "pl_pos p + unat (g_ksize (e_kv env)) + (if kg_vsize gen = 0 then 1 else unat (kg_vsize gen) + 2)
      \<le> length (pl_buf p)" if "rc = 0"
    using that by (simp add: kvpair_bytes_printable [OF pr])
  show ?thesis
    using pull pool room
    by (auto simp: ia_kvpool_pull_def Let_def pool_ok_def kv_ready_def readable_def pos
        unat_key_stride [OF pr] simp del: of_nat_unat split: if_splits)
qed

text \<open>A pool for \<open>n\<close> records is filled, or the request is refused; its pulls succeed \<open>n\<close> times.\<close>

lemma kvpool_init_gen_ok:
  assumes ok: "gen_ok env (Some gen)" and alloc: "alloc_ok (e_alloc env)"
  defines "n \<equiv> c_batch_length (e_conf env)"
  obtains rc pool gen' where "ia_kvpool_init (e_alloc env) (e_kv env) pp gen n = Some (rc, pool, gen')"
    and "gen_ok env (Some gen')" and "rc = 0 \<and> 0 < n \<and> (\<exists>p. pool = Some p \<and> pool_ok p) \<or> rc = -1"
proof (cases "n < 1 \<or> (2 ^ 31 - 1) div 2 < n \<or> e_alloc env (unat (kg_pair_bytes gen * of_int n)) = None")
  case True
  then show ?thesis
    using ok by (intro that [of "-1" pp gen]) (auto simp: ia_kvpool_init_def Let_def)
next
  case False
  let ?b = "kvpair_bytes (e_kv env) (ucast (kg_vsize gen))"
  have kv: "kvgen_ok (e_kv env) gen" and pb: "kg_pair_bytes gen = ucast ?b" and fits: "unat ?b * nat n < 2 ^ 32"
    using ok by (auto simp: gen_ok_def n_def)
  obtain m where m: "n = int m" "0 < m" using False zero_less_imp_eq_int [of n] by auto
  have "unat ?b < 2 ^ 32" by (rule le_less_trans [of _ "unat ?b * m"]) (use fits m in simp_all)
  then have b: "unat (kg_pair_bytes gen) = unat ?b"
    by (simp add: pb unsigned_ucast_eq take_bit_nat_eq_self)
  obtain bss gen' genf kvs where fill: "kvpool_fill (e_kv env) gen m = Some (concat bss, gen')"
    and bss: "length bss = m" "\<forall>bs \<in> set bss. length bs = unat ?b"
    and gets: "kvgen_gets (e_kv env) gen (replicate m False) = Some (genf, kvs)" and same: "same_gen genf gen'"
    and gen': "kg_pair_bytes gen' = kg_pair_bytes gen" "kg_vsize gen' = kg_vsize gen"
    using kvpool_fill_text [OF kv, of gen m] by (auto simp: same_gen_def)
  have total: "length (concat bss) = unat ?b * m"
    using bss by (simp add: length_concat sum_list_triv cong: map_cong)
  have "m < 2 ^ 32" using False m by auto
  then have prod: "unat (kg_pair_bytes gen * of_int n) = unat ?b * m"
    using fits b m by (simp add: unat_word_ariths unat_of_nat)
  have "kg_serial gen' < g_period (e_kv env)"
    using kvgen_gets_keys [OF kv, of "replicate m False"] gets same kv by (auto simp: kvgen_ok_def same_gen_def word_less_nat_alt)
  moreover have "kg_buf gen' = kg_buf gen"
    using fill by (rule kvpool_fill_buf)
  ultimately have "gen_ok env (Some gen')"
    using ok gen' by (auto simp: gen_ok_def kvgen_ok_def)
  moreover have "ia_kvpool_init (e_alloc env) (e_kv env) pp gen n =
      Some (0, Some \<lparr>pl_pos = 0, pl_end = length (concat bss), pl_buf = concat bss\<rparr>, gen')"
    using False m prod by (auto simp: ia_kvpool_init_def Let_def fill total)
  ultimately show ?thesis using m by (intro that) (auto simp: pool_ok_def)
qed

section \<open>Calls of the driver\<close>

definition doer_env :: "('w \<Rightarrow> 'w \<Rightarrow> bool) \<Rightarrow> ('w, 'c) iadriver \<Rightarrow> ('w, 'c) benv \<Rightarrow> ('w, 'c) sys \<Rightarrow> bool" where
  "doer_env rely drv env s0 \<longleftrightarrow> benv_ok rely (do_hg (s_doer s0)) env \<and> e_drv env = drv"

context doer_context
begin

lemma live_turn:
  assumes env: "doer_env rely drv env s0" and live: "live C env k s0 ss s"
  shows "sys_ok C env Running k (turn env s)" and "trace s0 ss (turn env s)"
proof -
  have "benv_ok rely (do_hg (s_doer s)) env"
    using env live trace_doer [of s0 ss s] by (auto simp: doer_env_def live_def)
  note t = turn_ok [OF this, of Running k]
  show "sys_ok C env Running k (turn env s)" using t(1) live by (simp add: live_def)
  show "trace s0 ss (turn env s)"
    using t(2) live trace_quiet [of s0 ss s "[]"] by (simp add: live_def)
qed

lemma live_call:
  assumes env: "doer_env rely drv env s0" and live: "live C env k s0 ss s"
    and "C' c' w'" and "measured [e] = []"
  shows "live C' env k s0 ss (with_call e c' w' (turn env s))"
  using with_call_ok [where C' = C', OF live_turn(1) [OF env live] assms(3), of e]
    trace_quiet [OF live_turn(2) [OF env live], of "[e]"] assms(4)
  by (simp add: live_def)

lemma live_context:
  assumes env: "doer_env rely drv env s0" and live: "live C env k s0 ss s"
  obtains c where "do_ctx (s_doer (turn env s)) = Some c" and "C c (sh_priv (s_shared (turn env s)))"
  using live_turn(1) [OF env live] by (auto simp: sys_ok_def)

lemma live_timestamp:
  assumes "live C env k s0 ss s"
  shows "live C env k s0 ss (snd (timestamp env s))"
  using assms timestamp_sys [of env Running k s] trace_quiet [of s0 ss s "[]"] by (simp add: live_def)

lemma live_add:
  assumes env: "doer_env rely drv env s0" and live: "live C env k s0 ss s" and "k < 2 ^ 64 - 1"
  obtains s' l where "hist_add env t0 v s = Some s'" and "live C env (Suc k) s0 (ss @ [(l, v)]) s'"
proof -
  have e: "benv_ok rely (do_hg (s_doer s)) env" and ok: "sys_ok C env Running k s"
    using env live trace_doer [of s0 ss s] by (auto simp: doer_env_def live_def)
  obtain s' l where s': "hist_add env t0 v s = Some s'" "sys_ok C env Running (Suc k) s'"
    "steps s [Add (do_hg (s_doer s)) (l, v)] [Measured v] s'"
    by (rule hist_add_sys [OF e ok assms(3)])
  moreover have "trace s0 (ss @ [(l, v)]) s'"
    using live trace_step [of s0 ss s "[(l, v)]" "[Measured v]" s'] s'(3) by (simp add: live_def)
  ultimately show ?thesis by (intro that) (auto simp: live_def)
qed

end

lemma forgive_rc: "rc \<in> {0, ENOENT, -1} \<Longrightarrow> forgive env rc \<in> {0, ENOENT, -1}"
  by (simp add: forgive_def)

text \<open>A context in which \<open>next\<close> may be called for the operations in \<open>ops\<close>.\<close>

locale stepping = doer_context +
  fixes drv :: "('w, 'c) iadriver" and ops :: "iabenchmark set"
  assumes next_C: "C c w \<Longrightarrow> step \<in> ops \<Longrightarrow> (step \<noteq> IA_ITERATE \<Longrightarrow> kv_ready kv) \<Longrightarrow>
      \<exists>rc kv' c' w'. d_next drv c step kv w = Some (rc, kv', c', w') \<and>
        rely w w' \<and> C c' w' \<and> rc \<in> {0, ENOENT, -1} \<and> (step \<in> {IA_SET, IA_DELETE} \<longrightarrow> kv' = kv)"
begin

lemma driver_next_ok:
  assumes env: "doer_env rely drv env s0" and live: "live C env k s0 ss s" and st: "step \<in> ops"
    and kv: "step \<noteq> IA_ITERATE \<Longrightarrow> kv_ready kv"
  obtains rc kv' s' where "driver_next env step kv s = Some (rc, kv', s')" and "live C env k s0 ss s'"
    and "rc \<in> {0, ENOENT, -1}" and "step \<in> {IA_SET, IA_DELETE} \<longrightarrow> kv' = kv"
proof -
  obtain c where c: "do_ctx (s_doer (turn env s)) = Some c" "C c (sh_priv (s_shared (turn env s)))"
    by (rule live_context [OF env live]) auto
  obtain rc kv' c' w' where r: "d_next drv c step kv (sh_priv (s_shared (turn env s))) = Some (rc, kv', c', w')"
    "C c' w'" "rc \<in> {0, ENOENT, -1}" "step \<in> {IA_SET, IA_DELETE} \<longrightarrow> kv' = kv"
    using next_C [OF c(2) st kv] by blast
  have "driver_next env step kv s = Some (rc, kv', with_call (Call_next step kv kv' rc) c' w' (turn env s))"
    using env c r by (simp add: driver_next_def doer_env_def)
  moreover have "live C env k s0 ss (with_call (Call_next step kv kv' rc) c' w' (turn env s))"
    using r(2) by (intro live_call [OF env live]) auto
  ultimately show ?thesis
    using r(3,4) by (intro that) auto
qed

lemma next_unless_failed:
  assumes env: "doer_env rely drv env s0" and live: "live C env k s0 ss s" and st: "step \<in> ops"
    and kv: "kv_ready kv" and rc: "rc \<in> {0, ENOENT, -1}" and f: "\<And>rc. rc \<in> {0, ENOENT, -1} \<Longrightarrow> f rc \<in> {0, ENOENT, -1}"
  obtains rc' kv' s' where "(if rc = 0
      then do { (rc, kv, s) \<leftarrow> driver_next env step kv s; Some (f rc, kv, s) } else Some (rc, kv, s)) = Some (rc', kv', s')"
    and "live C env k s0 ss s'" and "rc' \<in> {0, ENOENT, -1}" and "step \<in> {IA_SET, IA_DELETE} \<longrightarrow> kv' = kv"
proof (cases "rc = 0")
  case True
  obtain rc1 kv1 s1 where "driver_next env step kv s = Some (rc1, kv1, s1)"
    and "live C env k s0 ss s1" and rc1: "rc1 \<in> {0, ENOENT, -1}" and "step \<in> {IA_SET, IA_DELETE} \<longrightarrow> kv1 = kv"
    by (rule driver_next_ok [OF env live st kv])
  then show ?thesis using True by (intro that [OF _ _ f [OF rc1]]) auto
next
  case False
  then show ?thesis using live rc by (intro that) auto
qed

text \<open>The four operations of a transaction: whichever fails, the state stays in order.\<close>

lemma ia_quadruple_ok:
  assumes env: "doer_env rely drv env s0" and live: "live C env k s0 ss s"
    and "{IA_SET, IA_DELETE, IA_GET} \<subseteq> ops" and kv: "kv_ready x" "kv_ready y"
  obtains rc ka kb s' where "ia_quadruple env x y s = Some (rc, ka, kb, s')"
    and "live C env k s0 ss s'" and "rc \<in> {0, ENOENT, -1}"
proof -
  have st: "IA_SET \<in> ops" "IA_DELETE \<in> ops" "IA_GET \<in> ops"
    using assms(3) by auto
  obtain rc1 y1 s1 where 1: "driver_next env IA_SET y s = Some (rc1, y1, s1)"
    "live C env k s0 ss s1" "rc1 \<in> {0, ENOENT, -1}" "y1 = y"
    by (rule driver_next_ok [OF env live st(1) kv(2)]) auto
  obtain rc2 x2 s2 where 2: "(if rc1 = 0 then do { (rc, b, s) \<leftarrow> driver_next env IA_SET x s1; Some (rc, b, s) }
      else Some (rc1, x, s1)) = Some (rc2, x2, s2)"
    "live C env k s0 ss s2" "rc2 \<in> {0, ENOENT, -1}" "x2 = x"
    by (rule next_unless_failed [OF env 1(2) st(1) kv(1) 1(3), of "\<lambda>rc. rc"]) auto
  obtain rc3 y3 s3 where 3: "(if rc2 = 0
      then do { (rc, b, s) \<leftarrow> driver_next env IA_DELETE y1 s2; Some (forgive env rc, b, s) }
      else Some (rc2, y1, s2)) = Some (rc3, y3, s3)"
    "live C env k s0 ss s3" "rc3 \<in> {0, ENOENT, -1}"
    by (rule next_unless_failed [OF env 2(2) st(2) kv(2) [folded 1(4)] 2(3) forgive_rc])
  obtain rc4 x4 s4 where 4: "(if rc3 = 0
      then do { (rc, b, s) \<leftarrow> driver_next env IA_GET x2 s3; Some (forgive env rc, b, s) }
      else Some (rc3, x2, s3)) = Some (rc4, x4, s4)"
    "live C env k s0 ss s4" "rc4 \<in> {0, ENOENT, -1}"
    by (rule next_unless_failed [OF env 3(2) st(3) kv(1) [folded 2(4)] 3(3) forgive_rc])
  have 2: "(if rc1 = 0 then driver_next env IA_SET x s1 else Some (rc1, x, s1)) = Some (rc2, x2, s2)"
    using 2(1) by (cases "driver_next env IA_SET x s1") (auto split: if_splits)
  show ?thesis
    by (rule that [OF _ 4(2,3)]) (simp only: ia_quadruple_def 1(1) 2 3(1) 4(1) Option.bind.simps prod.case)
qed

end

sublocale driver_contract \<subseteq> idle: doer_context rely idle
  by unfold_locales (rule idle_rely)

sublocale driver_contract \<subseteq> busy: stepping rely "\<lambda>c w. idle c w \<and> ready b c w" drv "{step. step_allowed b step}" for b
proof unfold_locales
  fix c w step kv
  assume "idle c w \<and> ready b c w" and "step \<in> {step. step_allowed b step}" and "step \<noteq> IA_ITERATE \<Longrightarrow> kv_ready kv"
  then show "\<exists>rc kv' c' w'. d_next drv c step kv w = Some (rc, kv', c', w') \<and>
        rely w w' \<and> (idle c' w' \<and> ready b c' w') \<and> rc \<in> {0, ENOENT, -1} \<and> (step \<in> {IA_SET, IA_DELETE} \<longrightarrow> kv' = kv)"
    using next_ok [of b c w step kv] by blast
qed (auto intro: idle_rely ready_rely)

sublocale robust_driver \<subseteq> loose: stepping rely idle drv "{IA_SET, IA_DELETE, IA_GET}"
  by unfold_locales (rule next_idle, auto)

context driver_contract
begin

abbreviation "busy_at b \<equiv> \<lambda>c w. idle c w \<and> ready b c w"

lemma driver_begin_ok:
  assumes env: "doer_env rely drv env s0" and live: "live idle env k s0 ss s" and b: "b < IA_MAX"
  obtains rc s' where "driver_begin env b s = Some (rc, s')" and "live idle env k s0 ss s'"
    and "rc = 0 \<and> live (busy_at b) env k s0 ss s' \<or> rc = -1"
proof -
  obtain c where c: "do_ctx (s_doer (turn env s)) = Some c" "idle c (sh_priv (s_shared (turn env s)))"
    by (rule idle.live_context [OF env live])
  obtain rc c' w' where r: "d_begin drv c b (sh_priv (s_shared (turn env s))) = Some (rc, c', w')"
    "idle c' w'" "rc = 0 \<and> ready b c' w' \<or> rc = -1"
    using begin_ok [OF c(2) b] by blast
  have "driver_begin env b s = Some (rc, with_call (Call_begin b rc) c' w' (turn env s))"
    using env c r by (simp add: driver_begin_def doer_env_def)
  moreover have "ready b c' w' \<Longrightarrow> live (busy_at b) env k s0 ss (with_call (Call_begin b rc) c' w' (turn env s))"
    using r(2) by (intro idle.live_call [OF env live]) auto
  moreover have "live idle env k s0 ss (with_call (Call_begin b rc) c' w' (turn env s))"
    using r(2) by (intro idle.live_call [OF env live]) auto
  ultimately show ?thesis
    using r(3) by (intro that) auto
qed

lemma driver_done_ok:
  assumes env: "doer_env rely drv env s0" and live: "live idle env k s0 ss s" and b: "b < IA_MAX"
  obtains rc s' where "driver_done env b s = Some (rc, s')" and "live idle env k s0 ss s'" and "rc \<in> {0, -1}"
proof -
  obtain c where c: "do_ctx (s_doer (turn env s)) = Some c" "idle c (sh_priv (s_shared (turn env s)))"
    by (rule idle.live_context [OF env live])
  obtain rc c' w' where r: "d_done drv c b (sh_priv (s_shared (turn env s))) = Some (rc, c', w')"
    "idle c' w'" "rc \<in> {0, -1}"
    using done_ok [OF c(2) b] by blast
  have "driver_done env b s = Some (rc, with_call (Call_done b rc) c' w' (turn env s))"
    using env c r by (simp add: driver_done_def doer_env_def)
  moreover have "live idle env k s0 ss (with_call (Call_done b rc) c' w' (turn env s))"
    using r(2) by (intro idle.live_call [OF env live]) auto
  ultimately show ?thesis
    using r(3) by (intro that) auto
qed

end

section \<open>One turn of the benchmark loop\<close>

text \<open>
  After a turn the doer is still in order; either the loop ends, or \<open>i\<close> has grown within the count
  and bounds what is unmerged.
\<close>

definition turn_done :: "('c \<Rightarrow> 'w \<Rightarrow> bool) \<Rightarrow> ('w, 'c) benv \<Rightarrow> ('w, 'c) sys \<Rightarrow> u64 \<Rightarrow> sample list \<Rightarrow> ('w, 'c) bloop \<Rightarrow> bool" where
  "turn_done C env s0 i0 ss l \<longleftrightarrow> (\<exists>k. live C env k s0 ss (bl_sys l)) \<and> bl_rc l \<in> {0, ENOENT, -1} \<and>
     (bl_goto l \<or> bl_rc l \<noteq> 0 \<or>
      live C env (unat (bl_i l)) s0 ss (bl_sys l) \<and> i0 < bl_i l \<and> bl_i l \<le> c_count (e_conf env))"

text \<open>What a benchmark needs of one turn: the loop, and the whole benchmark, then return.\<close>

definition turns_ok :: "('c \<Rightarrow> 'w \<Rightarrow> bool) \<Rightarrow> ('w, 'c) benv \<Rightarrow> iabenchmark \<Rightarrow> ('w, 'c) sys \<Rightarrow> bool" where
  "turns_ok C env bench s0 \<longleftrightarrow> (\<forall>l ss. live C env (unat (bl_i l)) s0 ss (bl_sys l) \<and>
     bl_i l < c_count (e_conf env) \<and> bl_rc l = 0 \<longrightarrow>
     (\<exists>l' ss'. bench_step env bench l = Some l' \<and> turn_done C env s0 (bl_i l) ss' l'))"

context driver_contract
begin

lemma bench_simple_ok:
  assumes env: "doer_env rely drv env s0" and live: "live idle env (unat (bl_i l)) s0 ss (bl_sys l)"
    and i: "bl_i l < c_count (e_conf env)" and b: "bench \<in> {IA_SET, IA_DELETE, IA_GET}"
  obtains l' ss' where "bench_simple env bench l = Some l'" and "turn_done idle env s0 (bl_i l) ss' l'"
proof -
  let ?k = "unat (bl_i l)"
  have B: "bench < IA_MAX" "bench \<in> {step. step_allowed bench step}"
    using b by (auto simp: less_iabenchmark_def step_allowed_def)
  obtain a s1 where 1: "gen_get_a env (bench \<noteq> IA_SET) (bl_sys l) = Some (a, s1)" "live idle env ?k s0 ss s1" "kv_ready a"
    by (rule gen_get_a_ok [OF live])
  obtain t0 s2 where t: "timestamp env s1 = (t0, s2)" by (cases "timestamp env s1")
  have 2: "live idle env ?k s0 ss s2" using idle.live_timestamp [OF 1(2)] t by simp
  obtain rc s3 where 3: "driver_begin env bench s2 = Some (rc, s3)" "live idle env ?k s0 ss s3"
    "rc = 0 \<and> live (busy_at bench) env ?k s0 ss s3 \<or> rc = -1"
    by (rule driver_begin_ok [OF env 2 B(1)])
  obtain rc4 a4 s4 where 4: "(if rc = 0 then driver_next env bench a s3 else Some (rc, a, s3)) = Some (rc4, a4, s4)"
    "live idle env ?k s0 ss s4" "rc4 \<in> {0, ENOENT, -1}"
  proof (cases "rc = 0")
    case True
    then have "live (busy_at bench) env ?k s0 ss s3" using 3(3) by simp
    then obtain rc4 a4 s4 where "driver_next env bench a s3 = Some (rc4, a4, s4)"
      "live (busy_at bench) env ?k s0 ss s4" "rc4 \<in> {0, ENOENT, -1}"
      using busy.driver_next_ok [OF env _ B(2) 1(3)] by blast
    then show ?thesis using True by (intro that) (auto intro: live_weaken)
  qed (use 3 in \<open>auto intro: that\<close>)
  obtain rc5 s5 where 5: "driver_done env bench s4 = Some (rc5, s5)" "live idle env ?k s0 ss s5" "rc5 \<in> {0, -1}"
    by (rule driver_done_ok [OF env 4(2) B(1)])
  let ?v = "if bench = IA_DELETE then kv_ksize a4 else kv_ksize a4 + kv_vsize a4"
  obtain s6 lat where 6: "hist_add env t0 ?v s5 = Some s6" "live idle env (Suc ?k) s0 (ss @ [(lat, ?v)]) s6"
    by (rule idle.live_add [OF env 5(2) count_step(4) [OF i]])
  let ?rc = "if forgive env rc4 = 0 then rc5 else forgive env rc4"
  let ?l = "if ?rc \<noteq> 0 then l\<lparr>bl_goto := True, bl_rc := ?rc, bl_sys := s6\<rparr>
                else l\<lparr>bl_rc := 0, bl_i := bl_i l + 1, bl_sys := s6\<rparr>"
  have "bench_simple env bench l = Some ?l"
    by (simp only: bench_simple_def 1(1) t 3(1) 4(1) 5(1) 6(1) Option.bind.simps prod.case Let_def)
  moreover have "turn_done idle env s0 (bl_i l) (ss @ [(lat, ?v)]) ?l"
    using 6(2) 5(3) forgive_rc [OF 4(3), of env] count_step [OF i]
    by (auto simp: turn_done_def)
  ultimately show ?thesis by (rule that)
qed

lemma bench_crud_ok:
  assumes env: "doer_env rely drv env s0" and live: "live idle env (unat (bl_i l)) s0 ss (bl_sys l)"
    and i: "bl_i l < c_count (e_conf env)" and two: "do_benchmask (s_doer s0) AND bench_mask_2keyspace \<noteq> 0"
  obtains l' ss' where "bench_crud env l = Some l'" and "turn_done idle env s0 (bl_i l) ss' l'"
proof -
  let ?k = "unat (bl_i l)"
  have B: "IA_CRUD < IA_MAX" "{IA_SET, IA_DELETE, IA_GET} \<subseteq> {step. step_allowed IA_CRUD step}"
    by (auto simp: less_iabenchmark_def step_allowed_def)
  obtain a s1 where 1: "gen_get_a env False (bl_sys l) = Some (a, s1)" "live idle env ?k s0 ss s1" "kv_ready a"
    by (rule gen_get_a_ok [OF live])
  have "do_benchmask (s_doer s1) AND bench_mask_2keyspace \<noteq> 0"
    using two trace_doer [of s0 ss s1] 1(2) by (simp add: live_def)
  then obtain b s2 where 2: "gen_get_b env False s1 = Some (b, s2)" "live idle env ?k s0 ss s2" "kv_ready b"
    by (rule gen_get_b_ok [OF 1(2)])
  obtain t0 s3 where t: "timestamp env s2 = (t0, s3)" by (cases "timestamp env s2")
  have 3: "live idle env ?k s0 ss s3" using idle.live_timestamp [OF 2(2)] t by simp
  obtain rc s4 where 4: "driver_begin env IA_CRUD s3 = Some (rc, s4)" "live idle env ?k s0 ss s4"
    "rc = 0 \<and> live (busy_at IA_CRUD) env ?k s0 ss s4 \<or> rc = -1"
    by (rule driver_begin_ok [OF env 3 B(1)])
  obtain rc5 a5 b5 s5 where 5: "(if rc = 0 then ia_quadruple env a b s4 else Some (rc, a, b, s4)) = Some (rc5, a5, b5, s5)"
    "live idle env ?k s0 ss s5" "rc5 \<in> {0, ENOENT, -1}"
  proof (cases "rc = 0")
    case True
    then have "live (busy_at IA_CRUD) env ?k s0 ss s4" using 4(3) by simp
    then obtain rc5 a5 b5 s5 where "ia_quadruple env a b s4 = Some (rc5, a5, b5, s5)"
      "live (busy_at IA_CRUD) env ?k s0 ss s5" "rc5 \<in> {0, ENOENT, -1}"
      using busy.ia_quadruple_ok [OF env _ B(2) 1(3) 2(3)] by blast
    then show ?thesis using True by (intro that) (auto intro: live_weaken)
  qed (use 4 in \<open>auto intro: that\<close>)
  obtain rc6 s6 where 6: "(if rc5 = 0 then driver_done env IA_CRUD s5 else Some (rc5, s5)) = Some (rc6, s6)"
    "live idle env ?k s0 ss s6" "rc6 \<in> {0, ENOENT, -1}"
  proof (cases "rc5 = 0")
    case True
    obtain rc6 s6 where "driver_done env IA_CRUD s5 = Some (rc6, s6)" "live idle env ?k s0 ss s6" "rc6 \<in> {0, -1}"
      by (rule driver_done_ok [OF env 5(2) B(1)])
    then show ?thesis using True by (intro that) auto
  qed (use 5 in \<open>auto intro: that\<close>)
  obtain s7 lat where 7: "hist_add env t0 (quad_volume a5 b5) s6 = Some s7"
    "live idle env (Suc ?k) s0 (ss @ [(lat, quad_volume a5 b5)]) s7"
    by (rule idle.live_add [OF env 6(2) count_step(4) [OF i]])
  let ?l = "if rc6 \<noteq> 0 then l\<lparr>bl_goto := True, bl_rc := rc6, bl_sys := s7\<rparr>
                else l\<lparr>bl_rc := 0, bl_i := bl_i l + 1, bl_sys := s7\<rparr>"
  have "bench_crud env l = Some ?l"
    by (simp only: bench_crud_def 1(1) 2(1) t 4(1) 5(1) 6(1) 7(1) Option.bind.simps prod.case Let_def)
  moreover have "turn_done idle env s0 (bl_i l) (ss @ [(lat, quad_volume a5 b5)]) ?l"
    using 7(2) 6(3) count_step [OF i] by (auto simp: turn_done_def)
  ultimately show ?thesis by (rule that)
qed

end

context stepping
begin

lemma batch_loop_ok:
  assumes env: "doer_env rely drv env s0" and ops: "{IA_SET, IA_DELETE, IA_GET} \<subseteq> ops"
    and gens: "gen_ok env (Some ga)" "gen_ok env (Some gb)" "0 < c_batch_length (e_conf env)"
    and "live C env k s0 ss (bl_sys l)" and "bl_i l < c_count (e_conf env)" and "bl_rc l \<in> {0, ENOENT, -1}"
    and "pool_ok pa" and "pool_ok pb"
  shows "\<exists>a' b' l'. batch_loop env ga gb n pa pb a b l = Some (a', b', l') \<and>
    live C env k s0 ss (bl_sys l') \<and> bl_rc l' \<in> {0, ENOENT, -1} \<and> bl_i l' \<le> c_count (e_conf env) \<and>
    (bl_goto l' \<or> bl_rc l' \<noteq> 0 \<or> n = 0 \<or> bl_i l < bl_i l')"
  using assms(6-)
proof (induction n arbitrary: pa pb a b l)
  case 0
  then show ?case by auto
next
  case (Suc n)
  obtain rca pa1 a1 where pa: "ia_kvpool_pull (e_kv env) ga pa a = (rca, pa1, a1)"
    by (metis prod_cases3)
  obtain rcb pb1 b1 where pb: "ia_kvpool_pull (e_kv env) gb pb b = (rcb, pb1, b1)"
    by (metis prod_cases3)
  note pools = kvpool_pull_ready [OF gens(1,3) Suc.prems(4) pa] kvpool_pull_ready [OF gens(2,3) Suc.prems(5) pb]
  note unfold = batch_loop.simps(2) pa pb prod.case Let_def
  show ?case
  proof (cases "rca = 0 \<and> rcb = 0")
    case False
    then show ?thesis using Suc.prems by (auto simp: unfold)
  next
    case True
    then have ab: "kv_ready a1" "kv_ready b1" using pools by auto
    obtain rc a2 b2 s2 where q: "ia_quadruple env a1 b1 (bl_sys l) = Some (rc, a2, b2, s2)"
      and live2: "live C env k s0 ss s2" and rc: "rc \<in> {0, ENOENT, -1}"
      by (rule ia_quadruple_ok [OF env Suc.prems(1) ops ab])
  consider "rc \<noteq> 0" | "rc = 0" "bl_i l + 1 = c_count (e_conf env)"
    | "rc = 0" "bl_i l + 1 \<noteq> c_count (e_conf env)" by blast
  then show ?thesis
  proof cases
    case 3
    let ?l = "l\<lparr>bl_rc := 0, bl_i := bl_i l + 1, bl_sys := s2\<rparr>"
    have "bl_i ?l < c_count (e_conf env)" using 3(2) count_step(3) [OF Suc.prems(2)] by simp
    with Suc.IH [of ?l pa1 pb1 a2 b2] live2 pools obtain a' b' l'
      where "batch_loop env ga gb n pa1 pb1 a2 b2 ?l = Some (a', b', l')"
      and "live C env k s0 ss (bl_sys l')" "bl_rc l' \<in> {0, ENOENT, -1}" "bl_i l' \<le> c_count (e_conf env)"
      and "bl_goto l' \<or> bl_rc l' \<noteq> 0 \<or> n = 0 \<or> bl_i l + 1 < bl_i l'" by auto
    moreover have "n = 0 \<Longrightarrow> bl_i l' = bl_i l + 1" using calculation(1) by auto
    ultimately show ?thesis
      using 3 True q count_step(2) [OF Suc.prems(2)]
      by (auto simp: unfold intro: less_trans)
  qed (use Suc.prems True q live2 rc count_step [OF Suc.prems(2)] in \<open>auto simp: unfold\<close>)
  qed
qed

end

context driver_contract
begin

lemma pools_ok:
  assumes env: "doer_env rely drv env s0" and live: "live idle env k s0 ss s"
    and gen: "do_gen_a (s_doer s) = Some ga" "ia_kvpool_init (e_alloc env) (e_kv env) pp ga (c_batch_length (e_conf env)) = Some (rc, pool, ga')"
      "gen_ok env (Some ga')"
  shows "live idle env k s0 ss (s\<lparr>s_doer := (s_doer s)\<lparr>do_gen_a := Some ga'\<rparr>\<rparr>)"
proof -
  have "gens_ok env (s_doer s)" using live by (simp add: live_def sys_ok_def)
  then show ?thesis
    using gen by (intro live_gens [OF live]) (auto simp: same_but_gens_def gens_ok_def)
qed

lemma pools_ok':
  assumes env: "doer_env rely drv env s0" and live: "live idle env k s0 ss s"
    and gen: "gen_ok env (Some gb')"
  shows "live idle env k s0 ss (s\<lparr>s_doer := (s_doer s)\<lparr>do_gen_b := Some gb'\<rparr>\<rparr>)"
proof -
  have "gens_ok env (s_doer s)" using live by (simp add: live_def sys_ok_def)
  then show ?thesis
    using gen by (intro live_gens [OF live]) (auto simp: same_but_gens_def gens_ok_def)
qed

lemma batch_body_ok:
  assumes env: "doer_env rely drv env s0" and sub: "\<And>c w. C c w \<Longrightarrow> idle c w"
    and st: "stepping rely C drv ops" and ops: "{IA_SET, IA_DELETE, IA_GET} \<subseteq> ops"
    and live: "live C env (unat (bl_i l)) s0 ss (bl_sys l)"
    and i: "bl_i l < c_count (e_conf env)" and rc: "rc \<in> {0, -1}" and n: "0 < c_batch_length (e_conf env)"
    and gens: "gen_ok env (Some ga)" "gen_ok env (Some gb)" and pools: "pool_ok pa" "pool_ok pb"
  shows "\<exists>l' ss'. batch_body env t0 rc ga gb pa pb l = Some l' \<and> turn_done idle env s0 (bl_i l) ss' l'"
proof -
  let ?k = "unat (bl_i l)" and ?n = "c_batch_length (e_conf env)"
  obtain a b l1 where 1: "batch_loop env ga gb (nat ?n) pa pb no_record no_record (l\<lparr>bl_rc := rc\<rparr>) = Some (a, b, l1)"
    "live C env ?k s0 ss (bl_sys l1)" "bl_rc l1 \<in> {0, ENOENT, -1}" "bl_i l1 \<le> c_count (e_conf env)"
    "bl_goto l1 \<or> bl_rc l1 \<noteq> 0 \<or> nat ?n = 0 \<or> bl_i l < bl_i l1"
    using stepping.batch_loop_ok [OF st env ops gens n, of ?k ss "l\<lparr>bl_rc := rc\<rparr>" pa pb "nat ?n" no_record no_record]
      live i rc pools by auto
  have live1: "live idle env ?k s0 ss (bl_sys l1)"
    using 1(2) sub unfolding live_def sys_ok_def by blast
  show ?thesis
  proof (cases "bl_goto l1")
    case True
    then have "batch_body env t0 rc ga gb pa pb l = Some l1" by (simp add: batch_body_def 1(1) Let_def)
    moreover have "turn_done idle env s0 (bl_i l) ss l1" using True live1 1(3) by (auto simp: turn_done_def)
    ultimately show ?thesis by blast
  next
    case False
    obtain rc2 s2 where 2: "(if bl_rc l1 = 0 then driver_done env IA_BATCH (bl_sys l1) else Some (bl_rc l1, bl_sys l1)) = Some (rc2, s2)"
      "live idle env ?k s0 ss s2" "rc2 \<in> {0, ENOENT, -1}" "bl_rc l1 \<noteq> 0 \<longrightarrow> rc2 \<noteq> 0"
    proof (cases "bl_rc l1 = 0")
      case True
      obtain rc2 s2 where "driver_done env IA_BATCH (bl_sys l1) = Some (rc2, s2)" "live idle env ?k s0 ss s2" "rc2 \<in> {0, -1}"
        by (rule driver_done_ok [OF env live1, of IA_BATCH]) (auto simp: below_MAX)
      then show ?thesis using True by (intro that) auto
    qed (use live1 1(3) in \<open>auto intro: that\<close>)
    let ?v = "quad_volume a b * of_int ?n"
    obtain s3 lat where 3: "hist_add env t0 ?v s2 = Some s3" "live idle env (Suc ?k) s0 (ss @ [(lat, ?v)]) s3"
      by (rule idle.live_add [OF env 2(2) count_step(4) [OF i]])
    let ?l = "l1\<lparr>bl_goto := (rc2 \<noteq> 0), bl_rc := rc2, bl_sys := s3\<rparr>"
    have "batch_body env t0 rc ga gb pa pb l = Some ?l"
      by (simp add: batch_body_def 1(1) Let_def False 2(1) 3(1))
    moreover have "turn_done idle env s0 (bl_i l) (ss @ [(lat, ?v)]) ?l"
    proof (cases "rc2 = 0")
      case True
      then have "bl_i l < bl_i l1" using 1(5) 2(4) False n by auto
      then have "Suc ?k \<le> unat (bl_i l1)" by (simp add: word_less_nat_alt)
      then show ?thesis
        using live_mono [OF 3(2)] 1(4) True \<open>bl_i l < bl_i l1\<close> by (auto simp: turn_done_def)
    qed (use 3(2) 2(3) in \<open>auto simp: turn_done_def\<close>)
    ultimately show ?thesis by blast
  qed
qed

text \<open>The loop over the records ends: \<open>i\<close> is counted up to the count.\<close>

lemma iterate_loop_ok:
  assumes env: "doer_env rely drv env s0" and "i < c_count (e_conf env)" and "rc \<in> {0, ENOENT, -1}"
    and "live idle env (unat i) s0 ss s" and "rc = 0 \<longrightarrow> live (busy_at IA_ITERATE) env (unat i) s0 ss s"
  shows "\<exists>rc' i' s' ss'. iterate_loop env t0 rc i s = Some (rc', i', s') \<and> rc' \<in> {0, ENOENT, -1} \<and>
    live idle env (unat i') s0 ss' s' \<and> i' \<le> c_count (e_conf env) \<and> i \<le> i' \<and> (rc = 0 \<longrightarrow> i < i')"
  using assms(2-)
proof (induction "unat (c_count (e_conf env)) - unat i" arbitrary: t0 rc i s ss rule: less_induct)
  case less
  let ?c = "c_count (e_conf env)"
  show ?case
  proof (cases "rc = 0")
    case False
    then show ?thesis
      using less.prems by (subst iterate_loop.simps) (auto simp: less_imp_le)
  next
    case True
    then have busy: "live (busy_at IA_ITERATE) env (unat i) s0 ss s" using less.prems by simp
    have it: "IA_ITERATE \<in> {step. step_allowed IA_ITERATE step}" by (simp add: step_allowed_def)
    obtain rc1 a s1 where 1: "driver_next env IA_ITERATE no_record s = Some (rc1, a, s1)"
      "live (busy_at IA_ITERATE) env (unat i) s0 ss s1" "rc1 \<in> {0, ENOENT, -1}"
      by (rule busy.driver_next_ok [OF env busy it]) auto
    let ?v = "kv_ksize a + kv_vsize a"
    obtain s2 lat where 2: "hist_add env t0 ?v s1 = Some s2"
      "live (busy_at IA_ITERATE) env (Suc (unat i)) s0 (ss @ [(lat, ?v)]) s2"
      by (rule busy.live_add [OF env 1(2) count_step(4) [OF less.prems(1)]])
    obtain t1 s3 where t: "timestamp env s2 = (t1, s3)" by (cases "timestamp env s2")
    have 3: "live (busy_at IA_ITERATE) env (unat (i + 1)) s0 (ss @ [(lat, ?v)]) s3"
      using busy.live_timestamp [OF 2(2)] t count_step(1) [OF less.prems(1)] by simp
    show ?thesis
    proof (cases "i + 1 = ?c")
      case last: True
      have "iterate_loop env t0 rc i s = Some (rc1, i + 1, s2)"
        by (subst iterate_loop.simps) (simp add: True 1(1) 2(1) last)
      moreover have "live idle env (unat (i + 1)) s0 (ss @ [(lat, ?v)]) s2"
        using live_weaken [OF 2(2)] count_step(1) [OF less.prems(1)] by simp
      ultimately show ?thesis
        using 1(3) True count_step(2) [OF less.prems(1)] last
        by (intro exI conjI) (auto intro: less_imp_le)
    next
      case more: False
      then have lt: "i + 1 < ?c" using count_step(3) [OF less.prems(1)] by simp
      then have m: "unat ?c - unat (i + 1) < unat ?c - unat i"
        using count_step(1) [OF less.prems(1)] less.prems(1) by (simp add: word_less_nat_alt)
      obtain rc' i' s' ss' where r: "iterate_loop env t1 rc1 (i + 1) s3 = Some (rc', i', s')"
        "rc' \<in> {0, ENOENT, -1}" "live idle env (unat i') s0 ss' s'" "i' \<le> ?c"
        "i + 1 \<le> i'"
        using less.hyps [OF m lt 1(3) live_weaken [OF 3], of t1] 3 by blast
      have eq: "iterate_loop env t0 rc i s = iterate_loop env t1 rc1 (i + 1) s3"
        by (subst iterate_loop.simps) (simp add: True 1(1) 2(1) more t)
      show ?thesis
        using eq r True count_step(2) [OF less.prems(1)] by (auto intro: less_le_trans less_imp_le)
    qed
  qed
qed

lemma bench_iterate_ok:
  assumes env: "doer_env rely drv env s0" and live: "live idle env (unat (bl_i l)) s0 ss (bl_sys l)"
    and i: "bl_i l < c_count (e_conf env)" and rc: "bl_rc l = 0"
  obtains l' ss' where "bench_iterate env l = Some l'" and "turn_done idle env s0 (bl_i l) ss' l'"
proof -
  obtain t0 s1 where t: "timestamp env (bl_sys l) = (t0, s1)" by (cases "timestamp env (bl_sys l)")
  have 1: "live idle env (unat (bl_i l)) s0 ss s1" using idle.live_timestamp [OF live] t by simp
  obtain rc2 s2 where 2: "driver_begin env IA_ITERATE s1 = Some (rc2, s2)" "live idle env (unat (bl_i l)) s0 ss s2"
    "rc2 = 0 \<and> live (busy_at IA_ITERATE) env (unat (bl_i l)) s0 ss s2 \<or> rc2 = -1"
    by (rule driver_begin_ok [OF env 1, of IA_ITERATE]) (auto simp: below_MAX)
  have rc2: "rc2 \<in> {0, ENOENT, -1}" and b2: "rc2 = 0 \<longrightarrow> live (busy_at IA_ITERATE) env (unat (bl_i l)) s0 ss s2"
    using 2(3) by auto
  obtain rc3 i3 s3 ss3 where 3: "iterate_loop env t0 rc2 (bl_i l) s2 = Some (rc3, i3, s3)" "rc3 \<in> {0, ENOENT, -1}"
    "live idle env (unat i3) s0 ss3 s3" "i3 \<le> c_count (e_conf env)" "rc2 = 0 \<longrightarrow> bl_i l < i3"
    using iterate_loop_ok [OF env i rc2 2(2) b2, of t0] by blast
  have stay: "rc2 \<noteq> 0 \<Longrightarrow> rc3 = rc2 \<and> rc2 = -1"
    using 3(1) 2(3) by (subst (asm) iterate_loop.simps) auto
  let ?rc = "if rc3 = ENOENT then 0 else rc3"
  obtain rc4 s4 where 4: "(if ?rc = 0 then driver_done env IA_ITERATE s3 else Some (?rc, s3)) = Some (rc4, s4)"
    "live idle env (unat i3) s0 ss3 s4" "rc4 \<in> {0, ENOENT, -1}" "?rc \<noteq> 0 \<longrightarrow> rc4 \<noteq> 0"
  proof (cases "?rc = 0")
    case True
    obtain rc4 s4 where "driver_done env IA_ITERATE s3 = Some (rc4, s4)" "live idle env (unat i3) s0 ss3 s4" "rc4 \<in> {0, -1}"
      by (rule driver_done_ok [OF env 3(3), of IA_ITERATE]) (auto simp: below_MAX)
    then show ?thesis using True by (intro that) auto
  qed (use 3 in \<open>auto intro: that\<close>)
  have "bench_iterate env l = Some (l\<lparr>bl_rc := rc4, bl_i := i3, bl_sys := s4\<rparr>)"
    using 4(1) by (simp add: bench_iterate_def t 2(1) 3(1) Let_def split: if_splits)
  moreover have "turn_done idle env s0 (bl_i l) ss3 (l\<lparr>bl_rc := rc4, bl_i := i3, bl_sys := s4\<rparr>)"
    using 4(2-4) 3(4,5) stay by (cases "rc2 = 0") (auto simp: turn_done_def)
  ultimately show ?thesis by (rule that)
qed

lemma in_mask_2keyspace:
  assumes "in_mask msk b" and "b \<in> {IA_CRUD, IA_BATCH}"
  shows "msk AND bench_mask_2keyspace \<noteq> 0"
proof -
  have eq: "msk AND bench_bit b = (msk AND bench_mask_2keyspace) AND bench_bit b"
    using assms(2) by (auto simp: bench_mask_2keyspace_def bench_bit_def and.assoc)
  show ?thesis
  proof
    assume "msk AND bench_mask_2keyspace = 0"
    then show False using assms(1) eq by (simp add: in_mask_def)
  qed
qed

lemma bench_step_ok:
  assumes env: "doer_env rely drv env s0" and b: "bench \<in> mask_set (do_benchmask (s_doer s0))"
    and nb: "bench \<noteq> IA_BATCH"
  shows "turns_ok idle env bench s0"
  unfolding turns_ok_def
proof (intro allI impI, elim conjE)
  fix l :: "('w, 'c) bloop" and ss
  assume l: "live idle env (unat (bl_i l)) s0 ss (bl_sys l)" "bl_i l < c_count (e_conf env)" "bl_rc l = 0"
  consider "bench \<in> {IA_SET, IA_DELETE, IA_GET}" | "bench = IA_CRUD" | "bench = IA_ITERATE"
    using b nb by (cases bench) (auto simp: mask_set_def below_MAX)
  then show "\<exists>l' ss'. bench_step env bench l = Some l' \<and> turn_done idle env s0 (bl_i l) ss' l'"
  proof cases
    case 1
    obtain l' ss' where "bench_simple env bench l = Some l'" "turn_done idle env s0 (bl_i l) ss' l'"
      by (rule bench_simple_ok [OF env l(1,2) 1])
    moreover have "bench_step env bench l = bench_simple env bench l" using 1 by auto
    ultimately show ?thesis by auto
  next
    case 2
    then have two: "do_benchmask (s_doer s0) AND bench_mask_2keyspace \<noteq> 0"
      using b in_mask_2keyspace by (auto simp: mask_set_def)
    obtain l' ss' where "bench_crud env l = Some l'" "turn_done idle env s0 (bl_i l) ss' l'"
      by (rule bench_crud_ok [OF env l(1,2) two])
    then show ?thesis using 2 by auto
  next
    case 3
    obtain l' ss' where "bench_iterate env l = Some l'" "turn_done idle env s0 (bl_i l) ss' l'"
      by (rule bench_iterate_ok [OF env l])
    then show ?thesis using 3 by auto
  qed
qed

lemma bench_loop_ok:
  assumes turns: "turns_ok idle env bench s0"
    and "live idle env (unat (bl_i l)) s0 ss (bl_sys l)" and "bl_rc l \<in> {0, ENOENT, -1}"
  shows "\<exists>l' ss' k. bench_loop env bench l = Some l' \<and> live idle env k s0 ss' (bl_sys l') \<and> bl_rc l' \<in> {0, ENOENT, -1}"
  using assms(2-)
proof (induction "unat (c_count (e_conf env)) - unat (bl_i l)" arbitrary: l ss rule: less_induct)
  case less
  let ?c = "c_count (e_conf env)"
  show ?case
  proof (cases "\<not> bl_goto l \<and> bl_rc l = 0 \<and> bl_i l < ?c")
    case False
    then have "bench_loop env bench l = Some l" by (subst bench_loop.simps) auto
    then show ?thesis using less.prems by blast
  next
    case True
    then obtain l1 ss1 where 1: "bench_step env bench l = Some l1" "turn_done idle env s0 (bl_i l) ss1 l1"
      using turns less.prems unfolding turns_ok_def by blast
    have eq: "bench_loop env bench l = bench_loop env bench l1"
      using True by (subst bench_loop.simps) (simp add: 1(1))
    show ?thesis
    proof (cases "bl_goto l1 \<or> bl_rc l1 \<noteq> 0")
      case stop: True
      then have "bench_loop env bench l1 = Some l1" by (subst bench_loop.simps) auto
      then show ?thesis using eq 1(2) by (auto simp: turn_done_def)
    next
      case False
      then have l1: "live idle env (unat (bl_i l1)) s0 ss1 (bl_sys l1)" "bl_i l < bl_i l1" "bl_rc l1 \<in> {0, ENOENT, -1}"
        "bl_i l1 \<le> ?c"
        using 1(2) by (auto simp: turn_done_def)
      have "unat ?c - unat (bl_i l1) < unat ?c - unat (bl_i l)"
        using l1(2,4) by (simp add: word_less_nat_alt word_le_nat_alt)
      then show ?thesis using less.hyps [OF _ l1(1,3)] eq by auto
    qed
  qed
qed

text \<open>
  A benchmark of the mask, run by a doer that is new or has finished one: it returns, and the
  histograms have seen a reset, the operations measured and a merge.
\<close>

lemma run_benchmark_ok:
  assumes env: "doer_env rely drv env s" and ok: "sys_ok idle env ph k s" and ph: "ph \<in> {Fresh, Flushed}"
    and b: "bench \<in> mask_set (do_benchmask (s_doer s))"
    and turns: "\<And>s1. doer_env rely drv env s1 \<Longrightarrow> do_benchmask (s_doer s1) = do_benchmask (s_doer s) \<Longrightarrow> turns_ok idle env bench s1"
  shows "\<exists>rc s' ss cs k'. ia_run_benchmark env bench s = Some (rc, s') \<and> rc \<in> {0, ENOENT, -1} \<and>
    sys_ok idle env Flushed k' s' \<and> measured cs = map snd ss \<and>
    steps s (Reset (do_hg (s_doer s)) bench # map (Add (do_hg (s_doer s))) ss @ [Merge (do_hg (s_doer s))]) cs s'"
proof -
  let ?n = "do_hg (s_doer s)"
  have e: "benv_ok rely ?n env" using env by (simp add: doer_env_def)
  obtain s1 where 1: "hist_reset env bench s = Some s1" "sys_ok idle env Running 0 s1" "steps s [Reset ?n bench] [] s1"
    by (rule idle.hist_reset_sys [OF e ok ph b])
  have d1: "do_hg (s_doer s1) = ?n" "do_benchmask (s_doer s1) = do_benchmask (s_doer s)"
    using 1(3) by (auto simp: steps_def)
  have env1: "doer_env rely drv env s1" using env d1 by (simp add: doer_env_def)
  let ?l = "\<lparr>bl_goto = False, bl_rc = 0, bl_i = 0, bl_pool_a = None, bl_pool_b = None, bl_sys = s1\<rparr>"
  have "live idle env (unat (bl_i ?l)) s1 [] (bl_sys ?l)" using 1(2) by (simp add: live_def)
  then obtain l2 ss k2 where 2: "bench_loop env bench ?l = Some l2" "live idle env k2 s1 ss (bl_sys l2)"
    "bl_rc l2 \<in> {0, ENOENT, -1}"
    using bench_loop_ok [OF turns [OF env1 d1(2)], of ?l "[]"] by auto
  obtain cs where 3: "steps s1 (map (Add ?n) ss) cs (bl_sys l2)" "measured cs = map snd ss"
    using 2(2) d1 by (auto simp: live_def trace_def)
  have d2: "do_hg (s_doer (bl_sys l2)) = ?n" using 3(1) d1 by (simp add: steps_def)
  have e2: "benv_ok rely (do_hg (s_doer (bl_sys l2))) env" and ok2: "sys_ok idle env Running k2 (bl_sys l2)"
    using e d2 2(2) by (simp_all add: live_def)
  obtain s4 where 4: "hist_merge env (bl_sys l2) = Some s4" "\<exists>k. sys_ok idle env Flushed k s4"
    "steps (bl_sys l2) [Merge (do_hg (s_doer (bl_sys l2)))] [] s4"
    by (rule idle.hist_merge_sys [OF e2 ok2])
  have "ia_run_benchmark env bench s = Some (bl_rc l2, s4)"
    by (simp add: ia_run_benchmark_def 1(1) 2(1) 4(1) Let_def)
  moreover have "steps s (Reset ?n bench # map (Add ?n) ss @ [Merge ?n]) cs s4"
    using steps_trans [OF steps_trans [OF 1(3) 3(1)] 4(3)] d2 by simp
  ultimately show ?thesis using 2(3) 3(2) 4(2) by blast
qed

end

context robust_driver
begin

lemma bench_batch_ok:
  assumes env: "doer_env rely drv env s0" and live: "live idle env (unat (bl_i l)) s0 ss (bl_sys l)"
    and i: "bl_i l < c_count (e_conf env)" and two: "do_benchmask (s_doer s0) AND bench_mask_2keyspace \<noteq> 0"
  shows "\<exists>l' ss'. bench_batch env l = Some l' \<and> turn_done idle env s0 (bl_i l) ss' l'"
proof -
  let ?k = "unat (bl_i l)" and ?n = "c_batch_length (e_conf env)"
  have alloc: "alloc_ok (e_alloc env)" using env by (simp add: doer_env_def benv_ok_def)
  obtain ga where ga: "do_gen_a (s_doer (bl_sys l)) = Some ga" "gen_ok env (Some ga)"
    using live by (auto simp: live_def sys_ok_def gens_ok_def gen_ok_def)
  obtain rc1 pa ga1 where 1: "ia_kvpool_init (e_alloc env) (e_kv env) (bl_pool_a l) ga ?n = Some (rc1, pa, ga1)"
    "gen_ok env (Some ga1)" "rc1 = 0 \<and> 0 < ?n \<and> (\<exists>p. pa = Some p \<and> pool_ok p) \<or> rc1 = -1"
    by (rule kvpool_init_gen_ok [OF ga(2) alloc])
  let ?s1 = "(bl_sys l)\<lparr>s_doer := (s_doer (bl_sys l))\<lparr>do_gen_a := Some ga1\<rparr>\<rparr>"
  have live1: "live idle env ?k s0 ss ?s1" by (rule pools_ok [OF env live ga(1) 1(1,2)])
  show ?thesis
  proof (cases "rc1 = 0")
    case False
    then have "bench_batch env l = Some (l\<lparr>bl_goto := True, bl_rc := rc1, bl_pool_a := pa, bl_sys := ?s1\<rparr>)"
      by (simp add: bench_batch_def ga(1) 1(1) Let_def)
    moreover have "turn_done idle env s0 (bl_i l) ss (l\<lparr>bl_goto := True, bl_rc := rc1, bl_pool_a := pa, bl_sys := ?s1\<rparr>)"
      using live1 1(3) by (auto simp: turn_done_def)
    ultimately show ?thesis by blast
  next
    case rc1: True
    have "do_benchmask (s_doer (bl_sys l)) AND bench_mask_2keyspace \<noteq> 0"
      using two live trace_doer [of s0 ss "bl_sys l"] by (simp add: live_def)
    then obtain gb where gb: "do_gen_b (s_doer (bl_sys l)) = Some gb" "gen_ok env (Some gb)"
      using live by (auto simp: live_def sys_ok_def gens_ok_def gen_ok_def)
    obtain rc2 pb gb1 where 2: "ia_kvpool_init (e_alloc env) (e_kv env) (bl_pool_b l) gb ?n = Some (rc2, pb, gb1)"
      "gen_ok env (Some gb1)" "rc2 = 0 \<and> 0 < ?n \<and> (\<exists>p. pb = Some p \<and> pool_ok p) \<or> rc2 = -1"
      by (rule kvpool_init_gen_ok [OF gb(2) alloc])
    let ?s2 = "?s1\<lparr>s_doer := (s_doer ?s1)\<lparr>do_gen_b := Some gb1\<rparr>\<rparr>"
    have live2: "live idle env ?k s0 ss ?s2" by (rule pools_ok' [OF env live1 2(2)])
    let ?l2 = "l\<lparr>bl_pool_a := pa, bl_sys := ?s2, bl_pool_b := pb\<rparr>"
    show ?thesis
    proof (cases "rc2 = 0")
      case False
      then have "bench_batch env l = Some (?l2\<lparr>bl_goto := True, bl_rc := rc2\<rparr>)"
        by (simp add: bench_batch_def ga(1) 1(1) rc1 gb(1) 2(1) Let_def)
      moreover have "turn_done idle env s0 (bl_i l) ss (?l2\<lparr>bl_goto := True, bl_rc := rc2\<rparr>)"
        using live2 2(3) by (auto simp: turn_done_def)
      ultimately show ?thesis by blast
    next
      case rc2: True
      obtain pa' pb' where p: "pa = Some pa'" "pb = Some pb'" and pools: "pool_ok pa'" "pool_ok pb'" and n: "0 < ?n"
        using 1(3) 2(3) rc1 rc2 by auto
      obtain t0 s3 where t: "timestamp env ?s2 = (t0, s3)" by (cases "timestamp env ?s2")
      have 3: "live idle env ?k s0 ss s3" using idle.live_timestamp [OF live2] t by simp
      obtain rc4 s4 where 4: "driver_begin env IA_BATCH s3 = Some (rc4, s4)" "live idle env ?k s0 ss s4"
        "rc4 = 0 \<and> live (busy_at IA_BATCH) env ?k s0 ss s4 \<or> rc4 = -1"
        by (rule driver_begin_ok [OF env 3, of IA_BATCH]) (auto simp: below_MAX)
      let ?l4 = "?l2\<lparr>bl_sys := s4\<rparr>"
      have rc4: "rc4 \<in> {0, -1}" using 4(3) by auto
      have "live idle env (unat (bl_i ?l4)) s0 ss (bl_sys ?l4)" "bl_i ?l4 < c_count (e_conf env)"
        using 4(2) i by simp_all
      from batch_body_ok [OF env _ loose.stepping_axioms _ this rc4 n 1(2) 2(2) pools]
      obtain l5 ss5 where 5: "batch_body env t0 rc4 ga1 gb1 pa' pb' ?l4 = Some l5" "turn_done idle env s0 (bl_i ?l4) ss5 l5"
        by blast
      have "bench_batch env l = Some l5"
        using t 1(1) 2(1) 5(1) by (simp add: bench_batch_def ga(1) rc1 gb(1) rc2 4(1) p Let_def)
      then show ?thesis using 5(2) by auto
    qed
  qed
qed

lemma turns_all:
  assumes env: "doer_env rely drv env s0" and b: "bench \<in> mask_set (do_benchmask (s_doer s0))"
  shows "turns_ok idle env bench s0"
proof (cases "bench = IA_BATCH")
  case True
  then have "do_benchmask (s_doer s0) AND bench_mask_2keyspace \<noteq> 0"
    using b in_mask_2keyspace by (auto simp: mask_set_def)
  then show ?thesis
    using bench_batch_ok [OF env] True by (auto simp: turns_ok_def)
qed (use bench_step_ok [OF env b] in blast)

end

end
