(* ===== verification/Doer.thy ===== *)
theory Doer
  imports DoerRuns
begin

text \<open>
  The whole life of a doer (\<open>src/ia_benchmark.c\<close>): \<open>ia_doer_init\<close>, \<open>ia_doer_fulfil\<close> with its
  repetitions, and \<open>ia_doer_destroy\<close>; and the properties of the benchmarks.
\<close>

section \<open>Between two benchmarks\<close>

text \<open>The doer without its context.\<close>

definition parked :: "('w, 'c) benv \<Rightarrow> phase \<Rightarrow> ('w, 'c) sys \<Rightarrow> bool" where
  "parked env ph s \<longleftrightarrow>
     hist_ok (mask_set (do_benchmask (s_doer s))) (sh_hist (s_shared s)) \<and>
     (\<exists>h. doer_at (w_doers (sh_hist (s_shared s))) (do_hg (s_doer s)) (ph, h)) \<and> gens_ok env (s_doer s)"

lemma sys_ok_parked: "sys_ok C env ph k s \<Longrightarrow> parked env ph s"
  by (auto simp: sys_ok_def parked_def)

lemma parked_sys_ok:
  assumes "parked env ph s" and "do_ctx (s_doer s) = Some c" and "C c (sh_priv (s_shared s))"
  shows "\<exists>k. sys_ok C env ph k s"
  using assms by (auto simp: sys_ok_def parked_def)

text \<open>The events of one benchmark, and of several.\<close>

definition block :: "nat \<Rightarrow> iabenchmark \<times> sample list \<Rightarrow> hevent list" where
  "block n x = Reset n (fst x) # map (Add n) (snd x) @ [Merge n]"

definition blocks :: "('w, 'c) sys \<Rightarrow> (iabenchmark \<times> sample list) list \<Rightarrow> ('w, 'c) sys \<Rightarrow> bool" where
  "blocks s xs s' \<longleftrightarrow> (\<exists>cs. steps s (concat (map (block (do_hg (s_doer s))) xs)) cs s' \<and>
     measured cs = map snd (concat (map snd xs))) \<and> fst ` set xs \<subseteq> mask_set (do_benchmask (s_doer s))"

lemma blocks_doer: "blocks s xs s' \<Longrightarrow> do_hg (s_doer s') = do_hg (s_doer s) \<and> do_benchmask (s_doer s') = do_benchmask (s_doer s) \<and> s_tick s \<le> s_tick s'"
  by (auto simp: blocks_def steps_def)

lemma blocks_refl [simp]: "blocks s [] s"
  by (auto simp: blocks_def intro!: exI [of _ "[]"])

lemma blocks_trans:
  assumes "blocks s xs s1" and "blocks s1 ys s2"
  shows "blocks s (xs @ ys) s2"
proof -
  obtain cs ds where "steps s (concat (map (block (do_hg (s_doer s))) xs)) cs s1" "measured cs = map snd (concat (map snd xs))"
    and "steps s1 (concat (map (block (do_hg (s_doer s1))) ys)) ds s2" "measured ds = map snd (concat (map snd ys))"
    using assms by (auto simp: blocks_def)
  then have "steps s (concat (map (block (do_hg (s_doer s))) (xs @ ys))) (cs @ ds) s2 \<and>
      measured (cs @ ds) = map snd (concat (map snd (xs @ ys)))"
    using steps_trans blocks_doer [OF assms(1)] by fastforce
  then show ?thesis
    using assms blocks_doer [OF assms(1)] unfolding blocks_def by (auto simp del: concat_append map_append)
qed

lemma steps_blocks: "steps s [] [] s' \<Longrightarrow> blocks s [] s'"
  by (auto simp: blocks_def intro!: exI [of _ "[]"])

lemma blocks_quiet: "blocks s xs s1 \<Longrightarrow> steps s1 [] [] s2 \<Longrightarrow> blocks s xs s2"
  using blocks_trans [OF _ steps_blocks] by fastforce

lemma quiet_blocks: "steps s [] [] s1 \<Longrightarrow> blocks s1 xs s2 \<Longrightarrow> blocks s xs s2"
  using blocks_trans [OF steps_blocks] by fastforce

text \<open>
  The repetitions end: either the doer does not wait for the others, or the others are done in the
  end.
\<close>

definition finishes :: "('w, 'c) benv \<Rightarrow> bool" where
  "finishes env \<longleftrightarrow> \<not> c_continuous_completing (e_conf env) \<or>
     (\<exists>T. \<forall>t \<ge> T. \<forall>sh. sh_doers_count (e_others env t sh) \<le> sh_doers_done (e_others env t sh))"

definition options_ok :: "('w, 'c) benv \<Rightarrow> bool" where
  "options_ok env \<longleftrightarrow> None \<notin> set (c_drv_opts (e_conf env)) \<and>
     (c_drv_opts (e_conf env) = [] \<or> d_option (e_drv env) \<noteq> None)"

context driver_contract
begin

lemma parked_turn:
  assumes env: "doer_env rely drv env s" and "parked env ph s"
  shows "parked env ph (turn env s)" and "steps s [] [] (turn env s)"
    and "rely (sh_priv (s_shared s)) (sh_priv (s_shared (turn env s)))"
    and "do_ctx (s_doer (turn env s)) = do_ctx (s_doer s)"
    and "sh_failed (s_shared s) \<Longrightarrow> sh_failed (s_shared (turn env s))"
proof -
  obtain tr where run: "hruns (sh_hist (s_shared s)) tr (sh_hist (e_others env (s_tick s) (s_shared s)))"
    and own: "own_events (do_hg (s_doer s)) tr = []"
    and rely: "rely (sh_priv (s_shared s)) (sh_priv (e_others env (s_tick s) (s_shared s)))"
    using env unfolding benv_ok_def doer_env_def by blast
  show "parked env ph (turn env s)"
    using assms(2) hist_ok_runs [OF run] hruns_other [OF run own]
    unfolding parked_def turn_def by auto
  show "steps s [] [] (turn env s)" using run own unfolding steps_def turn_def by auto
  show "rely (sh_priv (s_shared s)) (sh_priv (s_shared (turn env s)))" using rely by (simp add: turn_def)
  show "do_ctx (s_doer (turn env s)) = do_ctx (s_doer s)" by (simp add: turn_def)
  show "sh_failed (s_shared s) \<Longrightarrow> sh_failed (s_shared (turn env s))"
    using env by (simp add: turn_def benv_ok_def doer_env_def)
qed

lemma parked_sh_priv [simp]: "parked env ph (s\<lparr>s_shared := (s_shared s)\<lparr>sh_priv := w\<rparr>\<rparr>) = parked env ph s"
  by (simp add: parked_def)

lemma steps_sh_priv: "steps s es cs s1 \<Longrightarrow> steps s es cs (s1\<lparr>s_shared := (s_shared s1)\<lparr>sh_priv := w\<rparr>\<rparr>)"
  by (simp add: steps_def)

lemma give_options_ok:
  assumes "doer_env rely drv env s" and "sys_ok idle env ph k s"
    and "None \<notin> set as" and "as = [] \<or> d_option drv \<noteq> None"
  shows "\<exists>rc s'. give_options env as s = Some (rc, s') \<and> rc \<in> {0, -1} \<and> sys_ok idle env ph k s' \<and> steps s [] [] s'"
  using assms
proof (induction as arbitrary: s)
  case Nil
  then show ?case by simp
next
  case (Cons a as)
  let ?s = "turn env s"
  have e: "benv_ok rely (do_hg (s_doer s)) env" using Cons.prems(1) by (simp add: doer_env_def)
  note t = idle.turn_ok [OF e Cons.prems(2)]
  obtain opt arg where o': "d_option drv = Some opt" "a = Some arg"
    using Cons.prems(3,4) by (cases a) auto
  obtain c where c: "do_ctx (s_doer ?s) = Some c" "idle c (sh_priv (s_shared ?s))"
    using t(1) by (auto simp: sys_ok_def)
  obtain rc w' where r: "opt (Some c) arg (sh_priv (s_shared ?s)) = Some (rc, w')" "rely (sh_priv (s_shared ?s)) w'"
    using option_ok [OF c(2) o'(1)] by blast
  let ?s1 = "?s\<lparr>s_shared := (s_shared ?s)\<lparr>sh_priv := w'\<rparr>\<rparr>"
  have ok1: "sys_ok idle env ph k ?s1"
    using t(1) c idle_rely [OF c(2) r(2)] by (simp add: sys_ok_def)
  have st1: "steps s [] [] ?s1" using steps_sh_priv [OF t(2)] .
  show ?case
  proof (cases "rc = 0")
    case False
    then have "give_options env (a # as) s = Some (-1, ?s1)"
      using Cons.prems(1) o' c r by (simp add: doer_env_def Let_def)
    then show ?thesis using ok1 st1 by auto
  next
    case True
    have "doer_env rely drv env ?s1" using Cons.prems(1) by (simp add: doer_env_def turn_def)
    from Cons.IH [OF this ok1] obtain rc' s' where "give_options env as ?s1 = Some (rc', s')" "rc' \<in> {0, -1}"
      "sys_ok idle env ph k s'" "steps ?s1 [] [] s'"
      using Cons.prems(3,4) by auto
    moreover have "give_options env (a # as) s = give_options env as ?s1"
      using Cons.prems(1) o' c r True by (simp add: doer_env_def Let_def)
    ultimately show ?thesis using steps_trans [OF st1] by force
  qed
qed

text \<open>The benchmarks of the mask, one after the other, whatever the list.\<close>

lemma run_masked_ok:
  assumes turns: "\<And>s1 b. doer_env rely drv env s1 \<Longrightarrow> do_benchmask (s_doer s1) = M \<Longrightarrow> b \<in> mask_set M \<Longrightarrow> turns_ok idle env b s1"
    and "doer_env rely drv env s" and "sys_ok idle env ph k s" and "ph \<in> {Fresh, Flushed}"
    and "IA_MAX \<notin> set bs" and "rc \<in> {0, ENOENT, -1}" and "do_benchmask (s_doer s) = M"
  shows "\<exists>rc' s' ph' k' xs. run_masked env bs rc s = Some (rc', s') \<and> rc' \<in> {0, ENOENT, -1} \<and>
    sys_ok idle env ph' k' s' \<and> ph' = (if xs = [] then ph else Flushed) \<and> blocks s xs s' \<and>
    (rc = 0 \<and> rc' = 0 \<longrightarrow> map fst xs = filter (in_mask (do_benchmask (s_doer s))) bs)"
  using assms(2-)
proof (induction bs arbitrary: rc s ph k)
  case Nil
  show ?case
    using Nil.prems by (intro exI [of _ rc] exI [of _ s] exI [of _ ph] exI [of _ k] exI [of _ "[]"]) simp
next
  case (Cons b bs)
  consider "rc \<noteq> 0" | "rc = 0" "in_mask (do_benchmask (s_doer s)) b" | "rc = 0" "\<not> in_mask (do_benchmask (s_doer s)) b"
    by blast
  then show ?case
  proof cases
    case 1
    then show ?thesis
      using Cons.prems by (intro exI [of _ rc] exI [of _ s] exI [of _ ph] exI [of _ k] exI [of _ "[]"]) simp
  next
    case 2
    have b: "b \<in> mask_set (do_benchmask (s_doer s))"
      using 2 Cons.prems(4) by (cases b) (auto simp: mask_set_def below_MAX)
    obtain rc1 s1 ss cs k1 where 1: "ia_run_benchmark env b s = Some (rc1, s1)" "rc1 \<in> {0, ENOENT, -1}"
      "sys_ok idle env Flushed k1 s1" "measured cs = map snd ss" "steps s (block (do_hg (s_doer s)) (b, ss)) cs s1"
      using run_benchmark_ok [OF Cons.prems(1,2,3) b turns] b Cons.prems(6)
      unfolding block_def fst_conv snd_conv by blast
    have d: "do_hg (s_doer s1) = do_hg (s_doer s)" "do_benchmask (s_doer s1) = do_benchmask (s_doer s)"
      using 1(5) by (auto simp: steps_def)
    have bl: "blocks s [(b, ss)] s1" using 1(4,5) b by (auto simp: blocks_def)
    have "doer_env rely drv env s1" using Cons.prems(1) d by (simp add: doer_env_def)
    then have "\<exists>rc2 s2 ph2 k2 xs. run_masked env bs rc1 s1 = Some (rc2, s2) \<and> rc2 \<in> {0, ENOENT, -1} \<and>
        sys_ok idle env ph2 k2 s2 \<and> ph2 = Flushed \<and> blocks s1 xs s2 \<and>
        (rc1 = 0 \<and> rc2 = 0 \<longrightarrow> map fst xs = filter (in_mask (do_benchmask (s_doer s1))) bs)"
      using Cons.IH [OF _ 1(3) _ _ 1(2)] Cons.prems(4,6) d by (simp del: if_not_P)
    then obtain rc2 s2 ph2 k2 xs where R: "run_masked env bs rc1 s1 = Some (rc2, s2)" "rc2 \<in> {0, ENOENT, -1}"
        "sys_ok idle env ph2 k2 s2" "ph2 = Flushed" "blocks s1 xs s2"
        "rc1 = 0 \<and> rc2 = 0 \<longrightarrow> map fst xs = filter (in_mask (do_benchmask (s_doer s))) bs"
      unfolding d by blast
    have z: "rc2 = 0 \<Longrightarrow> rc1 = 0" using R(1) by (cases bs) (auto split: if_splits)
    have "run_masked env (b # bs) rc s = Some (rc2, s2)" using 2 1(1) R(1) by simp
    then show ?thesis
      using R blocks_trans [OF bl R(5)] z 2
      by (intro exI [of _ rc2] exI [of _ s2] exI [of _ ph2] exI [of _ k2] exI [of _ "(b, ss) # xs"]) auto
  next
    case 3
    then show ?thesis using Cons.IH [OF Cons.prems(1,2,3) _ Cons.prems(5,6)] Cons.prems(4) by simp
  qed
qed

lemma sys_ok_done [simp]:
  "sys_ok C env ph k (s\<lparr>s_shared := (s_shared s)\<lparr>sh_doers_done := d\<rparr>\<rparr>) = sys_ok C env ph k s"
  by (simp add: sys_ok_def)

lemma blocks_done [simp]:
  "blocks s xs (s'\<lparr>s_shared := (s_shared s')\<lparr>sh_doers_done := d\<rparr>\<rparr>) = blocks s xs s'"
  by (simp add: blocks_def steps_def)

lemma repeat_loop_ok:
  assumes turns: "\<And>s1 b. doer_env rely drv env s1 \<Longrightarrow> do_benchmask (s_doer s1) = M \<Longrightarrow> b \<in> mask_set M \<Longrightarrow> turns_ok idle env b s1"
    and T: "\<not> c_continuous_completing (e_conf env) \<or>
      (\<forall>t \<ge> T. \<forall>sh. sh_doers_count (e_others env t sh) \<le> sh_doers_done (e_others env t sh))"
    and "doer_env rely drv env s" and "sys_ok idle env ph k s" and "ph \<in> {Fresh, Flushed}"
    and "do_benchmask (s_doer s) = M"
  shows "\<exists>rc' s' ph' k' xs. repeat_loop env passes 0 s = Some (rc', s') \<and> rc' \<in> {0, ENOENT, -1} \<and>
    sys_ok idle env ph' k' s' \<and> ph' = (if xs = [] then ph else Flushed) \<and> blocks s xs s' \<and>
    (rc' = 0 \<longrightarrow> (\<exists>m. map fst xs = concat (replicate m (filter (in_mask (do_benchmask (s_doer s))) benchmarks)) \<and>
       (c_nrepeat (e_conf env) - passes \<le> int m \<or> sh_failed (s_shared s'))))"
  using assms(3-)
proof (induction "nat (c_nrepeat (e_conf env) - passes) + (T - s_tick s)" arbitrary: passes s ph k rule: less_induct)
  case less
  let ?s = "turn env s" and ?n = "c_nrepeat (e_conf env)"
  have e: "benv_ok rely (do_hg (s_doer s)) env" using less.prems(1) by (simp add: doer_env_def)
  note t = idle.turn_ok [OF e less.prems(2)]
  have env1: "doer_env rely drv env ?s" using less.prems(1) by (simp add: doer_env_def turn_def)
  have d: "do_benchmask (s_doer ?s) = do_benchmask (s_doer s)" by (simp add: turn_def)
  let ?go = "passes < ?n \<or> c_continuous_completing (e_conf env) \<and> sh_doers_done (s_shared ?s) < sh_doers_count (s_shared ?s)"
  show ?case
  proof (cases ?go)
    case False
    then have "repeat_loop env passes 0 s = Some (0, ?s)"
      by (subst repeat_loop.simps) (simp only: Let_def if_False)
    then show ?thesis
      using t less.prems(3) steps_blocks [OF t(2)] False
      by (intro exI [of _ 0] exI [of _ ?s] exI [of _ ph] exI [of _ k] exI [of _ "[]"]) (auto intro!: exI [of _ 0])
  next
    case True
    have "IA_MAX \<notin> set benchmarks" by (simp add: benchmarks_def)
    with run_masked_ok [OF turns env1 t(1) less.prems(3), where bs = benchmarks and rc = 0] d less.prems(4) obtain rc1 s1 ph1 k1 xs1
      where 1: "run_masked env benchmarks 0 ?s = Some (rc1, s1)" "rc1 \<in> {0, ENOENT, -1}" "sys_ok idle env ph1 k1 s1"
        "ph1 = (if xs1 = [] then ph else Flushed)" "blocks ?s xs1 s1"
        "rc1 = 0 \<longrightarrow> map fst xs1 = filter (in_mask (do_benchmask (s_doer s))) benchmarks"
      unfolding d by auto
    let ?s2 = "if passes + 1 = ?n then s1\<lparr>s_shared := (s_shared s1)\<lparr>sh_doers_done := sh_doers_done (s_shared s1) + 1\<rparr>\<rparr> else s1"
    have ph1: "ph1 \<in> {Fresh, Flushed}" using 1(4) less.prems(3) by auto
    have ok2: "sys_ok idle env ph1 k1 ?s2" and b2: "blocks s xs1 ?s2"
      using 1(3) quiet_blocks [OF t(2) 1(5)] by auto
    show ?thesis
    proof (cases "rc1 \<noteq> 0 \<or> sh_failed (s_shared ?s2)")
      case stop: True
      then have "repeat_loop env passes 0 s = Some (rc1, ?s2)"
        using True by (subst repeat_loop.simps) (simp add: Let_def 1(1))
      then show ?thesis
        using ok2 b2 1(2,4,6) stop
        by (intro exI [of _ rc1] exI [of _ ?s2] exI [of _ ph1] exI [of _ k1] exI [of _ xs1])
          (auto intro!: exI [of _ 1] simp del: sys_ok_done)
    next
      case False
      then have rc1: "rc1 = 0" by simp
      have tick: "Suc (s_tick s) \<le> s_tick ?s2"
        using blocks_doer [OF 1(5)] by (simp add: turn_def)
      have env2: "doer_env rely drv env ?s2" and d2: "do_benchmask (s_doer ?s2) = do_benchmask (s_doer s)"
        using less.prems(1) blocks_doer [OF b2] by (simp_all add: doer_env_def)
      have "passes < ?n \<or> s_tick s < T"
        using True T by (auto simp: turn_def) (meson leD not_le_imp_less)
      then have m: "nat (?n - (passes + 1)) + (T - s_tick ?s2) < nat (?n - passes) + (T - s_tick s)"
        using tick by (auto split: if_splits)
      obtain rc3 s3 ph3 k3 xs3 where 3: "repeat_loop env (passes + 1) 0 ?s2 = Some (rc3, s3)" "rc3 \<in> {0, ENOENT, -1}"
        "sys_ok idle env ph3 k3 s3" "ph3 = (if xs3 = [] then ph1 else Flushed)" "blocks ?s2 xs3 s3"
        "rc3 = 0 \<longrightarrow> (\<exists>m. map fst xs3 = concat (replicate m (filter (in_mask (do_benchmask (s_doer s))) benchmarks)) \<and>
          (?n - (passes + 1) \<le> int m \<or> sh_failed (s_shared s3)))"
        using less.hyps [OF m env2 ok2 ph1] d2 less.prems(4) unfolding d2 by blast
      have "repeat_loop env passes 0 s = repeat_loop env (passes + 1) 0 ?s2"
        using True False by (subst repeat_loop.simps) (simp add: Let_def 1(1))
      moreover have "rc3 = 0 \<longrightarrow> (\<exists>m. map fst (xs1 @ xs3) = concat (replicate m (filter (in_mask (do_benchmask (s_doer s))) benchmarks)) \<and>
          (?n - passes \<le> int m \<or> sh_failed (s_shared s3)))"
      proof
        assume "rc3 = 0"
        with 3(6) obtain m where "map fst xs3 = concat (replicate m (filter (in_mask (do_benchmask (s_doer s))) benchmarks))"
          "?n - (passes + 1) \<le> int m \<or> sh_failed (s_shared s3)" by blast
        then show "\<exists>m. map fst (xs1 @ xs3) = concat (replicate m (filter (in_mask (do_benchmask (s_doer s))) benchmarks)) \<and>
          (?n - passes \<le> int m \<or> sh_failed (s_shared s3))"
          using 1(6) rc1 by (intro exI [of _ "Suc m"]) auto
      qed
      ultimately show ?thesis
        using 3(1-4) 1(4) blocks_trans [OF b2 3(5)]
        by (intro exI [of _ rc3] exI [of _ s3] exI [of _ ph3] exI [of _ k3] exI [of _ "xs1 @ xs3"]) auto
    qed
  qed
qed

text \<open>
  \<open>ia_doer_fulfil\<close> as a whole, for a doer without a context: it returns without one again, unless
  an option of the driver is rejected.
\<close>

lemma doer_fulfil_ok:
  assumes turns: "\<And>s1 b. doer_env rely drv env s1 \<Longrightarrow> do_benchmask (s_doer s1) = M \<Longrightarrow> b \<in> mask_set M \<Longrightarrow> turns_ok idle env b s1"
    and fin: "finishes env" and opts: "options_ok env" and env: "doer_env rely drv env s"
    and park: "parked env ph s" and ph: "ph \<in> {Fresh, Flushed}"
    and M: "do_benchmask (s_doer s) = M"
    and ctx: "do_ctx (s_doer s) = None" and op: "opened (sh_priv (s_shared s))"
  shows "\<exists>rc s' ph' xs. ia_doer_fulfil env s = Some (rc, s') \<and> rc \<in> {0, ENOENT, -1} \<and>
    parked env ph' s' \<and> ph' = (if xs = [] then ph else Flushed) \<and> blocks s xs s' \<and> opened (sh_priv (s_shared s')) \<and>
    (rc = 0 \<longrightarrow> do_ctx (s_doer s') = None \<and>
       (\<exists>m. map fst xs = concat (replicate m (filter (in_mask (do_benchmask (s_doer s))) benchmarks)) \<and>
         (c_nrepeat (e_conf env) \<le> int m \<or> sh_failed (s_shared s'))))"
proof -
  let ?s = "turn env s"
  note t = parked_turn [OF env park]
  have op1: "opened (sh_priv (s_shared ?s))" using op t(3) opened_rely by blast
  obtain r w' where n: "d_thread_new drv (sh_priv (s_shared ?s)) = Some (r, w')" "rely (sh_priv (s_shared ?s)) w'" "\<forall>c. r = Some c \<longrightarrow> idle c w'"
    using thread_new_ok [OF op1] by blast
  have op2: "opened w'" by (rule opened_rely [OF op1 n(2)])
  let ?s1 = "?s\<lparr>s_doer := (s_doer ?s)\<lparr>do_ctx := r\<rparr>, s_shared := (s_shared ?s)\<lparr>sh_priv := w'\<rparr>\<rparr>"
  have obt: "obtain_context env s = Some ?s1"
    using env ctx n by (simp add: obtain_context_def doer_env_def Let_def)
  have st1: "steps s [] [] ?s1" using t(2) by (simp add: steps_def)
  have park1: "parked env ph ?s1" using t(1) by (simp add: parked_def gens_ok_def)
  have env1: "doer_env rely drv env ?s1" using env by (simp add: doer_env_def turn_def)
  show ?thesis
  proof (cases r)
    case None
    then have "ia_doer_fulfil env s = Some (-1, ?s1)" by (simp add: ia_doer_fulfil_def obt)
    then show ?thesis using op2 park1 ph steps_blocks [OF st1] by force
  next
    case (Some c)
    then obtain k where ok1: "sys_ok idle env ph k ?s1"
      using parked_sys_ok [OF park1, of c idle] n(3) by auto
    obtain rc2 s2 where 2: "give_options env (c_drv_opts (e_conf env)) ?s1 = Some (rc2, s2)" "rc2 \<in> {0, -1}"
      "sys_ok idle env ph k s2" "steps ?s1 [] [] s2"
      using give_options_ok [OF env1 ok1, of "c_drv_opts (e_conf env)"] opts env
      unfolding options_ok_def doer_env_def by blast
    have st2: "steps s [] [] s2" using steps_trans [OF st1 2(4)] by simp
    show ?thesis
    proof (cases "rc2 = 0")
      case False
      then have "ia_doer_fulfil env s = Some (-1, s2)"
        using 2(1) by (simp add: ia_doer_fulfil_def obt Some)
      moreover have "opened (sh_priv (s_shared s2))" using 2(3) idle_opened by (auto simp: sys_ok_def)
      ultimately show ?thesis using sys_ok_parked [OF 2(3)] ph steps_blocks [OF st2] by force
    next
      case True
      have env2: "doer_env rely drv env s2" and d2: "do_benchmask (s_doer s2) = do_benchmask (s_doer s)"
        using env st2 by (simp_all add: doer_env_def steps_def)
      obtain T where T: "\<not> c_continuous_completing (e_conf env) \<or>
          (\<forall>t \<ge> T. \<forall>sh. sh_doers_count (e_others env t sh) \<le> sh_doers_done (e_others env t sh))"
        using fin unfolding finishes_def by blast
      obtain rc3 s3 ph3 k3 xs where 3: "repeat_loop env 0 0 s2 = Some (rc3, s3)" "rc3 \<in> {0, ENOENT, -1}"
        "sys_ok idle env ph3 k3 s3" "ph3 = (if xs = [] then ph else Flushed)" "blocks s2 xs s3"
        "rc3 = 0 \<longrightarrow> (\<exists>m. map fst xs = concat (replicate m (filter (in_mask (do_benchmask (s_doer s))) benchmarks)) \<and>
          (c_nrepeat (e_conf env) \<le> int m \<or> sh_failed (s_shared s3)))"
        using repeat_loop_ok [OF turns T env2 2(3) ph, where passes = 0] d2 M unfolding d2 diff_zero by blast
      have b3: "blocks s xs s3" by (rule quiet_blocks [OF st2 3(5)])
      have env3: "doer_env rely drv env s3" using env blocks_doer [OF b3] by (simp add: doer_env_def)
      note t3 = parked_turn [OF env3 sys_ok_parked [OF 3(3)]]
      obtain c3 where c3: "do_ctx (s_doer s3) = Some c3" "idle c3 (sh_priv (s_shared (turn env s3)))"
        using 3(3) t3(3) idle_rely by (auto simp: sys_ok_def)
      obtain w4 where w4: "d_thread_dispose drv c3 (sh_priv (s_shared (turn env s3))) = Some w4"
        "rely (sh_priv (s_shared (turn env s3))) w4"
        using dispose_ok [OF c3(2)] by blast
      let ?s4 = "(turn env s3)\<lparr>s_doer := (s_doer (turn env s3))\<lparr>do_ctx := None\<rparr>,
        s_shared := (s_shared (turn env s3))\<lparr>sh_priv := w4\<rparr>\<rparr>"
      have rel: "release_context env s3 = Some ?s4"
        using env c3(1) w4(1) by (simp add: release_context_def doer_env_def Let_def)
      have "ia_doer_fulfil env s = Some (rc3, ?s4)"
        using 2(1) by (simp add: ia_doer_fulfil_def obt Some True 3(1) rel)
      moreover have "opened (sh_priv (s_shared ?s4))" using opened_rely [OF idle_opened [OF c3(2)] w4(2)] by simp
      moreover have "parked env ph3 ?s4" using t3(1) by (simp add: parked_def gens_ok_def)
      moreover have "steps s3 [] [] ?s4" using t3(2) by (simp add: steps_def)
      moreover have "rc3 = 0 \<longrightarrow> do_ctx (s_doer ?s4) = None \<and>
         (\<exists>m. map fst xs = concat (replicate m (filter (in_mask (do_benchmask (s_doer s))) benchmarks)) \<and>
           (c_nrepeat (e_conf env) \<le> int m \<or> sh_failed (s_shared ?s4)))"
        using 3(6) t3(5) by auto
      ultimately show ?thesis using 3(2,4) blocks_quiet [OF b3] by blast
    qed
  qed
qed

end

end
