(* ===== verification/BenchCalls.thy ===== *)
theory BenchCalls
  imports Benchmark
begin

text \<open>
  What a benchmark asks of its driver (\<open>src/ia_benchmark.c\<close>): the sequence of calls with their keys and
  results, whatever the driver does.
\<close>

section \<open>The calls of one operation\<close>

definition simple_calls :: "iabenchmark \<Rightarrow> iakv \<Rightarrow> iakv \<Rightarrow> int \<Rightarrow> int \<Rightarrow> int \<Rightarrow> u64 \<Rightarrow> call list" where
  "simple_calls b kv kv' rc_begin rc_next rc_done v =
     [Call_begin b rc_begin] @ (if rc_begin = 0 then [Call_next b kv kv' rc_next] else []) @
     [Call_done b rc_done, Measured v]"

text \<open>The four operations of a transaction that succeeds, in order.\<close>

definition quad_calls :: "('w, 'c) benv \<Rightarrow> iakv \<Rightarrow> iakv \<Rightarrow> call list \<Rightarrow> bool" where
  "quad_calls env a b cs \<longleftrightarrow> (\<exists>b' a' b'' a'' r r'. forgive env r = 0 \<and> forgive env r' = 0 \<and> cs =
     [Call_next IA_SET b b' 0, Call_next IA_SET a a' 0, Call_next IA_DELETE b' b'' r, Call_next IA_GET a' a'' r'])"

lemma calls_simps [simp]:
  "s_calls (turn env s) = s_calls s" "s_doer (turn env s) = s_doer s"
  "s_calls (with_call e c w s) = s_calls s @ [e]"
  "do_gen_a (s_doer (with_call e c w s)) = do_gen_a (s_doer s)"
  "do_gen_b (s_doer (with_call e c w s)) = do_gen_b (s_doer s)"
  "s_calls (set_hist ph h g s) = s_calls s" "s_doer (set_hist ph h g s) = s_doer s"
  by (simp_all add: turn_def with_call_def set_hist_def Let_def)

lemma driver_begin_calls:
  "driver_begin env b s = Some (rc, s') \<Longrightarrow> s_calls s' = s_calls s @ [Call_begin b rc] \<and>
    do_gen_a (s_doer s') = do_gen_a (s_doer s) \<and> do_gen_b (s_doer s') = do_gen_b (s_doer s)"
  by (auto simp: driver_begin_def Let_def Option.bind_eq_Some_conv)

lemma driver_done_calls:
  "driver_done env b s = Some (rc, s') \<Longrightarrow> s_calls s' = s_calls s @ [Call_done b rc] \<and>
    do_gen_a (s_doer s') = do_gen_a (s_doer s) \<and> do_gen_b (s_doer s') = do_gen_b (s_doer s)"
  by (auto simp: driver_done_def Let_def Option.bind_eq_Some_conv)

lemma driver_next_calls:
  "driver_next env b kv s = Some (rc, kv', s') \<Longrightarrow> s_calls s' = s_calls s @ [Call_next b kv kv' rc] \<and>
    do_gen_a (s_doer s') = do_gen_a (s_doer s) \<and> do_gen_b (s_doer s') = do_gen_b (s_doer s)"
  by (auto simp: driver_next_def Let_def Option.bind_eq_Some_conv)

lemma hist_add_calls:
  "hist_add env t0 v s = Some s' \<Longrightarrow> s_calls s' = s_calls s @ [Measured v] \<and> s_doer s' = s_doer s"
  by (auto simp: hist_add_def Let_def Option.bind_eq_Some_conv)

lemma hist_reset_calls: "hist_reset env b s = Some s' \<Longrightarrow> s_calls s' = s_calls s \<and> s_doer s' = s_doer s"
  by (auto simp: hist_reset_def Let_def Option.bind_eq_Some_conv)

lemma hist_merge_calls: "hist_merge env s = Some s' \<Longrightarrow> s_calls s' = s_calls s \<and> s_doer s' = s_doer s"
  by (auto simp: hist_merge_def Let_def Option.bind_eq_Some_conv)

lemma timestamp_calls: "timestamp env s = (t, s') \<Longrightarrow> s_calls s' = s_calls s \<and> s_doer s' = s_doer s"
  by (auto simp: timestamp_def)

lemmas call_effects = driver_begin_calls driver_done_calls driver_next_calls hist_add_calls
  hist_reset_calls hist_merge_calls timestamp_calls

lemma bench_simple_calls:
  assumes "bench_simple env b l = Some l'"
  obtains gen gen' kv kv' rc_begin rc_next rc_done v
  where "do_gen_a (s_doer (bl_sys l)) = Some gen"
    and "ia_kvgen_get (e_kv env) gen (b \<noteq> IA_SET) = Some (gen', kv)"
    and "do_gen_a (s_doer (bl_sys l')) = Some gen'"
    and "s_calls (bl_sys l') = s_calls (bl_sys l) @ simple_calls b kv kv' rc_begin rc_next rc_done v"
    and "if bl_rc l' = 0
      then forgive env (if rc_begin = 0 then rc_next else rc_begin) = 0 \<and> rc_done = 0 \<and>
        bl_i l' = bl_i l + 1 \<and> bl_goto l' = bl_goto l
      else \<not> (forgive env (if rc_begin = 0 then rc_next else rc_begin) = 0 \<and> rc_done = 0) \<and> bl_goto l'"
proof -
  from assms obtain a s1 where 1: "gen_get_a env (b \<noteq> IA_SET) (bl_sys l) = Some (a, s1)"
    by (auto simp: bench_simple_def Option.bind_eq_Some_conv)
  obtain t0 s2 where t: "timestamp env s1 = (t0, s2)" by (cases "timestamp env s1")
  from assms 1 t obtain rc s3 where 3: "driver_begin env b s2 = Some (rc, s3)"
    by (auto simp: bench_simple_def Option.bind_eq_Some_conv)
  from assms 1 t 3 obtain rc4 a4 s4 where
    4: "(if rc = 0 then driver_next env b a s3 else Some (rc, a, s3)) = Some (rc4, a4, s4)"
    by (auto simp: bench_simple_def Option.bind_eq_Some_conv split: if_splits)
  from assms 1 t 3 4 obtain rc5 s5 where 5: "driver_done env b s4 = Some (rc5, s5)"
    by (auto simp: bench_simple_def Option.bind_eq_Some_conv)
  let ?v = "if b = IA_DELETE then kv_ksize a4 else kv_ksize a4 + kv_vsize a4"
  from assms 1 t 3 4 5 obtain s6 where 6: "hist_add env t0 ?v s5 = Some s6"
    by (auto simp: bench_simple_def Option.bind_eq_Some_conv Let_def)
  let ?rc = "if forgive env rc4 = 0 then rc5 else forgive env rc4"
  have l': "l' = (if ?rc \<noteq> 0 then l\<lparr>bl_goto := True, bl_rc := ?rc, bl_sys := s6\<rparr>
                else l\<lparr>bl_rc := 0, bl_i := bl_i l + 1, bl_sys := s6\<rparr>)"
    using assms by (simp only: bench_simple_def 1 t 3 4 5 6 Option.bind.simps prod.case Let_def option.inject)
  obtain gen gen' where g: "do_gen_a (s_doer (bl_sys l)) = Some gen"
    "ia_kvgen_get (e_kv env) gen (b \<noteq> IA_SET) = Some (gen', a)" "do_gen_a (s_doer s1) = Some gen'"
    "s_calls s1 = s_calls (bl_sys l)"
    using 1 by (auto simp: gen_get_a_def Option.bind_eq_Some_conv)
  note eff = timestamp_calls [OF t] driver_begin_calls [OF 3] driver_done_calls [OF 5] hist_add_calls [OF 6]
  have n: "do_gen_a (s_doer s4) = do_gen_a (s_doer s3)"
    "s_calls s4 = s_calls s3 @ (if rc = 0 then [Call_next b a a4 rc4] else [])" "rc \<noteq> 0 \<Longrightarrow> rc4 = rc"
    using 4 driver_next_calls [of env b a s3 rc4 a4 s4] by (auto split: if_splits)
  show ?thesis
  proof (rule that [OF g(1,2)])
    show "do_gen_a (s_doer (bl_sys l')) = Some gen'" using g(3) eff n(1) by (simp add: l')
    show "s_calls (bl_sys l') = s_calls (bl_sys l) @ simple_calls b a a4 rc rc4 rc5 ?v"
      using g(4) eff n(2) by (simp add: l' simple_calls_def)
    show "if bl_rc l' = 0
      then forgive env (if rc = 0 then rc4 else rc) = 0 \<and> rc5 = 0 \<and> bl_i l' = bl_i l + 1 \<and> bl_goto l' = bl_goto l
      else \<not> (forgive env (if rc = 0 then rc4 else rc) = 0 \<and> rc5 = 0) \<and> bl_goto l'"
      using n(3) by (auto simp: l' split: if_splits)
  qed
qed

section \<open>A whole benchmark of single operations\<close>

text \<open>
  One operation done: the record, what the driver left of it, the results, and the volume; and
  whether it counts as a success.
\<close>

record outcome =
  oc_given :: iakv
  oc_left :: iakv
  oc_begin :: int
  oc_next :: int
  oc_done :: int
  oc_volume :: u64

definition oc_calls :: "iabenchmark \<Rightarrow> outcome \<Rightarrow> call list" where
  "oc_calls b x = simple_calls b (oc_given x) (oc_left x) (oc_begin x) (oc_next x) (oc_done x) (oc_volume x)"

definition oc_success :: "('w, 'c) benv \<Rightarrow> outcome \<Rightarrow> bool" where
  "oc_success env x \<longleftrightarrow> forgive env (if oc_begin x = 0 then oc_next x else oc_begin x) = 0 \<and> oc_done x = 0"

definition simple_run :: "('w, 'c) benv \<Rightarrow> iabenchmark \<Rightarrow> outcome list \<Rightarrow> ('w, 'c) sys \<Rightarrow> ('w, 'c) sys \<Rightarrow> bool" where
  "simple_run env b xs s s' \<longleftrightarrow> s_calls s' = s_calls s @ concat (map (oc_calls b) xs) \<and>
     (if xs = [] then do_gen_a (s_doer s') = do_gen_a (s_doer s)
      else \<exists>gen gen'. do_gen_a (s_doer s) = Some gen \<and> do_gen_a (s_doer s') = Some gen' \<and>
        kvgen_gets (e_kv env) gen (replicate (length xs) (b \<noteq> IA_SET)) = Some (gen', map oc_given xs))"

lemma simple_run_Nil [simp]: "simple_run env b [] s s"
  by (simp add: simple_run_def)

lemma simple_run_Cons:
  assumes "do_gen_a (s_doer s) = Some gen" and "ia_kvgen_get (e_kv env) gen (b \<noteq> IA_SET) = Some (gen', oc_given x)"
    and "do_gen_a (s_doer s1) = Some gen'" and "s_calls s1 = s_calls s @ oc_calls b x"
    and "simple_run env b xs s1 s2"
  shows "simple_run env b (x # xs) s s2"
  using assms by (cases "xs = []") (auto simp: simple_run_def)

text \<open>All went well, or all but the last.\<close>

definition run_verdict :: "('w, 'c) benv \<Rightarrow> int \<Rightarrow> nat \<Rightarrow> outcome list \<Rightarrow> bool" where
  "run_verdict env rc n xs \<longleftrightarrow>
     (if rc = 0 then list_all (oc_success env) xs \<and> length xs = n
      else \<exists>ys x. xs = ys @ [x] \<and> list_all (oc_success env) ys \<and> \<not> oc_success env x \<and> length ys < n)"

lemma run_verdict_Cons:
  assumes "oc_success env x" and "run_verdict env rc n xs"
  shows "run_verdict env rc (Suc n) (x # xs)"
proof (cases "rc = 0")
  case False
  then obtain ys y where "xs = ys @ [y]" "list_all (oc_success env) ys" "\<not> oc_success env y" "length ys < n"
    using assms(2) by (auto simp: run_verdict_def)
  then show ?thesis
    using False assms(1) by (auto simp: run_verdict_def intro!: exI [of _ "x # ys"])
qed (use assms in \<open>simp add: run_verdict_def\<close>)

lemma bench_loop_simple:
  assumes b: "b \<in> {IA_SET, IA_DELETE, IA_GET}"
    and "bench_loop env b l = Some l'" and "\<not> bl_goto l" and "bl_rc l = 0" and "bl_i l \<le> c_count (e_conf env)"
  shows "\<exists>xs. simple_run env b xs (bl_sys l) (bl_sys l') \<and>
    run_verdict env (bl_rc l') (unat (c_count (e_conf env)) - unat (bl_i l)) xs"
  using assms(2-)
proof (induction "unat (c_count (e_conf env)) - unat (bl_i l)" arbitrary: l)
  case 0
  then have "\<not> bl_i l < c_count (e_conf env)" by (simp add: word_less_nat_alt)
  then have "l' = l" using 0 by (subst (asm) bench_loop.simps) auto
  then show ?case using 0 by (intro exI [of _ "[]"]) (simp add: run_verdict_def)
next
  case (Suc n)
  then have lt: "bl_i l < c_count (e_conf env)" by (simp add: word_less_nat_alt)
  have step: "bench_step env b m = bench_simple env b m" for m using b by auto
  obtain l1 where 1: "bench_simple env b l = Some l1" and rest: "bench_loop env b l1 = Some l'"
    using Suc.prems lt step by (subst (asm) bench_loop.simps) (auto simp: Option.bind_eq_Some_conv)
  obtain gen gen' kv kv' rcb rcn rcd v
    where g: "do_gen_a (s_doer (bl_sys l)) = Some gen" "ia_kvgen_get (e_kv env) gen (b \<noteq> IA_SET) = Some (gen', kv)"
      "do_gen_a (s_doer (bl_sys l1)) = Some gen'"
      "s_calls (bl_sys l1) = s_calls (bl_sys l) @ simple_calls b kv kv' rcb rcn rcd v"
    and verdict: "if bl_rc l1 = 0
      then forgive env (if rcb = 0 then rcn else rcb) = 0 \<and> rcd = 0 \<and> bl_i l1 = bl_i l + 1 \<and> bl_goto l1 = bl_goto l
      else \<not> (forgive env (if rcb = 0 then rcn else rcb) = 0 \<and> rcd = 0) \<and> bl_goto l1"
    by (rule bench_simple_calls [OF 1])
  define x where "x = \<lparr>oc_given = kv, oc_left = kv', oc_begin = rcb, oc_next = rcn, oc_done = rcd, oc_volume = v\<rparr>"
  note cons = simple_run_Cons [OF g(1), of env b gen' x "bl_sys l1"]
  have x: "oc_given x = kv" "oc_calls b x = simple_calls b kv kv' rcb rcn rcd v"
    "oc_success env x \<longleftrightarrow> forgive env (if rcb = 0 then rcn else rcb) = 0 \<and> rcd = 0"
    by (simp_all add: x_def oc_calls_def oc_success_def)
  show ?case
  proof (cases "bl_rc l1 = 0")
    case True
    have u: "unat (bl_i l1) = Suc (unat (bl_i l))" "bl_i l1 \<le> c_count (e_conf env)"
      using verdict True count_step [OF lt] by auto
    have "n = unat (c_count (e_conf env)) - unat (bl_i l1)" using Suc.hyps(2) u by simp
    from Suc.hyps(1) [OF this rest _ True u(2)] obtain xs
      where "simple_run env b xs (bl_sys l1) (bl_sys l')"
        "run_verdict env (bl_rc l') (unat (c_count (e_conf env)) - unat (bl_i l1)) xs"
      using verdict True Suc.prems(2) by auto
    moreover have "Suc (unat (c_count (e_conf env)) - unat (bl_i l1)) = unat (c_count (e_conf env)) - unat (bl_i l)"
      using Suc.hyps(2) u by simp
    ultimately show ?thesis
      using cons run_verdict_Cons [of env x] verdict True x g by (metis (no_types, lifting))
  next
    case False
    then have "l' = l1" using rest verdict by (subst (asm) bench_loop.simps) auto
    moreover have "run_verdict env (bl_rc l1) (unat (c_count (e_conf env)) - unat (bl_i l)) [x]"
      using False verdict x(3) Suc.hyps(2) by (auto simp: run_verdict_def intro!: exI [of _ "[]"])
    ultimately show ?thesis
      using cons x g by (intro exI [of _ "[x]"]) auto
  qed
qed

section \<open>A whole benchmark of transactions\<close>

lemma ia_quadruple_calls:
  assumes "ia_quadruple env a b s = Some (0, a', b', s')"
  shows "\<exists>cs. s_calls s' = s_calls s @ cs \<and> quad_calls env a b cs \<and>
    do_gen_a (s_doer s') = do_gen_a (s_doer s) \<and> do_gen_b (s_doer s') = do_gen_b (s_doer s)"
proof -
  from assms obtain b1 s1 where 1: "driver_next env IA_SET b s = Some (0, b1, s1)"
    by (auto simp: ia_quadruple_def Option.bind_eq_Some_conv split: if_splits)
  from assms 1 obtain a2 s2 where 2: "driver_next env IA_SET a s1 = Some (0, a2, s2)"
    by (auto simp: ia_quadruple_def Option.bind_eq_Some_conv split: if_splits)
  from assms 1 2 obtain r3 b3 s3 where 3: "driver_next env IA_DELETE b1 s2 = Some (r3, b3, s3)" "forgive env r3 = 0"
    by (auto simp: ia_quadruple_def Option.bind_eq_Some_conv split: if_splits)
  from assms 1 2 3 obtain r4 where 4: "driver_next env IA_GET a2 s3 = Some (r4, a', s')" "forgive env r4 = 0"
    by (auto simp: ia_quadruple_def Option.bind_eq_Some_conv split: if_splits)
  have "s_calls s' = s_calls s @ [Call_next IA_SET b b1 0, Call_next IA_SET a a2 0,
      Call_next IA_DELETE b1 b3 r3, Call_next IA_GET a2 a' r4]"
    and "do_gen_a (s_doer s') = do_gen_a (s_doer s) \<and> do_gen_b (s_doer s') = do_gen_b (s_doer s)"
    using driver_next_calls [OF 1] driver_next_calls [OF 2] driver_next_calls [OF 3(1)] driver_next_calls [OF 4(1)] by auto
  then show ?thesis using 3(2) 4(2) unfolding quad_calls_def by blast
qed

definition crud_calls :: "('w, 'c) benv \<Rightarrow> iakv \<times> iakv \<Rightarrow> call list \<Rightarrow> bool" where
  "crud_calls env x cs \<longleftrightarrow> (\<exists>qs v. quad_calls env (fst x) (snd x) qs \<and>
     cs = [Call_begin IA_CRUD 0] @ qs @ [Call_done IA_CRUD 0, Measured v])"

definition crud_run :: "('w, 'c) benv \<Rightarrow> (iakv \<times> iakv) list \<Rightarrow> ('w, 'c) sys \<Rightarrow> ('w, 'c) sys \<Rightarrow> bool" where
  "crud_run env xs s s' \<longleftrightarrow> (\<exists>css. list_all2 (crud_calls env) xs css \<and> s_calls s' = s_calls s @ concat css) \<and>
     (if xs = [] then do_gen_a (s_doer s') = do_gen_a (s_doer s) \<and> do_gen_b (s_doer s') = do_gen_b (s_doer s)
      else \<exists>ga ga' gb gb'. do_gen_a (s_doer s) = Some ga \<and> do_gen_a (s_doer s') = Some ga' \<and>
        do_gen_b (s_doer s) = Some gb \<and> do_gen_b (s_doer s') = Some gb' \<and>
        kvgen_gets (e_kv env) ga (replicate (length xs) False) = Some (ga', map fst xs) \<and>
        kvgen_gets (e_kv env) gb (replicate (length xs) False) = Some (gb', map snd xs))"

lemma crud_run_Nil [simp]: "crud_run env [] s s"
  by (simp add: crud_run_def)

lemma crud_run_Cons:
  assumes "do_gen_a (s_doer s) = Some ga" and "ia_kvgen_get (e_kv env) ga False = Some (ga', fst x)"
    and "do_gen_b (s_doer s) = Some gb" and "ia_kvgen_get (e_kv env) gb False = Some (gb', snd x)"
    and "do_gen_a (s_doer s1) = Some ga'" and "do_gen_b (s_doer s1) = Some gb'"
    and "s_calls s1 = s_calls s @ cs" and "crud_calls env x cs"
    and "crud_run env xs s1 s2"
  shows "crud_run env (x # xs) s s2"
proof -
  obtain css where "list_all2 (crud_calls env) xs css" "s_calls s2 = s_calls s1 @ concat css"
    using assms(9) by (auto simp: crud_run_def)
  then have "list_all2 (crud_calls env) (x # xs) (cs # css) \<and> s_calls s2 = s_calls s @ concat (cs # css)"
    using assms(7,8) by simp
  then show ?thesis
    using assms by (cases "xs = []") (auto simp: crud_run_def)
qed

lemma bench_crud_calls:
  assumes "bench_crud env l = Some l'" and "bl_rc l' = 0"
  obtains ga ga' gb gb' a b cs where "do_gen_a (s_doer (bl_sys l)) = Some ga" and "do_gen_b (s_doer (bl_sys l)) = Some gb"
    and "ia_kvgen_get (e_kv env) ga False = Some (ga', a)" and "ia_kvgen_get (e_kv env) gb False = Some (gb', b)"
    and "do_gen_a (s_doer (bl_sys l')) = Some ga'" and "do_gen_b (s_doer (bl_sys l')) = Some gb'"
    and "s_calls (bl_sys l') = s_calls (bl_sys l) @ cs" and "crud_calls env (a, b) cs"
    and "bl_i l' = bl_i l + 1" and "bl_goto l' = bl_goto l"
proof -
  from assms obtain a s1 where 1: "gen_get_a env False (bl_sys l) = Some (a, s1)"
    by (auto simp: bench_crud_def Option.bind_eq_Some_conv)
  from assms 1 obtain b s2 where 2: "gen_get_b env False s1 = Some (b, s2)"
    by (auto simp: bench_crud_def Option.bind_eq_Some_conv)
  obtain t0 s3 where t: "timestamp env s2 = (t0, s3)" by (cases "timestamp env s2")
  from assms 1 2 t obtain s4 where 4: "driver_begin env IA_CRUD s3 = Some (0, s4)"
    by (auto simp: bench_crud_def Option.bind_eq_Some_conv split: if_splits)
  from assms 1 2 t 4 obtain a5 b5 s5 where 5: "ia_quadruple env a b s4 = Some (0, a5, b5, s5)"
    by (auto simp: bench_crud_def Option.bind_eq_Some_conv split: if_splits)
  from assms 1 2 t 4 5 obtain s6 where 6: "driver_done env IA_CRUD s5 = Some (0, s6)"
    by (auto simp: bench_crud_def Option.bind_eq_Some_conv split: if_splits)
  from assms 1 2 t 4 5 6 obtain s7 where 7: "hist_add env t0 (quad_volume a5 b5) s6 = Some s7"
    and l': "l' = l\<lparr>bl_rc := 0, bl_i := bl_i l + 1, bl_sys := s7\<rparr>"
    by (auto simp: bench_crud_def Option.bind_eq_Some_conv split: if_splits)
  obtain ga ga' where ga: "do_gen_a (s_doer (bl_sys l)) = Some ga" "ia_kvgen_get (e_kv env) ga False = Some (ga', a)"
    "do_gen_a (s_doer s1) = Some ga'" "do_gen_b (s_doer s1) = do_gen_b (s_doer (bl_sys l))" "s_calls s1 = s_calls (bl_sys l)"
    using 1 by (auto simp: gen_get_a_def Option.bind_eq_Some_conv)
  obtain gb gb' where gb: "do_gen_b (s_doer s1) = Some gb" "ia_kvgen_get (e_kv env) gb False = Some (gb', b)"
    "do_gen_b (s_doer s2) = Some gb'" "do_gen_a (s_doer s2) = do_gen_a (s_doer s1)" "s_calls s2 = s_calls s1"
    using 2 by (auto simp: gen_get_b_def Option.bind_eq_Some_conv)
  obtain qs where q: "s_calls s5 = s_calls s4 @ qs" "quad_calls env a b qs"
    "do_gen_a (s_doer s5) = do_gen_a (s_doer s4)" "do_gen_b (s_doer s5) = do_gen_b (s_doer s4)"
    using ia_quadruple_calls [OF 5] by blast
  note eff = timestamp_calls [OF t] driver_begin_calls [OF 4] driver_done_calls [OF 6] hist_add_calls [OF 7]
  show ?thesis
  proof (rule that)
    show "s_calls (bl_sys l') = s_calls (bl_sys l) @ ([Call_begin IA_CRUD 0] @ qs @ [Call_done IA_CRUD 0, Measured (quad_volume a5 b5)])"
      using eff ga(5) gb(5) q(1) by (simp add: l')
    show "crud_calls env (a, b) ([Call_begin IA_CRUD 0] @ qs @ [Call_done IA_CRUD 0, Measured (quad_volume a5 b5)])"
      using q(2) unfolding crud_calls_def by auto
  qed (use eff ga gb q in \<open>simp_all add: l'\<close>)
qed

lemma bench_loop_crud:
  assumes "bench_loop env IA_CRUD l = Some l'" and "\<not> bl_goto l" and "bl_rc l = 0" and "bl_i l \<le> c_count (e_conf env)"
    and "bl_rc l' = 0"
  shows "\<exists>xs. crud_run env xs (bl_sys l) (bl_sys l') \<and> length xs = unat (c_count (e_conf env)) - unat (bl_i l)"
  using assms
proof (induction "unat (c_count (e_conf env)) - unat (bl_i l)" arbitrary: l)
  case 0
  then have "\<not> bl_i l < c_count (e_conf env)" by (simp add: word_less_nat_alt)
  then have "l' = l" using 0 by (subst (asm) bench_loop.simps) auto
  then show ?case using 0 by (intro exI [of _ "[]"]) simp
next
  case (Suc n)
  then have lt: "bl_i l < c_count (e_conf env)" by (simp add: word_less_nat_alt)
  obtain l1 where 1: "bench_crud env l = Some l1" and rest: "bench_loop env IA_CRUD l1 = Some l'"
    using Suc.prems lt by (subst (asm) bench_loop.simps) (auto simp: Option.bind_eq_Some_conv)
  have rc1: "bl_rc l1 = 0"
  proof (rule ccontr)
    assume "bl_rc l1 \<noteq> 0"
    then have "l' = l1" using rest by (subst (asm) bench_loop.simps) auto
    then show False using \<open>bl_rc l1 \<noteq> 0\<close> Suc.prems(5) by simp
  qed
  obtain ga ga' gb gb' a b cs where g: "do_gen_a (s_doer (bl_sys l)) = Some ga" "do_gen_b (s_doer (bl_sys l)) = Some gb"
    "ia_kvgen_get (e_kv env) ga False = Some (ga', a)" "ia_kvgen_get (e_kv env) gb False = Some (gb', b)"
    "do_gen_a (s_doer (bl_sys l1)) = Some ga'" "do_gen_b (s_doer (bl_sys l1)) = Some gb'"
    "s_calls (bl_sys l1) = s_calls (bl_sys l) @ cs" "crud_calls env (a, b) cs"
    and i1: "bl_i l1 = bl_i l + 1" and goto1: "bl_goto l1 = bl_goto l"
    by (rule bench_crud_calls [OF 1 rc1])
  have u: "unat (bl_i l1) = Suc (unat (bl_i l))" "bl_i l1 \<le> c_count (e_conf env)"
    using i1 count_step [OF lt] by auto
  have "n = unat (c_count (e_conf env)) - unat (bl_i l1)" using Suc.hyps(2) u by simp
  from Suc.hyps(1) [OF this rest _ rc1 u(2) Suc.prems(5)] obtain xs
    where xs: "crud_run env xs (bl_sys l1) (bl_sys l')" "length xs = unat (c_count (e_conf env)) - unat (bl_i l1)"
    using goto1 Suc.prems(2) by auto
  have "crud_run env ((a, b) # xs) (bl_sys l) (bl_sys l')"
    by (rule crud_run_Cons [OF g(1) _ g(2) _ g(5,6,7,8) xs(1)]) (simp_all add: g)
  then show ?case using xs(2) u Suc.hyps(2) by (intro exI [of _ "(a, b) # xs"]) simp
qed

section \<open>A batch does not look at what begin returned\<close>

lemma batch_loop_rc:
  assumes "fst (ia_kvpool_pull (e_kv env) ga pa a) = 0" and "fst (ia_kvpool_pull (e_kv env) gb pb b) = 0"
  shows "batch_loop env ga gb (Suc n) pa pb a b (l\<lparr>bl_rc := rc\<rparr>) = batch_loop env ga gb (Suc n) pa pb a b (l\<lparr>bl_rc := rc'\<rparr>)"
  using assms
  by (cases "ia_quadruple env (snd (snd (ia_kvpool_pull (e_kv env) ga pa a)))
      (snd (snd (ia_kvpool_pull (e_kv env) gb pb b))) (bl_sys l)") (auto simp: Let_def case_prod_beta)

end
