(* ===== verification/BenchProperties.thy ===== *)
theory BenchProperties
  imports Doer BenchCalls
begin

text \<open>
  The properties of the benchmarks and of the doers (\<open>src/ia_benchmark.c\<close>), and a sample doer on the
  dummy driver for their witnesses.
\<close>

section \<open>A sample run\<close>

text \<open>The dummy driver, a clock that always advances, and no other doers.\<close>

definition sample_env :: "(unit, int) benv" where
  "sample_env = \<lparr>e_conf = blank_config\<lparr>c_count := 3, c_batch_length := 2, c_nrepeat := 1\<rparr>,
     e_kv = sample_globals 16 2 1000, e_drv = ia_dummy True, e_alloc = sample_alloc,
     e_clock = (\<lambda>t. 1 + of_nat (t mod 1000000)), e_trylock = (\<lambda>_. True), e_others = (\<lambda>t sh. sh)\<rparr>"

text \<open>Histograms with every benchmark switched on and one doer.\<close>

definition enable_all :: "u64 \<Rightarrow> hglobal \<Rightarrow> hglobal" where
  "enable_all clock g = fold (ia_histogram_enable clock) benchmarks g"

definition sample_hist :: hworld where
  "sample_hist = (case ia_histogram_init (enable_all 1 (ia_global_init 1)) of
     (h, g) \<Rightarrow> \<lparr>w_global = g, w_doers = [(Fresh, h)]\<rparr>)"

definition sample_sys :: "u64 \<Rightarrow> (unit, int) sys" where
  "sample_sys msk = \<lparr>
     s_doer = \<lparr>do_nth = 0, do_key_space = 1, do_key_sequence = 0, do_benchmask = msk, do_ctx = Some 0,
       do_gen_a = Some (sample_gen (sample_globals 16 2 1000) 1),
       do_gen_b = Some (sample_gen (sample_globals 16 2 1000) 2), do_hg = 0\<rparr>,
     s_shared = \<lparr>sh_priv = (), sh_hist = sample_hist, sh_doers_count = 1, sh_doers_done = 0, sh_failed = False\<rparr>,
     s_tick = 0, s_calls = []\<rparr>"

lemma enable_enables: "h_enabled (per_bench (ia_histogram_enable clock b g) c) \<longleftrightarrow> c = b \<or> h_enabled (per_bench g c)"
  by (auto simp: ia_histogram_enable_def ia_histogram_reset_def)

lemma hruns_enables:
  "IA_MAX \<notin> set bs \<Longrightarrow>
    \<exists>tr. hruns \<lparr>w_global = g, w_doers = ds\<rparr> tr \<lparr>w_global = fold (ia_histogram_enable clock) bs g, w_doers = ds\<rparr>"
proof (induction bs arbitrary: g)
  case Nil
  then show ?case using hruns.nil by auto
next
  case (Cons b bs)
  have "b < IA_MAX" using Cons.prems by (cases b) (auto simp: below_MAX)
  then have "hstep \<lparr>w_global = g, w_doers = ds\<rparr> (Enable b) None \<lparr>w_global = ia_histogram_enable clock b g, w_doers = ds\<rparr>"
    using hstep.enable [of b "\<lparr>w_global = g, w_doers = ds\<rparr>" clock] by simp
  then show ?case
    using Cons hruns.cons by fastforce
qed

lemma enables_enabled: "b \<in> set bs \<or> h_enabled (per_bench g b) \<Longrightarrow> h_enabled (per_bench (fold (ia_histogram_enable clock) bs g) b)"
  by (induction bs arbitrary: g) (auto simp: enable_enables)

lemma sample_hist_facts:
  "\<exists>tr. hruns (world_init 1) tr sample_hist" "map fst (w_doers sample_hist) = [Fresh]"
  "b \<in> set benchmarks \<Longrightarrow> h_enabled (per_bench (w_global sample_hist) b)"
proof -
  have "\<exists>tr. hruns (world_init 1) tr \<lparr>w_global = enable_all 1 (ia_global_init 1), w_doers = []\<rparr>"
    using hruns_enables [of benchmarks] by (auto simp: benchmarks_def world_init_def enable_all_def)
  moreover have "hstep \<lparr>w_global = enable_all 1 (ia_global_init 1), w_doers = []\<rparr> Start None sample_hist"
    using hstep.start [of "\<lparr>w_global = enable_all 1 (ia_global_init 1), w_doers = []\<rparr>"]
    by (simp add: sample_hist_def ia_histogram_init_def)
  ultimately show "\<exists>tr. hruns (world_init 1) tr sample_hist"
    using hruns_append hruns_one by blast
  show "map fst (w_doers sample_hist) = [Fresh]" by (simp add: sample_hist_def ia_histogram_init_def)
  show "b \<in> set benchmarks \<Longrightarrow> h_enabled (per_bench (w_global sample_hist) b)"
    using enables_enabled [of b benchmarks] by (simp add: sample_hist_def ia_histogram_init_def enable_all_def)
qed

lemma sample_parked:
  "\<exists>h. doer_at (w_doers sample_hist) 0 (Fresh, h)" "hist_ok (mask_set msk) sample_hist"
  "gens_ok sample_env (s_doer (sample_sys msk))"
proof -
  obtain d where d: "w_doers sample_hist = [d]" "fst d = Fresh"
    using sample_hist_facts(2) by (cases "w_doers sample_hist") auto
  then show "\<exists>h. doer_at (w_doers sample_hist) 0 (Fresh, h)"
    by (cases d) (simp add: doer_at_def)
  obtain a where "hsim sample_hist a" using sample_hist_facts(1) hruns_sim [OF _ hsim_init] by blast
  then show "hist_ok (mask_set msk) sample_hist"
    using sample_hist_facts(3) by (auto simp: hist_ok_def mask_set_def set_benchmarks)
  have "gen_ok sample_env (Some (sample_gen (sample_globals 16 2 1000) k))" for k
    using sample_gen_ok [of k]
    by (simp add: gen_ok_def sample_env_def) (simp add: sample_gen_def sample_globals_def kvpair_bytes_def)
  then show "gens_ok sample_env (s_doer (sample_sys msk))"
    by (simp add: gens_ok_def sample_sys_def)
qed

lemma sample_clock: "e_clock sample_env t \<noteq> 0"
proof -
  have "t mod 1000000 < 1000000" by simp
  then have "unat (of_nat (t mod 1000000 + 1) :: u64) = t mod 1000000 + 1"
    by (simp only: unat_of_nat) simp
  then show ?thesis by (auto simp: sample_env_def add.commute)
qed

lemma sample_env_ok: "benv_ok (\<lambda>_ _. True) n sample_env"
  using sample_clock sample_alloc_ok hruns.nil
  by (auto simp: benv_ok_def) (auto simp: sample_env_def intro!: exI [of _ "[]"])

lemma sample_sys_ok: "\<exists>k. sys_ok (\<lambda>_ _. True) sample_env Fresh k (sample_sys msk)"
  using sample_parked(1) sample_parked(2,3) [of msk] by (auto simp: sys_ok_def) (auto simp: sample_sys_def)

text \<open>The dummy driver never fails.\<close>

lemma dummy_calls_rc:
  assumes "e_drv env = ia_dummy mem" and "b \<noteq> IA_MAX"
  shows "driver_begin env b s = map_option (\<lambda>c. (0, with_call (Call_begin b 0) c () (turn env s))) (do_ctx (s_doer s))"
    and "driver_done env b s = map_option (\<lambda>c. (0, with_call (Call_done b 0) c () (turn env s))) (do_ctx (s_doer s))"
    and "b \<in> {IA_SET, IA_DELETE, IA_GET} \<Longrightarrow>
      driver_next env b kv s = map_option (\<lambda>c. (0, kv, with_call (Call_next b kv kv 0) c () (turn env s))) (do_ctx (s_doer s))"
  using assms
  by (cases b; cases "do_ctx (s_doer s)";
      simp add: driver_begin_def driver_next_def driver_done_def ia_dummy_def ia_dummy_next_def Let_def)+

lemma dummy_quadruple_rc:
  assumes d: "e_drv env = ia_dummy mem" and "ia_quadruple env a b s = Some (rc, a', b', s')"
  shows "rc = 0"
  using assms(2)
  by (auto simp: ia_quadruple_def dummy_calls_rc [OF d] forgive_def Option.bind_eq_Some_conv)

lemma dummy_bench_rc:
  assumes d: "e_drv env = ia_dummy mem"
  shows "b \<in> {IA_SET, IA_DELETE, IA_GET} \<Longrightarrow> bench_simple env b l = Some l' \<Longrightarrow> bl_rc l' = 0"
    and "bench_crud env l = Some l' \<Longrightarrow> bl_rc l' = 0"
proof -
  assume "b \<in> {IA_SET, IA_DELETE, IA_GET}" and s: "bench_simple env b l = Some l'"
  then have b: "b \<noteq> IA_MAX" "b \<in> {IA_SET, IA_DELETE, IA_GET}" by auto
  show "bl_rc l' = 0"
    using s by (auto simp: bench_simple_def dummy_calls_rc [OF d b(1)] dummy_calls_rc(3) [OF d b] forgive_def timestamp_def
        Let_def Option.bind_eq_Some_conv)
next
  assume "bench_crud env l = Some l'"
  then show "bl_rc l' = 0"
    by (auto simp: bench_crud_def dummy_calls_rc [OF d] timestamp_def Let_def Option.bind_eq_Some_conv
        dest!: dummy_quadruple_rc [OF d])
qed

lemma dummy_bench_i:
  assumes "e_drv env = ia_dummy mem"
  shows "b \<in> {IA_SET, IA_DELETE, IA_GET} \<Longrightarrow> bench_simple env b l = Some l' \<Longrightarrow> bl_i l' = bl_i l + 1"
    and "bench_crud env l = Some l' \<Longrightarrow> bl_i l' = bl_i l + 1"
proof -
  assume "b \<in> {IA_SET, IA_DELETE, IA_GET}" and "bench_simple env b l = Some l'"
  then show "bl_i l' = bl_i l + 1"
    using dummy_bench_rc(1) [OF assms] by (metis bench_simple_calls)
next
  assume "bench_crud env l = Some l'"
  then show "bl_i l' = bl_i l + 1"
    using dummy_bench_rc(2) [OF assms] by (metis bench_crud_calls)
qed

lemma dummy_loop_rc:
  assumes d: "e_drv env = ia_dummy mem" and b: "b \<in> {IA_SET, IA_DELETE, IA_GET, IA_CRUD}"
  shows "bench_loop env b l = Some l' \<Longrightarrow> bl_rc l = 0 \<Longrightarrow> bl_rc l' = 0"
proof (induction "unat (c_count (e_conf env)) - unat (bl_i l)" arbitrary: l rule: less_induct)
  case less
  show ?case
  proof (cases "\<not> bl_goto l \<and> bl_i l < c_count (e_conf env)")
    case False
    then have "l' = l" using less.prems by (subst (asm) bench_loop.simps) auto
    then show ?thesis using less.prems by simp
  next
    case True
    then obtain l1 where 1: "bench_step env b l = Some l1" "bench_loop env b l1 = Some l'"
      using less.prems by (subst (asm) bench_loop.simps) (auto simp: Option.bind_eq_Some_conv)
    have rc1: "bl_rc l1 = 0"
      using b 1(1) by (auto dest: dummy_bench_rc(1) [OF d, rotated] dummy_bench_rc(2) [OF d])
    have "bl_i l1 = bl_i l + 1"
      using b 1(1) by (auto dest: dummy_bench_i(1) [OF d, rotated] dummy_bench_i(2) [OF d])
    then have "unat (c_count (e_conf env)) - unat (bl_i l1) < unat (c_count (e_conf env)) - unat (bl_i l)"
      using True count_step(1) [of "bl_i l" "c_count (e_conf env)"] by (auto simp: word_less_nat_alt)
    then show ?thesis using less.hyps 1(2) rc1 by blast
  qed
qed

lemma dummy_run_rc:
  assumes "e_drv env = ia_dummy mem" and "b \<in> {IA_SET, IA_DELETE, IA_GET, IA_CRUD}"
    and "ia_run_benchmark env b s = Some (rc, s')"
  shows "rc = 0"
  using assms(3) dummy_loop_rc [OF assms(1,2)]
  by (force simp: ia_run_benchmark_def Option.bind_eq_Some_conv Let_def)

lemma sample_env_drv [simp]: "e_drv sample_env = ia_dummy True"
  by (simp add: sample_env_def)

lemma sample_in_mask: "b < IA_MAX \<Longrightarrow> b \<in> mask_set (do_benchmask (s_doer (sample_sys 63)))"
  by (cases b) (simp_all add: mask_set_def in_mask_def sample_sys_def bench_bit_def)

lemma sample_doer_env: "doer_env (\<lambda>_ _. True) (ia_dummy True) sample_env s"
  using sample_env_ok by (simp add: doer_env_def)

lemma sample_run_exists:
  assumes "b \<in> {IA_SET, IA_DELETE, IA_GET, IA_CRUD}"
  obtains s' where "ia_run_benchmark sample_env b (sample_sys 63) = Some (0, s')"
proof -
  obtain k where ok: "sys_ok (\<lambda>_ _. True) sample_env Fresh k (sample_sys 63)" using sample_sys_ok by blast
  have "b < IA_MAX" using assms by (auto simp: below_MAX)
  have turns: "turns_ok (\<lambda>_ _. True) sample_env b s1"
    if "doer_env (\<lambda>_ _. True) (ia_dummy True) sample_env s1" "do_benchmask (s_doer s1) = do_benchmask (s_doer (sample_sys 63))" for s1
    using that sample_in_mask [OF \<open>b < IA_MAX\<close>] by (intro dummy.turns_all) auto
  obtain rc s' where r: "ia_run_benchmark sample_env b (sample_sys 63) = Some (rc, s')"
    using dummy.run_benchmark_ok [OF sample_doer_env ok _ sample_in_mask turns] \<open>b < IA_MAX\<close> by blast
  then have "rc = 0" using dummy_run_rc [OF sample_env_drv assms] by blast
  then show ?thesis using r that by blast
qed

lemma turns_when:
  assumes "driver_contract drv opened idle ready rely"
    and "bench = IA_BATCH \<Longrightarrow> robust_driver drv opened idle ready rely"
    and "doer_env rely drv env s1" and "bench \<in> mask_set (do_benchmask (s_doer s1))"
  shows "turns_ok idle env bench s1"
proof (cases "bench = IA_BATCH")
  case True
  show ?thesis by (rule robust_driver.turns_all [OF assms(2) [OF True] assms(3,4)])
next
  case False
  show ?thesis by (rule driver_contract.bench_step_ok [OF assms(1,3,4) False])
qed

lemma run_benchmark_parts:
  assumes "ia_run_benchmark env b s = Some (rc, s')"
  obtains s1 l where "hist_reset env b s = Some s1"
    and "bench_loop env b \<lparr>bl_goto = False, bl_rc = 0, bl_i = 0, bl_pool_a = None, bl_pool_b = None, bl_sys = s1\<rparr> = Some l"
    and "hist_merge env (bl_sys l) = Some s'" and "rc = bl_rc l"
proof -
  obtain s1 where 1: "hist_reset env b s = Some s1"
    using assms by (cases "hist_reset env b s") (auto simp: ia_run_benchmark_def)
  let ?l = "\<lparr>bl_goto = False, bl_rc = 0, bl_i = 0, bl_pool_a = None, bl_pool_b = None, bl_sys = s1\<rparr>"
  obtain l where 2: "bench_loop env b ?l = Some l"
    using assms 1 by (cases "bench_loop env b ?l") (auto simp: ia_run_benchmark_def)
  obtain s2 where 3: "hist_merge env (bl_sys l) = Some s2"
    using assms 1 2 by (cases "hist_merge env (bl_sys l)") (auto simp: ia_run_benchmark_def)
  show ?thesis using assms 1 2 3 by (intro that [of s1 l]) (auto simp: ia_run_benchmark_def Let_def)
qed

lemma kvgen_init_pair_bytes:
  assumes "ia_kvgen_init alloc g genptr kspace ksector vsize vage = Some (0, gp)"
  shows "\<exists>gen. gp = Some gen \<and> kg_pair_bytes gen = ucast (kvpair_bytes g (ucast vsize))"
  using assms by (auto simp: ia_kvgen_init_def Let_def split: option.splits)

lemma doer_init_ok:
  assumes init: "ia_doer_init env nr msk key_space key_sequence sh = Some (0, d, sh')"
    and alloc: "alloc_ok (e_alloc env)" and hist: "hist_ok (mask_set msk) (sh_hist sh)"
    and kv: "g_printable (e_kv env)" "g_ksize (e_kv env) \<noteq> 0" "g_period (e_kv env) \<noteq> 0"
    and fits: "unat (kvpair_bytes (e_kv env) (ucast (of_int (c_vsize (e_conf env)) :: u32))) * nat (c_batch_length (e_conf env)) < 2 ^ 32"
  shows "parked env Fresh \<lparr>s_doer = d, s_shared = sh', s_tick = t, s_calls = cs\<rparr> \<and>
    do_ctx d = None \<and> do_benchmask d = msk \<and> do_hg d = length (w_doers (sh_hist sh)) \<and> sh_priv sh' = sh_priv sh \<and>
    hruns (sh_hist sh) [(Start, None)] (sh_hist sh') \<and> sh_doers_count sh' = sh_doers_count sh + 1"
proof -
  let ?v = "of_int (c_vsize (e_conf env)) :: u32"
  obtain h g where hg: "ia_histogram_init (w_global (sh_hist sh)) = (h, g)" by fastforce
  let ?w = "\<lparr>w_global = g, w_doers = w_doers (sh_hist sh) @ [(Fresh, h)]\<rparr>"
  obtain ga where a: "ia_kvgen_init (e_alloc env) (e_kv env) None (of_int key_space) (of_int key_sequence) ?v 0 = Some (0, ga)"
    "do_gen_a d = ga"
    and d: "do_ctx d = None" "do_benchmask d = msk" "do_hg d = length (w_doers (sh_hist sh))"
    and sh': "sh' = sh\<lparr>sh_hist := ?w, sh_doers_count := sh_doers_count sh + 1\<rparr>"
    and b: "msk AND bench_mask_2keyspace \<noteq> 0 \<longrightarrow> ia_kvgen_init (e_alloc env) (e_kv env) None (of_int (key_space + 1))
        (of_int key_sequence) ?v 0 = Some (0, do_gen_b d)"
    using init by (auto simp: ia_doer_init_def Let_def hg Option.bind_eq_Some_conv split: if_splits)
  have gen: "gen_ok env gp"
    if gi: "ia_kvgen_init (e_alloc env) (e_kv env) None ks kseq ?v 0 = Some (0, gp)" for gp ks kseq
  proof -
    obtain gen where gp: "gp = Some gen" and pb: "kg_pair_bytes gen = ucast (kvpair_bytes (e_kv env) (ucast ?v))"
      using kvgen_init_pair_bytes [OF gi] by blast
    have "kvgen_ok (e_kv env) gen \<and> kg_vsize gen = ?v"
      using kvgen_init_ok [OF alloc kv] gi gp by blast
    then show ?thesis using pb fits by (simp add: gen_ok_def gp)
  qed
  have run: "hruns (sh_hist sh) [(Start, None)] ?w"
    by (rule hruns_one, rule hstep.start [OF hg])
  have "gens_ok env d" using gen a b d by (auto simp: gens_ok_def)
  moreover have "doer_at (w_doers ?w) (do_hg d) (Fresh, h)" by (simp add: doer_at_def d)
  ultimately show ?thesis
    using hist_ok_runs [OF run hist] run d by (auto simp: parked_def sh')
qed

lemma doer_destroy_ok:
  assumes "parked env Flushed s"
  shows "\<exists>s'. ia_doer_destroy s = Some s' \<and> sh_doers_count (s_shared s') = sh_doers_count (s_shared s) - 1 \<and>
    do_gen_a (s_doer s') = None \<and> do_gen_b (s_doer s') = None \<and>
    hruns (sh_hist (s_shared s)) [(Destroy (do_hg (s_doer s)), None)] (sh_hist (s_shared s'))"
proof -
  obtain h where at: "doer_at (w_doers (sh_hist (s_shared s))) (do_hg (s_doer s)) (Flushed, h)"
    using assms by (auto simp: parked_def)
  obtain h' g where d: "ia_histogram_destroy h (w_global (sh_hist (s_shared s))) = (h', g)" by fastforce
  show ?thesis
    using hruns_one [OF hstep.destroy [OF at d]] at d
    by (simp add: ia_doer_destroy_def own_hist_def set_hist_def doer_at_def Let_def ia_kvgen_destroy_def)
qed

lemma doer_fulfil_runs:
  assumes "driver_contract drv opened idle ready rely"
    and "in_mask (do_benchmask (s_doer s)) IA_BATCH \<Longrightarrow> robust_driver drv opened idle ready rely"
    and "benv_ok rely (do_hg (s_doer s)) env" and "e_drv env = drv" and "finishes env" and "options_ok env"
    and "parked env ph s" and "ph \<in> {Fresh, Flushed}" and "do_ctx (s_doer s) = None" and "opened (sh_priv (s_shared s))"
  shows "\<exists>rc s' ph' xs. ia_doer_fulfil env s = Some (rc, s') \<and> rc \<in> {0, ENOENT, -1} \<and>
    parked env ph' s' \<and> ph' = (if xs = [] then ph else Flushed) \<and> blocks s xs s' \<and> opened (sh_priv (s_shared s')) \<and>
    (rc = 0 \<longrightarrow> do_ctx (s_doer s') = None \<and>
       (\<exists>m. map fst xs = concat (replicate m (filter (in_mask (do_benchmask (s_doer s))) benchmarks)) \<and>
         (c_nrepeat (e_conf env) \<le> int m \<or> sh_failed (s_shared s'))))"
proof -
  have env: "doer_env rely drv env s" using assms(3,4) by (simp add: doer_env_def)
  have turns: "turns_ok idle env b s1"
    if "doer_env rely drv env s1" "do_benchmask (s_doer s1) = do_benchmask (s_doer s)" "b \<in> mask_set (do_benchmask (s_doer s))" for s1 b
  proof (rule turns_when [OF assms(1) _ that(1)])
    show "b = IA_BATCH \<Longrightarrow> robust_driver drv opened idle ready rely"
      using assms(2) that(3) by (simp add: mask_set_def)
    show "b \<in> mask_set (do_benchmask (s_doer s1))" using that by simp
  qed
  show ?thesis
    using driver_contract.doer_fulfil_ok [OF assms(1) turns assms(5,6) env assms(7,8) refl assms(9,10)] by blast
qed

definition sample_idle :: "u64 \<Rightarrow> (unit, int) sys" where
  "sample_idle msk = (sample_sys msk)\<lparr>s_doer := (s_doer (sample_sys msk))\<lparr>do_ctx := None\<rparr>\<rparr>"

lemma sample_idle_parked: "parked sample_env Fresh (sample_idle msk)"
  using sample_parked(1) sample_parked(2,3) [of msk]
  by (simp add: parked_def gens_ok_def sample_idle_def) (simp add: sample_sys_def)

section \<open>Properties\<close>

text \<open>
  C17: with a driver that keeps the contract a benchmark of the doer's mask returns 0, -1 or ENOENT,
  whatever the other doers do in between: nothing aborts and no loop runs forever (the batch
  benchmark asks for a driver that survives operations after a failed begin).  The histograms have
  seen exactly a reset, the operations measured and a merge.
\<close>

theorem benchmark_returns:
  assumes "driver_contract drv opened idle ready rely"
    and "bench = IA_BATCH \<Longrightarrow> robust_driver drv opened idle ready rely"
    and "benv_ok rely (do_hg (s_doer s)) env" and "e_drv env = drv"
    and "sys_ok idle env ph k s" and "ph \<in> {Fresh, Flushed}" and "bench \<in> mask_set (do_benchmask (s_doer s))"
  shows "\<exists>rc s' ss cs k'. ia_run_benchmark env bench s = Some (rc, s') \<and> rc \<in> {0, ENOENT, -1} \<and>
    sys_ok idle env Flushed k' s' \<and> measured cs = map snd ss \<and>
    steps s (Reset (do_hg (s_doer s)) bench # map (Add (do_hg (s_doer s))) ss @ [Merge (do_hg (s_doer s))]) cs s'"
proof -
  have env: "doer_env rely drv env s" using assms(3,4) by (simp add: doer_env_def)
  have "turns_ok idle env bench s1" if "doer_env rely drv env s1" "do_benchmask (s_doer s1) = do_benchmask (s_doer s)" for s1
    using turns_when [OF assms(1,2) that(1)] that(2) assms(7) by simp
  then show ?thesis
    using driver_contract.run_benchmark_ok [OF assms(1) env assms(5,6,7)] by blast
qed

theorem benchmark_returns_witness:
  "\<exists>rc s' ss cs k'. ia_run_benchmark sample_env IA_BATCH (sample_sys 63) = Some (rc, s') \<and> rc \<in> {0, ENOENT, -1} \<and>
    sys_ok (\<lambda>_ _. True) sample_env Flushed k' s' \<and> measured cs = map snd ss \<and>
    steps (sample_sys 63) (Reset 0 IA_BATCH # map (Add 0) ss @ [Merge 0]) cs s'"
proof -
  obtain k where ok: "sys_ok (\<lambda>_ _. True) sample_env Fresh k (sample_sys 63)" using sample_sys_ok by blast
  have n: "do_hg (s_doer (sample_sys 63)) = 0" by (simp add: sample_sys_def)
  have ph: "Fresh \<in> {Fresh, Flushed}" by simp
  show ?thesis
    using benchmark_returns [OF dummy.driver_contract_axioms dummy.robust_driver_axioms sample_env_ok sample_env_drv ok ph
        sample_in_mask, of IA_BATCH] n by (simp add: below_MAX)
qed




definition sample_shared :: "unit shared" where
  "sample_shared = \<lparr>sh_priv = (), sh_hist = sample_hist, sh_doers_count = 1, sh_doers_done = 0, sh_failed = False\<rparr>"

lemma sample_init_exists: "\<exists>d sh'. ia_doer_init sample_env 1 63 1 0 sample_shared = Some (0, d, sh')"
  by (simp add: ia_doer_init_def sample_env_def ia_kvgen_init_def sample_alloc_def Let_def
      kvpair_bytes_def sample_globals_def blank_config_def split: prod.split)


text \<open>
  C20: a set, delete or get benchmark asks its driver for exactly one transaction per operation:
  begin, the operation on the next key of the generator unless begin failed, done even when it
  failed, and one measurement.  It returns 0 only after the configured count of operations that all
  succeeded (a missing key counts as success only when the configuration says so); otherwise it
  stops right after the first that failed.
\<close>

theorem simple_benchmark_calls:
  assumes "b \<in> {IA_SET, IA_DELETE, IA_GET}" and "ia_run_benchmark env b s = Some (rc, s')"
  shows "\<exists>xs. simple_run env b xs s s' \<and> run_verdict env rc (unat (c_count (e_conf env))) xs"
proof -
  obtain s1 l where 1: "hist_reset env b s = Some s1"
    and 2: "bench_loop env b \<lparr>bl_goto = False, bl_rc = 0, bl_i = 0, bl_pool_a = None, bl_pool_b = None, bl_sys = s1\<rparr> = Some l"
    and 3: "hist_merge env (bl_sys l) = Some s'" and eq: "rc = bl_rc l"
    by (rule run_benchmark_parts [OF assms(2)])
  from bench_loop_simple [OF assms(1) 2] obtain xs where xs: "simple_run env b xs s1 (bl_sys l)"
    and v: "run_verdict env (bl_rc l) (unat (c_count (e_conf env))) xs" by force
  note same = hist_reset_calls [OF 1, THEN conjunct1] hist_reset_calls [OF 1, THEN conjunct2]
    hist_merge_calls [OF 3, THEN conjunct1] hist_merge_calls [OF 3, THEN conjunct2]
  have "simple_run env b xs s s'" using xs unfolding simple_run_def same .
  then show ?thesis using v eq by blast
qed

theorem simple_benchmark_calls_witness:
  "\<exists>s' xs. ia_run_benchmark sample_env IA_SET (sample_sys 63) = Some (0, s') \<and>
    simple_run sample_env IA_SET xs (sample_sys 63) s' \<and> length xs = 3"
proof -
  obtain s' where run: "ia_run_benchmark sample_env IA_SET (sample_sys 63) = Some (0, s')"
    by (rule sample_run_exists [of IA_SET]) auto
  have "unat (c_count (e_conf sample_env)) = 3" by (simp add: sample_env_def)
  then show ?thesis
    using simple_benchmark_calls [OF _ run] run by (auto simp: run_verdict_def)
qed

text \<open>
  C21: a crud benchmark that returns 0 has run the configured count of transactions, each of them
  begin, set \<open>b\<close>, set \<open>a\<close>, delete \<open>b\<close>, get \<open>a\<close>, done, where \<open>a\<close> and \<open>b\<close> are the next keys of the two
  generators, and measured each once.
\<close>

theorem crud_benchmark_calls:
  assumes "ia_run_benchmark env IA_CRUD s = Some (0, s')"
  shows "\<exists>xs. crud_run env xs s s' \<and> length xs = unat (c_count (e_conf env))"
proof -
  obtain s1 l where 1: "hist_reset env IA_CRUD s = Some s1"
    and 2: "bench_loop env IA_CRUD \<lparr>bl_goto = False, bl_rc = 0, bl_i = 0, bl_pool_a = None, bl_pool_b = None, bl_sys = s1\<rparr> = Some l"
    and 3: "hist_merge env (bl_sys l) = Some s'" and eq: "bl_rc l = 0"
    by (rule run_benchmark_parts [OF assms]) metis
  from bench_loop_crud [OF 2] eq obtain xs where xs: "crud_run env xs s1 (bl_sys l)"
    and n: "length xs = unat (c_count (e_conf env))" by force
  note same = hist_reset_calls [OF 1, THEN conjunct1] hist_reset_calls [OF 1, THEN conjunct2]
    hist_merge_calls [OF 3, THEN conjunct1] hist_merge_calls [OF 3, THEN conjunct2]
  have "crud_run env xs s s'" using xs unfolding crud_run_def same .
  then show ?thesis using n by blast
qed

theorem crud_benchmark_calls_witness:
  "\<exists>s' xs. ia_run_benchmark sample_env IA_CRUD (sample_sys 63) = Some (0, s') \<and>
    crud_run sample_env xs (sample_sys 63) s' \<and> length xs = 3"
proof -
  obtain s' where run: "ia_run_benchmark sample_env IA_CRUD (sample_sys 63) = Some (0, s')"
    by (rule sample_run_exists [of IA_CRUD]) auto
  have "unat (c_count (e_conf sample_env)) = 3" by (simp add: sample_env_def)
  then show ?thesis using crud_benchmark_calls [OF run] run by auto
qed

text \<open>
  C22: the batch benchmark ignores the result of begin: as soon as the pools hold a record, the
  outcome is the same whatever begin returned, so a batch without a transaction still runs its
  operations, and reports success when they succeed.
\<close>

theorem batch_ignores_begin:
  assumes "0 < c_batch_length (e_conf env)"
    and "fst (ia_kvpool_pull (e_kv env) ga pa no_record) = 0" and "fst (ia_kvpool_pull (e_kv env) gb pb no_record) = 0"
  shows "batch_body env t0 rc ga gb pa pb l = batch_body env t0 rc' ga gb pa pb l"
proof -
  obtain n where "nat (c_batch_length (e_conf env)) = Suc n"
    using assms(1) by (metis gr0_implies_Suc zero_less_nat_eq)
  then show ?thesis
    unfolding batch_body_def Let_def by (simp only: batch_loop_rc [OF assms(2,3), of n rc l rc'])
qed

definition sample_pool :: ia_kvpool where
  "sample_pool = \<lparr>pl_pos = 0, pl_end = 236, pl_buf = replicate 236 0\<rparr>"

lemma sample_pull: "fst (ia_kvpool_pull g (sample_gen g' k) sample_pool p) = 0"
  by (simp add: ia_kvpool_pull_def sample_gen_def sample_pool_def Let_def)

definition sample_loop :: "(unit, int) bloop" where
  "sample_loop = \<lparr>bl_goto = False, bl_rc = 0, bl_i = 0, bl_pool_a = Some sample_pool, bl_pool_b = Some sample_pool,
     bl_sys = sample_sys 63\<rparr>"

theorem batch_ignores_begin_witness:
  "batch_body sample_env 1 (-1) (sample_gen (sample_globals 16 2 1000) 1) (sample_gen (sample_globals 16 2 1000) 2)
     sample_pool sample_pool sample_loop =
   batch_body sample_env 1 0 (sample_gen (sample_globals 16 2 1000) 1) (sample_gen (sample_globals 16 2 1000) 2)
     sample_pool sample_pool sample_loop"
  by (rule batch_ignores_begin) (simp_all add: sample_pull, simp add: sample_env_def)

end
