(* ===== verification/Store.thy ===== *)
theory Store
  imports BenchProperties KeyUnique
begin

text \<open>
  Drivers whose transactions keep records: what a doer sees inside its own transaction is a map
  from keys to values.  The transaction of the crud benchmark on such a driver.
\<close>

section \<open>The view of a transaction\<close>

definition kv_value :: "iakv \<Rightarrow> u8 list" where
  "kv_value kv = (case kv_v kv of None \<Rightarrow> [] | Some bs \<Rightarrow> take (unat (kv_vsize kv)) bs)"

definition set_view :: "(u8 list \<rightharpoonup> u8 list) \<Rightarrow> iakv \<Rightarrow> int \<Rightarrow> (u8 list \<rightharpoonup> u8 list) \<Rightarrow> bool" where
  "set_view m kv rc m' \<longleftrightarrow> rc \<noteq> ENOENT \<and> (rc = 0 \<longrightarrow> m' = m(kv_key kv \<mapsto> kv_value kv))"

definition delete_view :: "(u8 list \<rightharpoonup> u8 list) \<Rightarrow> iakv \<Rightarrow> int \<Rightarrow> (u8 list \<rightharpoonup> u8 list) \<Rightarrow> bool" where
  "delete_view m kv rc m' \<longleftrightarrow> (rc = 0 \<longrightarrow> m (kv_key kv) \<noteq> None \<and> m' = m(kv_key kv := None)) \<and>
     (rc = ENOENT \<longrightarrow> m (kv_key kv) = None \<and> m' = m)"

definition get_view :: "(u8 list \<rightharpoonup> u8 list) \<Rightarrow> iakv \<Rightarrow> int \<Rightarrow> (u8 list \<rightharpoonup> u8 list) \<Rightarrow> bool" where
  "get_view m kv rc m' \<longleftrightarrow> (rc = 0 \<longrightarrow> m (kv_key kv) \<noteq> None) \<and> (rc = ENOENT \<longrightarrow> m (kv_key kv) = None) \<and>
     m' = m"

text \<open>
  In a transaction that is ready for the benchmark \<open>b\<close>, set, delete and get act on the view as
  they do on a map.
\<close>

definition stores ::
  "('w, 'c) iadriver \<Rightarrow> ('c \<Rightarrow> 'w \<Rightarrow> bool) \<Rightarrow> (iabenchmark \<Rightarrow> 'c \<Rightarrow> 'w \<Rightarrow> bool) \<Rightarrow> ('c \<Rightarrow> u8 list \<rightharpoonup> u8 list) \<Rightarrow>
     iabenchmark \<Rightarrow> bool" where
  "stores drv idle ready view b \<longleftrightarrow> (\<forall>c w kv rc kv' c' w'. idle c w \<longrightarrow> ready b c w \<longrightarrow> kv_ready kv \<longrightarrow>
     (d_next drv c IA_SET kv w = Some (rc, kv', c', w') \<longrightarrow> set_view (view c) kv rc (view c')) \<and>
     (d_next drv c IA_DELETE kv w = Some (rc, kv', c', w') \<longrightarrow> delete_view (view c) kv rc (view c')) \<and>
     (d_next drv c IA_GET kv w = Some (rc, kv', c', w') \<longrightarrow> get_view (view c) kv rc (view c')))"

section \<open>The transaction of the crud benchmark\<close>

text \<open>What the doer sees; \<open>None\<close> without a context.\<close>

definition doer_view :: "('c \<Rightarrow> u8 list \<rightharpoonup> u8 list) \<Rightarrow> ('w, 'c) sys \<Rightarrow> u8 list \<rightharpoonup> u8 list" where
  "doer_view view s = (case do_ctx (s_doer s) of None \<Rightarrow> Map.empty | Some c \<Rightarrow> view c)"

context driver_contract
begin

lemma next_on_store:
  assumes st: "stores drv idle ready view b"
    and env: "doer_env rely drv env s0" and live: "live (busy_at b) env k s0 ss s" and op: "step_allowed b step"
    and kv: "kv_ready kv" and call: "driver_next env step kv s = Some (rc, kv', s')"
  shows "live (busy_at b) env k s0 ss s'" and "step \<in> {IA_SET, IA_DELETE} \<Longrightarrow> kv' = kv"
    and "step = IA_SET \<Longrightarrow> set_view (doer_view view s) kv rc (doer_view view s')"
    and "step = IA_DELETE \<Longrightarrow> delete_view (doer_view view s) kv rc (doer_view view s')"
    and "step = IA_GET \<Longrightarrow> get_view (doer_view view s) kv rc (doer_view view s')"
proof -
  have op': "step \<in> {step. step_allowed b step}" using op by simp
  obtain rc1 kv1 s1 where "driver_next env step kv s = Some (rc1, kv1, s1)" "live (busy_at b) env k s0 ss s1"
    "step \<in> {IA_SET, IA_DELETE} \<longrightarrow> kv1 = kv"
    by (rule busy.driver_next_ok [OF env live op' kv])
  then show "live (busy_at b) env k s0 ss s'" and "step \<in> {IA_SET, IA_DELETE} \<Longrightarrow> kv' = kv" using call by auto
  obtain c where c: "do_ctx (s_doer (turn env s)) = Some c" "busy_at b c (sh_priv (s_shared (turn env s)))"
    by (rule busy.live_context [OF env live])
  obtain c' w' where d: "d_next drv c step kv (sh_priv (s_shared (turn env s))) = Some (rc, kv', c', w')"
    and s': "s' = with_call (Call_next step kv kv' rc) c' w' (turn env s)"
    using call c(1) env by (auto simp: driver_next_def doer_env_def Option.bind_eq_Some_conv Let_def)
  have v: "doer_view view s = view c" "doer_view view s' = view c'"
    using c(1) by (simp_all add: doer_view_def turn_def s' with_call_def)
  note st = st [unfolded stores_def, rule_format, OF c(2) [THEN conjunct1] c(2) [THEN conjunct2] kv]
  show "step = IA_SET \<Longrightarrow> set_view (doer_view view s) kv rc (doer_view view s')"
    and "step = IA_DELETE \<Longrightarrow> delete_view (doer_view view s) kv rc (doer_view view s')"
    and "step = IA_GET \<Longrightarrow> get_view (doer_view view s) kv rc (doer_view view s')"
    using st [of rc kv' c' w'] d v by auto
qed

lemma quadruple_on_store:
  assumes st: "stores drv idle ready view b"
    and env: "doer_env rely drv env s0" and live: "live (busy_at b) env k s0 ss s" and b: "b \<in> {IA_CRUD, IA_BATCH}"
    and kv: "kv_ready x" "kv_ready y" and keys: "kv_key x \<noteq> kv_key y"
    and call: "ia_quadruple env x y s = Some (rc, x', y', s')"
  shows "rc \<noteq> ENOENT \<and> (rc = 0 \<longrightarrow> doer_view view s' = (doer_view view s)(kv_key x \<mapsto> kv_value x, kv_key y := None))"
proof -
  have ops: "step_allowed b IA_SET" "step_allowed b IA_DELETE" "step_allowed b IA_GET"
    using b by (auto simp: step_allowed_def)
  note on = next_on_store [OF st env]
  obtain rc1 y1 s1 where 1: "driver_next env IA_SET y s = Some (rc1, y1, s1)"
    using call by (cases "driver_next env IA_SET y s") (auto simp: ia_quadruple_def)
  note a1 = on [OF live ops(1) kv(2) 1]
  show ?thesis
  proof (cases "rc1 = 0")
    case False
    then show ?thesis using call 1 a1(3) by (auto simp: ia_quadruple_def set_view_def)
  next
    case rc1: True
    obtain rc2 x2 s2 where 2: "driver_next env IA_SET x s1 = Some (rc2, x2, s2)"
      using call 1 rc1 by (cases "driver_next env IA_SET x s1") (auto simp: ia_quadruple_def)
    note a2 = on [OF a1(1) ops(1) kv(1) 2]
    show ?thesis
    proof (cases "rc2 = 0")
      case False
      then show ?thesis using call 1 2 rc1 a2(3) by (auto simp: ia_quadruple_def set_view_def)
    next
      case rc2: True
      have eq: "y1 = y" "x2 = x" using a1(2) a2(2) by auto
      obtain rc3 y3 s3 where 3: "driver_next env IA_DELETE y s2 = Some (rc3, y3, s3)"
        using call 1 2 rc1 rc2 eq by (cases "driver_next env IA_DELETE y s2") (auto simp: ia_quadruple_def)
      note a3 = on [OF a2(1) ops(2) kv(2) 3]
      have v2: "doer_view view s2 = (doer_view view s)(kv_key y \<mapsto> kv_value y, kv_key x \<mapsto> kv_value x)"
        using a1(3) a2(3) rc1 rc2 by (simp add: set_view_def)
      then have rc3: "rc3 \<noteq> ENOENT" using a3(4) keys by (auto simp: delete_view_def)
      then have f3: "forgive env rc3 = rc3" by (simp add: forgive_def)
      show ?thesis
      proof (cases "rc3 = 0")
        case False
        then show ?thesis using call 1 2 3 rc1 rc2 rc3 f3 eq by (auto simp: ia_quadruple_def)
      next
        case zero: True
        obtain rc4 x4 s4 where 4: "driver_next env IA_GET x s3 = Some (rc4, x4, s4)"
          using call 1 2 3 rc1 rc2 zero f3 eq by (cases "driver_next env IA_GET x s3") (auto simp: ia_quadruple_def)
        note a4 = on [OF a3(1) ops(3) kv(1) 4]
        have v3: "doer_view view s3 = (doer_view view s)(kv_key x \<mapsto> kv_value x, kv_key y := None)"
          using a3(4) zero v2 keys by (auto simp: delete_view_def fun_upd_twist)
        then have rc4: "rc4 \<noteq> ENOENT" and v4: "doer_view view s4 = doer_view view s3"
          using a4(5) keys by (auto simp: get_view_def)
        have "forgive env rc4 = rc4" using rc4 by (simp add: forgive_def)
        then have "rc = rc4 \<and> s' = s4"
          using call 1 2 3 4 rc1 rc2 zero f3 eq by (auto simp: ia_quadruple_def)
        then show ?thesis using rc4 v4 v3 by simp
      qed
    qed
  qed
qed

end

section \<open>The crud benchmark finds every record it looks for\<close>

text \<open>Two generators that never hand out a common key.\<close>

definition gens_apart :: "kv_globals \<Rightarrow> ia_kvgen \<Rightarrow> ia_kvgen \<Rightarrow> bool" where
  "gens_apart g ga gb \<longleftrightarrow> (\<forall>m n ga' gb' as bs. kvgen_gets g ga (replicate m False) = Some (ga', as) \<longrightarrow>
     kvgen_gets g gb (replicate n False) = Some (gb', bs) \<longrightarrow> set (map kv_key as) \<inter> set (map kv_key bs) = {})"

lemma gens_apart_step:
  assumes apart: "gens_apart g ga gb"
    and a: "ia_kvgen_get g ga False = Some (ga', a)" and b: "ia_kvgen_get g gb False = Some (gb', b)"
  shows "kv_key a \<noteq> kv_key b" and "gens_apart g ga' gb'"
proof -
  have 1: "kvgen_gets g ga (replicate (Suc 0) False) = Some (ga', [a])" "kvgen_gets g gb (replicate (Suc 0) False) = Some (gb', [b])"
    using a b by simp_all
  show "kv_key a \<noteq> kv_key b"
    using apart [unfolded gens_apart_def, rule_format, OF 1] by simp
  show "gens_apart g ga' gb'"
    unfolding gens_apart_def
  proof (intro allI impI)
    fix m n ga2 gb2 as bs
    assume "kvgen_gets g ga' (replicate m False) = Some (ga2, as)" "kvgen_gets g gb' (replicate n False) = Some (gb2, bs)"
    then have "kvgen_gets g ga (replicate (Suc m) False) = Some (ga2, a # as)"
      "kvgen_gets g gb (replicate (Suc n) False) = Some (gb2, b # bs)" using a b by simp_all
    from apart [unfolded gens_apart_def, rule_format, OF this]
    show "set (map kv_key as) \<inter> set (map kv_key bs) = {}" by auto
  qed
qed

definition doer_apart :: "('w, 'c) benv \<Rightarrow> ('w, 'c) sys \<Rightarrow> bool" where
  "doer_apart env s \<longleftrightarrow> (\<exists>ga gb. do_gen_a (s_doer s) = Some ga \<and> do_gen_b (s_doer s) = Some gb \<and> gens_apart (e_kv env) ga gb)"

context driver_contract
begin

lemma crud_finds:
  assumes st: "stores drv idle ready view IA_CRUD" and env: "doer_env rely drv env s0"
    and live: "live idle env (unat (bl_i l)) s0 ss (bl_sys l)" and apart: "doer_apart env (bl_sys l)"
    and crud: "bench_crud env l = Some l'" and two: "do_benchmask (s_doer s0) AND bench_mask_2keyspace \<noteq> 0"
  shows "bl_rc l' \<noteq> ENOENT \<and> (bl_rc l' = 0 \<longrightarrow> doer_apart env (bl_sys l'))"
proof -
  let ?k = "unat (bl_i l)"
  obtain a s1 where 1: "gen_get_a env False (bl_sys l) = Some (a, s1)" "live idle env ?k s0 ss s1" "kv_ready a"
    by (rule gen_get_a_ok [OF live])
  have "do_benchmask (s_doer s1) AND bench_mask_2keyspace \<noteq> 0"
    using two trace_doer [of s0 ss s1] 1(2) by (simp add: live_def)
  then obtain b s2 where 2: "gen_get_b env False s1 = Some (b, s2)" "live idle env ?k s0 ss s2" "kv_ready b"
    by (rule gen_get_b_ok [OF 1(2)])
  obtain t0 s3 where t: "timestamp env s2 = (t0, s3)" by (cases "timestamp env s2")
  have 3: "live idle env ?k s0 ss s3" using idle.live_timestamp [OF 2(2)] t by simp
  obtain rc s4 where 4: "driver_begin env IA_CRUD s3 = Some (rc, s4)"
    "rc = 0 \<and> live (busy_at IA_CRUD) env ?k s0 ss s4 \<or> rc = -1"
    by (rule driver_begin_ok [OF env 3, of IA_CRUD]) (auto simp: below_MAX)
  obtain ga ga' where ga: "do_gen_a (s_doer (bl_sys l)) = Some ga" "ia_kvgen_get (e_kv env) ga False = Some (ga', a)"
    "do_gen_b (s_doer s1) = do_gen_b (s_doer (bl_sys l))"
    using 1(1) by (auto simp: gen_get_a_def Option.bind_eq_Some_conv)
  obtain gb gb' where gb: "do_gen_b (s_doer s1) = Some gb" "ia_kvgen_get (e_kv env) gb False = Some (gb', b)"
    using 2(1) by (auto simp: gen_get_b_def Option.bind_eq_Some_conv)
  have ap: "gens_apart (e_kv env) ga gb" using apart ga gb by (auto simp: doer_apart_def)
  have keys: "kv_key a \<noteq> kv_key b" by (rule gens_apart_step(1) [OF ap ga(2) gb(2)])
  have finish: "bl_rc l' \<noteq> ENOENT"
    if q: "(if rc = 0 then ia_quadruple env a b s4 else Some (rc, a, b, s4)) = Some (rc5, a5, b5, s5)"
      and q5: "live idle env ?k s0 ss s5" "rc5 \<noteq> ENOENT" for rc5 a5 b5 s5
  proof (cases "rc5 = 0")
    case True
    obtain rc6 s6 where 6: "driver_done env IA_CRUD s5 = Some (rc6, s6)" "rc6 \<in> {0, -1}"
      by (rule driver_done_ok [OF env q5(1), of IA_CRUD]) (auto simp: below_MAX)
    then show ?thesis
      using crud 1(1) 2(1) t 4(1) q True
      by (auto simp: bench_crud_def Option.bind_eq_Some_conv split: if_splits)
  next
    case False
    then show ?thesis
      using crud 1(1) 2(1) t 4(1) q q5(2)
      by (auto simp: bench_crud_def Option.bind_eq_Some_conv split: if_splits)
  qed
  have "bl_rc l' \<noteq> ENOENT"
  proof (cases "rc = 0")
    case True
    then have busy: "live (busy_at IA_CRUD) env ?k s0 ss s4" using 4(2) by simp
    have ops: "{IA_SET, IA_DELETE, IA_GET} \<subseteq> {step. step_allowed IA_CRUD step}" by (auto simp: step_allowed_def)
    obtain rc5 a5 b5 s5 where 5: "ia_quadruple env a b s4 = Some (rc5, a5, b5, s5)" "live (busy_at IA_CRUD) env ?k s0 ss s5"
      by (rule busy.ia_quadruple_ok [OF env busy ops 1(3) 2(3)])
    have "rc5 \<noteq> ENOENT"
      using quadruple_on_store [OF st env busy _ 1(3) 2(3) keys 5(1)] by simp
    then show ?thesis using finish [of rc5 a5 b5 s5] 5 True live_weaken [OF 5(2)] by simp
  next
    case False
    then show ?thesis
      using 4 crud 1(1) 2(1) t by (auto simp: bench_crud_def Option.bind_eq_Some_conv split: if_splits)
  qed
  moreover have "doer_apart env (bl_sys l')" if "bl_rc l' = 0"
    by (rule bench_crud_calls [OF crud that])
      (use apart gens_apart_step(2) in \<open>fastforce simp: doer_apart_def\<close>)
  ultimately show ?thesis by simp
qed

lemma crud_loop_finds:
  assumes st: "stores drv idle ready view IA_CRUD" and env: "doer_env rely drv env s0"
    and two: "do_benchmask (s_doer s0) AND bench_mask_2keyspace \<noteq> 0"
    and "live idle env (unat (bl_i l)) s0 ss (bl_sys l)" and "doer_apart env (bl_sys l)"
    and "bench_loop env IA_CRUD l = Some l'" and "bl_rc l = 0"
  shows "bl_rc l' \<noteq> ENOENT"
  using assms(4-)
proof (induction "unat (c_count (e_conf env)) - unat (bl_i l)" arbitrary: l ss rule: less_induct)
  case less
  show ?case
  proof (cases "\<not> bl_goto l \<and> bl_i l < c_count (e_conf env)")
    case False
    then have "l' = l" using less.prems by (subst (asm) bench_loop.simps) auto
    then show ?thesis using less.prems(4) by simp
  next
    case True
    obtain l1 where 1: "bench_crud env l = Some l1" and rest: "bench_loop env IA_CRUD l1 = Some l'"
      using less.prems True by (subst (asm) bench_loop.simps) (auto simp: Option.bind_eq_Some_conv)
    note finds = crud_finds [OF st env less.prems(1,2) 1 two]
    show ?thesis
    proof (cases "bl_rc l1 = 0 \<and> \<not> bl_goto l1")
      case False
      then have "l' = l1" using rest by (subst (asm) bench_loop.simps) auto
      then show ?thesis using finds by simp
    next
      case go: True
      obtain l2 ss2 where "bench_crud env l = Some l2" "turn_done idle env s0 (bl_i l) ss2 l2"
        by (rule bench_crud_ok [OF env less.prems(1) _ two]) (use True in auto)
      then have live1: "live idle env (unat (bl_i l1)) s0 ss2 (bl_sys l1)" and i: "bl_i l < bl_i l1"
        and "bl_i l1 \<le> c_count (e_conf env)"
        using 1 go by (auto simp: turn_done_def)
      then have "unat (c_count (e_conf env)) - unat (bl_i l1) < unat (c_count (e_conf env)) - unat (bl_i l)"
        using True by (simp add: word_less_nat_alt word_le_nat_alt)
      then show ?thesis using less.hyps [OF _ live1 _ rest] finds go by simp
    qed
  qed
qed

lemma crud_benchmark_finds:
  assumes st: "stores drv idle ready view IA_CRUD" and env: "doer_env rely drv env s"
    and ok: "sys_ok idle env ph k s" "ph \<in> {Fresh, Flushed}"
    and b: "IA_CRUD \<in> mask_set (do_benchmask (s_doer s))" and apart: "doer_apart env s"
    and run: "ia_run_benchmark env IA_CRUD s = Some (rc, s')"
  shows "rc \<noteq> ENOENT"
proof -
  let ?l = "\<lambda>s1. \<lparr>bl_goto = False, bl_rc = 0, bl_i = 0, bl_pool_a = None, bl_pool_b = None, bl_sys = s1\<rparr>"
  have e: "benv_ok rely (do_hg (s_doer s)) env" using env by (simp add: doer_env_def)
  obtain s1 where 1: "hist_reset env IA_CRUD s = Some s1" "sys_ok idle env Running 0 s1"
    by (rule idle.hist_reset_sys [OF e ok b])
  have d1: "s_doer s1 = s_doer s" using hist_reset_calls [OF 1(1)] by simp
  obtain l where 2: "bench_loop env IA_CRUD (?l s1) = Some l" "rc = bl_rc l"
    by (rule run_benchmark_parts [OF run]) (use 1(1) in auto)
  have "live idle env (unat (bl_i (?l s1))) s1 [] (bl_sys (?l s1))" using 1(2) by (simp add: live_def)
  moreover have "do_benchmask (s_doer s1) AND bench_mask_2keyspace \<noteq> 0"
    using in_mask_2keyspace [of "do_benchmask (s_doer s)" IA_CRUD] b d1 by (simp add: mask_set_def)
  moreover have "doer_env rely drv env s1" using env d1 by (simp add: doer_env_def)
  moreover have "doer_apart env (bl_sys (?l s1))" using apart d1 by (simp add: doer_apart_def)
  ultimately show ?thesis using crud_loop_finds [OF st _ _ _ _ 2(1)] 2(2) by simp
qed

end

section \<open>A sample doer on any driver\<close>

text \<open>The sample doer of the benchmarks, on the driver \<open>drv\<close> in the state \<open>w\<close> and with the context \<open>c\<close>.\<close>

definition sample_env_on :: "('w, 'c) iadriver \<Rightarrow> ('w, 'c) benv" where
  "sample_env_on drv = \<lparr>e_conf = e_conf sample_env, e_kv = sample_globals 16 2 1000, e_drv = drv, e_alloc = sample_alloc,
     e_clock = e_clock sample_env, e_trylock = (\<lambda>_. True), e_others = (\<lambda>t sh. sh)\<rparr>"

definition sample_sys_on :: "'c \<Rightarrow> 'w \<Rightarrow> u64 \<Rightarrow> ('w, 'c) sys" where
  "sample_sys_on c w msk = \<lparr>
     s_doer = \<lparr>do_nth = 0, do_key_space = 1, do_key_sequence = 0, do_benchmask = msk, do_ctx = Some c,
       do_gen_a = Some (sample_gen (sample_globals 16 2 1000) 1),
       do_gen_b = Some (sample_gen (sample_globals 16 2 1000) 2), do_hg = 0\<rparr>,
     s_shared = \<lparr>sh_priv = w, sh_hist = sample_hist, sh_doers_count = 1, sh_doers_done = 0, sh_failed = False\<rparr>,
     s_tick = 0, s_calls = []\<rparr>"

lemma sample_env_on_ok: "(\<And>w. rely w w) \<Longrightarrow> benv_ok rely n (sample_env_on drv)"
  using sample_clock sample_alloc_ok hruns.nil
  by (auto simp: benv_ok_def) (auto simp: sample_env_on_def intro!: exI [of _ "[]"])

lemma sample_sys_on_ok:
  assumes "C c w"
  shows "\<exists>k. sys_ok C (sample_env_on drv) Fresh k (sample_sys_on c w msk)"
proof -
  have "gens_ok (sample_env_on drv) (s_doer (sample_sys_on c w msk))"
    using sample_parked(3) [of msk]
    by (simp add: gens_ok_def gen_ok_def sample_env_on_def sample_sys_on_def) (simp add: sample_env_def sample_sys_def)
  then show ?thesis
    using assms sample_parked(1) sample_parked(2) [of msk]
    by (auto simp: sys_ok_def) (auto simp: sample_sys_on_def)
qed

lemma sample_gens_apart:
  "gens_apart (sample_globals 16 2 1000) (sample_gen (sample_globals 16 2 1000) 1) (sample_gen (sample_globals 16 2 1000) 2)"
  unfolding gens_apart_def
proof (intro allI impI)
  let ?g = "sample_globals 16 2 1000"
  fix m n ga' gb' as bs
  assume run: "kvgen_gets ?g (sample_gen ?g 1) (replicate m False) = Some (ga', as)"
    "kvgen_gets ?g (sample_gen ?g 2) (replicate n False) = Some (gb', bs)"
  have w: "g_width ?g \<in> {2, 3, 6}" by (simp add: sample_globals_def)
  note st = setup_printable [OF sample_setup(1) w]
  show "set (map kv_key as) \<inter> set (map kv_key bs) = {}"
    by (rule run_spaces_disjoint [OF sample_gen_ok sample_gen_ok _ _ _ _ _ _ _ run, where n = 4 and ?k1.0 = 1 and ?k2.0 = 2])
      (use st in \<open>simp_all add: sample_gen_def sample_globals_def\<close>)
qed

lemma sample_sys_on_apart: "doer_apart (sample_env_on drv) (sample_sys_on c w msk)"
  using sample_gens_apart by (simp add: doer_apart_def sample_env_on_def sample_sys_on_def)

end
