(* ===== verification/DriverLmdb.thy ===== *)
theory DriverLmdb
  imports Driver "HOL-Library.Monad_Syntax"
begin

text \<open>
  The LMDB driver (\<open>src/drivers/ia_lmdb.c\<close>).  The library is not part of the program: its functions
  and constants are the fields of a record that the driver's operations take as an argument.  An
  object of the library that a doer owns, a transaction or a cursor, is the value its pointer points
  to, so that a call that changes the object returns its new value; an operation on an object that
  has been freed is \<open>None\<close> in a library that does not allow it.  \<open>'l\<close> is the rest of the library's
  state, the database itself.
\<close>

section \<open>The library\<close>

record mdb_val =
  mv_size :: u64
  mv_data :: "u8 list option"

record ('env, 'txn, 'cursor, 'l) mdb_lib =
  MDB_SUCCESS :: int
  MDB_NOTFOUND :: int
  MDB_NOSYNC :: u32
  MDB_NOMETASYNC :: u32
  MDB_WRITEMAP :: u32
  MDB_MAPASYNC :: u32
  MDB_NORDAHEAD :: u32
  MDB_RDONLY :: u32
  MDB_NEXT :: nat
  mdb_env_create :: "'env option \<Rightarrow> 'l \<Rightarrow> (int \<times> 'env option \<times> 'l) option"
  mdb_env_set_mapsize :: "'env option \<Rightarrow> u64 \<Rightarrow> 'l \<Rightarrow> (int \<times> 'env option \<times> 'l) option"
  mdb_env_open :: "'env option \<Rightarrow> string \<Rightarrow> u32 \<Rightarrow> nat \<Rightarrow> 'l \<Rightarrow> (int \<times> 'env option \<times> 'l) option"
  mdb_env_close :: "'env option \<Rightarrow> 'l \<Rightarrow> 'l option"
  mdb_dbi_open :: "'txn option \<Rightarrow> string option \<Rightarrow> u32 \<Rightarrow> u32 \<Rightarrow> 'l \<Rightarrow> (int \<times> u32 \<times> 'txn option \<times> 'l) option"
  mdb_dbi_close :: "'env option \<Rightarrow> u32 \<Rightarrow> 'l \<Rightarrow> 'l option"
  mdb_txn_begin :: "'env option \<Rightarrow> 'txn option \<Rightarrow> u32 \<Rightarrow> 'txn option \<Rightarrow> 'l \<Rightarrow> (int \<times> 'txn option \<times> 'l) option"
  mdb_txn_commit :: "'txn option \<Rightarrow> 'l \<Rightarrow> (int \<times> 'txn option \<times> 'l) option"
  mdb_txn_abort :: "'txn option \<Rightarrow> 'l \<Rightarrow> 'l option"
  mdb_txn_reset :: "'txn option \<Rightarrow> 'l \<Rightarrow> ('txn option \<times> 'l) option"
  mdb_txn_renew :: "'txn option \<Rightarrow> 'l \<Rightarrow> (int \<times> 'txn option \<times> 'l) option"
  mdb_cursor_open :: "'txn option \<Rightarrow> u32 \<Rightarrow> 'cursor option \<Rightarrow> 'l \<Rightarrow> (int \<times> 'cursor option \<times> 'l) option"
  mdb_cursor_close :: "'cursor option \<Rightarrow> 'l \<Rightarrow> 'l option"
  mdb_cursor_renew :: "'txn option \<Rightarrow> 'cursor option \<Rightarrow> 'l \<Rightarrow> (int \<times> 'cursor option \<times> 'l) option"
  mdb_cursor_get :: "'txn option \<Rightarrow> 'cursor option \<Rightarrow> nat \<Rightarrow> 'l \<Rightarrow> (int \<times> mdb_val \<times> mdb_val \<times> 'cursor option \<times> 'l) option"
  mdb_put :: "'txn option \<Rightarrow> u32 \<Rightarrow> mdb_val \<Rightarrow> mdb_val \<Rightarrow> u32 \<Rightarrow> 'l \<Rightarrow> (int \<times> 'txn option \<times> 'l) option"
  mdb_del :: "'txn option \<Rightarrow> u32 \<Rightarrow> mdb_val \<Rightarrow> mdb_val option \<Rightarrow> 'l \<Rightarrow> (int \<times> 'txn option \<times> 'l) option"
  mdb_get :: "'txn option \<Rightarrow> u32 \<Rightarrow> mdb_val \<Rightarrow> 'l \<Rightarrow> (int \<times> mdb_val \<times> 'l) option"

text \<open>
  A cursor holds a pointer to the transaction it was opened or renewed in; \<open>mdb_cursor_get\<close> is given
  that transaction, the one of the doer, as its first argument.
\<close>

section \<open>State of the driver\<close>

definition INVALID_DBI :: u32 where "INVALID_DBI = -1"

record 'env lmdb_private =
  lp_env :: "'env option"
  lp_dbi :: u32

record ('txn, 'cursor) lmdb_context =
  lc_txn :: "'txn option"
  lc_cursor :: "'cursor option"

record ('env, 'l) lmdb_world =
  lw_priv :: "'env lmdb_private option"
  lw_lib :: 'l

section \<open>Opening and closing\<close>

fun lmdb_modeflags :: "('env, 'txn, 'cursor, 'l) mdb_lib \<Rightarrow> iasyncmode \<Rightarrow> u32" where
  "lmdb_modeflags lib IA_SYNC = 0"
| "lmdb_modeflags lib IA_LAZY = MDB_NOSYNC lib OR MDB_NOMETASYNC lib"
| "lmdb_modeflags lib IA_NOSYNC = MDB_WRITEMAP lib OR MDB_MAPASYNC lib"

definition ia_lmdb_open ::
  "bool \<Rightarrow> ('env, 'txn, 'cursor, 'l) mdb_lib \<Rightarrow> iaconfig \<Rightarrow> string \<Rightarrow> ('env, 'l) lmdb_world
     \<Rightarrow> (int \<times> ('env, 'l) lmdb_world) option" where
  "ia_lmdb_open mem lib conf datadir w =
     (if \<not> mem then Some (-1, w\<lparr>lw_priv := None\<rparr>)
      else do {
        let self = \<lparr>lp_env = None, lp_dbi = INVALID_DBI\<rparr>;
        (rc, env, l) \<leftarrow> mdb_env_create lib (lp_env self) (lw_lib w);
        let self = self\<lparr>lp_env := env\<rparr>;
        if rc \<noteq> MDB_SUCCESS lib then Some (-1, \<lparr>lw_priv = Some self, lw_lib = l\<rparr>)
        else do {
          (rc, env, l) \<leftarrow> mdb_env_set_mapsize lib (lp_env self) (4 * 1024 * 1024 * 1024) l;
          let self = self\<lparr>lp_env := env\<rparr>;
          if rc \<noteq> MDB_SUCCESS lib then Some (-1, \<lparr>lw_priv = Some self, lw_lib = l\<rparr>)
          else do {
            let modeflags = lmdb_modeflags lib (c_syncmode conf);
            if c_walmode conf = IA_WAL_ON then Some (-1, \<lparr>lw_priv = Some self, lw_lib = l\<rparr>)
            else do {
              (rc, env, l) \<leftarrow> mdb_env_open lib (lp_env self) datadir (modeflags OR MDB_NORDAHEAD lib) 0x1A4 l;
              let self = self\<lparr>lp_env := env\<rparr>;
              Some (if rc \<noteq> MDB_SUCCESS lib then -1 else 0, \<lparr>lw_priv = Some self, lw_lib = l\<rparr>) } } } })"

definition ia_lmdb_close ::
  "('env, 'txn, 'cursor, 'l) mdb_lib \<Rightarrow> ('env, 'l) lmdb_world \<Rightarrow> (int \<times> ('env, 'l) lmdb_world) option" where
  "ia_lmdb_close lib w =
     (case lw_priv w of
        None \<Rightarrow> Some (0, w)
      | Some self \<Rightarrow> do {
          l \<leftarrow> (if lp_dbi self \<noteq> INVALID_DBI then mdb_dbi_close lib (lp_env self) (lp_dbi self) (lw_lib w)
                else Some (lw_lib w));
          l \<leftarrow> (if lp_env self \<noteq> None then mdb_env_close lib (lp_env self) l else Some l);
          Some (0, \<lparr>lw_priv = None, lw_lib = l\<rparr>) })"

definition ia_lmdb_thread_new ::
  "bool \<Rightarrow> ('env, 'txn, 'cursor, 'l) mdb_lib \<Rightarrow> ('env, 'l) lmdb_world
     \<Rightarrow> (('txn, 'cursor) lmdb_context option \<times> ('env, 'l) lmdb_world) option" where
  "ia_lmdb_thread_new mem lib w =
     do { self \<leftarrow> lw_priv w;
          let ctx = (if mem then Some \<lparr>lc_txn = None, lc_cursor = None\<rparr> else None);
          if lp_dbi self = INVALID_DBI then do {
            (rc, txn, l) \<leftarrow> mdb_txn_begin lib (lp_env self) None 0 None (lw_lib w);
            if rc \<noteq> MDB_SUCCESS lib then Some (None, w\<lparr>lw_lib := l\<rparr>)
            else do {
              (rc, dbi, txn, l) \<leftarrow> mdb_dbi_open lib txn None 0 (lp_dbi self) l;
              let self = self\<lparr>lp_dbi := dbi\<rparr>;
              l \<leftarrow> mdb_txn_abort lib txn l;
              if rc \<noteq> MDB_SUCCESS lib then Some (None, \<lparr>lw_priv = Some self, lw_lib = l\<rparr>)
              else if lp_dbi self = INVALID_DBI then None
              else Some (ctx, \<lparr>lw_priv = Some self, lw_lib = l\<rparr>) } }
          else Some (ctx, w) }"

definition ia_lmdb_thread_dispose ::
  "('env, 'txn, 'cursor, 'l) mdb_lib \<Rightarrow> ('txn, 'cursor) lmdb_context \<Rightarrow> ('env, 'l) lmdb_world
     \<Rightarrow> ('env, 'l) lmdb_world option" where
  "ia_lmdb_thread_dispose lib ctx w =
     do { l \<leftarrow> (if lc_cursor ctx \<noteq> None then mdb_cursor_close lib (lc_cursor ctx) (lw_lib w) else Some (lw_lib w));
          l \<leftarrow> (if lc_txn ctx \<noteq> None then mdb_txn_abort lib (lc_txn ctx) l else Some l);
          Some (w\<lparr>lw_lib := l\<rparr>) }"

section \<open>Transactions\<close>

text \<open>The two halves of \<open>ia_lmdb_begin\<close>, and the cursor of an iteration.\<close>

definition lmdb_begin_write ::
  "('env, 'txn, 'cursor, 'l) mdb_lib \<Rightarrow> 'env lmdb_private \<Rightarrow> ('txn, 'cursor) lmdb_context \<Rightarrow> 'l
     \<Rightarrow> (int \<times> ('txn, 'cursor) lmdb_context \<times> 'l) option" where
  "lmdb_begin_write lib self ctx l =
     do { (ctx, l) \<leftarrow> (if lc_cursor ctx \<noteq> None
             then do { l \<leftarrow> mdb_cursor_close lib (lc_cursor ctx) l; Some (ctx\<lparr>lc_cursor := None\<rparr>, l) }
             else Some (ctx, l));
          (ctx, l) \<leftarrow> (if lc_txn ctx \<noteq> None
             then do { l \<leftarrow> mdb_txn_abort lib (lc_txn ctx) l; Some (ctx\<lparr>lc_txn := None\<rparr>, l) }
             else Some (ctx, l));
          (rc, txn, l) \<leftarrow> mdb_txn_begin lib (lp_env self) None 0 (lc_txn ctx) l;
          let ctx = ctx\<lparr>lc_txn := txn\<rparr>;
          Some (if rc \<noteq> MDB_SUCCESS lib then -1 else rc, ctx, l) }"

definition lmdb_begin_cursor ::
  "('env, 'txn, 'cursor, 'l) mdb_lib \<Rightarrow> 'env lmdb_private \<Rightarrow> int \<Rightarrow> ('txn, 'cursor) lmdb_context \<Rightarrow> 'l
     \<Rightarrow> (int \<times> ('txn, 'cursor) lmdb_context \<times> 'l) option" where
  "lmdb_begin_cursor lib self rc ctx l =
     do { (rc, ctx, l) \<leftarrow> (if lc_cursor ctx \<noteq> None
             then do {
               (rc, cursor, l) \<leftarrow> mdb_cursor_renew lib (lc_txn ctx) (lc_cursor ctx) l;
               let ctx = ctx\<lparr>lc_cursor := cursor\<rparr>;
               if rc \<noteq> MDB_SUCCESS lib
               then do { l \<leftarrow> mdb_cursor_close lib (lc_cursor ctx) l; Some (rc, ctx\<lparr>lc_cursor := None\<rparr>, l) }
               else Some (rc, ctx, l) }
             else Some (rc, ctx, l));
          if lc_cursor ctx = None
          then do {
            (rc, cursor, l) \<leftarrow> mdb_cursor_open lib (lc_txn ctx) (lp_dbi self) (lc_cursor ctx) l;
            let ctx = ctx\<lparr>lc_cursor := cursor\<rparr>;
            Some (if rc \<noteq> MDB_SUCCESS lib then -1 else rc, ctx, l) }
          else Some (rc, ctx, l) }"

definition lmdb_renew_txn ::
  "('env, 'txn, 'cursor, 'l) mdb_lib \<Rightarrow> ('txn, 'cursor) lmdb_context \<Rightarrow> 'l
     \<Rightarrow> (int \<times> ('txn, 'cursor) lmdb_context \<times> 'l) option" where
  "lmdb_renew_txn lib ctx l =
     (if lc_txn ctx \<noteq> None
      then do {
        (rc, txn, l) \<leftarrow> mdb_txn_renew lib (lc_txn ctx) l;
        let ctx = ctx\<lparr>lc_txn := txn\<rparr>;
        if rc \<noteq> MDB_SUCCESS lib
        then do { l \<leftarrow> mdb_txn_abort lib (lc_txn ctx) l; Some (rc, ctx\<lparr>lc_txn := None\<rparr>, l) }
        else Some (rc, ctx, l) }
      else Some (0, ctx, l))"

definition lmdb_begin_read ::
  "('env, 'txn, 'cursor, 'l) mdb_lib \<Rightarrow> 'env lmdb_private \<Rightarrow> iabenchmark \<Rightarrow> ('txn, 'cursor) lmdb_context \<Rightarrow> 'l
     \<Rightarrow> (int \<times> ('txn, 'cursor) lmdb_context \<times> 'l) option" where
  "lmdb_begin_read lib self step ctx l =
     do { (rc, ctx, l) \<leftarrow> lmdb_renew_txn lib ctx l;
          (rc, ctx, l) \<leftarrow> (if lc_txn ctx = None
             then do {
               (rc, txn, l) \<leftarrow> mdb_txn_begin lib (lp_env self) None (MDB_RDONLY lib) (lc_txn ctx) l;
               Some (rc, ctx\<lparr>lc_txn := txn\<rparr>, l) }
             else Some (rc, ctx, l));
          if rc \<noteq> MDB_SUCCESS lib then Some (-1, ctx, l)
          else if step = IA_ITERATE then lmdb_begin_cursor lib self rc ctx l
          else Some (rc, ctx, l) }"

definition ia_lmdb_begin ::
  "('env, 'txn, 'cursor, 'l) mdb_lib \<Rightarrow> ('txn, 'cursor) lmdb_context \<Rightarrow> iabenchmark \<Rightarrow> ('env, 'l) lmdb_world
     \<Rightarrow> (int \<times> ('txn, 'cursor) lmdb_context \<times> ('env, 'l) lmdb_world) option" where
  "ia_lmdb_begin lib ctx step w =
     do { self \<leftarrow> lw_priv w;
          if lp_dbi self = INVALID_DBI then None
          else if step \<in> {IA_SET, IA_BATCH, IA_CRUD, IA_DELETE}
          then do { (rc, ctx, l) \<leftarrow> lmdb_begin_write lib self ctx (lw_lib w); Some (rc, ctx, w\<lparr>lw_lib := l\<rparr>) }
          else if step \<in> {IA_ITERATE, IA_GET}
          then do { (rc, ctx, l) \<leftarrow> lmdb_begin_read lib self step ctx (lw_lib w); Some (rc, ctx, w\<lparr>lw_lib := l\<rparr>) }
          else None }"

definition ia_lmdb_done ::
  "('env, 'txn, 'cursor, 'l) mdb_lib \<Rightarrow> ('txn, 'cursor) lmdb_context \<Rightarrow> iabenchmark \<Rightarrow> ('env, 'l) lmdb_world
     \<Rightarrow> (int \<times> ('txn, 'cursor) lmdb_context \<times> ('env, 'l) lmdb_world) option" where
  "ia_lmdb_done lib ctx step w =
     (if step \<in> {IA_SET, IA_BATCH, IA_CRUD, IA_DELETE}
      then do {
        (rc, txn, l) \<leftarrow> mdb_txn_commit lib (lc_txn ctx) (lw_lib w);
        let ctx = ctx\<lparr>lc_txn := txn\<rparr>;
        if rc \<noteq> MDB_SUCCESS lib
        then do { l \<leftarrow> mdb_txn_abort lib (lc_txn ctx) l; Some (-1, ctx\<lparr>lc_txn := None\<rparr>, w\<lparr>lw_lib := l\<rparr>) }
        else Some (rc, ctx\<lparr>lc_txn := None\<rparr>, w\<lparr>lw_lib := l\<rparr>) }
      else if step \<in> {IA_ITERATE, IA_GET}
      then do {
        (txn, l) \<leftarrow> mdb_txn_reset lib (lc_txn ctx) (lw_lib w);
        Some (0, ctx\<lparr>lc_txn := txn\<rparr>, w\<lparr>lw_lib := l\<rparr>) }
      else None)"

section \<open>Operations\<close>

definition ia_lmdb_next ::
  "('env, 'txn, 'cursor, 'l) mdb_lib \<Rightarrow> ('txn, 'cursor) lmdb_context \<Rightarrow> iabenchmark \<Rightarrow> iakv \<Rightarrow> ('env, 'l) lmdb_world
     \<Rightarrow> (int \<times> iakv \<times> ('txn, 'cursor) lmdb_context \<times> ('env, 'l) lmdb_world) option" where
  "ia_lmdb_next lib ctx step kv w =
     (let k = \<lparr>mv_size = kv_ksize kv, mv_data = kv_k kv\<rparr>;
          v = \<lparr>mv_size = kv_vsize kv, mv_data = kv_v kv\<rparr>
      in do { self \<leftarrow> lw_priv w;
        case step of
          IA_SET \<Rightarrow> do {
            (rc, txn, l) \<leftarrow> mdb_put lib (lc_txn ctx) (lp_dbi self) k v 0 (lw_lib w);
            Some (if rc \<noteq> MDB_SUCCESS lib then -1 else rc, kv, ctx\<lparr>lc_txn := txn\<rparr>, w\<lparr>lw_lib := l\<rparr>) }
        | IA_DELETE \<Rightarrow> do {
            (rc, txn, l) \<leftarrow> mdb_del lib (lc_txn ctx) (lp_dbi self) k None (lw_lib w);
            Some (if rc = MDB_NOTFOUND lib then ENOENT else if rc \<noteq> MDB_SUCCESS lib then -1 else rc,
                  kv, ctx\<lparr>lc_txn := txn\<rparr>, w\<lparr>lw_lib := l\<rparr>) }
        | IA_ITERATE \<Rightarrow> do {
            (rc, k, v, cursor, l) \<leftarrow> mdb_cursor_get lib (lc_txn ctx) (lc_cursor ctx) (MDB_NEXT lib) (lw_lib w);
            let ctx = ctx\<lparr>lc_cursor := cursor\<rparr>;
            let w = w\<lparr>lw_lib := l\<rparr>;
            if rc = MDB_SUCCESS lib
            then Some (rc, \<lparr>kv_ksize = mv_size k, kv_vsize = mv_size v, kv_k = mv_data k, kv_v = mv_data v\<rparr>, ctx, w)
            else if rc = MDB_NOTFOUND lib then Some (ENOENT, no_record, ctx, w)
            else Some (-1, kv, ctx, w) }
        | IA_GET \<Rightarrow> do {
            (rc, v, l) \<leftarrow> mdb_get lib (lc_txn ctx) (lp_dbi self) k (lw_lib w);
            Some (if rc \<noteq> MDB_SUCCESS lib then (if rc \<noteq> MDB_NOTFOUND lib then -1 else ENOENT) else rc,
                  kv, ctx, w\<lparr>lw_lib := l\<rparr>) }
        | _ \<Rightarrow> None })"

definition ia_lmdb ::
  "bool \<Rightarrow> ('env, 'txn, 'cursor, 'l) mdb_lib \<Rightarrow> (('env, 'l) lmdb_world, ('txn, 'cursor) lmdb_context) iadriver" where
  "ia_lmdb mem lib = \<lparr>d_name = ''lmdb'', d_open = ia_lmdb_open mem lib, d_close = ia_lmdb_close lib,
     d_thread_new = ia_lmdb_thread_new mem lib, d_thread_dispose = ia_lmdb_thread_dispose lib,
     d_begin = ia_lmdb_begin lib, d_next = ia_lmdb_next lib, d_done = ia_lmdb_done lib, d_option = None\<rparr>"

section \<open>What the driver relies on\<close>

text \<open>
  The documented behaviour of the library.  \<open>created\<close> and \<open>opened\<close> describe an environment, \<open>alive\<close> a
  transaction that has not been freed (by a commit or an abort), \<open>clive\<close> a cursor that has not been
  closed, and \<open>bound cu t\<close> a cursor that was opened or renewed in the live transaction \<open>t\<close>.  Every call
  on live objects returns; a null transaction is refused, or ignored by \<open>mdb_txn_abort\<close> and
  \<open>mdb_txn_reset\<close>; nothing is promised about an object that has been freed.
\<close>

definition mdb_environments ::
  "('env, 'txn, 'cursor, 'l) mdb_lib \<Rightarrow> ('env \<Rightarrow> bool) \<Rightarrow> ('env \<Rightarrow> bool) \<Rightarrow> bool" where
  "mdb_environments lib created opened \<longleftrightarrow>
     (\<forall>l. \<exists>rc ep l'. mdb_env_create lib None l = Some (rc, ep, l') \<and>
        (if rc = 0 then \<exists>e. ep = Some e \<and> created e else ep = None)) \<and>
     (\<forall>e n l. created e \<longrightarrow> (\<exists>rc e' l'. mdb_env_set_mapsize lib (Some e) n l = Some (rc, Some e', l') \<and> created e')) \<and>
     (\<forall>e d fl m l. created e \<longrightarrow> (\<exists>rc e' l'. mdb_env_open lib (Some e) d fl m l = Some (rc, Some e', l') \<and> created e' \<and>
        (rc = 0 \<longrightarrow> opened e'))) \<and>
     (\<forall>e. opened e \<longrightarrow> created e) \<and>
     (\<forall>e l. created e \<longrightarrow> mdb_env_close lib (Some e) l \<noteq> None) \<and>
     (\<forall>e dbi l. opened e \<longrightarrow> mdb_dbi_close lib (Some e) dbi l \<noteq> None)"

definition mdb_transactions ::
  "('env, 'txn, 'cursor, 'l) mdb_lib \<Rightarrow> ('env \<Rightarrow> bool) \<Rightarrow> ('txn \<Rightarrow> bool) \<Rightarrow> bool" where
  "mdb_transactions lib opened alive \<longleftrightarrow>
     (\<forall>e fl old l. opened e \<longrightarrow> (\<exists>rc tp l'. mdb_txn_begin lib (Some e) None fl old l = Some (rc, tp, l') \<and>
        (if rc = 0 then \<exists>t. tp = Some t \<and> alive t else tp = old))) \<and>
     (\<forall>t fl old l. alive t \<longrightarrow> (\<exists>rc dbi t' l'. mdb_dbi_open lib (Some t) None fl old l = Some (rc, dbi, Some t', l') \<and>
        alive t' \<and> (if rc = 0 then dbi \<noteq> INVALID_DBI else dbi = old))) \<and>
     (\<forall>t l. alive t \<longrightarrow> mdb_txn_commit lib (Some t) l \<noteq> None) \<and>
     (\<forall>l. \<exists>rc. mdb_txn_commit lib None l = Some (rc, None, l) \<and> rc \<noteq> 0) \<and>
     (\<forall>t l. alive t \<longrightarrow> mdb_txn_abort lib (Some t) l \<noteq> None) \<and>
     (\<forall>l. mdb_txn_abort lib None l = Some l) \<and>
     (\<forall>tp l. live_or_null alive tp \<longrightarrow> (\<exists>tp' l'. mdb_txn_reset lib tp l = Some (tp', l') \<and> same_or_live alive tp tp')) \<and>
     (\<forall>t l. alive t \<longrightarrow> (\<exists>rc t' l'. mdb_txn_renew lib (Some t) l = Some (rc, Some t', l') \<and> alive t'))"

definition mdb_cursors ::
  "('env, 'txn, 'cursor, 'l) mdb_lib \<Rightarrow> ('txn \<Rightarrow> bool) \<Rightarrow> ('cursor \<Rightarrow> bool) \<Rightarrow> ('cursor \<Rightarrow> 'txn \<Rightarrow> bool) \<Rightarrow> bool" where
  "mdb_cursors lib alive clive bound \<longleftrightarrow>
     (\<forall>t dbi old l. alive t \<longrightarrow> (\<exists>rc cp l'. mdb_cursor_open lib (Some t) dbi old l = Some (rc, cp, l') \<and>
        (if rc = 0 then \<exists>cu. cp = Some cu \<and> clive cu \<and> bound cu t else cp = old))) \<and>
     (\<forall>cu l. clive cu \<longrightarrow> mdb_cursor_close lib (Some cu) l \<noteq> None) \<and>
     (\<forall>t cu l. alive t \<longrightarrow> clive cu \<longrightarrow> (\<exists>rc cu' l'. mdb_cursor_renew lib (Some t) (Some cu) l = Some (rc, Some cu', l') \<and>
        clive cu' \<and> (rc = 0 \<longrightarrow> bound cu' t))) \<and>
     (\<forall>t cu opr l. alive t \<longrightarrow> clive cu \<longrightarrow> bound cu t \<longrightarrow>
        (\<exists>rc k v cu' l'. mdb_cursor_get lib (Some t) (Some cu) opr l = Some (rc, k, v, Some cu', l') \<and> clive cu' \<and> bound cu' t))"

definition val_readable :: "mdb_val \<Rightarrow> bool" where
  "val_readable v \<longleftrightarrow> readable (mv_data v) (mv_size v)"

definition mdb_operations :: "('env, 'txn, 'cursor, 'l) mdb_lib \<Rightarrow> ('txn \<Rightarrow> bool) \<Rightarrow> bool" where
  "mdb_operations lib alive \<longleftrightarrow> MDB_SUCCESS lib = 0 \<and> MDB_NOTFOUND lib \<noteq> 0 \<and>
     (\<forall>tp dbi k v fl l. live_or_null alive tp \<longrightarrow> val_readable k \<longrightarrow> val_readable v \<longrightarrow>
        (\<exists>rc tp' l'. mdb_put lib tp dbi k v fl l = Some (rc, tp', l') \<and> same_or_live alive tp tp')) \<and>
     (\<forall>tp dbi k l. live_or_null alive tp \<longrightarrow> val_readable k \<longrightarrow>
        (\<exists>rc tp' l'. mdb_del lib tp dbi k None l = Some (rc, tp', l') \<and> same_or_live alive tp tp')) \<and>
     (\<forall>tp dbi k l. live_or_null alive tp \<longrightarrow> val_readable k \<longrightarrow> mdb_get lib tp dbi k l \<noteq> None)"

definition mdb_library ::
  "('env, 'txn, 'cursor, 'l) mdb_lib \<Rightarrow> ('env \<Rightarrow> bool) \<Rightarrow> ('env \<Rightarrow> bool) \<Rightarrow> ('txn \<Rightarrow> bool) \<Rightarrow>
     ('cursor \<Rightarrow> bool) \<Rightarrow> ('cursor \<Rightarrow> 'txn \<Rightarrow> bool) \<Rightarrow> bool" where
  "mdb_library lib created opened alive clive bound \<longleftrightarrow> mdb_environments lib created opened \<and>
     mdb_transactions lib opened alive \<and> mdb_cursors lib alive clive bound \<and> mdb_operations lib alive"

text \<open>No commit of a live transaction fails: no full disk, no I/O error.\<close>

definition mdb_commits :: "('env, 'txn, 'cursor, 'l) mdb_lib \<Rightarrow> ('txn \<Rightarrow> bool) \<Rightarrow> bool" where
  "mdb_commits lib alive \<longleftrightarrow> (\<forall>t l rc tp l'. alive t \<longrightarrow> mdb_txn_commit lib (Some t) l = Some (rc, tp, l') \<longrightarrow> rc = 0)"

section \<open>The contract\<close>

definition lmdb_opened :: "('env \<Rightarrow> bool) \<Rightarrow> ('env, 'l) lmdb_world \<Rightarrow> bool" where
  "lmdb_opened opened w \<longleftrightarrow> (\<exists>self e. lw_priv w = Some self \<and> lp_env self = Some e \<and> opened e)"

definition lmdb_idle ::
  "('env \<Rightarrow> bool) \<Rightarrow> ('txn \<Rightarrow> bool) \<Rightarrow> ('cursor \<Rightarrow> bool) \<Rightarrow> ('txn, 'cursor) lmdb_context \<Rightarrow> ('env, 'l) lmdb_world \<Rightarrow> bool" where
  "lmdb_idle opened alive clive ctx w \<longleftrightarrow> lmdb_opened opened w \<and> lp_dbi (the (lw_priv w)) \<noteq> INVALID_DBI \<and>
     live_or_null alive (lc_txn ctx) \<and> live_or_null clive (lc_cursor ctx)"

definition lmdb_ready ::
  "('txn \<Rightarrow> bool) \<Rightarrow> ('cursor \<Rightarrow> 'txn \<Rightarrow> bool) \<Rightarrow> iabenchmark \<Rightarrow> ('txn, 'cursor) lmdb_context \<Rightarrow> ('env, 'l) lmdb_world \<Rightarrow> bool" where
  "lmdb_ready alive bound step ctx w \<longleftrightarrow> (\<exists>t. lc_txn ctx = Some t \<and> alive t \<and>
     (step = IA_ITERATE \<longrightarrow> (\<exists>cu. lc_cursor ctx = Some cu \<and> bound cu t)))"

text \<open>The other doers at most open the database: the environment stays, and so does the handle once it is valid.\<close>

definition lmdb_rely :: "('env, 'l) lmdb_world \<Rightarrow> ('env, 'l) lmdb_world \<Rightarrow> bool" where
  "lmdb_rely w w' \<longleftrightarrow> (\<forall>self. lw_priv w = Some self \<longrightarrow> (\<exists>self'. lw_priv w' = Some self' \<and>
     lp_env self' = lp_env self \<and> (lp_dbi self \<noteq> INVALID_DBI \<longrightarrow> lp_dbi self' = lp_dbi self)))"

lemma lmdb_rely_refl [simp]: "lmdb_rely w w"
  by (simp add: lmdb_rely_def)

lemma lmdb_rely_lib [simp]: "lmdb_rely w (w\<lparr>lw_lib := l\<rparr>)"
  by (simp add: lmdb_rely_def)

lemma lmdb_rely_trans: "lmdb_rely w w1 \<Longrightarrow> lmdb_rely w1 w2 \<Longrightarrow> lmdb_rely w w2"
  by (fastforce simp: lmdb_rely_def)

lemma lmdb_opened_rely: "lmdb_opened opened w \<Longrightarrow> lmdb_rely w w' \<Longrightarrow> lmdb_opened opened w'"
  by (fastforce simp: lmdb_rely_def lmdb_opened_def)

lemma lmdb_idle_rely: "lmdb_idle opened alive clive c w \<Longrightarrow> lmdb_rely w w' \<Longrightarrow> lmdb_idle opened alive clive c w'"
  by (fastforce simp: lmdb_idle_def lmdb_opened_def lmdb_rely_def)

section \<open>The operations in the contract\<close>

lemma mdb_lib_codes:
  assumes "mdb_library lib created opened alive clive bound"
  shows "MDB_SUCCESS lib = 0" "MDB_NOTFOUND lib \<noteq> 0"
  using assms by (simp_all add: mdb_library_def mdb_operations_def)

text \<open>Closing a cursor and aborting a transaction, if there are any.\<close>

lemma lmdb_close_cursor:
  assumes "mdb_library lib created opened alive clive bound" and "live_or_null clive cp"
  obtains l' where "(if cp \<noteq> None then mdb_cursor_close lib cp l else Some l) = Some l'"
proof (cases cp)
  case (Some cu)
  have "clive cu \<Longrightarrow> mdb_cursor_close lib (Some cu) l \<noteq> None"
    using assms(1) unfolding mdb_library_def mdb_cursors_def by blast
  then show ?thesis using assms(2) Some by (auto intro: that)
qed (auto intro: that)

lemma lmdb_abort_txn:
  assumes "mdb_library lib created opened alive clive bound" and "live_or_null alive tp"
  obtains l' where "mdb_txn_abort lib tp l = Some l'"
proof (cases tp)
  case None
  then show ?thesis using assms(1) that unfolding mdb_library_def mdb_transactions_def by blast
next
  case (Some t)
  have "alive t \<Longrightarrow> mdb_txn_abort lib (Some t) l \<noteq> None"
    using assms(1) unfolding mdb_library_def mdb_transactions_def by blast
  then show ?thesis using assms(2) Some by (auto intro: that)
qed

lemma lmdb_begin_txn:
  assumes "mdb_library lib created opened alive clive bound" and "opened e"
  obtains rc tp l' where "mdb_txn_begin lib (Some e) None fl None l = Some (rc, tp, l')"
    and "live_or_null alive tp" and "rc = 0 \<Longrightarrow> tp \<noteq> None"
proof -
  have "\<exists>rc tp l'. mdb_txn_begin lib (Some e) None fl None l = Some (rc, tp, l') \<and>
      (if rc = 0 then \<exists>t. tp = Some t \<and> alive t else tp = None)"
    using assms unfolding mdb_library_def mdb_transactions_def by blast
  then show ?thesis by (auto intro: that split: if_splits)
qed

lemma lmdb_thread_new_ok:
  assumes lib: "mdb_library lib created opened alive clive bound" and w: "lmdb_opened opened w"
  shows "\<exists>r w'. ia_lmdb_thread_new mem lib w = Some (r, w') \<and> lmdb_rely w w' \<and>
    (\<forall>c. r = Some c \<longrightarrow> lmdb_idle opened alive clive c w')"
proof -
  obtain self e where self: "lw_priv w = Some self" "lp_env self = Some e" "opened e"
    using w by (auto simp: lmdb_opened_def)
  show ?thesis
  proof (cases "lp_dbi self = INVALID_DBI")
    case False
    then show ?thesis using w self by (auto simp: ia_lmdb_thread_new_def lmdb_idle_def)
  next
    case True
    obtain rc tp l where 1: "mdb_txn_begin lib (Some e) None 0 None (lw_lib w) = Some (rc, tp, l)"
      "live_or_null alive tp" "rc = 0 \<Longrightarrow> tp \<noteq> None"
      using lmdb_begin_txn [OF lib self(3)] by metis
    show ?thesis
    proof (cases "rc = 0")
      case False
      then show ?thesis using self True 1 by (simp add: ia_lmdb_thread_new_def mdb_lib_codes [OF lib])
    next
      case rc: True
      obtain t where t: "tp = Some t" "alive t" using 1 rc by auto
      have "\<exists>rc dbi t' l'. mdb_dbi_open lib (Some t) None fl old l = Some (rc, dbi, Some t', l') \<and>
          alive t' \<and> (if rc = 0 then dbi \<noteq> INVALID_DBI else dbi = old)" for fl old l
        using lib t(2) unfolding mdb_library_def mdb_transactions_def by blast
      then obtain rc2 dbi t' l2 where 2: "mdb_dbi_open lib (Some t) None 0 INVALID_DBI l = Some (rc2, dbi, Some t', l2)"
        "alive t'" "if rc2 = 0 then dbi \<noteq> INVALID_DBI else dbi = INVALID_DBI" by blast
      obtain l3 where 3: "mdb_txn_abort lib (Some t') l2 = Some l3"
        by (rule lmdb_abort_txn [OF lib, of "Some t'"]) (use 2(2) in simp)
      show ?thesis
        using self True 1 rc t 2 3
        by (cases "rc2 = 0") (auto simp: ia_lmdb_thread_new_def mdb_lib_codes [OF lib] Let_def lmdb_rely_def
            lmdb_idle_def lmdb_opened_def)
    qed
  qed
qed

lemma lmdb_dispose_ok:
  assumes lib: "mdb_library lib created opened alive clive bound" and idle: "lmdb_idle opened alive clive ctx w"
  shows "\<exists>w'. ia_lmdb_thread_dispose lib ctx w = Some w' \<and> lmdb_rely w w'"
proof -
  have ctx: "live_or_null alive (lc_txn ctx)" "live_or_null clive (lc_cursor ctx)"
    using idle by (simp_all add: lmdb_idle_def)
  obtain l1 where 1: "(if lc_cursor ctx \<noteq> None then mdb_cursor_close lib (lc_cursor ctx) (lw_lib w) else Some (lw_lib w)) = Some l1"
    by (rule lmdb_close_cursor [OF lib ctx(2)])
  obtain l2 where 2: "mdb_txn_abort lib (lc_txn ctx) l1 = Some l2"
    by (rule lmdb_abort_txn [OF lib ctx(1)])
  show ?thesis
    using 2 unfolding ia_lmdb_thread_dispose_def 1 by (cases "lc_txn ctx") auto
qed

lemma lmdb_begin_write_ok:
  assumes lib: "mdb_library lib created opened alive clive bound" and env: "lp_env self = Some e" "opened e"
    and ctx: "live_or_null alive (lc_txn ctx)" "live_or_null clive (lc_cursor ctx)"
  shows "\<exists>rc ctx' l'. lmdb_begin_write lib self ctx l = Some (rc, ctx', l') \<and> live_or_null alive (lc_txn ctx') \<and>
    lc_cursor ctx' = None \<and> (rc = 0 \<and> lc_txn ctx' \<noteq> None \<or> rc = -1)"
proof -
  obtain l1 where 1: "(if lc_cursor ctx \<noteq> None then mdb_cursor_close lib (lc_cursor ctx) l else Some l) = Some l1"
    by (rule lmdb_close_cursor [OF lib ctx(2)])
  obtain l2 where 2: "mdb_txn_abort lib (lc_txn ctx) l1 = Some l2" by (rule lmdb_abort_txn [OF lib ctx(1)])
  obtain rc tp l3 where 3: "mdb_txn_begin lib (Some e) None 0 None (if lc_txn ctx \<noteq> None then l2 else l1) = Some (rc, tp, l3)"
    "live_or_null alive tp" "rc = 0 \<Longrightarrow> tp \<noteq> None"
    using lmdb_begin_txn [OF lib env(2)] by metis
  have "(if lc_cursor ctx \<noteq> None
      then do { l \<leftarrow> mdb_cursor_close lib (lc_cursor ctx) l; Some (ctx\<lparr>lc_cursor := None\<rparr>, l) }
      else Some (ctx, l)) = Some (ctx\<lparr>lc_cursor := None\<rparr>, l1)"
    using 1 by (auto split: if_splits)
  then show ?thesis
    using 2 3 by (auto simp: lmdb_begin_write_def env mdb_lib_codes [OF lib])
qed

lemma lmdb_begin_cursor_ok:
  assumes lib: "mdb_library lib created opened alive clive bound"
    and ctx: "lc_txn ctx = Some t" "alive t" "live_or_null clive (lc_cursor ctx)"
  shows "\<exists>rc ctx' l'. lmdb_begin_cursor lib self 0 ctx l = Some (rc, ctx', l') \<and> lc_txn ctx' = Some t \<and>
    live_or_null clive (lc_cursor ctx') \<and> (rc = 0 \<and> (\<exists>cu. lc_cursor ctx' = Some cu \<and> bound cu t) \<or> rc = -1)"
proof -
  note codes = mdb_lib_codes [OF lib]
  have opn: "\<exists>rc cp l'. mdb_cursor_open lib (Some t) dbi None l = Some (rc, cp, l') \<and>
      (if rc = 0 then \<exists>cu. cp = Some cu \<and> clive cu \<and> bound cu t else cp = None)" for dbi l
    using lib ctx(2) unfolding mdb_library_def mdb_cursors_def by blast
  show ?thesis
  proof (cases "lc_cursor ctx")
    case None
    obtain rc cp l' where "mdb_cursor_open lib (Some t) (lp_dbi self) None l = Some (rc, cp, l')"
      "if rc = 0 then \<exists>cu. cp = Some cu \<and> clive cu \<and> bound cu t else cp = None" using opn by blast
    then show ?thesis using None ctx by (auto simp: lmdb_begin_cursor_def codes split: if_splits)
  next
    case (Some cu)
    then have "clive cu" using ctx(3) by simp
    then obtain rc cu' l1 where 1: "mdb_cursor_renew lib (Some t) (Some cu) l = Some (rc, Some cu', l1)"
      "clive cu'" "rc = 0 \<longrightarrow> bound cu' t"
      using lib ctx(2) unfolding mdb_library_def mdb_cursors_def by blast
    show ?thesis
    proof (cases "rc = 0")
      case True
      then show ?thesis using 1 Some ctx by (simp add: lmdb_begin_cursor_def codes)
    next
      case False
      obtain l2 where 2: "mdb_cursor_close lib (Some cu') l1 = Some l2"
        using lmdb_close_cursor [OF lib, of "Some cu'" l1] 1(2) by auto
      obtain rc2 cp l' where "mdb_cursor_open lib (Some t) (lp_dbi self) None l2 = Some (rc2, cp, l')"
        "if rc2 = 0 then \<exists>cu. cp = Some cu \<and> clive cu \<and> bound cu t else cp = None" using opn by blast
      then show ?thesis using 1 2 Some ctx False by (auto simp: lmdb_begin_cursor_def codes split: if_splits)
    qed
  qed
qed

lemma lmdb_renew_txn_ok:
  assumes lib: "mdb_library lib created opened alive clive bound" and ctx: "live_or_null alive (lc_txn ctx)"
  obtains rc tp l' where "lmdb_renew_txn lib ctx l = Some (rc, ctx\<lparr>lc_txn := tp\<rparr>, l')" and "live_or_null alive tp"
    and "tp \<noteq> None \<Longrightarrow> rc = 0"
proof (cases "lc_txn ctx")
  case None
  moreover have "ctx\<lparr>lc_txn := None\<rparr> = ctx" using None by simp
  ultimately show ?thesis by (intro that [of 0 None l]) (auto simp: lmdb_renew_txn_def)
next
  case (Some t)
  then have "alive t" using ctx by simp
  then have "\<exists>rc t' l'. mdb_txn_renew lib (Some t) l = Some (rc, Some t', l') \<and> alive t'"
    using lib unfolding mdb_library_def mdb_transactions_def by blast
  then obtain rc t' l1 where 1: "mdb_txn_renew lib (Some t) l = Some (rc, Some t', l1)" "alive t'" by blast
  obtain l2 where "mdb_txn_abort lib (Some t') l1 = Some l2"
    by (rule lmdb_abort_txn [OF lib, of "Some t'"]) (use 1(2) in simp)
  then show ?thesis
    using 1 Some that [of rc "Some t'" l1] that [of rc None l2]
    by (cases "rc = 0") (auto simp: lmdb_renew_txn_def mdb_lib_codes [OF lib])
qed

lemma lmdb_begin_read_ok:
  assumes lib: "mdb_library lib created opened alive clive bound" and env: "lp_env self = Some e" "opened e"
    and ctx: "live_or_null alive (lc_txn ctx)" "live_or_null clive (lc_cursor ctx)"
  shows "\<exists>rc ctx' l'. lmdb_begin_read lib self step ctx l = Some (rc, ctx', l') \<and> live_or_null alive (lc_txn ctx') \<and>
    live_or_null clive (lc_cursor ctx') \<and> (rc = 0 \<and> lmdb_ready alive bound step ctx' w \<or> rc = -1)"
proof -
  note codes = mdb_lib_codes [OF lib]
  have finish: "\<exists>rc ctx' l'. (if step = IA_ITERATE then lmdb_begin_cursor lib self 0 c l else Some (0, c, l)) = Some (rc, ctx', l') \<and>
      live_or_null alive (lc_txn ctx') \<and> live_or_null clive (lc_cursor ctx') \<and> (rc = 0 \<and> lmdb_ready alive bound step ctx' w \<or> rc = -1)"
    if "lc_txn c = Some t" "alive t" "live_or_null clive (lc_cursor c)" for c t l
    using lmdb_begin_cursor_ok [OF lib that, of self l] that by (auto simp: lmdb_ready_def)
  obtain rc1 tp l1 where 1: "lmdb_renew_txn lib ctx l = Some (rc1, ctx\<lparr>lc_txn := tp\<rparr>, l1)" "live_or_null alive tp"
    "tp \<noteq> None \<Longrightarrow> rc1 = 0"
    using lmdb_renew_txn_ok [OF lib ctx(1)] by metis
  obtain rc2 tp2 l2 where 2: "mdb_txn_begin lib (Some e) None (MDB_RDONLY lib) None l1 = Some (rc2, tp2, l2)"
    "live_or_null alive tp2" "rc2 = 0 \<Longrightarrow> tp2 \<noteq> None"
    using lmdb_begin_txn [OF lib env(2)] by metis
  consider t where "tp = Some t" "rc1 = 0" | t where "tp = None" "rc2 = 0" "tp2 = Some t" | "tp = None" "rc2 \<noteq> 0"
    using 1(3) 2(3) by (cases tp) auto
  then show ?thesis
  proof cases
    case 1
    then show ?thesis
      using finish [of "ctx\<lparr>lc_txn := Some t\<rparr>" t l1] \<open>live_or_null alive tp\<close> ctx(2)
      by (cases "step = IA_ITERATE") (simp_all add: lmdb_begin_read_def \<open>lmdb_renew_txn _ _ _ = _\<close> codes)
  next
    case 2
    then show ?thesis
      using finish [of "ctx\<lparr>lc_txn := Some t\<rparr>" t l2] \<open>live_or_null alive tp2\<close> ctx(2) \<open>mdb_txn_begin _ _ _ _ _ _ = _\<close>
      by (cases "step = IA_ITERATE") (simp_all add: lmdb_begin_read_def \<open>lmdb_renew_txn _ _ _ = _\<close> codes env)
  next
    case 3
    then show ?thesis
      using \<open>live_or_null alive tp2\<close> ctx(2) \<open>mdb_txn_begin _ _ _ _ _ _ = _\<close>
      by (simp add: lmdb_begin_read_def \<open>lmdb_renew_txn _ _ _ = _\<close> codes env)
  qed
qed

lemma lmdb_begin_ok:
  assumes lib: "mdb_library lib created opened alive clive bound" and idle: "lmdb_idle opened alive clive ctx w"
    and b: "step < IA_MAX"
  shows "\<exists>rc ctx' w'. ia_lmdb_begin lib ctx step w = Some (rc, ctx', w') \<and> lmdb_rely w w' \<and>
    lmdb_idle opened alive clive ctx' w' \<and> (rc = 0 \<and> lmdb_ready alive bound step ctx' w' \<or> rc = -1)"
proof -
  obtain self e where self: "lw_priv w = Some self" "lp_dbi self \<noteq> INVALID_DBI" and env: "lp_env self = Some e" "opened e"
    and ctx: "live_or_null alive (lc_txn ctx)" "live_or_null clive (lc_cursor ctx)"
    using idle by (auto simp: lmdb_idle_def lmdb_opened_def)
  have idle': "lmdb_idle opened alive clive c (w\<lparr>lw_lib := l\<rparr>)"
    if "live_or_null alive (lc_txn c)" "live_or_null clive (lc_cursor c)" for c l
    using that self env by (simp add: lmdb_idle_def lmdb_opened_def)
  consider "step \<in> {IA_SET, IA_BATCH, IA_CRUD, IA_DELETE}" | "step \<in> {IA_ITERATE, IA_GET}"
    using b by (cases step) (auto simp: below_MAX)
  then show ?thesis
  proof cases
    case 1
    obtain rc c l where r: "lmdb_begin_write lib self ctx (lw_lib w) = Some (rc, c, l)" "live_or_null alive (lc_txn c)"
      "lc_cursor c = None" "rc = 0 \<and> lc_txn c \<noteq> None \<or> rc = -1"
      using lmdb_begin_write_ok [OF lib env ctx] by blast
    then show ?thesis
      using 1 self idle' [of c l] by (auto simp: ia_lmdb_begin_def lmdb_ready_def)
  next
    case 2
    obtain rc c l where r: "lmdb_begin_read lib self step ctx (lw_lib w) = Some (rc, c, l)" "live_or_null alive (lc_txn c)"
      "live_or_null clive (lc_cursor c)" "rc = 0 \<and> lmdb_ready alive bound step c (w\<lparr>lw_lib := l\<rparr>) \<or> rc = -1"
      using lmdb_begin_read_ok [OF lib env ctx, of step "lw_lib w"] by (auto simp: lmdb_ready_def)
    have "ia_lmdb_begin lib ctx step w = Some (rc, c, w\<lparr>lw_lib := l\<rparr>)"
      using 2 self r(1) by (auto simp: ia_lmdb_begin_def)
    then show ?thesis using idle' [of c l] r by auto
  qed
qed

lemma lmdb_done_ok:
  assumes lib: "mdb_library lib created opened alive clive bound" and commits: "mdb_commits lib alive"
    and idle: "lmdb_idle opened alive clive ctx w" and b: "step < IA_MAX"
  shows "\<exists>rc ctx' w'. ia_lmdb_done lib ctx step w = Some (rc, ctx', w') \<and> lmdb_rely w w' \<and>
    lmdb_idle opened alive clive ctx' w' \<and> rc \<in> {0, -1}"
proof -
  have ctx: "live_or_null alive (lc_txn ctx)" "live_or_null clive (lc_cursor ctx)"
    using idle by (auto simp: lmdb_idle_def)
  have idle': "lmdb_idle opened alive clive (ctx\<lparr>lc_txn := tp\<rparr>) (w\<lparr>lw_lib := l\<rparr>)" if "live_or_null alive tp" for tp l
    using that idle by (simp add: lmdb_idle_def lmdb_opened_def)
  consider "step \<in> {IA_SET, IA_BATCH, IA_CRUD, IA_DELETE}" | "step \<in> {IA_ITERATE, IA_GET}"
    using b by (cases step) (auto simp: below_MAX)
  then show ?thesis
  proof cases
    case 1
    show ?thesis
    proof (cases "lc_txn ctx")
      case None
      have "\<exists>rc. mdb_txn_commit lib None l = Some (rc, None, l) \<and> rc \<noteq> 0" and a: "mdb_txn_abort lib None l = Some l" for l
        using lib unfolding mdb_library_def mdb_transactions_def by blast+
      then obtain rc where "mdb_txn_commit lib None (lw_lib w) = Some (rc, None, lw_lib w)" "rc \<noteq> 0" by blast
      then have "ia_lmdb_done lib ctx step w = Some (-1, ctx\<lparr>lc_txn := None\<rparr>, w\<lparr>lw_lib := lw_lib w\<rparr>)"
        using 1 None a by (auto simp: ia_lmdb_done_def mdb_lib_codes [OF lib])
      then show ?thesis using idle' [of None "lw_lib w"] by auto
    next
      case (Some t)
      then have t: "alive t" using ctx by simp
      then have "mdb_txn_commit lib (Some t) (lw_lib w) \<noteq> None"
        using lib unfolding mdb_library_def mdb_transactions_def by blast
      then obtain rc tp l where c: "mdb_txn_commit lib (Some t) (lw_lib w) = Some (rc, tp, l)" by auto
      then have "rc = 0" using commits t unfolding mdb_commits_def by blast
      then have "ia_lmdb_done lib ctx step w = Some (0, ctx\<lparr>lc_txn := None\<rparr>, w\<lparr>lw_lib := l\<rparr>)"
        using 1 Some c by (auto simp: ia_lmdb_done_def mdb_lib_codes [OF lib])
      then show ?thesis using idle' [of None l] by auto
    qed
  next
    case 2
    have "\<exists>tp' l'. mdb_txn_reset lib (lc_txn ctx) (lw_lib w) = Some (tp', l') \<and> same_or_live alive (lc_txn ctx) tp'"
      using lib ctx unfolding mdb_library_def mdb_transactions_def by blast
    then obtain tp l where r: "mdb_txn_reset lib (lc_txn ctx) (lw_lib w) = Some (tp, l)" "same_or_live alive (lc_txn ctx) tp"
      by blast
    then have "live_or_null alive tp" by (cases "lc_txn ctx") auto
    then show ?thesis using 2 r(1) idle' [of tp l] by (auto simp: ia_lmdb_done_def)
  qed
qed

text \<open>An operation on the database: whatever the library returns is 0, \<open>ENOENT\<close> or -1 afterwards.\<close>

lemma lmdb_data_ok:
  assumes lib: "mdb_library lib created opened alive clive bound"
    and tp: "live_or_null alive (lc_txn ctx)" and w: "lw_priv w = Some self"
    and step: "step \<in> {IA_SET, IA_DELETE, IA_GET}" and kv: "kv_ready kv"
  obtains rc tp' l' where "ia_lmdb_next lib ctx step kv w = Some (rc, kv, ctx\<lparr>lc_txn := tp'\<rparr>, w\<lparr>lw_lib := l'\<rparr>)"
    and "same_or_live alive (lc_txn ctx) tp'" and "rc \<in> {0, ENOENT, -1}"
proof -
  let ?k = "\<lparr>mv_size = kv_ksize kv, mv_data = kv_k kv\<rparr>" and ?v = "\<lparr>mv_size = kv_vsize kv, mv_data = kv_v kv\<rparr>"
  have kv: "val_readable ?k" "val_readable ?v" using kv by (auto simp: val_readable_def kv_ready_def)
  note codes = mdb_lib_codes [OF lib]
  have ops: "mdb_operations lib alive" using lib by (simp add: mdb_library_def)
  consider "step = IA_SET" | "step = IA_DELETE" | "step = IA_GET" using step by blast
  then show ?thesis
  proof cases
    case 1
    have "\<exists>rc tp' l'. mdb_put lib (lc_txn ctx) (lp_dbi self) ?k ?v 0 (lw_lib w) = Some (rc, tp', l') \<and> same_or_live alive (lc_txn ctx) tp'"
      using ops tp kv unfolding mdb_operations_def by blast
    then show ?thesis using 1 w by (auto simp: ia_lmdb_next_def codes intro!: that)
  next
    case 2
    have "\<exists>rc tp' l'. mdb_del lib (lc_txn ctx) (lp_dbi self) ?k None (lw_lib w) = Some (rc, tp', l') \<and> same_or_live alive (lc_txn ctx) tp'"
      using ops tp kv unfolding mdb_operations_def by blast
    then show ?thesis using 2 w by (auto simp: ia_lmdb_next_def codes intro!: that)
  next
    case 3
    have "mdb_get lib (lc_txn ctx) (lp_dbi self) ?k (lw_lib w) \<noteq> None"
      using ops tp kv unfolding mdb_operations_def by blast
    moreover have "same_or_live alive (lc_txn ctx) (lc_txn ctx)" using tp by (cases "lc_txn ctx") auto
    moreover have "ctx\<lparr>lc_txn := lc_txn ctx\<rparr> = ctx" by simp
    ultimately show ?thesis using 3 w by (auto simp: ia_lmdb_next_def codes intro!: that)
  qed
qed

lemma lmdb_iterate_ok:
  assumes lib: "mdb_library lib created opened alive clive bound"
    and "lmdb_idle opened alive clive ctx w" and "lmdb_ready alive bound IA_ITERATE ctx w"
  obtains rc kv' cu l' where "ia_lmdb_next lib ctx IA_ITERATE kv w = Some (rc, kv', ctx\<lparr>lc_cursor := Some cu\<rparr>, w\<lparr>lw_lib := l'\<rparr>)"
    and "clive cu" and "bound cu (the (lc_txn ctx))" and "rc \<in> {0, ENOENT, -1}"
proof -
  obtain t cu self where c: "lc_txn ctx = Some t" "alive t" "lc_cursor ctx = Some cu" "clive cu" "bound cu t" "lw_priv w = Some self"
    using assms(2,3) by (auto simp: lmdb_ready_def lmdb_idle_def lmdb_opened_def)
  then have "\<exists>rc k v cu' l'. mdb_cursor_get lib (Some t) (Some cu) (MDB_NEXT lib) (lw_lib w) = Some (rc, k, v, Some cu', l') \<and>
      clive cu' \<and> bound cu' t"
    using lib unfolding mdb_library_def mdb_cursors_def by blast
  then obtain rc k v cu' l' where g: "mdb_cursor_get lib (Some t) (Some cu) (MDB_NEXT lib) (lw_lib w) = Some (rc, k, v, Some cu', l')"
    "clive cu'" "bound cu' t" by blast
  then have "\<exists>rc kv'. ia_lmdb_next lib ctx IA_ITERATE kv w = Some (rc, kv', ctx\<lparr>lc_cursor := Some cu'\<rparr>, w\<lparr>lw_lib := l'\<rparr>) \<and>
      rc \<in> {0, ENOENT, -1}"
    using c by (simp add: ia_lmdb_next_def mdb_lib_codes [OF lib] Let_def)
  then show ?thesis using g c(1) that by auto
qed

lemma lmdb_contract_holds:
  fixes lib :: "('env, 'txn, 'cursor, 'l) mdb_lib"
  assumes lib: "mdb_library lib created opened alive clive bound" and commits: "mdb_commits lib alive"
  shows "robust_driver (ia_lmdb mem lib) (lmdb_opened opened) (lmdb_idle opened alive clive) (lmdb_ready alive bound) lmdb_rely"
proof
  fix c :: "('txn, 'cursor) lmdb_context" and w w' w1 :: "('env, 'l) lmdb_world" and b step kv arg opt
  show "lmdb_rely w w" by simp
  show "lmdb_rely w w1 \<Longrightarrow> lmdb_rely w1 w' \<Longrightarrow> lmdb_rely w w'" by (rule lmdb_rely_trans)
  show "lmdb_opened opened w \<Longrightarrow> lmdb_rely w w' \<Longrightarrow> lmdb_opened opened w'" by (rule lmdb_opened_rely)
  show "lmdb_idle opened alive clive c w \<Longrightarrow> lmdb_opened opened w" by (simp add: lmdb_idle_def)
  show "lmdb_idle opened alive clive c w \<Longrightarrow> lmdb_rely w w' \<Longrightarrow> lmdb_idle opened alive clive c w'" by (rule lmdb_idle_rely)
  show "lmdb_ready alive bound b c w \<Longrightarrow> lmdb_rely w w' \<Longrightarrow> lmdb_ready alive bound b c w'" by (simp add: lmdb_ready_def)
  show "\<exists>r w'. d_thread_new (ia_lmdb mem lib) w = Some (r, w') \<and> lmdb_rely w w' \<and>
      (\<forall>c. r = Some c \<longrightarrow> lmdb_idle opened alive clive c w')" if "lmdb_opened opened w"
    using lmdb_thread_new_ok [OF lib that] by (simp add: ia_lmdb_def)
  show "\<exists>w'. d_thread_dispose (ia_lmdb mem lib) c w = Some w' \<and> lmdb_rely w w'" if "lmdb_idle opened alive clive c w"
    using lmdb_dispose_ok [OF lib that] by (simp add: ia_lmdb_def)
  show "\<exists>rc c' w'. d_begin (ia_lmdb mem lib) c b w = Some (rc, c', w') \<and> lmdb_rely w w' \<and>
      lmdb_idle opened alive clive c' w' \<and> (rc = 0 \<and> lmdb_ready alive bound b c' w' \<or> rc = -1)"
    if "lmdb_idle opened alive clive c w" "b < IA_MAX"
    using lmdb_begin_ok [OF lib that] by (simp add: ia_lmdb_def)
  show "\<exists>rc c' w'. d_done (ia_lmdb mem lib) c b w = Some (rc, c', w') \<and> lmdb_rely w w' \<and>
      lmdb_idle opened alive clive c' w' \<and> rc \<in> {0, -1}"
    if "lmdb_idle opened alive clive c w" "b < IA_MAX"
    using lmdb_done_ok [OF lib commits that] by (simp add: ia_lmdb_def)
  show "\<exists>rc w'. opt (Some c) arg w = Some (rc, w') \<and> lmdb_rely w w'"
    if "d_option (ia_lmdb mem lib) = Some opt" using that by (simp add: ia_lmdb_def)
  have data: "\<exists>rc kv' c' w'. d_next (ia_lmdb mem lib) c step kv w = Some (rc, kv', c', w') \<and> lmdb_rely w w' \<and>
      lmdb_idle opened alive clive c' w' \<and> rc \<in> {0, ENOENT, -1} \<and> (step \<in> {IA_SET, IA_DELETE} \<longrightarrow> kv' = kv) \<and>
      (\<forall>b. b \<noteq> IA_ITERATE \<longrightarrow> lmdb_ready alive bound b c w \<longrightarrow> lmdb_ready alive bound b c' w')"
    if idle: "lmdb_idle opened alive clive c w" and step: "step \<in> {IA_SET, IA_DELETE, IA_GET}" and kv: "kv_ready kv"
  proof -
    obtain self where w: "lw_priv w = Some self" and tp: "live_or_null alive (lc_txn c)"
      using idle by (auto simp: lmdb_idle_def lmdb_opened_def)
    obtain rc tp' l' where r: "ia_lmdb_next lib c step kv w = Some (rc, kv, c\<lparr>lc_txn := tp'\<rparr>, w\<lparr>lw_lib := l'\<rparr>)"
      "same_or_live alive (lc_txn c) tp'" "rc \<in> {0, ENOENT, -1}"
      by (rule lmdb_data_ok [OF lib tp w step kv])
    have "live_or_null alive tp'" "tp' = None \<longleftrightarrow> lc_txn c = None" using r(2) by (cases "lc_txn c"; auto)+
    then show ?thesis
      using r idle by (auto simp: ia_lmdb_def lmdb_idle_def lmdb_opened_def lmdb_ready_def)
  qed
  show "\<exists>rc kv' c' w'. d_next (ia_lmdb mem lib) c step kv w = Some (rc, kv', c', w') \<and> lmdb_rely w w' \<and>
      lmdb_idle opened alive clive c' w' \<and> rc \<in> {0, ENOENT, -1} \<and> (step \<in> {IA_SET, IA_DELETE} \<longrightarrow> kv' = kv)"
    if "lmdb_idle opened alive clive c w" "step \<in> {IA_SET, IA_DELETE, IA_GET}" "kv_ready kv"
    using data [OF that] by blast
  show "\<exists>rc kv' c' w'. d_next (ia_lmdb mem lib) c step kv w = Some (rc, kv', c', w') \<and> lmdb_rely w w' \<and>
      lmdb_idle opened alive clive c' w' \<and> lmdb_ready alive bound b c' w' \<and> rc \<in> {0, ENOENT, -1} \<and>
      (step \<in> {IA_SET, IA_DELETE} \<longrightarrow> kv' = kv)"
    if ready: "lmdb_ready alive bound b c w" and idle: "lmdb_idle opened alive clive c w" and step: "step_allowed b step"
      and kv: "step \<noteq> IA_ITERATE \<Longrightarrow> kv_ready kv"
  proof (cases "step = IA_ITERATE")
    case True
    then have b: "b = IA_ITERATE" using step by (auto simp: step_allowed_def split: if_splits)
    obtain rc kv' cu l' where r: "ia_lmdb_next lib c IA_ITERATE kv w = Some (rc, kv', c\<lparr>lc_cursor := Some cu\<rparr>, w\<lparr>lw_lib := l'\<rparr>)"
      "clive cu" "bound cu (the (lc_txn c))" "rc \<in> {0, ENOENT, -1}"
      by (rule lmdb_iterate_ok [OF lib idle ready [unfolded b]])
    then show ?thesis
      using True b idle ready by (auto simp: ia_lmdb_def lmdb_idle_def lmdb_opened_def lmdb_ready_def)
  next
    case False
    then have "step \<in> {IA_SET, IA_DELETE, IA_GET}" "b \<noteq> IA_ITERATE"
      using step_allowed_cases [OF step] step by (auto simp: step_allowed_def split: if_splits)
    then show ?thesis using data [OF idle _ kv [OF False]] ready by blast
  qed
qed

end
