(* ===== verification/LmdbProperties.thy ===== *)
theory LmdbProperties
  imports Store DriverLmdb "HOL-Library.AList"
begin

text \<open>
  The properties of the LMDB driver: it keeps the contract of the benchmark, its transactions are
  stores when the library's are, what it opens can be closed, and what happens when a commit
  fails.  A library that keeps its records in a list shows that the hypotheses can hold.
\<close>

section \<open>Records\<close>

definition val_bytes :: "mdb_val \<Rightarrow> u8 list" where
  "val_bytes v = (case mv_data v of None \<Rightarrow> [] | Some bs \<Rightarrow> take (unat (mv_size v)) bs)"

text \<open>\<open>view t\<close> is what the live transaction \<open>t\<close> sees; the library's operations act on it as on a map.\<close>

definition mdb_store ::
  "('env, 'txn, 'cursor, 'l) mdb_lib \<Rightarrow> ('txn \<Rightarrow> bool) \<Rightarrow> ('txn \<Rightarrow> u8 list \<rightharpoonup> u8 list) \<Rightarrow> bool" where
  "mdb_store lib alive view \<longleftrightarrow>
     (\<forall>t dbi k v fl l rc t' l'. alive t \<longrightarrow> mdb_put lib (Some t) dbi k v fl l = Some (rc, Some t', l') \<longrightarrow>
        rc = 0 \<longrightarrow> view t' = (view t)(val_bytes k \<mapsto> val_bytes v)) \<and>
     (\<forall>t dbi k l rc t' l'. alive t \<longrightarrow> mdb_del lib (Some t) dbi k None l = Some (rc, Some t', l') \<longrightarrow>
        (rc = 0 \<longrightarrow> view t (val_bytes k) \<noteq> None \<and> view t' = (view t)(val_bytes k := None)) \<and>
        (rc = MDB_NOTFOUND lib \<longrightarrow> view t (val_bytes k) = None \<and> view t' = view t)) \<and>
     (\<forall>t dbi k l rc v l'. alive t \<longrightarrow> mdb_get lib (Some t) dbi k l = Some (rc, v, l') \<longrightarrow>
        (rc = 0 \<longrightarrow> view t (val_bytes k) \<noteq> None) \<and> (rc = MDB_NOTFOUND lib \<longrightarrow> view t (val_bytes k) = None))"

definition lmdb_view :: "('txn \<Rightarrow> u8 list \<rightharpoonup> u8 list) \<Rightarrow> ('txn, 'cursor) lmdb_context \<Rightarrow> u8 list \<rightharpoonup> u8 list" where
  "lmdb_view view ctx = (case lc_txn ctx of None \<Rightarrow> Map.empty | Some t \<Rightarrow> view t)"

lemma val_bytes_kv:
  "val_bytes \<lparr>mv_size = kv_ksize kv, mv_data = kv_k kv\<rparr> = kv_key kv"
  "val_bytes \<lparr>mv_size = kv_vsize kv, mv_data = kv_v kv\<rparr> = kv_value kv"
  by (simp_all add: val_bytes_def kv_key_def kv_value_def split: option.split)

section \<open>A library in a list\<close>

text \<open>The database is a list of records, a transaction its own copy of it, a cursor what it has still to visit.\<close>

type_synonym records = "(u8 list \<times> u8 list) list"

record sample_txn =
  st_map :: records
  st_live :: bool
  st_write :: bool

record sample_cursor =
  sc_rest :: records
  sc_live :: bool

definition rdonly_flag :: u32 where "rdonly_flag = 0x20000"

definition sample_begin ::
  "bool option \<Rightarrow> sample_txn option \<Rightarrow> u32 \<Rightarrow> sample_txn option \<Rightarrow> records \<Rightarrow> (int \<times> sample_txn option \<times> records) option" where
  "sample_begin env parent fl old l = (if env = Some True \<and> parent = None
     then Some (0, Some \<lparr>st_map = l, st_live = True, st_write = (fl \<noteq> rdonly_flag)\<rparr>, l) else None)"

fun sample_commit :: "sample_txn option \<Rightarrow> records \<Rightarrow> (int \<times> sample_txn option \<times> records) option" where
  "sample_commit None l = Some (22, None, l)"
| "sample_commit (Some t) l = (if st_live t
     then Some (0, Some (t\<lparr>st_live := False\<rparr>), if st_write t then st_map t else l) else None)"

fun sample_abort :: "sample_txn option \<Rightarrow> records \<Rightarrow> records option" where
  "sample_abort None l = Some l"
| "sample_abort (Some t) l = (if st_live t then Some l else None)"

fun sample_renew :: "sample_txn option \<Rightarrow> records \<Rightarrow> (int \<times> sample_txn option \<times> records) option" where
  "sample_renew None l = None"
| "sample_renew (Some t) l = (if \<not> st_live t then None
     else if st_write t then Some (22, Some t, l) else Some (0, Some (t\<lparr>st_map := l\<rparr>), l))"

fun sample_put ::
  "sample_txn option \<Rightarrow> u32 \<Rightarrow> mdb_val \<Rightarrow> mdb_val \<Rightarrow> u32 \<Rightarrow> records \<Rightarrow> (int \<times> sample_txn option \<times> records) option" where
  "sample_put None dbi k v fl l = Some (22, None, l)"
| "sample_put (Some t) dbi k v fl l = (if \<not> st_live t then None
     else if \<not> st_write t then Some (13, Some t, l)
     else Some (0, Some (t\<lparr>st_map := AList.update (val_bytes k) (val_bytes v) (st_map t)\<rparr>), l))"

fun sample_del ::
  "sample_txn option \<Rightarrow> u32 \<Rightarrow> mdb_val \<Rightarrow> mdb_val option \<Rightarrow> records \<Rightarrow> (int \<times> sample_txn option \<times> records) option" where
  "sample_del None dbi k d l = Some (22, None, l)"
| "sample_del (Some t) dbi k d l = (if \<not> st_live t then None
     else if \<not> st_write t then Some (13, Some t, l)
     else if map_of (st_map t) (val_bytes k) = None then Some (-30798, Some t, l)
     else Some (0, Some (t\<lparr>st_map := AList.delete (val_bytes k) (st_map t)\<rparr>), l))"

fun sample_get :: "sample_txn option \<Rightarrow> u32 \<Rightarrow> mdb_val \<Rightarrow> records \<Rightarrow> (int \<times> mdb_val \<times> records) option" where
  "sample_get None dbi k l = Some (22, \<lparr>mv_size = 0, mv_data = None\<rparr>, l)"
| "sample_get (Some t) dbi k l = (if \<not> st_live t then None
     else case map_of (st_map t) (val_bytes k) of
       None \<Rightarrow> Some (-30798, \<lparr>mv_size = 0, mv_data = None\<rparr>, l)
     | Some v \<Rightarrow> Some (0, \<lparr>mv_size = of_nat (length v), mv_data = Some v\<rparr>, l))"

definition sample_cursor_open ::
  "sample_txn option \<Rightarrow> u32 \<Rightarrow> sample_cursor option \<Rightarrow> records \<Rightarrow> (int \<times> sample_cursor option \<times> records) option" where
  "sample_cursor_open tp dbi old l = (case tp of None \<Rightarrow> None
     | Some t \<Rightarrow> if st_live t then Some (0, Some \<lparr>sc_rest = st_map t, sc_live = True\<rparr>, l) else None)"

definition sample_cursor_close :: "sample_cursor option \<Rightarrow> records \<Rightarrow> records option" where
  "sample_cursor_close cp l = (case cp of None \<Rightarrow> None | Some cu \<Rightarrow> if sc_live cu then Some l else None)"

definition sample_cursor_renew ::
  "sample_txn option \<Rightarrow> sample_cursor option \<Rightarrow> records \<Rightarrow> (int \<times> sample_cursor option \<times> records) option" where
  "sample_cursor_renew tp cp l = (case (tp, cp) of
       (Some t, Some cu) \<Rightarrow> if st_live t \<and> sc_live cu then Some (0, Some (cu\<lparr>sc_rest := st_map t\<rparr>), l) else None
     | _ \<Rightarrow> None)"

definition sample_cursor_get ::
  "sample_txn option \<Rightarrow> sample_cursor option \<Rightarrow> nat \<Rightarrow> records
     \<Rightarrow> (int \<times> mdb_val \<times> mdb_val \<times> sample_cursor option \<times> records) option" where
  "sample_cursor_get tp cp opr l = (case (tp, cp) of
       (Some t, Some cu) \<Rightarrow> if st_live t \<and> sc_live cu
         then (case sc_rest cu of
           [] \<Rightarrow> Some (-30798, \<lparr>mv_size = 0, mv_data = None\<rparr>, \<lparr>mv_size = 0, mv_data = None\<rparr>, Some cu, l)
         | (k, v) # rest \<Rightarrow> Some (0, \<lparr>mv_size = of_nat (length k), mv_data = Some k\<rparr>,
             \<lparr>mv_size = of_nat (length v), mv_data = Some v\<rparr>, Some (cu\<lparr>sc_rest := rest\<rparr>), l))
         else None
     | _ \<Rightarrow> None)"

definition sample_mdb :: "(bool, sample_txn, sample_cursor, records) mdb_lib" where
  "sample_mdb = \<lparr>MDB_SUCCESS = 0, MDB_NOTFOUND = -30798, MDB_NOSYNC = 0x10000, MDB_NOMETASYNC = 0x40000,
     MDB_WRITEMAP = 0x80000, MDB_MAPASYNC = 0x100000, MDB_NORDAHEAD = 0x800000, MDB_RDONLY = rdonly_flag, MDB_NEXT = 8,
     mdb_env_create = (\<lambda>ep l. Some (0, Some False, l)),
     mdb_env_set_mapsize = (\<lambda>ep n l. map_option (\<lambda>e. (0, Some e, l)) ep),
     mdb_env_open = (\<lambda>ep d fl m l. map_option (\<lambda>e. (0, Some True, l)) ep),
     mdb_env_close = (\<lambda>ep l. map_option (\<lambda>e. l) ep),
     mdb_dbi_open = (\<lambda>tp nm fl old l. case tp of None \<Rightarrow> None | Some t \<Rightarrow> if st_live t then Some (0, 1, Some t, l) else None),
     mdb_dbi_close = (\<lambda>ep dbi l. map_option (\<lambda>e. l) ep),
     mdb_txn_begin = sample_begin, mdb_txn_commit = sample_commit, mdb_txn_abort = sample_abort,
     mdb_txn_reset = (\<lambda>tp l. case tp of None \<Rightarrow> Some (None, l) | Some t \<Rightarrow> if st_live t then Some (Some t, l) else None),
     mdb_txn_renew = sample_renew, mdb_cursor_open = sample_cursor_open, mdb_cursor_close = sample_cursor_close,
     mdb_cursor_renew = sample_cursor_renew, mdb_cursor_get = sample_cursor_get,
     mdb_put = sample_put, mdb_del = sample_del, mdb_get = sample_get\<rparr>"

lemma sample_mdb_library: "mdb_library sample_mdb (\<lambda>e. True) (\<lambda>e. e) st_live sc_live (\<lambda>cu t. True)"
  unfolding mdb_library_def
proof (intro conjI)
  show "mdb_environments sample_mdb (\<lambda>e. True) (\<lambda>e. e)"
    unfolding mdb_environments_def sample_mdb_def by simp blast
  show "mdb_transactions sample_mdb (\<lambda>e. e) st_live"
    by (auto simp: mdb_transactions_def sample_mdb_def sample_begin_def INVALID_DBI_def live_or_null_def same_or_live_def
        split: option.splits)
  show "mdb_cursors sample_mdb st_live sc_live (\<lambda>cu t. True)"
    by (auto simp: mdb_cursors_def sample_mdb_def sample_cursor_open_def sample_cursor_close_def sample_cursor_renew_def
        sample_cursor_get_def split: list.splits)
  show "mdb_operations sample_mdb st_live"
    by (auto simp: mdb_operations_def sample_mdb_def live_or_null_def same_or_live_def split: option.splits)
qed

lemma sample_mdb_commits: "mdb_commits sample_mdb st_live"
  by (auto simp: mdb_commits_def sample_mdb_def split: if_splits)

lemma sample_mdb_store: "mdb_store sample_mdb st_live (\<lambda>t. map_of (st_map t))"
  by (auto simp: mdb_store_def sample_mdb_def update_conv' delete_conv' split: if_splits option.splits)

lemma lmdb_stores_hold:
  fixes lib :: "('env, 'txn, 'cursor, 'l) mdb_lib"
  assumes lib: "mdb_library lib created opened alive clive bound" and store: "mdb_store lib alive view"
    and b: "b \<noteq> IA_ITERATE"
  shows "stores (ia_lmdb mem lib) (lmdb_idle opened alive clive) (lmdb_ready alive bound) (lmdb_view view) b"
  unfolding stores_def
proof (intro allI impI conjI)
  fix c c' :: "('txn, 'cursor) lmdb_context" and w w' :: "('env, 'l) lmdb_world" and kv rc kv'
  assume idle: "lmdb_idle opened alive clive c w" and ready: "lmdb_ready alive bound b c w" and kv: "kv_ready kv"
  obtain t self where t: "lc_txn c = Some t" "alive t" and self: "lw_priv w = Some self"
    using idle ready by (auto simp: lmdb_ready_def lmdb_idle_def lmdb_opened_def)
  note codes = mdb_lib_codes [OF lib]
  let ?k = "\<lparr>mv_size = kv_ksize kv, mv_data = kv_k kv\<rparr>" and ?v = "\<lparr>mv_size = kv_vsize kv, mv_data = kv_v kv\<rparr>"
  have data: "\<exists>t'. lc_txn c' = Some t' \<and> alive t'"
    if "ia_lmdb_next lib c step kv w = Some (rc, kv', c', w')" "step \<in> {IA_SET, IA_DELETE, IA_GET}" for step
    using lmdb_data_ok [OF lib _ self that(2) kv, of c] that(1) t by fastforce
  show "set_view (lmdb_view view c) kv rc (lmdb_view view c')"
    if n: "d_next (ia_lmdb mem lib) c IA_SET kv w = Some (rc, kv', c', w')"
  proof -
    have n: "ia_lmdb_next lib c IA_SET kv w = Some (rc, kv', c', w')" using n by (simp add: ia_lmdb_def)
    obtain t' where t': "lc_txn c' = Some t'" using data [OF n] by auto
    obtain r l where "mdb_put lib (Some t) (lp_dbi self) ?k ?v 0 (lw_lib w) = Some (r, Some t', l)" "rc = (if r = 0 then 0 else -1)"
      using n t self t' by (auto simp: ia_lmdb_next_def codes Option.bind_eq_Some_conv)
    moreover note store [unfolded mdb_store_def, THEN conjunct1, rule_format, OF t(2) this(1)]
    ultimately show ?thesis using t t' by (auto simp: set_view_def lmdb_view_def val_bytes_kv)
  qed
  show "delete_view (lmdb_view view c) kv rc (lmdb_view view c')"
    if n: "d_next (ia_lmdb mem lib) c IA_DELETE kv w = Some (rc, kv', c', w')"
  proof -
    have n: "ia_lmdb_next lib c IA_DELETE kv w = Some (rc, kv', c', w')" using n by (simp add: ia_lmdb_def)
    obtain t' where t': "lc_txn c' = Some t'" using data [OF n] by auto
    obtain r l where "mdb_del lib (Some t) (lp_dbi self) ?k None (lw_lib w) = Some (r, Some t', l)"
      "rc = (if r = MDB_NOTFOUND lib then ENOENT else if r \<noteq> 0 then -1 else r)"
      using n t self t' by (auto simp: ia_lmdb_next_def codes Option.bind_eq_Some_conv)
    moreover note store [unfolded mdb_store_def, THEN conjunct2, THEN conjunct1, rule_format, OF t(2) this(1)]
    ultimately show ?thesis
      using t t' by (auto simp: delete_view_def lmdb_view_def val_bytes_kv split: if_splits)
  qed
  show "get_view (lmdb_view view c) kv rc (lmdb_view view c')"
    if n: "d_next (ia_lmdb mem lib) c IA_GET kv w = Some (rc, kv', c', w')"
  proof -
    have n: "ia_lmdb_next lib c IA_GET kv w = Some (rc, kv', c', w')" using n by (simp add: ia_lmdb_def)
    obtain r v l where "mdb_get lib (Some t) (lp_dbi self) ?k (lw_lib w) = Some (r, v, l)"
      "rc = (if r \<noteq> 0 then if r \<noteq> MDB_NOTFOUND lib then -1 else ENOENT else r)" "c' = c"
      using n t self by (auto simp: ia_lmdb_next_def codes Option.bind_eq_Some_conv)
    moreover note store [unfolded mdb_store_def, THEN conjunct2, THEN conjunct2, rule_format, OF t(2) this(1)]
    ultimately show ?thesis
      using t by (auto simp: get_view_def lmdb_view_def val_bytes_kv split: if_splits)
  qed
qed

section \<open>Properties\<close>

lemma lmdb_close_ok:
  assumes lib: "mdb_library lib created opened alive clive bound"
    and env: "lw_priv w = Some self" "\<And>e. lp_env self = Some e \<Longrightarrow> created e"
    and dbi: "lp_dbi self \<noteq> INVALID_DBI \<Longrightarrow> \<exists>e. lp_env self = Some e \<and> opened e"
  shows "\<exists>w'. ia_lmdb_close lib w = Some (0, w') \<and> lw_priv w' = None"
proof -
  have envs: "mdb_environments lib created opened" using lib by (simp add: mdb_library_def)
  obtain l1 where 1: "(if lp_dbi self \<noteq> INVALID_DBI then mdb_dbi_close lib (lp_env self) (lp_dbi self) (lw_lib w)
      else Some (lw_lib w)) = Some l1"
    using dbi envs unfolding mdb_environments_def by (cases "lp_dbi self = INVALID_DBI") fastforce+
  obtain l2 where 2: "(if lp_env self \<noteq> None then mdb_env_close lib (lp_env self) l1 else Some l1) = Some l2"
    using env(2) envs unfolding mdb_environments_def by (cases "lp_env self") fastforce+
  have "ia_lmdb_close lib w = Some (0, \<lparr>lw_priv = None, lw_lib = l2\<rparr>)"
    unfolding ia_lmdb_close_def env(1) option.case 1 Option.bind.simps 2 by simp
  then show ?thesis by simp
qed

text \<open>
  What an open leaves behind: no environment, a created one, or, exactly when it returns 0, an opened
  one; the handle is not set yet.
\<close>

definition lmdb_half_open :: "('env \<Rightarrow> bool) \<Rightarrow> ('env, 'l) lmdb_world \<Rightarrow> bool" where
  "lmdb_half_open created w \<longleftrightarrow> (case lw_priv w of None \<Rightarrow> True
     | Some self \<Rightarrow> lp_dbi self = INVALID_DBI \<and> live_or_null created (lp_env self))"

lemma lmdb_open_ok:
  assumes lib: "mdb_library lib created opened alive clive bound"
  shows "\<exists>rc w'. ia_lmdb_open mem lib conf datadir w = Some (rc, w') \<and> rc \<in> {0, -1} \<and> lmdb_half_open created w' \<and>
    (rc = 0 \<longrightarrow> lmdb_opened opened w' \<and> mem \<and> c_walmode conf \<noteq> IA_WAL_ON)"
proof (cases mem)
  case False
  then show ?thesis by (simp add: ia_lmdb_open_def lmdb_half_open_def)
next
  case mem: True
  note codes = mdb_lib_codes [OF lib]
  have envs: "mdb_environments lib created opened" using lib by (simp add: mdb_library_def)
  have "\<exists>rc ep l'. mdb_env_create lib None l = Some (rc, ep, l') \<and>
      (if rc = 0 then \<exists>e. ep = Some e \<and> created e else ep = None)" for l
    using envs unfolding mdb_environments_def by blast
  then obtain rc1 ep l1 where 1: "mdb_env_create lib None (lw_lib w) = Some (rc1, ep, l1)"
    "if rc1 = 0 then \<exists>e. ep = Some e \<and> created e else ep = None" by blast
  show ?thesis
  proof (cases "rc1 = 0")
    case False
    then show ?thesis using mem 1 by (simp add: ia_lmdb_open_def lmdb_half_open_def codes)
  next
    case rc1: True
    then obtain e where e: "ep = Some e" "created e" using 1 by auto
    have "\<exists>rc e' l'. mdb_env_set_mapsize lib (Some e) n l = Some (rc, Some e', l') \<and> created e'" for n l
      using envs e(2) unfolding mdb_environments_def by blast
    then obtain rc2 e2 l2 where 2: "mdb_env_set_mapsize lib (Some e) 4294967296 l1 = Some (rc2, Some e2, l2)" "created e2" by blast
    let ?fl = "lmdb_modeflags lib (c_syncmode conf) OR MDB_NORDAHEAD lib"
    have "\<exists>rc e' l'. mdb_env_open lib (Some e2) d fl m l = Some (rc, Some e', l') \<and> created e' \<and> (rc = 0 \<longrightarrow> opened e')" for d fl m l
      using envs 2(2) unfolding mdb_environments_def by blast
    then obtain rc3 e3 l3 where 3: "mdb_env_open lib (Some e2) datadir ?fl 0x1A4 l2 = Some (rc3, Some e3, l3)"
      "created e3" "rc3 = 0 \<longrightarrow> opened e3" by blast
    show ?thesis
      using mem 1 rc1 e 2 3 by (simp add: ia_lmdb_open_def lmdb_half_open_def lmdb_opened_def codes Let_def)
  qed
qed

lemma lmdb_opened_created: "mdb_library lib created opened alive clive bound \<Longrightarrow> opened e \<Longrightarrow> created e"
  unfolding mdb_library_def mdb_environments_def by blast

text \<open>What \<open>close\<close> asks for; a failed \<open>open\<close> and any number of doers leave it.\<close>

definition lmdb_closeable :: "('env \<Rightarrow> bool) \<Rightarrow> ('env \<Rightarrow> bool) \<Rightarrow> ('env, 'l) lmdb_world \<Rightarrow> bool" where
  "lmdb_closeable created opened w \<longleftrightarrow> (case lw_priv w of None \<Rightarrow> True
     | Some self \<Rightarrow> live_or_null created (lp_env self) \<and>
         (lp_dbi self \<noteq> INVALID_DBI \<longrightarrow> (\<exists>e. lp_env self = Some e \<and> opened e)))"

lemma lmdb_closeable_close:
  assumes lib: "mdb_library lib created opened alive clive bound" and w: "lmdb_closeable created opened w"
  shows "\<exists>w'. ia_lmdb_close lib w = Some (0, w') \<and> lw_priv w' = None"
proof (cases "lw_priv w")
  case (Some self)
  then show ?thesis using w by (intro lmdb_close_ok [OF lib, of w self]) (auto simp: lmdb_closeable_def)
qed (simp add: ia_lmdb_close_def)

lemma lmdb_program_holds:
  fixes lib :: "('env, 'txn, 'cursor, 'l) mdb_lib"
  assumes lib: "mdb_library lib created opened alive clive bound" and commits: "mdb_commits lib alive"
  shows "program_driver (ia_lmdb mem lib) (lmdb_opened opened) (lmdb_idle opened alive clive) (lmdb_ready alive bound) lmdb_rely
    (\<lambda>w. lw_priv w = None) (lmdb_closeable created opened)"
proof (intro program_driver.intro program_driver_axioms.intro lmdb_contract_holds [OF lib commits])
  fix w w' :: "('env, 'l) lmdb_world" and conf dir opt arg rc
  have "lmdb_closeable created opened v" if "lmdb_half_open created v" for v
    using that by (auto simp: lmdb_closeable_def lmdb_half_open_def split: option.splits)
  then show "\<exists>rc w'. d_open (ia_lmdb mem lib) conf dir w = Some (rc, w') \<and>
      (rc = 0 \<and> lmdb_opened opened w' \<or> rc = -1 \<and> lmdb_closeable created opened w')"
    using lmdb_open_ok [OF lib, of mem conf dir w] by (auto simp: ia_lmdb_def)
  show "lmdb_closeable created opened w \<Longrightarrow> d_close (ia_lmdb mem lib) w \<noteq> None"
    using lmdb_closeable_close [OF lib, of w] by (auto simp: ia_lmdb_def)
  show "lmdb_opened opened w \<Longrightarrow> lmdb_closeable created opened w"
    using lmdb_opened_created [OF lib] by (auto simp: lmdb_opened_def lmdb_closeable_def)
  show "lw_priv w = None \<Longrightarrow> lmdb_closeable created opened w" by (simp add: lmdb_closeable_def)
  show "d_option (ia_lmdb mem lib) = Some opt \<Longrightarrow> lw_priv w' = None" by (simp add: ia_lmdb_def)
qed



text \<open>
  Opening the LMDB driver returns 0 or -1 and never crashes; it opens the database exactly when
  it returns 0, which it never does with the write-ahead log switched on; whatever it returned, and
  whether a doer has opened the table since or not, closing releases what it acquired.
\<close>

theorem lmdb_open_close:
  assumes lib: "mdb_library lib created opened alive clive bound"
  shows "\<exists>rc w'. ia_lmdb_open mem lib conf datadir w = Some (rc, w') \<and> rc \<in> {0, -1} \<and>
    (rc = 0 \<longrightarrow> lmdb_opened opened w' \<and> mem \<and> c_walmode conf \<noteq> IA_WAL_ON) \<and>
    (\<forall>w''. lmdb_rely w' w'' \<and> (rc = 0 \<or> w'' = w') \<longrightarrow> (\<exists>w3. ia_lmdb_close lib w'' = Some (0, w3) \<and> lw_priv w3 = None))"
proof -
  obtain rc w' where r: "ia_lmdb_open mem lib conf datadir w = Some (rc, w')" "rc \<in> {0, -1}" "lmdb_half_open created w'"
    "rc = 0 \<longrightarrow> lmdb_opened opened w' \<and> mem \<and> c_walmode conf \<noteq> IA_WAL_ON"
    using lmdb_open_ok [OF lib] by blast
  have "\<exists>w3. ia_lmdb_close lib w'' = Some (0, w3) \<and> lw_priv w3 = None"
    if q: "lmdb_rely w' w''" "rc = 0 \<or> w'' = w'" for w''
  proof (cases "rc = 0")
    case True
    then have "lmdb_opened opened w''" using r(4) lmdb_opened_rely [OF _ q(1)] by blast
    then obtain self e where "lw_priv w'' = Some self" "lp_env self = Some e" "opened e" by (auto simp: lmdb_opened_def)
    then show ?thesis using lmdb_opened_created [OF lib] by (intro lmdb_close_ok [OF lib, of w'' self]) auto
  next
    case False
    then have w: "w'' = w'" using q(2) by simp
    show ?thesis
    proof (cases "lw_priv w'")
      case (Some self)
      then show ?thesis using r(3) w by (intro lmdb_close_ok [OF lib, of w'' self]) (auto simp: lmdb_half_open_def)
    qed (simp add: w ia_lmdb_close_def)
  qed
  with r show ?thesis by blast
qed

theorem lmdb_open_close_witness:
  "\<exists>w'. ia_lmdb_open True sample_mdb (e_conf sample_env) ''data'' \<lparr>lw_priv = None, lw_lib = []\<rparr> = Some (0, w') \<and>
     lmdb_opened (\<lambda>e. e) w' \<and> (\<exists>w3. ia_lmdb_close sample_mdb w' = Some (0, w3) \<and> lw_priv w3 = None)"
proof -
  have "\<exists>w'. ia_lmdb_open True sample_mdb (e_conf sample_env) ''data'' \<lparr>lw_priv = None, lw_lib = []\<rparr> = Some (0, w')"
    by (simp add: ia_lmdb_open_def sample_mdb_def sample_env_def blank_config_def)
  then show ?thesis
    using lmdb_open_close [OF sample_mdb_library, of True "e_conf sample_env" "''data''" "\<lparr>lw_priv = None, lw_lib = []\<rparr>"]
    by auto
qed

text \<open>
  C24: inside a transaction of the LMDB driver set, delete and get act as on a map, when the
  library's transactions do: a set that returns 0 has stored the record, a delete or get returns
  ENOENT exactly if there is no such record, and the changes of one doer are visible to it at once.
\<close>

theorem lmdb_stores:
  assumes "mdb_library lib created opened alive clive bound" and "mdb_store lib alive view" and "b \<noteq> IA_ITERATE"
  shows "stores (ia_lmdb mem lib) (lmdb_idle opened alive clive) (lmdb_ready alive bound) (lmdb_view view) b"
  by (rule lmdb_stores_hold [OF assms])

theorem lmdb_stores_witness:
  "stores (ia_lmdb True sample_mdb) (lmdb_idle (\<lambda>e. e) st_live sc_live) (lmdb_ready st_live (\<lambda>cu t. True))
     (lmdb_view (\<lambda>t. map_of (st_map t))) IA_CRUD"
  by (rule lmdb_stores [OF sample_mdb_library sample_mdb_store]) simp

text \<open>
  When a commit fails, the LMDB driver aborts the transaction that the commit has just freed:
  in a library that does not allow a freed handle (LMDB frees it on every path) the operation is
  not defined.
\<close>

theorem lmdb_commit_failure:
  assumes "step \<in> {IA_SET, IA_BATCH, IA_CRUD, IA_DELETE}"
    and "mdb_txn_commit lib (lc_txn ctx) (lw_lib w) = Some (rc, freed, l)" and "rc \<noteq> MDB_SUCCESS lib"
    and "mdb_txn_abort lib freed l = None"
  shows "ia_lmdb_done lib ctx step w = None"
  using assms by (simp add: ia_lmdb_done_def Let_def)

text \<open>The disk is full: the commit fails with \<open>ENOSPC\<close>, and frees the transaction.\<close>

definition full_disk :: "(bool, sample_txn, sample_cursor, records) mdb_lib" where
  "full_disk = sample_mdb\<lparr>mdb_txn_commit := (\<lambda>tp l. case tp of None \<Rightarrow> Some (22, None, l)
     | Some t \<Rightarrow> if st_live t then Some (28, Some (t\<lparr>st_live := False\<rparr>), l) else None)\<rparr>"

theorem lmdb_commit_failure_witness:
  "ia_lmdb_done full_disk \<lparr>lc_txn = Some \<lparr>st_map = [], st_live = True, st_write = True\<rparr>, lc_cursor = None\<rparr> IA_SET
     \<lparr>lw_priv = Some \<lparr>lp_env = Some True, lp_dbi = 1\<rparr>, lw_lib = []\<rparr> = None"
  by (rule lmdb_commit_failure) (simp_all add: full_disk_def, simp_all add: sample_mdb_def)

text \<open>
  C25: on any driver that keeps the contract and whose transactions are stores, and with generators
  that share no key, the crud benchmark never reports a missing record, whatever the other doers do
  and whether missing keys are ignored or not: each transaction deletes and reads what it has just
  written itself.
\<close>

theorem crud_finds_records:
  assumes "driver_contract drv opened idle ready rely" and "stores drv idle ready view IA_CRUD"
    and "benv_ok rely (do_hg (s_doer s)) env" and "e_drv env = drv"
    and "sys_ok idle env ph k s" and "ph \<in> {Fresh, Flushed}" and "IA_CRUD \<in> mask_set (do_benchmask (s_doer s))"
    and "doer_apart env s" and "ia_run_benchmark env IA_CRUD s = Some (rc, s')"
  shows "rc \<noteq> ENOENT"
  using driver_contract.crud_benchmark_finds [OF assms(1,2) _ assms(5,6,7,8,9)] assms(3,4) by (simp add: doer_env_def)

theorem crud_finds_records_witness:
  "\<exists>rc s'. ia_run_benchmark (sample_env_on (ia_lmdb True sample_mdb)) IA_CRUD
      (sample_sys_on \<lparr>lc_txn = None, lc_cursor = None\<rparr> \<lparr>lw_priv = Some \<lparr>lp_env = Some True, lp_dbi = 1\<rparr>, lw_lib = []\<rparr> 63)
      = Some (rc, s') \<and> rc \<noteq> ENOENT"
proof -
  let ?drv = "ia_lmdb True sample_mdb" and ?C = "lmdb_idle (\<lambda>e. e) st_live sc_live"
  let ?s = "sample_sys_on \<lparr>lc_txn = None, lc_cursor = None\<rparr> \<lparr>lw_priv = Some \<lparr>lp_env = Some True, lp_dbi = 1\<rparr>, lw_lib = []\<rparr> 63"
  have rob: "robust_driver ?drv (lmdb_opened (\<lambda>e. e)) ?C (lmdb_ready st_live (\<lambda>cu t. True)) lmdb_rely"
    by (rule lmdb_contract_holds [OF sample_mdb_library sample_mdb_commits])
  then have con: "driver_contract ?drv (lmdb_opened (\<lambda>e. e)) ?C (lmdb_ready st_live (\<lambda>cu t. True)) lmdb_rely"
    by (simp add: robust_driver_def)
  have st: "stores ?drv ?C (lmdb_ready st_live (\<lambda>cu t. True)) (lmdb_view (\<lambda>t. map_of (st_map t))) IA_CRUD"
    by (rule lmdb_stores_hold [OF sample_mdb_library sample_mdb_store]) simp
  have idle: "?C \<lparr>lc_txn = None, lc_cursor = None\<rparr> \<lparr>lw_priv = Some \<lparr>lp_env = Some True, lp_dbi = 1\<rparr>, lw_lib = []\<rparr>"
    by (simp add: lmdb_idle_def lmdb_opened_def INVALID_DBI_def) blast
  obtain k where ok: "sys_ok ?C (sample_env_on ?drv) Fresh k ?s"
    using sample_sys_on_ok [of ?C, OF idle] by blast
  have env: "benv_ok lmdb_rely (do_hg (s_doer ?s)) (sample_env_on ?drv)" "e_drv (sample_env_on ?drv) = ?drv"
    by (rule sample_env_on_ok) (simp_all add: sample_env_on_def)
  have m: "IA_CRUD \<in> mask_set (do_benchmask (s_doer ?s))"
    using sample_in_mask [of IA_CRUD] by (simp add: sample_sys_on_def sample_sys_def below_MAX)
  have denv: "doer_env lmdb_rely ?drv (sample_env_on ?drv) ?s" using env by (simp add: doer_env_def)
  have turns: "turns_ok ?C (sample_env_on ?drv) IA_CRUD s1"
    if "doer_env lmdb_rely ?drv (sample_env_on ?drv) s1" "do_benchmask (s_doer s1) = do_benchmask (s_doer ?s)" for s1
    by (rule driver_contract.bench_step_ok [OF con that(1)]) (use m that(2) in simp_all)
  obtain rc s' where run: "ia_run_benchmark (sample_env_on ?drv) IA_CRUD ?s = Some (rc, s')"
    using driver_contract.run_benchmark_ok [OF con denv ok _ m turns] by blast
  have "rc \<noteq> ENOENT"
    by (rule crud_finds_records [OF con st env ok _ m sample_sys_on_apart run]) simp
  then show ?thesis using run by blast
qed

end
