(* ===== verification/DriverMdbx.thy ===== *)
theory DriverMdbx
  imports Driver "HOL-Library.Monad_Syntax"
begin

text \<open>
  The MDBX driver (\<open>src/drivers/ia_mdbx.c\<close>).  The library is not part of the program: its functions
  and constants are the fields of a record that the driver's operations take as an argument.  An
  object of the library that a doer owns, a transaction or a cursor, is the value its pointer points
  to, so that a call that changes the object returns its new value; an operation on an object that
  has been freed is \<open>None\<close> in a library that does not allow it.  \<open>'l\<close> is the rest of the library's
  state, the database itself.
\<close>

section \<open>The library\<close>

record mdbx_val =
  iov_len :: u64
  iov_base :: "u8 list option"

record ('env, 'txn, 'cursor, 'l) mdbx_lib =
  MDBX_SUCCESS :: int
  MDBX_NOTFOUND :: int
  MDBX_SYNC_DURABLE :: u32
  MDBX_LIFORECLAIM :: u32
  MDBX_SAFE_NOSYNC :: u32
  MDBX_NOMETASYNC :: u32
  MDBX_WRITEMAP :: u32
  MDBX_UTTERLY_NOSYNC :: u32
  MDBX_COALESCE :: u32
  MDBX_EXCLUSIVE :: u32
  MDBX_PAGEPERTURB :: u32
  MDBX_NOMEMINIT :: u32
  MDBX_NORDAHEAD :: u32
  MDBX_TXN_RDONLY :: u32
  MDBX_NEXT :: nat
  mdbx_env_create :: "'env option \<Rightarrow> 'l \<Rightarrow> (int \<times> 'env option \<times> 'l) option"
  mdbx_env_set_geometry :: "'env option \<Rightarrow> int \<Rightarrow> int \<Rightarrow> int \<Rightarrow> int \<Rightarrow> int \<Rightarrow> int \<Rightarrow> 'l \<Rightarrow> (int \<times> 'env option \<times> 'l) option"
  mdbx_env_open :: "'env option \<Rightarrow> string \<Rightarrow> u32 \<Rightarrow> nat \<Rightarrow> 'l \<Rightarrow> (int \<times> 'env option \<times> 'l) option"
  mdbx_env_close :: "'env option \<Rightarrow> 'l \<Rightarrow> 'l option"
  mdbx_dbi_open :: "'txn option \<Rightarrow> string option \<Rightarrow> u32 \<Rightarrow> u32 \<Rightarrow> 'l \<Rightarrow> (int \<times> u32 \<times> 'txn option \<times> 'l) option"
  mdbx_dbi_close :: "'env option \<Rightarrow> u32 \<Rightarrow> 'l \<Rightarrow> 'l option"
  mdbx_txn_begin :: "'env option \<Rightarrow> 'txn option \<Rightarrow> u32 \<Rightarrow> 'txn option \<Rightarrow> 'l \<Rightarrow> (int \<times> 'txn option \<times> 'l) option"
  mdbx_txn_commit :: "'txn option \<Rightarrow> 'l \<Rightarrow> (int \<times> 'txn option \<times> 'l) option"
  mdbx_txn_abort :: "'txn option \<Rightarrow> 'l \<Rightarrow> (int \<times> 'l) option"
  mdbx_txn_reset :: "'txn option \<Rightarrow> 'l \<Rightarrow> (int \<times> 'txn option \<times> 'l) option"
  mdbx_txn_renew :: "'txn option \<Rightarrow> 'l \<Rightarrow> (int \<times> 'txn option \<times> 'l) option"
  mdbx_cursor_open :: "'txn option \<Rightarrow> u32 \<Rightarrow> 'cursor option \<Rightarrow> 'l \<Rightarrow> (int \<times> 'cursor option \<times> 'l) option"
  mdbx_cursor_close :: "'cursor option \<Rightarrow> 'l \<Rightarrow> 'l option"
  mdbx_cursor_renew :: "'txn option \<Rightarrow> 'cursor option \<Rightarrow> 'l \<Rightarrow> (int \<times> 'cursor option \<times> 'l) option"
  mdbx_cursor_get :: "'txn option \<Rightarrow> 'cursor option \<Rightarrow> nat \<Rightarrow> 'l \<Rightarrow> (int \<times> mdbx_val \<times> mdbx_val \<times> 'cursor option \<times> 'l) option"
  mdbx_put :: "'txn option \<Rightarrow> u32 \<Rightarrow> mdbx_val \<Rightarrow> mdbx_val \<Rightarrow> u32 \<Rightarrow> 'l \<Rightarrow> (int \<times> 'txn option \<times> 'l) option"
  mdbx_del :: "'txn option \<Rightarrow> u32 \<Rightarrow> mdbx_val \<Rightarrow> mdbx_val option \<Rightarrow> 'l \<Rightarrow> (int \<times> 'txn option \<times> 'l) option"
  mdbx_get :: "'txn option \<Rightarrow> u32 \<Rightarrow> mdbx_val \<Rightarrow> 'l \<Rightarrow> (int \<times> mdbx_val \<times> 'l) option"

text \<open>
  A cursor holds a pointer to the transaction it was opened or renewed in; \<open>mdbx_cursor_get\<close> is given
  that transaction, the one of the doer, as its first argument.
\<close>

section \<open>State of the driver\<close>

definition MDBX_INVALID_DBI :: u32 where "MDBX_INVALID_DBI = -1"

record 'env mdbx_private =
  xp_env :: "'env option"
  xp_dbi :: u32

record ('txn, 'cursor) mdbx_context =
  xc_txn :: "'txn option"
  xc_cursor :: "'cursor option"

text \<open>The Boolean options of the command line (\<open>globals\<close>).\<close>

record mdbx_opts =
  xo_liforeclaim :: int
  xo_coalesce :: int
  xo_exclusive :: int
  xo_pageperturb :: int
  xo_nomeminit :: int
  xo_nordahead :: int
  xo_nometasync :: int

record ('env, 'l) mdbx_world =
  xw_priv :: "'env mdbx_private option"
  xw_globals :: mdbx_opts
  xw_lib :: 'l

section \<open>Options\<close>

datatype mdbx_opt = LIFORECLAIM | COALESCE | EXCLUSIVE | PAGEPERTURB | NOMEMINIT | NORDAHEAD | NOMETASYNC

fun opt_name :: "mdbx_opt \<Rightarrow> string" where
  "opt_name LIFORECLAIM = ''LIFORECLAIM''"
| "opt_name COALESCE = ''COALESCE''"
| "opt_name EXCLUSIVE = ''EXCLUSIVE''"
| "opt_name PAGEPERTURB = ''PAGEPERTURB''"
| "opt_name NOMEMINIT = ''NOMEMINIT''"
| "opt_name NORDAHEAD = ''NORDAHEAD''"
| "opt_name NOMETASYNC = ''NOMETASYNC''"

fun opt_get :: "mdbx_opt \<Rightarrow> mdbx_opts \<Rightarrow> int" where
  "opt_get LIFORECLAIM g = xo_liforeclaim g"
| "opt_get COALESCE g = xo_coalesce g"
| "opt_get EXCLUSIVE g = xo_exclusive g"
| "opt_get PAGEPERTURB g = xo_pageperturb g"
| "opt_get NOMEMINIT g = xo_nomeminit g"
| "opt_get NORDAHEAD g = xo_nordahead g"
| "opt_get NOMETASYNC g = xo_nometasync g"

fun opt_set :: "mdbx_opt \<Rightarrow> int \<Rightarrow> mdbx_opts \<Rightarrow> mdbx_opts" where
  "opt_set LIFORECLAIM v g = g\<lparr>xo_liforeclaim := v\<rparr>"
| "opt_set COALESCE v g = g\<lparr>xo_coalesce := v\<rparr>"
| "opt_set EXCLUSIVE v g = g\<lparr>xo_exclusive := v\<rparr>"
| "opt_set PAGEPERTURB v g = g\<lparr>xo_pageperturb := v\<rparr>"
| "opt_set NOMEMINIT v g = g\<lparr>xo_nomeminit := v\<rparr>"
| "opt_set NORDAHEAD v g = g\<lparr>xo_nordahead := v\<rparr>"
| "opt_set NOMETASYNC v g = g\<lparr>xo_nometasync := v\<rparr>"

text \<open>The seven options in the order of the loop body, each tried only while \<open>done\<close> is 0.\<close>

definition mdbx_option_names :: "mdbx_opt list" where
  "mdbx_option_names = [LIFORECLAIM, COALESCE, EXCLUSIVE, PAGEPERTURB, NOMEMINIT, NORDAHEAD, NOMETASYNC]"

definition mdbx_try :: "mdbx_opt \<Rightarrow> int \<times> string \<times> mdbx_opts \<Rightarrow> int \<times> string \<times> mdbx_opts" where
  "mdbx_try opt st = (case st of (don, arg, g) \<Rightarrow>
     if don \<noteq> 0 then st
     else (case ia_parse_option_bool arg (opt_name opt) (opt_get opt g) of
       (don', arg', v) \<Rightarrow> (don', arg', opt_set opt v g)))"

partial_function (option) mdbx_option_loop :: "int \<times> string \<times> mdbx_opts \<Rightarrow> (int \<times> string \<times> mdbx_opts) option" where
  "mdbx_option_loop st = (case st of (don, arg, g) \<Rightarrow>
     if arg \<noteq> [] \<and> don = 0 then mdbx_option_loop (fold mdbx_try mdbx_option_names st) else Some st)"

declare mdbx_option_loop.simps [code]

definition ia_mdbx_option ::
  "('txn, 'cursor) mdbx_context option \<Rightarrow> string \<Rightarrow> ('env, 'l) mdbx_world \<Rightarrow> (int \<times> ('env, 'l) mdbx_world) option" where
  "ia_mdbx_option ctx arg w =
     (if ctx \<noteq> None then Some (0, w)
      else if arg = ''--help'' then Some (0, w)
      else do { (don, arg', g) \<leftarrow> mdbx_option_loop (0, arg, xw_globals w);
                Some (if don = 1 then 0 else if don \<noteq> 0 then don else -1, w\<lparr>xw_globals := g\<rparr>) })"

definition peek_option_bool :: "u32 \<Rightarrow> u32 \<Rightarrow> int \<Rightarrow> u32 option" where
  "peek_option_bool dflt opt from =
     (if from = ia_opt_bool_default then Some dflt
      else if from = ia_opt_bool_off then Some (dflt AND NOT opt)
      else if from = ia_opt_bool_on then Some (dflt OR opt)
      else None)"

section \<open>Opening and closing\<close>

fun mdbx_syncflags :: "('env, 'txn, 'cursor, 'l) mdbx_lib \<Rightarrow> iasyncmode \<Rightarrow> u32" where
  "mdbx_syncflags lib IA_SYNC = MDBX_SYNC_DURABLE lib OR MDBX_LIFORECLAIM lib"
| "mdbx_syncflags lib IA_LAZY = MDBX_SAFE_NOSYNC lib OR MDBX_NOMETASYNC lib"
| "mdbx_syncflags lib IA_NOSYNC = MDBX_WRITEMAP lib OR MDBX_UTTERLY_NOSYNC lib"

fun mdbx_walflags :: "('env, 'txn, 'cursor, 'l) mdbx_lib \<Rightarrow> iawalmode \<Rightarrow> u32 \<Rightarrow> u32" where
  "mdbx_walflags lib IA_WAL_INDEF fl = fl"
| "mdbx_walflags lib IA_WAL_OFF fl = fl AND NOT (MDBX_NOMETASYNC lib)"
| "mdbx_walflags lib IA_WAL_ON fl = fl OR MDBX_NOMETASYNC lib"

definition mdbx_optflags :: "('env, 'txn, 'cursor, 'l) mdbx_lib \<Rightarrow> mdbx_opts \<Rightarrow> u32 \<Rightarrow> u32 option" where
  "mdbx_optflags lib g fl =
     do { fl \<leftarrow> peek_option_bool fl (MDBX_LIFORECLAIM lib) (xo_liforeclaim g);
          fl \<leftarrow> peek_option_bool fl (MDBX_COALESCE lib) (xo_coalesce g);
          fl \<leftarrow> peek_option_bool fl (MDBX_EXCLUSIVE lib) (xo_exclusive g);
          fl \<leftarrow> peek_option_bool fl (MDBX_PAGEPERTURB lib) (xo_pageperturb g);
          fl \<leftarrow> peek_option_bool fl (MDBX_NOMEMINIT lib) (xo_nomeminit g);
          fl \<leftarrow> peek_option_bool fl (MDBX_NORDAHEAD lib) (xo_nordahead g);
          peek_option_bool fl (MDBX_NOMETASYNC lib) (xo_nometasync g) }"

definition ia_mdbx_open ::
  "bool \<Rightarrow> ('env, 'txn, 'cursor, 'l) mdbx_lib \<Rightarrow> iaconfig \<Rightarrow> string \<Rightarrow> ('env, 'l) mdbx_world
     \<Rightarrow> (int \<times> ('env, 'l) mdbx_world) option" where
  "ia_mdbx_open mem lib conf datadir w =
     (if \<not> mem then Some (-1, w\<lparr>xw_priv := None\<rparr>)
      else do {
        let self = \<lparr>xp_env = None, xp_dbi = MDBX_INVALID_DBI\<rparr>;
        (rc, env, l) \<leftarrow> mdbx_env_create lib (xp_env self) (xw_lib w);
        let self = self\<lparr>xp_env := env\<rparr>;
        if rc \<noteq> MDBX_SUCCESS lib then Some (-1, w\<lparr>xw_priv := Some self, xw_lib := l\<rparr>)
        else do {
          let kilo = 1024;
          let mega = kilo * 1024;
          let giga = mega * 1024;
          (rc, env, l) \<leftarrow> mdbx_env_set_geometry lib (xp_env self) (4 * giga) (4 * giga) (128 * giga) (64 * mega) (128 * mega) (-1) l;
          let self = self\<lparr>xp_env := env\<rparr>;
          if rc \<noteq> MDBX_SUCCESS lib then Some (-1, w\<lparr>xw_priv := Some self, xw_lib := l\<rparr>)
          else do {
            modeflags \<leftarrow> mdbx_optflags lib (xw_globals w) (mdbx_walflags lib (c_walmode conf) (mdbx_syncflags lib (c_syncmode conf)));
            (rc, env, l) \<leftarrow> mdbx_env_open lib (xp_env self) datadir modeflags 0x1A4 l;
            let self = self\<lparr>xp_env := env\<rparr>;
            Some (if rc \<noteq> MDBX_SUCCESS lib then -1 else 0, w\<lparr>xw_priv := Some self, xw_lib := l\<rparr>) } } })"

definition ia_mdbx_close ::
  "('env, 'txn, 'cursor, 'l) mdbx_lib \<Rightarrow> ('env, 'l) mdbx_world \<Rightarrow> (int \<times> ('env, 'l) mdbx_world) option" where
  "ia_mdbx_close lib w =
     (case xw_priv w of
        None \<Rightarrow> Some (0, w)
      | Some self \<Rightarrow> do {
          l \<leftarrow> (if xp_dbi self \<noteq> MDBX_INVALID_DBI then mdbx_dbi_close lib (xp_env self) (xp_dbi self) (xw_lib w)
                else Some (xw_lib w));
          l \<leftarrow> (if xp_env self \<noteq> None then mdbx_env_close lib (xp_env self) l else Some l);
          Some (0, w\<lparr>xw_priv := None, xw_lib := l\<rparr>) })"

definition ia_mdbx_thread_new ::
  "bool \<Rightarrow> ('env, 'txn, 'cursor, 'l) mdbx_lib \<Rightarrow> ('env, 'l) mdbx_world
     \<Rightarrow> (('txn, 'cursor) mdbx_context option \<times> ('env, 'l) mdbx_world) option" where
  "ia_mdbx_thread_new mem lib w =
     do { self \<leftarrow> xw_priv w;
          let ctx = (if mem then Some \<lparr>xc_txn = None, xc_cursor = None\<rparr> else None);
          if xp_dbi self = MDBX_INVALID_DBI then do {
            (rc, txn, l) \<leftarrow> mdbx_txn_begin lib (xp_env self) None (MDBX_TXN_RDONLY lib) None (xw_lib w);
            if rc \<noteq> MDBX_SUCCESS lib then Some (None, w\<lparr>xw_lib := l\<rparr>)
            else do {
              (rc, dbi, txn, l) \<leftarrow> mdbx_dbi_open lib txn None 0 (xp_dbi self) l;
              let self = self\<lparr>xp_dbi := dbi\<rparr>;
              (err, l) \<leftarrow> mdbx_txn_abort lib txn l;
              if err \<noteq> 0 then None
              else if rc \<noteq> MDBX_SUCCESS lib then Some (None, w\<lparr>xw_priv := Some self, xw_lib := l\<rparr>)
              else if xp_dbi self = MDBX_INVALID_DBI then None
              else Some (ctx, w\<lparr>xw_priv := Some self, xw_lib := l\<rparr>) } }
          else Some (ctx, w) }"

definition ia_mdbx_thread_dispose ::
  "('env, 'txn, 'cursor, 'l) mdbx_lib \<Rightarrow> ('txn, 'cursor) mdbx_context \<Rightarrow> ('env, 'l) mdbx_world
     \<Rightarrow> ('env, 'l) mdbx_world option" where
  "ia_mdbx_thread_dispose lib ctx w =
     do { l \<leftarrow> (if xc_cursor ctx \<noteq> None then mdbx_cursor_close lib (xc_cursor ctx) (xw_lib w) else Some (xw_lib w));
          (err, l) \<leftarrow> (if xc_txn ctx \<noteq> None then mdbx_txn_abort lib (xc_txn ctx) l else Some (0, l));
          if err \<noteq> 0 then None else Some (w\<lparr>xw_lib := l\<rparr>) }"

section \<open>Transactions\<close>

text \<open>The two halves of \<open>ia_mdbx_begin\<close>, and the cursor of an iteration.\<close>

definition mdbx_begin_write ::
  "('env, 'txn, 'cursor, 'l) mdbx_lib \<Rightarrow> 'env mdbx_private \<Rightarrow> ('txn, 'cursor) mdbx_context \<Rightarrow> 'l
     \<Rightarrow> (int \<times> ('txn, 'cursor) mdbx_context \<times> 'l) option" where
  "mdbx_begin_write lib self ctx l =
     do { (ctx, l) \<leftarrow> (if xc_cursor ctx \<noteq> None
             then do { l \<leftarrow> mdbx_cursor_close lib (xc_cursor ctx) l; Some (ctx\<lparr>xc_cursor := None\<rparr>, l) }
             else Some (ctx, l));
          (rc, ctx, l) \<leftarrow> (if xc_txn ctx \<noteq> None
             then do { (rc, l) \<leftarrow> mdbx_txn_abort lib (xc_txn ctx) l; Some (rc, ctx\<lparr>xc_txn := None\<rparr>, l) }
             else Some (MDBX_SUCCESS lib, ctx, l));
          if rc \<noteq> MDBX_SUCCESS lib then Some (-1, ctx, l)
          else do {
            (rc, txn, l) \<leftarrow> mdbx_txn_begin lib (xp_env self) None 0 (xc_txn ctx) l;
            let ctx = ctx\<lparr>xc_txn := txn\<rparr>;
            Some (if rc \<noteq> MDBX_SUCCESS lib then -1 else rc, ctx, l) } }"

definition mdbx_begin_cursor ::
  "('env, 'txn, 'cursor, 'l) mdbx_lib \<Rightarrow> 'env mdbx_private \<Rightarrow> int \<Rightarrow> ('txn, 'cursor) mdbx_context \<Rightarrow> 'l
     \<Rightarrow> (int \<times> ('txn, 'cursor) mdbx_context \<times> 'l) option" where
  "mdbx_begin_cursor lib self rc ctx l =
     do { (rc, ctx, l) \<leftarrow> (if xc_cursor ctx \<noteq> None
             then do {
               (rc, cursor, l) \<leftarrow> mdbx_cursor_renew lib (xc_txn ctx) (xc_cursor ctx) l;
               let ctx = ctx\<lparr>xc_cursor := cursor\<rparr>;
               if rc \<noteq> MDBX_SUCCESS lib
               then do { l \<leftarrow> mdbx_cursor_close lib (xc_cursor ctx) l; Some (rc, ctx\<lparr>xc_cursor := None\<rparr>, l) }
               else Some (rc, ctx, l) }
             else Some (rc, ctx, l));
          if xc_cursor ctx = None
          then do {
            (rc, cursor, l) \<leftarrow> mdbx_cursor_open lib (xc_txn ctx) (xp_dbi self) (xc_cursor ctx) l;
            let ctx = ctx\<lparr>xc_cursor := cursor\<rparr>;
            Some (if rc \<noteq> MDBX_SUCCESS lib then -1 else rc, ctx, l) }
          else Some (rc, ctx, l) }"

definition mdbx_renew_reader ::
  "('env, 'txn, 'cursor, 'l) mdbx_lib \<Rightarrow> ('txn, 'cursor) mdbx_context \<Rightarrow> 'l
     \<Rightarrow> (int \<times> ('txn, 'cursor) mdbx_context \<times> 'l) option" where
  "mdbx_renew_reader lib ctx l =
     (if xc_txn ctx \<noteq> None
      then do {
        (rc, txn, l) \<leftarrow> mdbx_txn_renew lib (xc_txn ctx) l;
        let ctx = ctx\<lparr>xc_txn := txn\<rparr>;
        if rc \<noteq> MDBX_SUCCESS lib
        then do { (rc, l) \<leftarrow> mdbx_txn_abort lib (xc_txn ctx) l; Some (rc, ctx\<lparr>xc_txn := None\<rparr>, l) }
        else Some (rc, ctx, l) }
      else Some (MDBX_SUCCESS lib, ctx, l))"

definition mdbx_begin_read ::
  "('env, 'txn, 'cursor, 'l) mdbx_lib \<Rightarrow> 'env mdbx_private \<Rightarrow> iabenchmark \<Rightarrow> ('txn, 'cursor) mdbx_context \<Rightarrow> 'l
     \<Rightarrow> (int \<times> ('txn, 'cursor) mdbx_context \<times> 'l) option" where
  "mdbx_begin_read lib self step ctx l =
     do { (rc, ctx, l) \<leftarrow> mdbx_renew_reader lib ctx l;
          if rc \<noteq> MDBX_SUCCESS lib then Some (-1, ctx, l)
          else do {
            (rc, ctx, l) \<leftarrow> (if xc_txn ctx = None
               then do {
                 (rc, txn, l) \<leftarrow> mdbx_txn_begin lib (xp_env self) None (MDBX_TXN_RDONLY lib) (xc_txn ctx) l;
                 Some (rc, ctx\<lparr>xc_txn := txn\<rparr>, l) }
               else Some (rc, ctx, l));
            if rc \<noteq> MDBX_SUCCESS lib then Some (-1, ctx, l)
            else if step = IA_ITERATE then mdbx_begin_cursor lib self rc ctx l
            else Some (rc, ctx, l) } }"

definition ia_mdbx_begin ::
  "('env, 'txn, 'cursor, 'l) mdbx_lib \<Rightarrow> ('txn, 'cursor) mdbx_context \<Rightarrow> iabenchmark \<Rightarrow> ('env, 'l) mdbx_world
     \<Rightarrow> (int \<times> ('txn, 'cursor) mdbx_context \<times> ('env, 'l) mdbx_world) option" where
  "ia_mdbx_begin lib ctx step w =
     do { self \<leftarrow> xw_priv w;
          if xp_dbi self = MDBX_INVALID_DBI then None
          else if step \<in> {IA_SET, IA_BATCH, IA_CRUD, IA_DELETE}
          then do { (rc, ctx, l) \<leftarrow> mdbx_begin_write lib self ctx (xw_lib w); Some (rc, ctx, w\<lparr>xw_lib := l\<rparr>) }
          else if step \<in> {IA_ITERATE, IA_GET}
          then do { (rc, ctx, l) \<leftarrow> mdbx_begin_read lib self step ctx (xw_lib w); Some (rc, ctx, w\<lparr>xw_lib := l\<rparr>) }
          else None }"

definition ia_mdbx_done ::
  "('env, 'txn, 'cursor, 'l) mdbx_lib \<Rightarrow> ('txn, 'cursor) mdbx_context \<Rightarrow> iabenchmark \<Rightarrow> ('env, 'l) mdbx_world
     \<Rightarrow> (int \<times> ('txn, 'cursor) mdbx_context \<times> ('env, 'l) mdbx_world) option" where
  "ia_mdbx_done lib ctx step w =
     (if step \<in> {IA_SET, IA_BATCH, IA_CRUD, IA_DELETE}
      then do {
        (rc, txn, l) \<leftarrow> mdbx_txn_commit lib (xc_txn ctx) (xw_lib w);
        let ctx = ctx\<lparr>xc_txn := txn\<rparr>;
        if rc \<noteq> MDBX_SUCCESS lib
        then do { (err, l) \<leftarrow> mdbx_txn_abort lib (xc_txn ctx) l; Some (-1, ctx\<lparr>xc_txn := None\<rparr>, w\<lparr>xw_lib := l\<rparr>) }
        else Some (rc, ctx\<lparr>xc_txn := None\<rparr>, w\<lparr>xw_lib := l\<rparr>) }
      else if step \<in> {IA_ITERATE, IA_GET}
      then do {
        (rc, txn, l) \<leftarrow> mdbx_txn_reset lib (xc_txn ctx) (xw_lib w);
        Some (if rc \<noteq> MDBX_SUCCESS lib then -1 else rc, ctx\<lparr>xc_txn := txn\<rparr>, w\<lparr>xw_lib := l\<rparr>) }
      else None)"

section \<open>Operations\<close>

definition ia_mdbx_next ::
  "('env, 'txn, 'cursor, 'l) mdbx_lib \<Rightarrow> ('txn, 'cursor) mdbx_context \<Rightarrow> iabenchmark \<Rightarrow> iakv \<Rightarrow> ('env, 'l) mdbx_world
     \<Rightarrow> (int \<times> iakv \<times> ('txn, 'cursor) mdbx_context \<times> ('env, 'l) mdbx_world) option" where
  "ia_mdbx_next lib ctx step kv w =
     (let k = \<lparr>iov_len = kv_ksize kv, iov_base = kv_k kv\<rparr>;
          v = \<lparr>iov_len = kv_vsize kv, iov_base = kv_v kv\<rparr>
      in do { self \<leftarrow> xw_priv w;
        case step of
          IA_SET \<Rightarrow> do {
            (rc, txn, l) \<leftarrow> mdbx_put lib (xc_txn ctx) (xp_dbi self) k v 0 (xw_lib w);
            Some (if rc \<noteq> MDBX_SUCCESS lib then -1 else rc, kv, ctx\<lparr>xc_txn := txn\<rparr>, w\<lparr>xw_lib := l\<rparr>) }
        | IA_DELETE \<Rightarrow> do {
            (rc, txn, l) \<leftarrow> mdbx_del lib (xc_txn ctx) (xp_dbi self) k None (xw_lib w);
            Some (if rc = MDBX_NOTFOUND lib then ENOENT else if rc \<noteq> MDBX_SUCCESS lib then -1 else rc,
                  kv, ctx\<lparr>xc_txn := txn\<rparr>, w\<lparr>xw_lib := l\<rparr>) }
        | IA_ITERATE \<Rightarrow> do {
            (rc, k, v, cursor, l) \<leftarrow> mdbx_cursor_get lib (xc_txn ctx) (xc_cursor ctx) (MDBX_NEXT lib) (xw_lib w);
            let ctx = ctx\<lparr>xc_cursor := cursor\<rparr>;
            let w = w\<lparr>xw_lib := l\<rparr>;
            if rc = MDBX_SUCCESS lib
            then Some (rc, \<lparr>kv_ksize = iov_len k, kv_vsize = iov_len v, kv_k = iov_base k, kv_v = iov_base v\<rparr>, ctx, w)
            else if rc = MDBX_NOTFOUND lib then Some (ENOENT, no_record, ctx, w)
            else Some (-1, kv, ctx, w) }
        | IA_GET \<Rightarrow> do {
            (rc, v, l) \<leftarrow> mdbx_get lib (xc_txn ctx) (xp_dbi self) k (xw_lib w);
            Some (if rc \<noteq> MDBX_SUCCESS lib then (if rc \<noteq> MDBX_NOTFOUND lib then -1 else ENOENT) else rc,
                  kv, ctx, w\<lparr>xw_lib := l\<rparr>) }
        | _ \<Rightarrow> None })"

definition ia_mdbx ::
  "bool \<Rightarrow> ('env, 'txn, 'cursor, 'l) mdbx_lib \<Rightarrow> (('env, 'l) mdbx_world, ('txn, 'cursor) mdbx_context) iadriver" where
  "ia_mdbx mem lib = \<lparr>d_name = ''mdbx'', d_open = ia_mdbx_open mem lib, d_close = ia_mdbx_close lib,
     d_thread_new = ia_mdbx_thread_new mem lib, d_thread_dispose = ia_mdbx_thread_dispose lib,
     d_begin = ia_mdbx_begin lib, d_next = ia_mdbx_next lib, d_done = ia_mdbx_done lib, d_option = Some ia_mdbx_option\<rparr>"

section \<open>What the driver relies on\<close>

text \<open>
  The documented behaviour of the library.  \<open>created\<close> and \<open>opened\<close> describe an environment, \<open>alive\<close> a
  transaction that has not been freed (by a commit or an abort), \<open>clive\<close> a cursor that has not been
  closed, and \<open>bound cu t\<close> a cursor that was opened or renewed in the live transaction \<open>t\<close>.  Every call
  on live objects returns, and an abort of a live transaction succeeds; a null transaction is refused
  with an error; nothing is promised about an object that has been freed.
\<close>

definition mdbx_environments ::
  "('env, 'txn, 'cursor, 'l) mdbx_lib \<Rightarrow> ('env \<Rightarrow> bool) \<Rightarrow> ('env \<Rightarrow> bool) \<Rightarrow> bool" where
  "mdbx_environments lib created opened \<longleftrightarrow>
     (\<forall>l. \<exists>rc ep l'. mdbx_env_create lib None l = Some (rc, ep, l') \<and>
        (if rc = 0 then \<exists>e. ep = Some e \<and> created e else ep = None)) \<and>
     (\<forall>e a b c d g p l. created e \<longrightarrow>
        (\<exists>rc e' l'. mdbx_env_set_geometry lib (Some e) a b c d g p l = Some (rc, Some e', l') \<and> created e')) \<and>
     (\<forall>e d fl m l. created e \<longrightarrow> (\<exists>rc e' l'. mdbx_env_open lib (Some e) d fl m l = Some (rc, Some e', l') \<and> created e' \<and>
        (rc = 0 \<longrightarrow> opened e'))) \<and>
     (\<forall>e. opened e \<longrightarrow> created e) \<and>
     (\<forall>e l. created e \<longrightarrow> mdbx_env_close lib (Some e) l \<noteq> None) \<and>
     (\<forall>e dbi l. opened e \<longrightarrow> mdbx_dbi_close lib (Some e) dbi l \<noteq> None)"

definition mdbx_transactions ::
  "('env, 'txn, 'cursor, 'l) mdbx_lib \<Rightarrow> ('env \<Rightarrow> bool) \<Rightarrow> ('txn \<Rightarrow> bool) \<Rightarrow> bool" where
  "mdbx_transactions lib opened alive \<longleftrightarrow>
     (\<forall>e fl old l. opened e \<longrightarrow> (\<exists>rc tp l'. mdbx_txn_begin lib (Some e) None fl old l = Some (rc, tp, l') \<and>
        (if rc = 0 then \<exists>t. tp = Some t \<and> alive t else tp = old))) \<and>
     (\<forall>t fl old l. alive t \<longrightarrow> (\<exists>rc dbi t' l'. mdbx_dbi_open lib (Some t) None fl old l = Some (rc, dbi, Some t', l') \<and>
        alive t' \<and> (if rc = 0 then dbi \<noteq> MDBX_INVALID_DBI else dbi = old))) \<and>
     (\<forall>t l. alive t \<longrightarrow> mdbx_txn_commit lib (Some t) l \<noteq> None) \<and>
     (\<forall>l. \<exists>rc. mdbx_txn_commit lib None l = Some (rc, None, l) \<and> rc \<noteq> 0) \<and>
     (\<forall>t l. alive t \<longrightarrow> (\<exists>l'. mdbx_txn_abort lib (Some t) l = Some (0, l'))) \<and>
     (\<forall>l. \<exists>rc. mdbx_txn_abort lib None l = Some (rc, l)) \<and>
     (\<forall>tp l. live_or_null alive tp \<longrightarrow> (\<exists>rc tp' l'. mdbx_txn_reset lib tp l = Some (rc, tp', l') \<and> same_or_live alive tp tp')) \<and>
     (\<forall>t l. alive t \<longrightarrow> (\<exists>rc t' l'. mdbx_txn_renew lib (Some t) l = Some (rc, Some t', l') \<and> alive t'))"

definition mdbx_cursors ::
  "('env, 'txn, 'cursor, 'l) mdbx_lib \<Rightarrow> ('txn \<Rightarrow> bool) \<Rightarrow> ('cursor \<Rightarrow> bool) \<Rightarrow> ('cursor \<Rightarrow> 'txn \<Rightarrow> bool) \<Rightarrow> bool" where
  "mdbx_cursors lib alive clive bound \<longleftrightarrow>
     (\<forall>t dbi old l. alive t \<longrightarrow> (\<exists>rc cp l'. mdbx_cursor_open lib (Some t) dbi old l = Some (rc, cp, l') \<and>
        (if rc = 0 then \<exists>cu. cp = Some cu \<and> clive cu \<and> bound cu t else cp = old))) \<and>
     (\<forall>cu l. clive cu \<longrightarrow> mdbx_cursor_close lib (Some cu) l \<noteq> None) \<and>
     (\<forall>t cu l. alive t \<longrightarrow> clive cu \<longrightarrow> (\<exists>rc cu' l'. mdbx_cursor_renew lib (Some t) (Some cu) l = Some (rc, Some cu', l') \<and>
        clive cu' \<and> (rc = 0 \<longrightarrow> bound cu' t))) \<and>
     (\<forall>t cu opr l. alive t \<longrightarrow> clive cu \<longrightarrow> bound cu t \<longrightarrow>
        (\<exists>rc k v cu' l'. mdbx_cursor_get lib (Some t) (Some cu) opr l = Some (rc, k, v, Some cu', l') \<and> clive cu' \<and> bound cu' t))"

definition mdbx_val_readable :: "mdbx_val \<Rightarrow> bool" where
  "mdbx_val_readable v \<longleftrightarrow> readable (iov_base v) (iov_len v)"

definition mdbx_operations :: "('env, 'txn, 'cursor, 'l) mdbx_lib \<Rightarrow> ('txn \<Rightarrow> bool) \<Rightarrow> bool" where
  "mdbx_operations lib alive \<longleftrightarrow> MDBX_SUCCESS lib = 0 \<and> MDBX_NOTFOUND lib \<noteq> 0 \<and>
     (\<forall>tp dbi k v fl l. live_or_null alive tp \<longrightarrow> mdbx_val_readable k \<longrightarrow> mdbx_val_readable v \<longrightarrow>
        (\<exists>rc tp' l'. mdbx_put lib tp dbi k v fl l = Some (rc, tp', l') \<and> same_or_live alive tp tp')) \<and>
     (\<forall>tp dbi k l. live_or_null alive tp \<longrightarrow> mdbx_val_readable k \<longrightarrow>
        (\<exists>rc tp' l'. mdbx_del lib tp dbi k None l = Some (rc, tp', l') \<and> same_or_live alive tp tp')) \<and>
     (\<forall>tp dbi k l. live_or_null alive tp \<longrightarrow> mdbx_val_readable k \<longrightarrow> mdbx_get lib tp dbi k l \<noteq> None)"

definition mdbx_library ::
  "('env, 'txn, 'cursor, 'l) mdbx_lib \<Rightarrow> ('env \<Rightarrow> bool) \<Rightarrow> ('env \<Rightarrow> bool) \<Rightarrow> ('txn \<Rightarrow> bool) \<Rightarrow>
     ('cursor \<Rightarrow> bool) \<Rightarrow> ('cursor \<Rightarrow> 'txn \<Rightarrow> bool) \<Rightarrow> bool" where
  "mdbx_library lib created opened alive clive bound \<longleftrightarrow> mdbx_environments lib created opened \<and>
     mdbx_transactions lib opened alive \<and> mdbx_cursors lib alive clive bound \<and> mdbx_operations lib alive"

text \<open>No commit of a live transaction fails: no full disk, no I/O error.\<close>

definition mdbx_commits :: "('env, 'txn, 'cursor, 'l) mdbx_lib \<Rightarrow> ('txn \<Rightarrow> bool) \<Rightarrow> bool" where
  "mdbx_commits lib alive \<longleftrightarrow> (\<forall>t l rc tp l'. alive t \<longrightarrow> mdbx_txn_commit lib (Some t) l = Some (rc, tp, l') \<longrightarrow> rc = 0)"

section \<open>The contract\<close>

definition mdbx_opened :: "('env \<Rightarrow> bool) \<Rightarrow> ('env, 'l) mdbx_world \<Rightarrow> bool" where
  "mdbx_opened opened w \<longleftrightarrow> (\<exists>self e. xw_priv w = Some self \<and> xp_env self = Some e \<and> opened e)"

definition mdbx_idle ::
  "('env \<Rightarrow> bool) \<Rightarrow> ('txn \<Rightarrow> bool) \<Rightarrow> ('cursor \<Rightarrow> bool) \<Rightarrow> ('txn, 'cursor) mdbx_context \<Rightarrow> ('env, 'l) mdbx_world \<Rightarrow> bool" where
  "mdbx_idle opened alive clive ctx w \<longleftrightarrow> mdbx_opened opened w \<and> xp_dbi (the (xw_priv w)) \<noteq> MDBX_INVALID_DBI \<and>
     live_or_null alive (xc_txn ctx) \<and> live_or_null clive (xc_cursor ctx)"

definition mdbx_ready ::
  "('txn \<Rightarrow> bool) \<Rightarrow> ('cursor \<Rightarrow> 'txn \<Rightarrow> bool) \<Rightarrow> iabenchmark \<Rightarrow> ('txn, 'cursor) mdbx_context \<Rightarrow> ('env, 'l) mdbx_world \<Rightarrow> bool" where
  "mdbx_ready alive bound step ctx w \<longleftrightarrow> (\<exists>t. xc_txn ctx = Some t \<and> alive t \<and>
     (step = IA_ITERATE \<longrightarrow> (\<exists>cu. xc_cursor ctx = Some cu \<and> bound cu t)))"

text \<open>The other doers at most open the database: the environment stays, and so does the handle once it is valid.\<close>

definition mdbx_rely :: "('env, 'l) mdbx_world \<Rightarrow> ('env, 'l) mdbx_world \<Rightarrow> bool" where
  "mdbx_rely w w' \<longleftrightarrow> (\<forall>self. xw_priv w = Some self \<longrightarrow> (\<exists>self'. xw_priv w' = Some self' \<and>
     xp_env self' = xp_env self \<and> (xp_dbi self \<noteq> MDBX_INVALID_DBI \<longrightarrow> xp_dbi self' = xp_dbi self)))"

lemma mdbx_rely_refl [simp]: "mdbx_rely w w"
  by (simp add: mdbx_rely_def)

lemma mdbx_rely_lib [simp]: "mdbx_rely w (w\<lparr>xw_lib := l\<rparr>)"
  by (simp add: mdbx_rely_def)

lemma mdbx_rely_trans: "mdbx_rely w w1 \<Longrightarrow> mdbx_rely w1 w2 \<Longrightarrow> mdbx_rely w w2"
  by (fastforce simp: mdbx_rely_def)

lemma mdbx_opened_rely: "mdbx_opened opened w \<Longrightarrow> mdbx_rely w w' \<Longrightarrow> mdbx_opened opened w'"
  by (fastforce simp: mdbx_rely_def mdbx_opened_def)

lemma mdbx_idle_rely: "mdbx_idle opened alive clive c w \<Longrightarrow> mdbx_rely w w' \<Longrightarrow> mdbx_idle opened alive clive c w'"
  by (fastforce simp: mdbx_idle_def mdbx_opened_def mdbx_rely_def)

section \<open>The operations in the contract\<close>

lemma mdbx_lib_codes:
  assumes "mdbx_library lib created opened alive clive bound"
  shows "MDBX_SUCCESS lib = 0" "MDBX_NOTFOUND lib \<noteq> 0"
  using assms by (simp_all add: mdbx_library_def mdbx_operations_def)

text \<open>Closing a cursor and aborting a transaction, if there are any.\<close>

lemma mdbx_close_cursor:
  assumes "mdbx_library lib created opened alive clive bound" and "live_or_null clive cp"
  obtains l' where "(if cp \<noteq> None then mdbx_cursor_close lib cp l else Some l) = Some l'"
proof (cases cp)
  case (Some cu)
  have "clive cu \<Longrightarrow> mdbx_cursor_close lib (Some cu) l \<noteq> None"
    using assms(1) unfolding mdbx_library_def mdbx_cursors_def by blast
  then show ?thesis using assms(2) Some by (auto intro: that)
qed (auto intro: that)

lemma mdbx_abort_txn:
  assumes "mdbx_library lib created opened alive clive bound" and "live_or_null alive tp"
  obtains rc l' where "mdbx_txn_abort lib tp l = Some (rc, l')" and "tp \<noteq> None \<Longrightarrow> rc = 0"
proof (cases tp)
  case None
  then show ?thesis using assms(1) that unfolding mdbx_library_def mdbx_transactions_def by blast
next
  case (Some t)
  have "alive t \<Longrightarrow> \<exists>l'. mdbx_txn_abort lib (Some t) l = Some (0, l')"
    using assms(1) unfolding mdbx_library_def mdbx_transactions_def by blast
  then show ?thesis using assms(2) Some by (auto intro: that)
qed

lemma mdbx_begin_txn:
  assumes "mdbx_library lib created opened alive clive bound" and "opened e"
  obtains rc tp l' where "mdbx_txn_begin lib (Some e) None fl None l = Some (rc, tp, l')"
    and "live_or_null alive tp" and "rc = 0 \<Longrightarrow> tp \<noteq> None"
proof -
  have "\<exists>rc tp l'. mdbx_txn_begin lib (Some e) None fl None l = Some (rc, tp, l') \<and>
      (if rc = 0 then \<exists>t. tp = Some t \<and> alive t else tp = None)"
    using assms unfolding mdbx_library_def mdbx_transactions_def by blast
  then show ?thesis by (auto intro: that split: if_splits)
qed

lemma mdbx_thread_new_ok:
  assumes lib: "mdbx_library lib created opened alive clive bound" and w: "mdbx_opened opened w"
  shows "\<exists>r w'. ia_mdbx_thread_new mem lib w = Some (r, w') \<and> mdbx_rely w w' \<and>
    (\<forall>c. r = Some c \<longrightarrow> mdbx_idle opened alive clive c w')"
proof -
  obtain self e where self: "xw_priv w = Some self" "xp_env self = Some e" "opened e"
    using w by (auto simp: mdbx_opened_def)
  show ?thesis
  proof (cases "xp_dbi self = MDBX_INVALID_DBI")
    case False
    then show ?thesis using w self by (auto simp: ia_mdbx_thread_new_def mdbx_idle_def)
  next
    case True
    obtain rc tp l where 1: "mdbx_txn_begin lib (Some e) None (MDBX_TXN_RDONLY lib) None (xw_lib w) = Some (rc, tp, l)"
      "live_or_null alive tp" "rc = 0 \<Longrightarrow> tp \<noteq> None"
      using mdbx_begin_txn [OF lib self(3)] by metis
    show ?thesis
    proof (cases "rc = 0")
      case False
      then show ?thesis using self True 1 by (simp add: ia_mdbx_thread_new_def mdbx_lib_codes [OF lib])
    next
      case rc: True
      obtain t where t: "tp = Some t" "alive t" using 1 rc by auto
      have "\<exists>rc dbi t' l'. mdbx_dbi_open lib (Some t) None fl old l = Some (rc, dbi, Some t', l') \<and>
          alive t' \<and> (if rc = 0 then dbi \<noteq> MDBX_INVALID_DBI else dbi = old)" for fl old l
        using lib t(2) unfolding mdbx_library_def mdbx_transactions_def by blast
      then obtain rc2 dbi t' l2 where 2: "mdbx_dbi_open lib (Some t) None 0 MDBX_INVALID_DBI l = Some (rc2, dbi, Some t', l2)"
        "alive t'" "if rc2 = 0 then dbi \<noteq> MDBX_INVALID_DBI else dbi = MDBX_INVALID_DBI" by blast
      obtain l3 where 3: "mdbx_txn_abort lib (Some t') l2 = Some (0, l3)"
        by (rule mdbx_abort_txn [OF lib, of "Some t'" l2]) (use 2(2) in auto)
      show ?thesis
        using self True 1 rc t 2 3
        by (cases "rc2 = 0") (auto simp: ia_mdbx_thread_new_def mdbx_lib_codes [OF lib] Let_def mdbx_rely_def
            mdbx_idle_def mdbx_opened_def)
    qed
  qed
qed

lemma mdbx_dispose_ok:
  assumes lib: "mdbx_library lib created opened alive clive bound" and idle: "mdbx_idle opened alive clive ctx w"
  shows "\<exists>w'. ia_mdbx_thread_dispose lib ctx w = Some w' \<and> mdbx_rely w w'"
proof -
  have ctx: "live_or_null alive (xc_txn ctx)" "live_or_null clive (xc_cursor ctx)"
    using idle by (simp_all add: mdbx_idle_def)
  obtain l1 where 1: "(if xc_cursor ctx \<noteq> None then mdbx_cursor_close lib (xc_cursor ctx) (xw_lib w) else Some (xw_lib w)) = Some l1"
    by (rule mdbx_close_cursor [OF lib ctx(2)])
  obtain err l2 where 2: "mdbx_txn_abort lib (xc_txn ctx) l1 = Some (err, l2)" "xc_txn ctx \<noteq> None \<Longrightarrow> err = 0"
    using mdbx_abort_txn [OF lib ctx(1)] by metis
  show ?thesis
    using 2 unfolding ia_mdbx_thread_dispose_def 1 by (cases "xc_txn ctx") auto
qed

lemma mdbx_begin_write_ok:
  assumes lib: "mdbx_library lib created opened alive clive bound" and env: "xp_env self = Some e" "opened e"
    and ctx: "live_or_null alive (xc_txn ctx)" "live_or_null clive (xc_cursor ctx)"
  shows "\<exists>rc ctx' l'. mdbx_begin_write lib self ctx l = Some (rc, ctx', l') \<and> live_or_null alive (xc_txn ctx') \<and>
    xc_cursor ctx' = None \<and> (rc = 0 \<and> xc_txn ctx' \<noteq> None \<or> rc = -1)"
proof -
  obtain l1 where 1: "(if xc_cursor ctx \<noteq> None then mdbx_cursor_close lib (xc_cursor ctx) l else Some l) = Some l1"
    by (rule mdbx_close_cursor [OF lib ctx(2)])
  obtain err l2 where 2: "mdbx_txn_abort lib (xc_txn ctx) l1 = Some (err, l2)" "xc_txn ctx \<noteq> None \<Longrightarrow> err = 0"
    using mdbx_abort_txn [OF lib ctx(1)] by metis
  obtain rc tp l3 where 3: "mdbx_txn_begin lib (Some e) None 0 None (if xc_txn ctx \<noteq> None then l2 else l1) = Some (rc, tp, l3)"
    "live_or_null alive tp" "rc = 0 \<Longrightarrow> tp \<noteq> None"
    using mdbx_begin_txn [OF lib env(2)] by metis
  have "(if xc_cursor ctx \<noteq> None
      then do { l \<leftarrow> mdbx_cursor_close lib (xc_cursor ctx) l; Some (ctx\<lparr>xc_cursor := None\<rparr>, l) }
      else Some (ctx, l)) = Some (ctx\<lparr>xc_cursor := None\<rparr>, l1)"
    using 1 by (auto split: if_splits)
  then show ?thesis
    using 2 3 by (auto simp: mdbx_begin_write_def env mdbx_lib_codes [OF lib])
qed

lemma mdbx_begin_cursor_ok:
  assumes lib: "mdbx_library lib created opened alive clive bound"
    and ctx: "xc_txn ctx = Some t" "alive t" "live_or_null clive (xc_cursor ctx)"
  shows "\<exists>rc ctx' l'. mdbx_begin_cursor lib self 0 ctx l = Some (rc, ctx', l') \<and> xc_txn ctx' = Some t \<and>
    live_or_null clive (xc_cursor ctx') \<and> (rc = 0 \<and> (\<exists>cu. xc_cursor ctx' = Some cu \<and> bound cu t) \<or> rc = -1)"
proof -
  note codes = mdbx_lib_codes [OF lib]
  have opn: "\<exists>rc cp l'. mdbx_cursor_open lib (Some t) dbi None l = Some (rc, cp, l') \<and>
      (if rc = 0 then \<exists>cu. cp = Some cu \<and> clive cu \<and> bound cu t else cp = None)" for dbi l
    using lib ctx(2) unfolding mdbx_library_def mdbx_cursors_def by blast
  show ?thesis
  proof (cases "xc_cursor ctx")
    case None
    obtain rc cp l' where "mdbx_cursor_open lib (Some t) (xp_dbi self) None l = Some (rc, cp, l')"
      "if rc = 0 then \<exists>cu. cp = Some cu \<and> clive cu \<and> bound cu t else cp = None" using opn by blast
    then show ?thesis using None ctx by (auto simp: mdbx_begin_cursor_def codes split: if_splits)
  next
    case (Some cu)
    then have "clive cu" using ctx(3) by simp
    then obtain rc cu' l1 where 1: "mdbx_cursor_renew lib (Some t) (Some cu) l = Some (rc, Some cu', l1)"
      "clive cu'" "rc = 0 \<longrightarrow> bound cu' t"
      using lib ctx(2) unfolding mdbx_library_def mdbx_cursors_def by blast
    show ?thesis
    proof (cases "rc = 0")
      case True
      then show ?thesis using 1 Some ctx by (simp add: mdbx_begin_cursor_def codes)
    next
      case False
      obtain l2 where 2: "mdbx_cursor_close lib (Some cu') l1 = Some l2"
        using mdbx_close_cursor [OF lib, of "Some cu'" l1] 1(2) by auto
      obtain rc2 cp l' where "mdbx_cursor_open lib (Some t) (xp_dbi self) None l2 = Some (rc2, cp, l')"
        "if rc2 = 0 then \<exists>cu. cp = Some cu \<and> clive cu \<and> bound cu t else cp = None" using opn by blast
      then show ?thesis using 1 2 Some ctx False by (auto simp: mdbx_begin_cursor_def codes split: if_splits)
    qed
  qed
qed

lemma mdbx_renew_reader_ok:
  assumes lib: "mdbx_library lib created opened alive clive bound" and ctx: "live_or_null alive (xc_txn ctx)"
  obtains tp l' where "mdbx_renew_reader lib ctx l = Some (0, ctx\<lparr>xc_txn := tp\<rparr>, l')" and "live_or_null alive tp"
proof (cases "xc_txn ctx")
  case None
  moreover have "ctx\<lparr>xc_txn := None\<rparr> = ctx" using None by simp
  ultimately show ?thesis by (intro that [of None l]) (auto simp: mdbx_renew_reader_def mdbx_lib_codes [OF lib])
next
  case (Some t)
  then have "alive t" using ctx by simp
  then have "\<exists>rc t' l'. mdbx_txn_renew lib (Some t) l = Some (rc, Some t', l') \<and> alive t'"
    using lib unfolding mdbx_library_def mdbx_transactions_def by blast
  then obtain rc t' l1 where 1: "mdbx_txn_renew lib (Some t) l = Some (rc, Some t', l1)" "alive t'" by blast
  obtain l2 where "mdbx_txn_abort lib (Some t') l1 = Some (0, l2)"
    by (rule mdbx_abort_txn [OF lib, of "Some t'" l1]) (use 1(2) in auto)
  then show ?thesis
    using 1 Some that [of "Some t'" l1] that [of None l2]
    by (cases "rc = 0") (auto simp: mdbx_renew_reader_def mdbx_lib_codes [OF lib])
qed

lemma mdbx_begin_read_ok:
  assumes lib: "mdbx_library lib created opened alive clive bound" and env: "xp_env self = Some e" "opened e"
    and ctx: "live_or_null alive (xc_txn ctx)" "live_or_null clive (xc_cursor ctx)"
  shows "\<exists>rc ctx' l'. mdbx_begin_read lib self step ctx l = Some (rc, ctx', l') \<and> live_or_null alive (xc_txn ctx') \<and>
    live_or_null clive (xc_cursor ctx') \<and> (rc = 0 \<and> mdbx_ready alive bound step ctx' w \<or> rc = -1)"
proof -
  note codes = mdbx_lib_codes [OF lib]
  have finish: "\<exists>rc ctx' l'. (if step = IA_ITERATE then mdbx_begin_cursor lib self 0 c l else Some (0, c, l)) = Some (rc, ctx', l') \<and>
      live_or_null alive (xc_txn ctx') \<and> live_or_null clive (xc_cursor ctx') \<and> (rc = 0 \<and> mdbx_ready alive bound step ctx' w \<or> rc = -1)"
    if "xc_txn c = Some t" "alive t" "live_or_null clive (xc_cursor c)" for c t l
    using mdbx_begin_cursor_ok [OF lib that, of self l] that by (auto simp: mdbx_ready_def)
  obtain tp l1 where 1: "mdbx_renew_reader lib ctx l = Some (0, ctx\<lparr>xc_txn := tp\<rparr>, l1)" "live_or_null alive tp"
    using mdbx_renew_reader_ok [OF lib ctx(1)] by metis
  obtain rc2 tp2 l2 where 2: "mdbx_txn_begin lib (Some e) None (MDBX_TXN_RDONLY lib) None l1 = Some (rc2, tp2, l2)"
    "live_or_null alive tp2" "rc2 = 0 \<Longrightarrow> tp2 \<noteq> None"
    using mdbx_begin_txn [OF lib env(2)] by metis
  consider t where "tp = Some t" | t where "tp = None" "rc2 = 0" "tp2 = Some t" | "tp = None" "rc2 \<noteq> 0"
    using 2(3) by (cases tp) auto
  then show ?thesis
  proof cases
    case 1
    then show ?thesis
      using finish [of "ctx\<lparr>xc_txn := Some t\<rparr>" t l1] \<open>live_or_null alive tp\<close> ctx(2)
      by (cases "step = IA_ITERATE") (simp_all add: mdbx_begin_read_def \<open>mdbx_renew_reader _ _ _ = _\<close> codes)
  next
    case 2
    then show ?thesis
      using finish [of "ctx\<lparr>xc_txn := Some t\<rparr>" t l2] \<open>live_or_null alive tp2\<close> ctx(2) \<open>mdbx_txn_begin _ _ _ _ _ _ = _\<close>
      by (cases "step = IA_ITERATE") (simp_all add: mdbx_begin_read_def \<open>mdbx_renew_reader _ _ _ = _\<close> codes env)
  next
    case 3
    then show ?thesis
      using \<open>live_or_null alive tp2\<close> ctx(2) \<open>mdbx_txn_begin _ _ _ _ _ _ = _\<close>
      by (simp add: mdbx_begin_read_def \<open>mdbx_renew_reader _ _ _ = _\<close> codes env)
  qed
qed

lemma mdbx_begin_ok:
  assumes lib: "mdbx_library lib created opened alive clive bound" and idle: "mdbx_idle opened alive clive ctx w"
    and b: "step < IA_MAX"
  shows "\<exists>rc ctx' w'. ia_mdbx_begin lib ctx step w = Some (rc, ctx', w') \<and> mdbx_rely w w' \<and>
    mdbx_idle opened alive clive ctx' w' \<and> (rc = 0 \<and> mdbx_ready alive bound step ctx' w' \<or> rc = -1)"
proof -
  obtain self e where self: "xw_priv w = Some self" "xp_dbi self \<noteq> MDBX_INVALID_DBI" and env: "xp_env self = Some e" "opened e"
    and ctx: "live_or_null alive (xc_txn ctx)" "live_or_null clive (xc_cursor ctx)"
    using idle by (auto simp: mdbx_idle_def mdbx_opened_def)
  have idle': "mdbx_idle opened alive clive c (w\<lparr>xw_lib := l\<rparr>)"
    if "live_or_null alive (xc_txn c)" "live_or_null clive (xc_cursor c)" for c l
    using that self env by (simp add: mdbx_idle_def mdbx_opened_def)
  consider "step \<in> {IA_SET, IA_BATCH, IA_CRUD, IA_DELETE}" | "step \<in> {IA_ITERATE, IA_GET}"
    using b by (cases step) (auto simp: below_MAX)
  then show ?thesis
  proof cases
    case 1
    obtain rc c l where r: "mdbx_begin_write lib self ctx (xw_lib w) = Some (rc, c, l)" "live_or_null alive (xc_txn c)"
      "xc_cursor c = None" "rc = 0 \<and> xc_txn c \<noteq> None \<or> rc = -1"
      using mdbx_begin_write_ok [OF lib env ctx] by blast
    then show ?thesis
      using 1 self idle' [of c l] by (auto simp: ia_mdbx_begin_def mdbx_ready_def)
  next
    case 2
    obtain rc c l where r: "mdbx_begin_read lib self step ctx (xw_lib w) = Some (rc, c, l)" "live_or_null alive (xc_txn c)"
      "live_or_null clive (xc_cursor c)" "rc = 0 \<and> mdbx_ready alive bound step c (w\<lparr>xw_lib := l\<rparr>) \<or> rc = -1"
      using mdbx_begin_read_ok [OF lib env ctx, of step "xw_lib w"] by (auto simp: mdbx_ready_def)
    have "ia_mdbx_begin lib ctx step w = Some (rc, c, w\<lparr>xw_lib := l\<rparr>)"
      using 2 self r(1) by (auto simp: ia_mdbx_begin_def)
    then show ?thesis using idle' [of c l] r by auto
  qed
qed

lemma mdbx_done_ok:
  assumes lib: "mdbx_library lib created opened alive clive bound" and commits: "mdbx_commits lib alive"
    and idle: "mdbx_idle opened alive clive ctx w" and b: "step < IA_MAX"
  shows "\<exists>rc ctx' w'. ia_mdbx_done lib ctx step w = Some (rc, ctx', w') \<and> mdbx_rely w w' \<and>
    mdbx_idle opened alive clive ctx' w' \<and> rc \<in> {0, -1}"
proof -
  have ctx: "live_or_null alive (xc_txn ctx)" "live_or_null clive (xc_cursor ctx)"
    using idle by (auto simp: mdbx_idle_def)
  have idle': "mdbx_idle opened alive clive (ctx\<lparr>xc_txn := tp\<rparr>) (w\<lparr>xw_lib := l\<rparr>)" if "live_or_null alive tp" for tp l
    using that idle by (simp add: mdbx_idle_def mdbx_opened_def)
  consider "step \<in> {IA_SET, IA_BATCH, IA_CRUD, IA_DELETE}" | "step \<in> {IA_ITERATE, IA_GET}"
    using b by (cases step) (auto simp: below_MAX)
  then show ?thesis
  proof cases
    case 1
    show ?thesis
    proof (cases "xc_txn ctx")
      case None
      have "\<exists>rc. mdbx_txn_commit lib None l = Some (rc, None, l) \<and> rc \<noteq> 0" and a: "\<exists>rc. mdbx_txn_abort lib None l = Some (rc, l)" for l
        using lib unfolding mdbx_library_def mdbx_transactions_def by blast+
      then obtain rc where "mdbx_txn_commit lib None (xw_lib w) = Some (rc, None, xw_lib w)" "rc \<noteq> 0" by blast
      moreover obtain err where "mdbx_txn_abort lib None (xw_lib w) = Some (err, xw_lib w)" using a by blast
      ultimately have "ia_mdbx_done lib ctx step w = Some (-1, ctx\<lparr>xc_txn := None\<rparr>, w\<lparr>xw_lib := xw_lib w\<rparr>)"
        using 1 None by (auto simp: ia_mdbx_done_def mdbx_lib_codes [OF lib])
      then show ?thesis using idle' [of None "xw_lib w"] by auto
    next
      case (Some t)
      then have t: "alive t" using ctx by simp
      then have "mdbx_txn_commit lib (Some t) (xw_lib w) \<noteq> None"
        using lib unfolding mdbx_library_def mdbx_transactions_def by blast
      then obtain rc tp l where c: "mdbx_txn_commit lib (Some t) (xw_lib w) = Some (rc, tp, l)" by auto
      then have "rc = 0" using commits t unfolding mdbx_commits_def by blast
      then have "ia_mdbx_done lib ctx step w = Some (0, ctx\<lparr>xc_txn := None\<rparr>, w\<lparr>xw_lib := l\<rparr>)"
        using 1 Some c by (auto simp: ia_mdbx_done_def mdbx_lib_codes [OF lib])
      then show ?thesis using idle' [of None l] by auto
    qed
  next
    case 2
    have "\<exists>rc tp' l'. mdbx_txn_reset lib (xc_txn ctx) (xw_lib w) = Some (rc, tp', l') \<and> same_or_live alive (xc_txn ctx) tp'"
      using lib ctx unfolding mdbx_library_def mdbx_transactions_def by blast
    then obtain rc tp l where r: "mdbx_txn_reset lib (xc_txn ctx) (xw_lib w) = Some (rc, tp, l)" "same_or_live alive (xc_txn ctx) tp"
      by blast
    then have "live_or_null alive tp" by (cases "xc_txn ctx") auto
    then show ?thesis using 2 r(1) idle' [of tp l] by (auto simp: ia_mdbx_done_def mdbx_lib_codes [OF lib])
  qed
qed

text \<open>An operation on the database: whatever the library returns is 0, \<open>ENOENT\<close> or -1 afterwards.\<close>

lemma mdbx_data_ok:
  assumes lib: "mdbx_library lib created opened alive clive bound"
    and tp: "live_or_null alive (xc_txn ctx)" and w: "xw_priv w = Some self"
    and step: "step \<in> {IA_SET, IA_DELETE, IA_GET}" and kv: "kv_ready kv"
  obtains rc tp' l' where "ia_mdbx_next lib ctx step kv w = Some (rc, kv, ctx\<lparr>xc_txn := tp'\<rparr>, w\<lparr>xw_lib := l'\<rparr>)"
    and "same_or_live alive (xc_txn ctx) tp'" and "rc \<in> {0, ENOENT, -1}"
proof -
  let ?k = "\<lparr>iov_len = kv_ksize kv, iov_base = kv_k kv\<rparr>" and ?v = "\<lparr>iov_len = kv_vsize kv, iov_base = kv_v kv\<rparr>"
  have kv: "mdbx_val_readable ?k" "mdbx_val_readable ?v" using kv by (auto simp: mdbx_val_readable_def kv_ready_def)
  note codes = mdbx_lib_codes [OF lib]
  have ops: "mdbx_operations lib alive" using lib by (simp add: mdbx_library_def)
  consider "step = IA_SET" | "step = IA_DELETE" | "step = IA_GET" using step by blast
  then show ?thesis
  proof cases
    case 1
    have "\<exists>rc tp' l'. mdbx_put lib (xc_txn ctx) (xp_dbi self) ?k ?v 0 (xw_lib w) = Some (rc, tp', l') \<and> same_or_live alive (xc_txn ctx) tp'"
      using ops tp kv unfolding mdbx_operations_def by blast
    then show ?thesis using 1 w by (auto simp: ia_mdbx_next_def codes intro!: that)
  next
    case 2
    have "\<exists>rc tp' l'. mdbx_del lib (xc_txn ctx) (xp_dbi self) ?k None (xw_lib w) = Some (rc, tp', l') \<and> same_or_live alive (xc_txn ctx) tp'"
      using ops tp kv unfolding mdbx_operations_def by blast
    then show ?thesis using 2 w by (auto simp: ia_mdbx_next_def codes intro!: that)
  next
    case 3
    have "mdbx_get lib (xc_txn ctx) (xp_dbi self) ?k (xw_lib w) \<noteq> None"
      using ops tp kv unfolding mdbx_operations_def by blast
    moreover have "same_or_live alive (xc_txn ctx) (xc_txn ctx)" using tp by (cases "xc_txn ctx") auto
    moreover have "ctx\<lparr>xc_txn := xc_txn ctx\<rparr> = ctx" by simp
    ultimately show ?thesis using 3 w by (auto simp: ia_mdbx_next_def codes intro!: that)
  qed
qed

lemma mdbx_iterate_ok:
  assumes lib: "mdbx_library lib created opened alive clive bound"
    and "mdbx_idle opened alive clive ctx w" and "mdbx_ready alive bound IA_ITERATE ctx w"
  obtains rc kv' cu l' where "ia_mdbx_next lib ctx IA_ITERATE kv w = Some (rc, kv', ctx\<lparr>xc_cursor := Some cu\<rparr>, w\<lparr>xw_lib := l'\<rparr>)"
    and "clive cu" and "bound cu (the (xc_txn ctx))" and "rc \<in> {0, ENOENT, -1}"
proof -
  obtain t cu self where c: "xc_txn ctx = Some t" "alive t" "xc_cursor ctx = Some cu" "clive cu" "bound cu t" "xw_priv w = Some self"
    using assms(2,3) by (auto simp: mdbx_ready_def mdbx_idle_def mdbx_opened_def)
  then have "\<exists>rc k v cu' l'. mdbx_cursor_get lib (Some t) (Some cu) (MDBX_NEXT lib) (xw_lib w) = Some (rc, k, v, Some cu', l') \<and>
      clive cu' \<and> bound cu' t"
    using lib unfolding mdbx_library_def mdbx_cursors_def by blast
  then obtain rc k v cu' l' where g: "mdbx_cursor_get lib (Some t) (Some cu) (MDBX_NEXT lib) (xw_lib w) = Some (rc, k, v, Some cu', l')"
    "clive cu'" "bound cu' t" by blast
  then have "\<exists>rc kv'. ia_mdbx_next lib ctx IA_ITERATE kv w = Some (rc, kv', ctx\<lparr>xc_cursor := Some cu'\<rparr>, w\<lparr>xw_lib := l'\<rparr>) \<and>
      rc \<in> {0, ENOENT, -1}"
    using c by (simp add: ia_mdbx_next_def mdbx_lib_codes [OF lib] Let_def)
  then show ?thesis using g c(1) that by auto
qed

lemma mdbx_contract_holds:
  fixes lib :: "('env, 'txn, 'cursor, 'l) mdbx_lib"
  assumes lib: "mdbx_library lib created opened alive clive bound" and commits: "mdbx_commits lib alive"
  shows "robust_driver (ia_mdbx mem lib) (mdbx_opened opened) (mdbx_idle opened alive clive) (mdbx_ready alive bound) mdbx_rely"
proof
  fix c :: "('txn, 'cursor) mdbx_context" and w w' w1 :: "('env, 'l) mdbx_world" and b step kv arg opt
  show "mdbx_rely w w" by simp
  show "mdbx_rely w w1 \<Longrightarrow> mdbx_rely w1 w' \<Longrightarrow> mdbx_rely w w'" by (rule mdbx_rely_trans)
  show "mdbx_opened opened w \<Longrightarrow> mdbx_rely w w' \<Longrightarrow> mdbx_opened opened w'" by (rule mdbx_opened_rely)
  show "mdbx_idle opened alive clive c w \<Longrightarrow> mdbx_opened opened w" by (simp add: mdbx_idle_def)
  show "mdbx_idle opened alive clive c w \<Longrightarrow> mdbx_rely w w' \<Longrightarrow> mdbx_idle opened alive clive c w'" by (rule mdbx_idle_rely)
  show "mdbx_ready alive bound b c w \<Longrightarrow> mdbx_rely w w' \<Longrightarrow> mdbx_ready alive bound b c w'" by (simp add: mdbx_ready_def)
  show "\<exists>r w'. d_thread_new (ia_mdbx mem lib) w = Some (r, w') \<and> mdbx_rely w w' \<and>
      (\<forall>c. r = Some c \<longrightarrow> mdbx_idle opened alive clive c w')" if "mdbx_opened opened w"
    using mdbx_thread_new_ok [OF lib that] by (simp add: ia_mdbx_def)
  show "\<exists>w'. d_thread_dispose (ia_mdbx mem lib) c w = Some w' \<and> mdbx_rely w w'" if "mdbx_idle opened alive clive c w"
    using mdbx_dispose_ok [OF lib that] by (simp add: ia_mdbx_def)
  show "\<exists>rc c' w'. d_begin (ia_mdbx mem lib) c b w = Some (rc, c', w') \<and> mdbx_rely w w' \<and>
      mdbx_idle opened alive clive c' w' \<and> (rc = 0 \<and> mdbx_ready alive bound b c' w' \<or> rc = -1)"
    if "mdbx_idle opened alive clive c w" "b < IA_MAX"
    using mdbx_begin_ok [OF lib that] by (simp add: ia_mdbx_def)
  show "\<exists>rc c' w'. d_done (ia_mdbx mem lib) c b w = Some (rc, c', w') \<and> mdbx_rely w w' \<and>
      mdbx_idle opened alive clive c' w' \<and> rc \<in> {0, -1}"
    if "mdbx_idle opened alive clive c w" "b < IA_MAX"
    using mdbx_done_ok [OF lib commits that] by (simp add: ia_mdbx_def)
  show "\<exists>rc w'. opt (Some c) arg w = Some (rc, w') \<and> mdbx_rely w w'"
    if "d_option (ia_mdbx mem lib) = Some opt" using that by (auto simp: ia_mdbx_def ia_mdbx_option_def)
  have data: "\<exists>rc kv' c' w'. d_next (ia_mdbx mem lib) c step kv w = Some (rc, kv', c', w') \<and> mdbx_rely w w' \<and>
      mdbx_idle opened alive clive c' w' \<and> rc \<in> {0, ENOENT, -1} \<and> (step \<in> {IA_SET, IA_DELETE} \<longrightarrow> kv' = kv) \<and>
      (\<forall>b. b \<noteq> IA_ITERATE \<longrightarrow> mdbx_ready alive bound b c w \<longrightarrow> mdbx_ready alive bound b c' w')"
    if idle: "mdbx_idle opened alive clive c w" and step: "step \<in> {IA_SET, IA_DELETE, IA_GET}" and kv: "kv_ready kv"
  proof -
    obtain self where w: "xw_priv w = Some self" and tp: "live_or_null alive (xc_txn c)"
      using idle by (auto simp: mdbx_idle_def mdbx_opened_def)
    obtain rc tp' l' where r: "ia_mdbx_next lib c step kv w = Some (rc, kv, c\<lparr>xc_txn := tp'\<rparr>, w\<lparr>xw_lib := l'\<rparr>)"
      "same_or_live alive (xc_txn c) tp'" "rc \<in> {0, ENOENT, -1}"
      by (rule mdbx_data_ok [OF lib tp w step kv])
    have "live_or_null alive tp'" "tp' = None \<longleftrightarrow> xc_txn c = None" using r(2) by (cases "xc_txn c"; auto)+
    then show ?thesis
      using r idle by (auto simp: ia_mdbx_def mdbx_idle_def mdbx_opened_def mdbx_ready_def)
  qed
  show "\<exists>rc kv' c' w'. d_next (ia_mdbx mem lib) c step kv w = Some (rc, kv', c', w') \<and> mdbx_rely w w' \<and>
      mdbx_idle opened alive clive c' w' \<and> rc \<in> {0, ENOENT, -1} \<and> (step \<in> {IA_SET, IA_DELETE} \<longrightarrow> kv' = kv)"
    if "mdbx_idle opened alive clive c w" "step \<in> {IA_SET, IA_DELETE, IA_GET}" "kv_ready kv"
    using data [OF that] by blast
  show "\<exists>rc kv' c' w'. d_next (ia_mdbx mem lib) c step kv w = Some (rc, kv', c', w') \<and> mdbx_rely w w' \<and>
      mdbx_idle opened alive clive c' w' \<and> mdbx_ready alive bound b c' w' \<and> rc \<in> {0, ENOENT, -1} \<and>
      (step \<in> {IA_SET, IA_DELETE} \<longrightarrow> kv' = kv)"
    if ready: "mdbx_ready alive bound b c w" and idle: "mdbx_idle opened alive clive c w" and step: "step_allowed b step"
      and kv: "step \<noteq> IA_ITERATE \<Longrightarrow> kv_ready kv"
  proof (cases "step = IA_ITERATE")
    case True
    then have b: "b = IA_ITERATE" using step by (auto simp: step_allowed_def split: if_splits)
    obtain rc kv' cu l' where r: "ia_mdbx_next lib c IA_ITERATE kv w = Some (rc, kv', c\<lparr>xc_cursor := Some cu\<rparr>, w\<lparr>xw_lib := l'\<rparr>)"
      "clive cu" "bound cu (the (xc_txn c))" "rc \<in> {0, ENOENT, -1}"
      by (rule mdbx_iterate_ok [OF lib idle ready [unfolded b]])
    then show ?thesis
      using True b idle ready by (auto simp: ia_mdbx_def mdbx_idle_def mdbx_opened_def mdbx_ready_def)
  next
    case False
    then have "step \<in> {IA_SET, IA_DELETE, IA_GET}" "b \<noteq> IA_ITERATE"
      using step_allowed_cases [OF step] step by (auto simp: step_allowed_def split: if_splits)
    then show ?thesis using data [OF idle _ kv [OF False]] ready by blast
  qed
qed

end
