(* ===== verification/MdbxProperties.thy ===== *)
theory MdbxProperties
  imports DriverMdbx LmdbProperties
begin

text \<open>
  The properties of the MDBX driver: the contract of the benchmark, and its options, which are
  parsed in a loop of the driver's own.
\<close>

section \<open>A library in a list\<close>

definition mv_of :: "mdbx_val \<Rightarrow> mdb_val" where
  "mv_of v = \<lparr>mv_size = iov_len v, mv_data = iov_base v\<rparr>"

definition iov_of :: "mdb_val \<Rightarrow> mdbx_val" where
  "iov_of v = \<lparr>iov_len = mv_size v, iov_base = mv_data v\<rparr>"

definition sample_mdbx :: "(bool, sample_txn, sample_cursor, records) mdbx_lib" where
  "sample_mdbx = \<lparr>MDBX_SUCCESS = 0, MDBX_NOTFOUND = -30798, MDBX_SYNC_DURABLE = 0, MDBX_LIFORECLAIM = 0x4000000,
     MDBX_SAFE_NOSYNC = 0x10000, MDBX_NOMETASYNC = 0x40000, MDBX_WRITEMAP = 0x80000, MDBX_UTTERLY_NOSYNC = 0x110000,
     MDBX_COALESCE = 0x2000000, MDBX_EXCLUSIVE = 0x400000, MDBX_PAGEPERTURB = 0x8000000, MDBX_NOMEMINIT = 0x1000000,
     MDBX_NORDAHEAD = 0x800000, MDBX_TXN_RDONLY = rdonly_flag, MDBX_NEXT = 8,
     mdbx_env_create = (\<lambda>ep l. Some (0, Some False, l)),
     mdbx_env_set_geometry = (\<lambda>ep a b c d e f l. map_option (\<lambda>e. (0, Some e, l)) ep),
     mdbx_env_open = (\<lambda>ep d fl m l. map_option (\<lambda>e. (0, Some True, l)) ep),
     mdbx_env_close = (\<lambda>ep l. map_option (\<lambda>e. l) ep),
     mdbx_dbi_open = (\<lambda>tp nm fl old l. case tp of None \<Rightarrow> None | Some t \<Rightarrow> if st_live t then Some (0, 1, Some t, l) else None),
     mdbx_dbi_close = (\<lambda>ep dbi l. map_option (\<lambda>e. l) ep),
     mdbx_txn_begin = sample_begin, mdbx_txn_commit = sample_commit,
     mdbx_txn_abort = (\<lambda>tp l. if tp = None then Some (22, l) else map_option (Pair 0) (sample_abort tp l)),
     mdbx_txn_reset = (\<lambda>tp l. case tp of None \<Rightarrow> Some (22, None, l) | Some t \<Rightarrow> if st_live t then Some (0, Some t, l) else None),
     mdbx_txn_renew = sample_renew, mdbx_cursor_open = sample_cursor_open, mdbx_cursor_close = sample_cursor_close,
     mdbx_cursor_renew = sample_cursor_renew,
     mdbx_cursor_get = (\<lambda>tp cp opr l. map_option (\<lambda>(rc, k, v, r). (rc, iov_of k, iov_of v, r)) (sample_cursor_get tp cp opr l)),
     mdbx_put = (\<lambda>tp dbi k v. sample_put tp dbi (mv_of k) (mv_of v)),
     mdbx_del = (\<lambda>tp dbi k d. sample_del tp dbi (mv_of k) (map_option mv_of d)),
     mdbx_get = (\<lambda>tp dbi k l. map_option (\<lambda>(rc, v, l). (rc, iov_of v, l)) (sample_get tp dbi (mv_of k) l))\<rparr>"

lemma sample_mdbx_library: "mdbx_library sample_mdbx (\<lambda>e. True) (\<lambda>e. e) st_live sc_live (\<lambda>cu t. True)"
  unfolding mdbx_library_def
proof (intro conjI)
  show "mdbx_environments sample_mdbx (\<lambda>e. True) (\<lambda>e. e)"
    unfolding mdbx_environments_def sample_mdbx_def by simp blast
  show "mdbx_transactions sample_mdbx (\<lambda>e. e) st_live"
    by (auto simp: mdbx_transactions_def sample_mdbx_def sample_begin_def MDBX_INVALID_DBI_def live_or_null_def same_or_live_def
        split: option.splits)
  show "mdbx_cursors sample_mdbx st_live sc_live (\<lambda>cu t. True)"
    by (auto simp: mdbx_cursors_def sample_mdbx_def sample_cursor_open_def sample_cursor_close_def sample_cursor_renew_def
        sample_cursor_get_def split: list.splits)
  show "mdbx_operations sample_mdbx st_live"
    by (auto simp: mdbx_operations_def sample_mdbx_def live_or_null_def same_or_live_def split: option.splits)
qed

lemma sample_mdbx_commits: "mdbx_commits sample_mdbx st_live"
  by (auto simp: mdbx_commits_def sample_mdbx_def split: if_splits)

section \<open>The option loop\<close>

text \<open>
  A setting is an option, its value, and the text that gives it: the name of the option and a word
  for the value, both in any case.
\<close>

type_synonym setting = "mdbx_opt \<times> bool \<times> string"

definition setting_ok :: "setting \<Rightarrow> bool" where
  "setting_ok x \<longleftrightarrow> (case x of (opt, b, tx) \<Rightarrow> \<exists>name v w. tx = name @ ''='' @ v \<and> strcaseeq name (opt_name opt) \<and>
     strcaseeq v w \<and> w \<in> set (bool_words b) \<and> CHR '','' \<notin> set v)"

fun settings_text :: "setting list \<Rightarrow> string" where
  "settings_text [] = []"
| "settings_text [(opt, b, tx)] = tx"
| "settings_text ((opt, b, tx) # x # xs) = tx @ '','' @ settings_text (x # xs)"

definition apply_settings :: "setting list \<Rightarrow> mdbx_opts \<Rightarrow> mdbx_opts" where
  "apply_settings xs g = fold (\<lambda>(opt, b, tx). opt_set opt (if b then ia_opt_bool_on else ia_opt_bool_off)) xs g"

lemma apply_settings_append: "apply_settings (xs @ ys) g = apply_settings ys (apply_settings xs g)"
  by (simp add: apply_settings_def)

lemma settings_text_nonempty: "xs \<noteq> [] \<Longrightarrow> \<forall>x \<in> set xs. setting_ok x \<Longrightarrow> settings_text xs \<noteq> []"
  by (cases xs rule: settings_text.cases) (auto simp: setting_ok_def)

lemma opt_names: "CHR ''='' \<notin> set (opt_name opt)" "strcaseeq (opt_name a) (opt_name b) \<longleftrightarrow> a = b"
  by (cases opt; simp) (cases a; cases b; simp add: strcaseeq_def tolower_def)

lemma opt_set_get [simp]: "opt_set opt (opt_get opt g) g = g"
  by (cases opt) simp_all

lemma strcaseeq_no_equals: "strcaseeq name (opt_name opt) \<Longrightarrow> CHR ''='' \<notin> set name"
  using opt_names(1) [of opt] tolower_equals by (metis (no_types) image_iff list.set_map strcaseeq_def)

lemma mdbx_try_other:
  assumes ok: "setting_ok (opt, b, tx)" and other: "opt' \<noteq> opt"
  shows "mdbx_try opt' (0, settings_text ((opt, b, tx) # xs), g) = (0, settings_text ((opt, b, tx) # xs), g)"
proof -
  obtain name v r where tx: "settings_text ((opt, b, tx) # xs) = name @ ''='' @ r" and name: "strcaseeq name (opt_name opt)"
    using ok by (cases xs) (auto simp: setting_ok_def)
  have "option_head (name @ ''='' @ r) = name"
    using strcaseeq_no_equals [OF name] unfolding option_head_def by (subst takeWhile_append2) auto
  moreover have "\<not> strcaseeq name (opt_name opt')"
    using name other opt_names(2) [of opt opt'] by (simp add: strcaseeq_def)
  ultimately show ?thesis
    using parse_option_bool_other [OF opt_names(1), where s = "name @ ''='' @ r"]
    by (simp add: mdbx_try_def tx)
qed

lemma mdbx_try_this:
  fixes g
  assumes ok: "setting_ok (opt, b, tx)" and xs: "\<forall>x \<in> set xs. setting_ok x"
  defines "g' \<equiv> opt_set opt (if b then ia_opt_bool_on else ia_opt_bool_off) g"
  shows "mdbx_try opt (0, settings_text ((opt, b, tx) # xs), g) =
    (if xs = [] then (1, tx, g') else (0, settings_text xs, g'))"
proof -
  obtain name v w where tx: "tx = name @ ''='' @ v" and name: "strcaseeq name (opt_name opt)"
    and v: "strcaseeq v w" "w \<in> set (bool_words b)" "CHR '','' \<notin> set v"
    using ok by (auto simp: setting_ok_def)
  note parse = parse_option_bool_match [OF name v, where t = "opt_get opt g"]
  show ?thesis
  proof (cases xs)
    case Nil
    then show ?thesis using parse(1) by (simp add: mdbx_try_def tx g'_def)
  next
    case (Cons x ys)
    then show ?thesis
      using parse(2) [of "settings_text xs"] settings_text_nonempty [of xs] xs
      by (simp add: mdbx_try_def tx g'_def)
  qed
qed

text \<open>The state of the loop with the settings \<open>xs\<close> left.\<close>

definition settings_left :: "setting list \<Rightarrow> mdbx_opts \<Rightarrow> int \<times> string \<times> mdbx_opts \<Rightarrow> bool" where
  "settings_left xs g st \<longleftrightarrow> (if xs = [] then \<exists>a. st = (1, a, g) else st = (0, settings_text xs, g))"

lemma mdbx_try_left:
  assumes "\<forall>x \<in> set xs. setting_ok x" and "settings_left xs g st"
  shows "\<exists>zs ys. xs = zs @ ys \<and> settings_left ys (apply_settings zs g) (mdbx_try opt st) \<and>
    (xs \<noteq> [] \<and> fst (hd xs) = opt \<longrightarrow> zs \<noteq> [])"
proof (cases xs)
  case Nil
  then show ?thesis using assms by (auto simp: settings_left_def mdbx_try_def apply_settings_def)
next
  case (Cons x ys)
  obtain opt' b tx where x: "x = (opt', b, tx)" by (cases x)
  show ?thesis
  proof (cases "opt' = opt")
    case True
    then show ?thesis
      using assms mdbx_try_this [of opt b tx ys g]
      by (intro exI [of _ "[x]"] exI [of _ ys]) (auto simp: settings_left_def Cons x apply_settings_def)
  next
    case False
    then show ?thesis
      using assms mdbx_try_other [of opt' b tx opt ys g]
      by (intro exI [of _ "[]"] exI [of _ xs]) (auto simp: settings_left_def Cons x apply_settings_def)
  qed
qed

lemma mdbx_pass_left:
  assumes "\<forall>x \<in> set xs. setting_ok x" and "settings_left xs g st"
  shows "\<exists>zs ys. xs = zs @ ys \<and> settings_left ys (apply_settings zs g) (fold mdbx_try opts st) \<and>
    (xs \<noteq> [] \<and> fst (hd xs) \<in> set opts \<longrightarrow> zs \<noteq> [])"
  using assms
proof (induction opts arbitrary: xs g st)
  case Nil
  then show ?case by (intro exI [of _ "[]"] exI [of _ xs]) (simp add: apply_settings_def)
next
  case (Cons opt opts)
  obtain zs ys where 1: "xs = zs @ ys" "settings_left ys (apply_settings zs g) (mdbx_try opt st)"
    "xs \<noteq> [] \<and> fst (hd xs) = opt \<longrightarrow> zs \<noteq> []"
    using mdbx_try_left [OF Cons.prems] by blast
  have "\<forall>x \<in> set ys. setting_ok x" using Cons.prems(1) 1(1) by auto
  from Cons.IH [OF this 1(2)] obtain zs' ys' where 2: "ys = zs' @ ys'"
    "settings_left ys' (apply_settings zs' (apply_settings zs g)) (fold mdbx_try opts (mdbx_try opt st))"
    "ys \<noteq> [] \<and> fst (hd ys) \<in> set opts \<longrightarrow> zs' \<noteq> []" by blast
  have "zs @ zs' \<noteq> []" if "xs \<noteq> []" "fst (hd xs) \<in> set (opt # opts)"
    using that 1(1,3) 2(3) by (cases "zs = []") auto
  moreover have "xs = (zs @ zs') @ ys'" using 1(1) 2(1) by simp
  moreover have "settings_left ys' (apply_settings (zs @ zs') g) (fold mdbx_try (opt # opts) st)"
    using 2(2) by (simp add: apply_settings_append)
  ultimately show ?case by blast
qed

lemma mdbx_option_loop_ok:
  assumes "\<forall>x \<in> set xs. setting_ok x" and "settings_left xs g st"
  shows "\<exists>a. mdbx_option_loop st = Some (1, a, apply_settings xs g)"
  using assms
proof (induction "length xs" arbitrary: xs g st rule: less_induct)
  case less
  show ?case
  proof (cases "xs = []")
    case True
    then show ?thesis using less.prems by (subst mdbx_option_loop.simps) (auto simp: settings_left_def apply_settings_def)
  next
    case False
    have all: "fst (hd xs) \<in> set mdbx_option_names" by (cases "fst (hd xs)") (simp_all add: mdbx_option_names_def)
    obtain zs ys where p: "xs = zs @ ys" "settings_left ys (apply_settings zs g) (fold mdbx_try mdbx_option_names st)" "zs \<noteq> []"
      using mdbx_pass_left [OF less.prems, of mdbx_option_names] all False by blast
    have "length ys < length xs" "\<forall>x \<in> set ys. setting_ok x" using p(1,3) less.prems(1) by auto
    from less.hyps [OF this p(2)] obtain a
      where a: "mdbx_option_loop (fold mdbx_try mdbx_option_names st) = Some (1, a, apply_settings ys (apply_settings zs g))" by blast
    have st: "st = (0, settings_text xs, g)" using less.prems(2) False by (simp add: settings_left_def)
    have "mdbx_option_loop st = mdbx_option_loop (fold mdbx_try mdbx_option_names st)"
      unfolding st using settings_text_nonempty [OF False less.prems(1)]
      by (subst mdbx_option_loop.simps) (simp only: prod.case if_True simp_thms)
    then show ?thesis using a p(1) by (simp add: apply_settings_def)
  qed
qed

text \<open>A pass that changes nothing is repeated for ever.\<close>

lemma mdbx_option_loop_stuck:
  assumes "arg \<noteq> []" and "fold mdbx_try mdbx_option_names (0, arg, g) = (0, arg, g)"
  shows "mdbx_option_loop (0, arg, g) = None"
proof -
  have "st \<noteq> (0, arg, g)" if "mdbx_option_loop st = Some r" for st r
  proof (rule mdbx_option_loop.raw_induct [where P = "\<lambda>st r. st \<noteq> (0, arg, g)", OF _ that])
    fix f st r
    assume IH: "\<And>st r. f st = Some r \<Longrightarrow> st \<noteq> (0, arg, g)"
      and body: "(case st of (don, arg, g) \<Rightarrow>
        if arg \<noteq> [] \<and> don = 0 then f (fold mdbx_try mdbx_option_names st) else Some st) = Some r"
    show "st \<noteq> (0, arg, g)"
    proof
      assume "st = (0, arg, g)"
      then have "f (0, arg, g) = Some r" using body assms by simp
      then show False using IH by blast
    qed
  qed
  then show ?thesis by (metis not_Some_eq)
qed

section \<open>The life of the driver\<close>

definition mdbx_opts_ok :: "mdbx_opts \<Rightarrow> bool" where
  "mdbx_opts_ok g \<longleftrightarrow> list_all (\<lambda>opt. opt_get opt g \<in> {ia_opt_bool_default, ia_opt_bool_off, ia_opt_bool_on}) mdbx_option_names"

definition mdbx_fresh :: "('env, 'l) mdbx_world \<Rightarrow> bool" where
  "mdbx_fresh w \<longleftrightarrow> xw_priv w = None \<and> mdbx_opts_ok (xw_globals w)"

definition mdbx_closeable :: "('env \<Rightarrow> bool) \<Rightarrow> ('env \<Rightarrow> bool) \<Rightarrow> ('env, 'l) mdbx_world \<Rightarrow> bool" where
  "mdbx_closeable created opened w \<longleftrightarrow> (case xw_priv w of None \<Rightarrow> True
     | Some self \<Rightarrow> live_or_null created (xp_env self) \<and>
         (xp_dbi self \<noteq> MDBX_INVALID_DBI \<longrightarrow> (\<exists>e. xp_env self = Some e \<and> opened e)))"

lemma parse_option_bool_value:
  "v \<in> V \<Longrightarrow> {ia_opt_bool_off, ia_opt_bool_on} \<subseteq> V \<Longrightarrow> ia_parse_option_bool arg opt v = (don, arg', v') \<Longrightarrow> v' \<in> V"
  by (auto simp: ia_parse_option_bool_def Let_def split: if_splits)

lemma opt_get_set: "opt_get a (opt_set b v g) = (if a = b then v else opt_get a g)"
  by (cases a; cases b; simp)

lemma mdbx_try_opts:
  assumes "mdbx_opts_ok (snd (snd st))"
  shows "mdbx_opts_ok (snd (snd (mdbx_try opt st)))"
proof -
  obtain don arg g where st: "st = (don, arg, g)" by (cases st)
  have all: "opt \<in> set mdbx_option_names" for opt by (cases opt) (simp_all add: mdbx_option_names_def)
  obtain don' arg' v where p: "ia_parse_option_bool arg (opt_name opt) (opt_get opt g) = (don', arg', v)" by (metis prod_cases3)
  have "v \<in> {ia_opt_bool_default, ia_opt_bool_off, ia_opt_bool_on}"
    by (rule parse_option_bool_value [OF _ _ p]) (use assms st all in \<open>auto simp: mdbx_opts_ok_def list_all_iff\<close>)
  then have "mdbx_opts_ok (opt_set opt v g)"
    using assms by (auto simp: st mdbx_opts_ok_def list_all_iff opt_get_set)
  then show ?thesis using assms p by (simp add: mdbx_try_def st)
qed

lemma mdbx_pass_opts: "mdbx_opts_ok (snd (snd st)) \<Longrightarrow> mdbx_opts_ok (snd (snd (fold mdbx_try opts st)))"
  by (induction opts arbitrary: st) (simp_all add: mdbx_try_opts)

lemma mdbx_option_loop_opts:
  assumes "mdbx_option_loop st = Some r" and "mdbx_opts_ok (snd (snd st))"
  shows "mdbx_opts_ok (snd (snd r))"
proof -
  have "mdbx_opts_ok (snd (snd st)) \<longrightarrow> mdbx_opts_ok (snd (snd r))"
  proof (rule mdbx_option_loop.raw_induct [where P = "\<lambda>st r. mdbx_opts_ok (snd (snd st)) \<longrightarrow> mdbx_opts_ok (snd (snd r))", OF _ assms(1)])
    fix f st r
    assume IH: "\<And>st r. f st = Some r \<Longrightarrow> mdbx_opts_ok (snd (snd st)) \<longrightarrow> mdbx_opts_ok (snd (snd r))"
      and body: "(case st of (don, arg, g) \<Rightarrow>
        if arg \<noteq> [] \<and> don = 0 then f (fold mdbx_try mdbx_option_names st) else Some st) = Some r"
    show "mdbx_opts_ok (snd (snd st)) \<longrightarrow> mdbx_opts_ok (snd (snd r))"
      using body IH mdbx_pass_opts [of st mdbx_option_names] by (cases st) (auto split: if_splits)
  qed
  then show ?thesis using assms(2) by simp
qed

lemma peek_option_bool_some:
  "from \<in> {ia_opt_bool_default, ia_opt_bool_off, ia_opt_bool_on} \<Longrightarrow> \<exists>fl. peek_option_bool dflt opt from = Some fl"
  by (auto simp: peek_option_bool_def)

lemma mdbx_optflags_some:
  assumes "mdbx_opts_ok g"
  shows "\<exists>fl'. mdbx_optflags lib g fl = Some fl'"
proof -
  have "\<exists>fl'. peek_option_bool fl m (opt_get opt g) = Some fl'" for fl m opt
    using assms by (intro peek_option_bool_some) (cases opt; simp add: mdbx_opts_ok_def mdbx_option_names_def)
  from this [where opt = LIFORECLAIM] this [where opt = COALESCE] this [where opt = EXCLUSIVE] this [where opt = PAGEPERTURB]
    this [where opt = NOMEMINIT] this [where opt = NORDAHEAD] this [where opt = NOMETASYNC]
  show ?thesis unfolding mdbx_optflags_def opt_get.simps by (metis bind.bind_lunit)
qed

lemma mdbx_open_ok:
  assumes lib: "mdbx_library lib created opened alive clive bound" and w: "mdbx_fresh w"
  shows "\<exists>rc w'. ia_mdbx_open mem lib conf datadir w = Some (rc, w') \<and>
    (rc = 0 \<and> mdbx_opened opened w' \<or> rc = -1 \<and> mdbx_closeable created opened w')"
proof (cases mem)
  case False
  then show ?thesis by (simp add: ia_mdbx_open_def mdbx_closeable_def)
next
  case mem: True
  note codes = mdbx_lib_codes [OF lib]
  have envs: "mdbx_environments lib created opened" using lib by (simp add: mdbx_library_def)
  have "\<exists>rc ep l'. mdbx_env_create lib None l = Some (rc, ep, l') \<and>
      (if rc = 0 then \<exists>e. ep = Some e \<and> created e else ep = None)" for l
    using envs unfolding mdbx_environments_def by blast
  then obtain rc1 ep l1 where 1: "mdbx_env_create lib None (xw_lib w) = Some (rc1, ep, l1)"
    "if rc1 = 0 then \<exists>e. ep = Some e \<and> created e else ep = None" by blast
  show ?thesis
  proof (cases "rc1 = 0")
    case False
    then show ?thesis using mem 1 by (simp add: ia_mdbx_open_def mdbx_closeable_def codes)
  next
    case rc1: True
    then obtain e where e: "ep = Some e" "created e" using 1 by auto
    have "\<exists>rc e' l'. mdbx_env_set_geometry lib (Some e) a b c d g p l = Some (rc, Some e', l') \<and> created e'" for a b c d g p l
      using envs e(2) unfolding mdbx_environments_def by blast
    then obtain rc2 e2 l2 where 2: "mdbx_env_set_geometry lib (Some e) (4 * (1024 * (1024 * 1024))) (4 * (1024 * (1024 * 1024)))
        (128 * (1024 * (1024 * 1024))) (64 * (1024 * 1024)) (128 * (1024 * 1024)) (-1) l1 = Some (rc2, Some e2, l2)" "created e2" by blast
    obtain fl where fl: "mdbx_optflags lib (xw_globals w) (mdbx_walflags lib (c_walmode conf) (mdbx_syncflags lib (c_syncmode conf))) = Some fl"
      using mdbx_optflags_some w unfolding mdbx_fresh_def by blast
    have "\<exists>rc e' l'. mdbx_env_open lib (Some e2) d fl m l = Some (rc, Some e', l') \<and> created e' \<and> (rc = 0 \<longrightarrow> opened e')" for d fl m l
      using envs 2(2) unfolding mdbx_environments_def by blast
    then obtain rc3 e3 l3 where 3: "mdbx_env_open lib (Some e2) datadir fl 0x1A4 l2 = Some (rc3, Some e3, l3)"
      "created e3" "rc3 = 0 \<longrightarrow> opened e3" by blast
    show ?thesis
      using mem 1 rc1 e 2 fl 3 by (simp add: ia_mdbx_open_def mdbx_closeable_def mdbx_opened_def codes Let_def)
  qed
qed

lemma mdbx_close_ok:
  assumes lib: "mdbx_library lib created opened alive clive bound" and w: "mdbx_closeable created opened w"
  shows "\<exists>w'. ia_mdbx_close lib w = Some (0, w') \<and> xw_priv w' = None"
proof (cases "xw_priv w")
  case (Some self)
  have envs: "mdbx_environments lib created opened" using lib by (simp add: mdbx_library_def)
  have self: "live_or_null created (xp_env self)" "xp_dbi self \<noteq> MDBX_INVALID_DBI \<Longrightarrow> \<exists>e. xp_env self = Some e \<and> opened e"
    using w Some by (simp_all add: mdbx_closeable_def)
  obtain l1 where 1: "(if xp_dbi self \<noteq> MDBX_INVALID_DBI then mdbx_dbi_close lib (xp_env self) (xp_dbi self) (xw_lib w)
      else Some (xw_lib w)) = Some l1"
    using self(2) envs unfolding mdbx_environments_def by (cases "xp_dbi self = MDBX_INVALID_DBI") fastforce+
  obtain l2 where 2: "(if xp_env self \<noteq> None then mdbx_env_close lib (xp_env self) l1 else Some l1) = Some l2"
    using self(1) envs unfolding mdbx_environments_def by (cases "xp_env self") fastforce+
  show ?thesis unfolding ia_mdbx_close_def Some option.case 1 Option.bind.simps 2 by simp
qed (simp add: ia_mdbx_close_def)

lemma mdbx_program_holds:
  fixes lib :: "('env, 'txn, 'cursor, 'l) mdbx_lib"
  assumes lib: "mdbx_library lib created opened alive clive bound" and commits: "mdbx_commits lib alive"
  shows "program_driver (ia_mdbx mem lib) (mdbx_opened opened) (mdbx_idle opened alive clive) (mdbx_ready alive bound) mdbx_rely
    mdbx_fresh (mdbx_closeable created opened)"
proof (intro program_driver.intro program_driver_axioms.intro mdbx_contract_holds [OF lib commits])
  fix w w' :: "('env, 'l) mdbx_world" and conf dir opt arg rc
  show "\<exists>rc w'. d_open (ia_mdbx mem lib) conf dir w = Some (rc, w') \<and>
      (rc = 0 \<and> mdbx_opened opened w' \<or> rc = -1 \<and> mdbx_closeable created opened w')" if "mdbx_fresh w"
    using mdbx_open_ok [OF lib that, of mem conf dir] by (simp add: ia_mdbx_def)
  show "mdbx_closeable created opened w \<Longrightarrow> d_close (ia_mdbx mem lib) w \<noteq> None"
    using mdbx_close_ok [OF lib, of w] by (auto simp: ia_mdbx_def)
  have "created e" if "opened e" for e
    using lib that unfolding mdbx_library_def mdbx_environments_def by blast
  then show "mdbx_opened opened w \<Longrightarrow> mdbx_closeable created opened w"
    by (auto simp: mdbx_opened_def mdbx_closeable_def)
  show "mdbx_fresh w \<Longrightarrow> mdbx_closeable created opened w" by (simp add: mdbx_fresh_def mdbx_closeable_def)
  show "mdbx_fresh w'" if "mdbx_fresh w" "d_option (ia_mdbx mem lib) = Some opt" "opt None arg w = Some (rc, w')"
  proof -
    have o: "ia_mdbx_option (None :: ('txn, 'cursor) mdbx_context option) arg w = Some (rc, w')" using that(2,3) by (simp add: ia_mdbx_def)
    show ?thesis
    proof (cases "arg = ''--help''")
      case False
      then obtain don arg' g where "mdbx_option_loop (0, arg, xw_globals w) = Some (don, arg', g)" "w' = w\<lparr>xw_globals := g\<rparr>"
        using o by (auto simp: ia_mdbx_option_def Option.bind_eq_Some_conv)
      then show ?thesis using mdbx_option_loop_opts that(1) by (fastforce simp: mdbx_fresh_def)
    qed (use o that(1) in \<open>simp add: ia_mdbx_option_def\<close>)
  qed
qed

section \<open>Properties\<close>



lemma setting_has_equals: "setting_ok (opt, b, tx) \<Longrightarrow> CHR ''='' \<in> set tx"
  by (auto simp: setting_ok_def)

lemma settings_text_has_equals:
  assumes "xs \<noteq> []" and "\<forall>x \<in> set xs. setting_ok x"
  shows "CHR ''='' \<in> set (settings_text xs)"
  using assms setting_has_equals by (cases xs rule: settings_text.cases) auto

text \<open>
  C27: an argument that is a list of settings, separated by commas, in any order and with repetitions,
  each the name of an option and an accepted word for its value in any case, is parsed to its end:
  the loop returns, the driver accepts it, and each option has the value of its last setting.
\<close>

theorem mdbx_options_parsed:
  assumes "xs \<noteq> []" and "\<forall>x \<in> set xs. setting_ok x"
  shows "ia_mdbx_option None (settings_text xs) w = Some (0, w\<lparr>xw_globals := apply_settings xs (xw_globals w)\<rparr>)"
proof -
  have "settings_text xs \<noteq> ''--help''"
    using settings_text_has_equals [OF assms] by (auto dest!: arg_cong [where f = set])
  moreover obtain a where "mdbx_option_loop (0, settings_text xs, xw_globals w) = Some (1, a, apply_settings xs (xw_globals w))"
    using mdbx_option_loop_ok [OF assms(2)] assms(1) by (auto simp: settings_left_def)
  ultimately show ?thesis by (simp add: ia_mdbx_option_def)
qed

definition no_options :: mdbx_opts where
  "no_options = \<lparr>xo_liforeclaim = 0, xo_coalesce = 0, xo_exclusive = 0, xo_pageperturb = 0, xo_nomeminit = 0,
     xo_nordahead = 0, xo_nometasync = 0\<rparr>"

theorem mdbx_options_parsed_witness:
  "ia_mdbx_option (None :: (unit, unit) mdbx_context option) ''NORDAHEAD=on,exclusive=OFF,Nordahead=no''
     \<lparr>xw_priv = (None :: unit mdbx_private option), xw_globals = no_options, xw_lib = ()\<rparr> =
   Some (0, \<lparr>xw_priv = None,
     xw_globals = no_options\<lparr>xo_exclusive := ia_opt_bool_off, xo_nordahead := ia_opt_bool_off\<rparr>, xw_lib = ()\<rparr>)"
proof -
  let ?xs = "[(NORDAHEAD, True, ''NORDAHEAD=on''), (EXCLUSIVE, False, ''exclusive=OFF''), (NORDAHEAD, False, ''Nordahead=no'')]"
  have ok: "setting_ok (opt, b, name @ ''='' @ v)"
    if "strcaseeq name (opt_name opt)" "strcaseeq v w" "w \<in> set (bool_words b)" "CHR '','' \<notin> set v" for opt b name v w
    using that by (auto simp: setting_ok_def)
  have eqs: "strcaseeq ''NORDAHEAD'' ''NORDAHEAD''" "strcaseeq ''exclusive'' ''EXCLUSIVE''" "strcaseeq ''Nordahead'' ''NORDAHEAD''"
    "strcaseeq ''on'' ''ON''" "strcaseeq ''OFF'' ''OFF''" "strcaseeq ''no'' ''NO''" by code_simp+
  have "setting_ok (NORDAHEAD, True, ''NORDAHEAD=on'')"
    using ok [of "''NORDAHEAD''" NORDAHEAD "''on''" "''ON''" True] eqs by (simp add: bool_words_def)
  moreover have "setting_ok (EXCLUSIVE, False, ''exclusive=OFF'')"
    using ok [of "''exclusive''" EXCLUSIVE "''OFF''" "''OFF''" False] eqs by (simp add: bool_words_def)
  moreover have "setting_ok (NORDAHEAD, False, ''Nordahead=no'')"
    using ok [of "''Nordahead''" NORDAHEAD "''no''" "''NO''" False] eqs by (simp add: bool_words_def)
  ultimately have "\<forall>x \<in> set ?xs. setting_ok x" by simp
  from mdbx_options_parsed [OF _ this, of "\<lparr>xw_priv = None :: unit mdbx_private option, xw_globals = no_options, xw_lib = ()\<rparr>"]
  show ?thesis by (simp add: apply_settings_def no_options_def)
qed

text \<open>
  C28: an argument that starts with anything else than the name of an option hangs the program: no
  alternative of the loop takes anything from it, none of them reports an error, and the loop
  starts again.
\<close>

theorem mdbx_unknown_option_hangs:
  assumes "arg \<noteq> []" and "arg \<noteq> ''--help''" and "\<forall>opt. \<not> strcaseeq (option_head arg) (opt_name opt)"
  shows "ia_mdbx_option None arg w = None"
proof -
  have one: "mdbx_try opt (0, arg, xw_globals w) = (0, arg, xw_globals w)" for opt
    using parse_option_bool_other [OF opt_names(1)] assms(3) by (simp add: mdbx_try_def)
  have "fold mdbx_try opts (0, arg, xw_globals w) = (0, arg, xw_globals w)" for opts
    by (induction opts) (simp_all add: one)
  then have "mdbx_option_loop (0, arg, xw_globals w) = None"
    using mdbx_option_loop_stuck [OF assms(1)] by blast
  then show ?thesis using assms(2) by (simp add: ia_mdbx_option_def)
qed

theorem mdbx_unknown_option_hangs_witness:
  "ia_mdbx_option (None :: (unit, unit) mdbx_context option) ''NOSYNC=on''
     \<lparr>xw_priv = (None :: unit mdbx_private option), xw_globals = no_options, xw_lib = ()\<rparr> = None"
proof (rule mdbx_unknown_option_hangs)
  show "\<forall>opt. \<not> strcaseeq (option_head ''NOSYNC=on'') (opt_name opt)"
  proof
    show "\<not> strcaseeq (option_head ''NOSYNC=on'') (opt_name opt)" for opt
      by (cases opt) (simp_all add: option_head_def strcaseeq_def tolower_def)
  qed
qed simp_all

end
