(* ===== verification/DriverLevel.thy ===== *)
theory DriverLevel
  imports Driver "HOL-Library.Monad_Syntax"
begin

text \<open>
  The drivers of LevelDB and RocksDB (\<open>src/drivers/ia_leveldb.c\<close>, \<open>src/drivers/ia_rocksdb.c\<close>).  The two
  libraries have the same C interface, up to the prefix of its names and two calls that only RocksDB
  has; it is one record here, and each driver takes a library as an argument.  Objects are the values
  their pointers point to, as in the LMDB driver; the error strings the calls return through \<open>errptr\<close>
  are \<open>None\<close> for a null pointer.
\<close>

section \<open>The libraries\<close>

text \<open>\<open>'o\<close>, \<open>'r\<close>, \<open>'v\<close>: options, read and write options; \<open>'d\<close>: database; \<open>'i\<close>: iterator; \<open>'b\<close>: write batch.\<close>

record ('o, 'r, 'v, 'd, 'i, 'b, 'l) level_lib =
  no_compression :: int
  options_create :: "'l \<Rightarrow> 'o \<times> 'l"
  options_set_compression :: "'o \<Rightarrow> int \<Rightarrow> 'o"
  options_set_info_log :: "'o \<Rightarrow> 'o"
  options_set_create_if_missing :: "'o \<Rightarrow> int \<Rightarrow> 'o"
  options_set_use_fsync :: "'o \<Rightarrow> int \<Rightarrow> 'o"
  options_destroy :: "'o \<Rightarrow> 'l \<Rightarrow> 'l"
  writeoptions_create :: "'l \<Rightarrow> 'v \<times> 'l"
  writeoptions_set_sync :: "'v \<Rightarrow> int \<Rightarrow> 'v"
  writeoptions_disable_WAL :: "'v \<Rightarrow> int \<Rightarrow> 'v"
  writeoptions_destroy :: "'v \<Rightarrow> 'l \<Rightarrow> 'l"
  readoptions_create :: "'l \<Rightarrow> 'r \<times> 'l"
  readoptions_set_fill_cache :: "'r \<Rightarrow> int \<Rightarrow> 'r"
  readoptions_destroy :: "'r \<Rightarrow> 'l \<Rightarrow> 'l"
  db_open :: "'o \<Rightarrow> string \<Rightarrow> 'l \<Rightarrow> ('d option \<times> string option \<times> 'l) option"
  db_close :: "'d \<Rightarrow> 'l \<Rightarrow> 'l option"
  db_put :: "'d option \<Rightarrow> 'v \<Rightarrow> u8 list option \<Rightarrow> u64 \<Rightarrow> u8 list option \<Rightarrow> u64 \<Rightarrow> 'l \<Rightarrow> (string option \<times> 'l) option"
  db_delete :: "'d option \<Rightarrow> 'v \<Rightarrow> u8 list option \<Rightarrow> u64 \<Rightarrow> 'l \<Rightarrow> (string option \<times> 'l) option"
  db_write :: "'d option \<Rightarrow> 'v \<Rightarrow> 'b \<Rightarrow> 'l \<Rightarrow> (string option \<times> 'b \<times> 'l) option"
  db_get :: "'d option \<Rightarrow> 'r \<Rightarrow> u8 list option \<Rightarrow> u64 \<Rightarrow> 'l \<Rightarrow> (u8 list option \<times> u64 \<times> string option \<times> 'l) option"
  create_iterator :: "'d option \<Rightarrow> 'r \<Rightarrow> 'l \<Rightarrow> ('i option \<times> 'l) option"
  iter_destroy :: "'i \<Rightarrow> 'l \<Rightarrow> 'l option"
  iter_seek_to_first :: "'i \<Rightarrow> 'l \<Rightarrow> ('i \<times> 'l) option"
  iter_valid :: "'i option \<Rightarrow> 'l \<Rightarrow> bool option"
  iter_key :: "'i option \<Rightarrow> 'l \<Rightarrow> (u8 list option \<times> u64) option"
  iter_next :: "'i option \<Rightarrow> 'l \<Rightarrow> ('i option \<times> 'l) option"
  writebatch_create :: "'l \<Rightarrow> ('b option \<times> 'l) option"
  writebatch_destroy :: "'b \<Rightarrow> 'l \<Rightarrow> 'l option"
  writebatch_put :: "'b \<Rightarrow> u8 list option \<Rightarrow> u64 \<Rightarrow> u8 list option \<Rightarrow> u64 \<Rightarrow> 'l \<Rightarrow> ('b \<times> 'l) option"
  writebatch_delete :: "'b \<Rightarrow> u8 list option \<Rightarrow> u64 \<Rightarrow> 'l \<Rightarrow> ('b \<times> 'l) option"

section \<open>State of the drivers\<close>

record ('o, 'r, 'v, 'd) level_private =
  vp_opts :: "'o option"
  vp_ropts :: "'r option"
  vp_wopts :: "'v option"
  vp_db :: "'d option"

record ('i, 'b) level_context =
  vc_it :: "'i option"
  vc_batch :: "'b option"
  vc_result :: "u8 list option"

record ('o, 'r, 'v, 'd, 'l) level_world =
  vw_priv :: "('o, 'r, 'v, 'd) level_private option"
  vw_lib :: 'l

section \<open>LevelDB\<close>

definition ia_leveldb_open ::
  "bool \<Rightarrow> ('o, 'r, 'v, 'd, 'i, 'b, 'l) level_lib \<Rightarrow> iaconfig \<Rightarrow> string \<Rightarrow> ('o, 'r, 'v, 'd, 'l) level_world
     \<Rightarrow> (int \<times> ('o, 'r, 'v, 'd, 'l) level_world) option" where
  "ia_leveldb_open mem lib conf datadir w =
     (if \<not> mem then Some (-1, w\<lparr>vw_priv := None\<rparr>)
      else
        (let self = \<lparr>vp_opts = None, vp_ropts = None, vp_wopts = None, vp_db = None\<rparr>;
             (opts, l) = options_create lib (vw_lib w);
             opts = options_set_compression lib opts (no_compression lib);
             opts = options_set_info_log lib opts;
             opts = options_set_create_if_missing lib opts 1;
             (wopts, l) = writeoptions_create lib l;
             (ropts, l) = readoptions_create lib l;
             ropts = readoptions_set_fill_cache lib ropts 1;
             wopts = (case c_syncmode conf of
               IA_SYNC \<Rightarrow> writeoptions_set_sync lib wopts 1
             | _ \<Rightarrow> writeoptions_set_sync lib wopts 0);
             self = self\<lparr>vp_opts := Some opts, vp_ropts := Some ropts, vp_wopts := Some wopts\<rparr>
         in if c_walmode conf = IA_WAL_OFF then Some (-1, w\<lparr>vw_priv := Some self, vw_lib := l\<rparr>)
            else do {
              (db, error, l) \<leftarrow> db_open lib opts datadir l;
              let w = w\<lparr>vw_priv := Some (self\<lparr>vp_db := db\<rparr>), vw_lib := l\<rparr>;
              Some (if error \<noteq> None then -1 else 0, w) }))"

definition ia_leveldb_close ::
  "('o, 'r, 'v, 'd, 'i, 'b, 'l) level_lib \<Rightarrow> ('o, 'r, 'v, 'd, 'l) level_world \<Rightarrow> (int \<times> ('o, 'r, 'v, 'd, 'l) level_world) option" where
  "ia_leveldb_close lib w =
     (case vw_priv w of
        None \<Rightarrow> Some (0, w)
      | Some self \<Rightarrow> do {
          l \<leftarrow> (case vp_db self of None \<Rightarrow> Some (vw_lib w) | Some db \<Rightarrow> db_close lib db (vw_lib w));
          let l = (case vp_ropts self of None \<Rightarrow> l | Some r \<Rightarrow> readoptions_destroy lib r l);
          let l = (case vp_wopts self of None \<Rightarrow> l | Some v \<Rightarrow> writeoptions_destroy lib v l);
          let l = (case vp_opts self of None \<Rightarrow> l | Some opts \<Rightarrow> options_destroy lib opts l);
          Some (0, w\<lparr>vw_priv := None, vw_lib := l\<rparr>) })"

definition ia_leveldb_thread_new ::
  "bool \<Rightarrow> ('o, 'r, 'v, 'd, 'l) level_world \<Rightarrow> (('i, 'b) level_context option \<times> ('o, 'r, 'v, 'd, 'l) level_world) option" where
  "ia_leveldb_thread_new mem w = Some (if mem then Some \<lparr>vc_it = None, vc_batch = None, vc_result = None\<rparr> else None, w)"

definition ia_leveldb_thread_dispose ::
  "('o, 'r, 'v, 'd, 'i, 'b, 'l) level_lib \<Rightarrow> ('i, 'b) level_context \<Rightarrow> ('o, 'r, 'v, 'd, 'l) level_world
     \<Rightarrow> ('o, 'r, 'v, 'd, 'l) level_world option" where
  "ia_leveldb_thread_dispose lib ctx w =
     do { l \<leftarrow> (case vc_it ctx of None \<Rightarrow> Some (vw_lib w) | Some it \<Rightarrow> iter_destroy lib it (vw_lib w));
          l \<leftarrow> (case vc_batch ctx of None \<Rightarrow> Some l | Some b \<Rightarrow> writebatch_destroy lib b l);
          Some (w\<lparr>vw_lib := l\<rparr>) }"

definition ia_leveldb_begin ::
  "('o, 'r, 'v, 'd, 'i, 'b, 'l) level_lib \<Rightarrow> ('i, 'b) level_context \<Rightarrow> iabenchmark \<Rightarrow> ('o, 'r, 'v, 'd, 'l) level_world
     \<Rightarrow> (int \<times> ('i, 'b) level_context \<times> ('o, 'r, 'v, 'd, 'l) level_world) option" where
  "ia_leveldb_begin lib ctx step w =
     (if step \<in> {IA_GET, IA_SET, IA_DELETE} then Some (0, ctx, w)
      else if step = IA_ITERATE then do {
        self \<leftarrow> vw_priv w;
        ropts \<leftarrow> vp_ropts self;
        (it, l) \<leftarrow> create_iterator lib (vp_db self) ropts (vw_lib w);
        case it of
          None \<Rightarrow> Some (-1, ctx\<lparr>vc_it := None\<rparr>, w\<lparr>vw_lib := l\<rparr>)
        | Some it \<Rightarrow> do {
            (it, l) \<leftarrow> iter_seek_to_first lib it l;
            Some (0, ctx\<lparr>vc_it := Some it\<rparr>, w\<lparr>vw_lib := l\<rparr>) } }
      else if step \<in> {IA_CRUD, IA_BATCH} then do {
        (b, l) \<leftarrow> writebatch_create lib (vw_lib w);
        Some (if b = None then -1 else 0, ctx\<lparr>vc_batch := b\<rparr>, w\<lparr>vw_lib := l\<rparr>) }
      else None)"

definition ia_leveldb_done ::
  "('o, 'r, 'v, 'd, 'i, 'b, 'l) level_lib \<Rightarrow> ('i, 'b) level_context \<Rightarrow> iabenchmark \<Rightarrow> ('o, 'r, 'v, 'd, 'l) level_world
     \<Rightarrow> (int \<times> ('i, 'b) level_context \<times> ('o, 'r, 'v, 'd, 'l) level_world) option" where
  "ia_leveldb_done lib ctx step w =
     (if step = IA_GET then Some (0, ctx\<lparr>vc_result := None\<rparr>, w)
      else if step \<in> {IA_SET, IA_DELETE} then Some (0, ctx, w)
      else if step = IA_ITERATE then
        (case vc_it ctx of
           None \<Rightarrow> Some (0, ctx, w)
         | Some it \<Rightarrow> do { l \<leftarrow> iter_destroy lib it (vw_lib w); Some (0, ctx\<lparr>vc_it := None\<rparr>, w\<lparr>vw_lib := l\<rparr>) })
      else if step \<in> {IA_CRUD, IA_BATCH} then
        (case vc_batch ctx of
           None \<Rightarrow> Some (0, ctx, w)
         | Some b \<Rightarrow> do {
             self \<leftarrow> vw_priv w;
             wopts \<leftarrow> vp_wopts self;
             (error, b, l) \<leftarrow> db_write lib (vp_db self) wopts b (vw_lib w);
             if error \<noteq> None then Some (-1, ctx\<lparr>vc_batch := Some b\<rparr>, w\<lparr>vw_lib := l\<rparr>)
             else do { l \<leftarrow> writebatch_destroy lib b l; Some (0, ctx\<lparr>vc_batch := None\<rparr>, w\<lparr>vw_lib := l\<rparr>) } })
      else None)"

definition ia_leveldb_next ::
  "('o, 'r, 'v, 'd, 'i, 'b, 'l) level_lib \<Rightarrow> ('i, 'b) level_context \<Rightarrow> iabenchmark \<Rightarrow> iakv \<Rightarrow> ('o, 'r, 'v, 'd, 'l) level_world
     \<Rightarrow> (int \<times> iakv \<times> ('i, 'b) level_context \<times> ('o, 'r, 'v, 'd, 'l) level_world) option" where
  "ia_leveldb_next lib ctx step kv w =
     (case step of
         IA_SET \<Rightarrow>
           (case vc_batch ctx of
              Some b \<Rightarrow> do {
                (b, l) \<leftarrow> writebatch_put lib b (kv_k kv) (kv_ksize kv) (kv_v kv) (kv_vsize kv) (vw_lib w);
                Some (0, kv, ctx\<lparr>vc_batch := Some b\<rparr>, w\<lparr>vw_lib := l\<rparr>) }
            | None \<Rightarrow> do {
                self \<leftarrow> vw_priv w;
                wopts \<leftarrow> vp_wopts self;
                (error, l) \<leftarrow> db_put lib (vp_db self) wopts (kv_k kv) (kv_ksize kv) (kv_v kv) (kv_vsize kv) (vw_lib w);
                Some (if error \<noteq> None then -1 else 0, kv, ctx, w\<lparr>vw_lib := l\<rparr>) })
       | IA_DELETE \<Rightarrow>
           (case vc_batch ctx of
              Some b \<Rightarrow> do {
                (b, l) \<leftarrow> writebatch_delete lib b (kv_k kv) (kv_ksize kv) (vw_lib w);
                Some (0, kv, ctx\<lparr>vc_batch := Some b\<rparr>, w\<lparr>vw_lib := l\<rparr>) }
            | None \<Rightarrow> do {
                self \<leftarrow> vw_priv w;
                wopts \<leftarrow> vp_wopts self;
                (error, l) \<leftarrow> db_delete lib (vp_db self) wopts (kv_k kv) (kv_ksize kv) (vw_lib w);
                Some (if error \<noteq> None then -1 else 0, kv, ctx, w\<lparr>vw_lib := l\<rparr>) })
       | IA_GET \<Rightarrow> do {
           self \<leftarrow> vw_priv w;
           ropts \<leftarrow> vp_ropts self;
           (result, vsize, error, l) \<leftarrow> db_get lib (vp_db self) ropts (kv_k kv) (kv_ksize kv) (vw_lib w);
           let ctx = ctx\<lparr>vc_result := result\<rparr>;
           let kv = kv\<lparr>kv_vsize := vsize\<rparr>;
           let w = w\<lparr>vw_lib := l\<rparr>;
           if error \<noteq> None then Some (-1, kv, ctx, w)
           else if result = None \<and> vc_batch ctx = None then Some (ENOENT, kv, ctx, w)
           else Some (0, kv\<lparr>kv_v := result\<rparr>, ctx, w) }
       | IA_ITERATE \<Rightarrow> do {
           valid \<leftarrow> iter_valid lib (vc_it ctx) (vw_lib w);
           if \<not> valid then Some (ENOENT, kv, ctx, w)
           else do {
             (k, ksize) \<leftarrow> iter_key lib (vc_it ctx) (vw_lib w);
             (it, l) \<leftarrow> iter_next lib (vc_it ctx) (vw_lib w);
             Some (0, kv\<lparr>kv_k := k, kv_ksize := ksize\<rparr>, ctx\<lparr>vc_it := it\<rparr>, w\<lparr>vw_lib := l\<rparr>) } }
       | _ \<Rightarrow> None)"

definition ia_leveldb ::
  "bool \<Rightarrow> ('o, 'r, 'v, 'd, 'i, 'b, 'l) level_lib \<Rightarrow> (('o, 'r, 'v, 'd, 'l) level_world, ('i, 'b) level_context) iadriver" where
  "ia_leveldb mem lib = \<lparr>d_name = ''leveldb'', d_open = ia_leveldb_open mem lib, d_close = ia_leveldb_close lib,
     d_thread_new = ia_leveldb_thread_new mem, d_thread_dispose = ia_leveldb_thread_dispose lib,
     d_begin = ia_leveldb_begin lib, d_next = ia_leveldb_next lib, d_done = ia_leveldb_done lib, d_option = None\<rparr>"

section \<open>RocksDB\<close>

text \<open>\<open>malloc\<close> does not clear the block it returns: \<open>mem\<close> is the block with its contents.\<close>

definition ia_rocksdb_open ::
  "('o, 'r, 'v, 'd) level_private option \<Rightarrow> ('o, 'r, 'v, 'd, 'i, 'b, 'l) level_lib \<Rightarrow> iaconfig \<Rightarrow> string
     \<Rightarrow> ('o, 'r, 'v, 'd, 'l) level_world \<Rightarrow> (int \<times> ('o, 'r, 'v, 'd, 'l) level_world) option" where
  "ia_rocksdb_open mem lib conf datadir w =
     (case mem of
        None \<Rightarrow> Some (-1, w\<lparr>vw_priv := None\<rparr>)
      | Some self \<Rightarrow>
          (let (opts, l) = options_create lib (vw_lib w);
               opts = options_set_compression lib opts (no_compression lib);
               opts = options_set_info_log lib opts;
               opts = options_set_create_if_missing lib opts 1;
               (wopts, l) = writeoptions_create lib l;
               (ropts, l) = readoptions_create lib l;
               ropts = readoptions_set_fill_cache lib ropts 0;
               (wopts, opts) = (case c_syncmode conf of
                 IA_SYNC \<Rightarrow> (writeoptions_set_sync lib wopts 1, options_set_use_fsync lib opts 1)
               | _ \<Rightarrow> (writeoptions_set_sync lib wopts 0, options_set_use_fsync lib opts 0));
               wopts = (case c_walmode conf of
                 IA_WAL_INDEF \<Rightarrow> wopts
               | IA_WAL_ON \<Rightarrow> writeoptions_disable_WAL lib wopts 0
               | IA_WAL_OFF \<Rightarrow> writeoptions_disable_WAL lib wopts 1);
               self = self\<lparr>vp_opts := Some opts, vp_ropts := Some ropts, vp_wopts := Some wopts\<rparr>
           in do {
                (db, error, l) \<leftarrow> db_open lib opts datadir l;
                let w = w\<lparr>vw_priv := Some (self\<lparr>vp_db := db\<rparr>), vw_lib := l\<rparr>;
                Some (if error \<noteq> None then -1 else 0, w) }))"

definition ia_rocksdb_close ::
  "('o, 'r, 'v, 'd, 'i, 'b, 'l) level_lib \<Rightarrow> ('o, 'r, 'v, 'd, 'l) level_world \<Rightarrow> (int \<times> ('o, 'r, 'v, 'd, 'l) level_world) option" where
  "ia_rocksdb_close lib w =
     (case vw_priv w of
        None \<Rightarrow> Some (0, w)
      | Some self \<Rightarrow> do {
          l \<leftarrow> (case vp_db self of None \<Rightarrow> Some (vw_lib w) | Some db \<Rightarrow> db_close lib db (vw_lib w));
          let l = (case vp_ropts self of None \<Rightarrow> l | Some r \<Rightarrow> readoptions_destroy lib r l);
          let l = (case vp_wopts self of None \<Rightarrow> l | Some v \<Rightarrow> writeoptions_destroy lib v l);
          let l = (case vp_opts self of None \<Rightarrow> l | Some opts \<Rightarrow> options_destroy lib opts l);
          Some (0, w\<lparr>vw_priv := None, vw_lib := l\<rparr>) })"

definition ia_rocksdb_thread_dispose ::
  "('o, 'r, 'v, 'd, 'i, 'b, 'l) level_lib \<Rightarrow> ('i, 'b) level_context \<Rightarrow> ('o, 'r, 'v, 'd, 'l) level_world
     \<Rightarrow> ('o, 'r, 'v, 'd, 'l) level_world option" where
  "ia_rocksdb_thread_dispose lib ctx w =
     do { l \<leftarrow> (case vc_it ctx of None \<Rightarrow> Some (vw_lib w) | Some it \<Rightarrow> iter_destroy lib it (vw_lib w));
          l \<leftarrow> (case vc_batch ctx of None \<Rightarrow> Some l | Some b \<Rightarrow> writebatch_destroy lib b l);
          Some (w\<lparr>vw_lib := l\<rparr>) }"

definition ia_rocksdb_thread_new ::
  "bool \<Rightarrow> ('o, 'r, 'v, 'd, 'l) level_world \<Rightarrow> (('i, 'b) level_context option \<times> ('o, 'r, 'v, 'd, 'l) level_world) option" where
  "ia_rocksdb_thread_new mem w = Some (if mem then Some \<lparr>vc_it = None, vc_batch = None, vc_result = None\<rparr> else None, w)"

definition ia_rocksdb_begin ::
  "('o, 'r, 'v, 'd, 'i, 'b, 'l) level_lib \<Rightarrow> ('i, 'b) level_context \<Rightarrow> iabenchmark \<Rightarrow> ('o, 'r, 'v, 'd, 'l) level_world
     \<Rightarrow> (int \<times> ('i, 'b) level_context \<times> ('o, 'r, 'v, 'd, 'l) level_world) option" where
  "ia_rocksdb_begin lib ctx step w =
     (if step \<in> {IA_GET, IA_SET, IA_DELETE} then Some (0, ctx, w)
      else if step = IA_ITERATE then do {
        self \<leftarrow> vw_priv w;
        ropts \<leftarrow> vp_ropts self;
        (it, l) \<leftarrow> create_iterator lib (vp_db self) ropts (vw_lib w);
        case it of
          None \<Rightarrow> Some (-1, ctx\<lparr>vc_it := None\<rparr>, w\<lparr>vw_lib := l\<rparr>)
        | Some it \<Rightarrow> do {
            (it, l) \<leftarrow> iter_seek_to_first lib it l;
            Some (0, ctx\<lparr>vc_it := Some it\<rparr>, w\<lparr>vw_lib := l\<rparr>) } }
      else if step \<in> {IA_CRUD, IA_BATCH} then do {
        (b, l) \<leftarrow> writebatch_create lib (vw_lib w);
        Some (if b = None then -1 else 0, ctx\<lparr>vc_batch := b\<rparr>, w\<lparr>vw_lib := l\<rparr>) }
      else None)"

definition ia_rocksdb_done ::
  "('o, 'r, 'v, 'd, 'i, 'b, 'l) level_lib \<Rightarrow> ('i, 'b) level_context \<Rightarrow> iabenchmark \<Rightarrow> ('o, 'r, 'v, 'd, 'l) level_world
     \<Rightarrow> (int \<times> ('i, 'b) level_context \<times> ('o, 'r, 'v, 'd, 'l) level_world) option" where
  "ia_rocksdb_done lib ctx step w =
     (if step = IA_GET then Some (0, ctx\<lparr>vc_result := None\<rparr>, w)
      else if step \<in> {IA_SET, IA_DELETE} then Some (0, ctx, w)
      else if step = IA_ITERATE then
        (case vc_it ctx of
           None \<Rightarrow> Some (0, ctx, w)
         | Some it \<Rightarrow> do { l \<leftarrow> iter_destroy lib it (vw_lib w); Some (0, ctx\<lparr>vc_it := None\<rparr>, w\<lparr>vw_lib := l\<rparr>) })
      else if step \<in> {IA_CRUD, IA_BATCH} then
        (case vc_batch ctx of
           None \<Rightarrow> Some (0, ctx, w)
         | Some b \<Rightarrow> do {
             self \<leftarrow> vw_priv w;
             wopts \<leftarrow> vp_wopts self;
             (error, b, l) \<leftarrow> db_write lib (vp_db self) wopts b (vw_lib w);
             if error \<noteq> None then Some (-1, ctx\<lparr>vc_batch := Some b\<rparr>, w\<lparr>vw_lib := l\<rparr>)
             else do { l \<leftarrow> writebatch_destroy lib b l; Some (0, ctx\<lparr>vc_batch := None\<rparr>, w\<lparr>vw_lib := l\<rparr>) } })
      else None)"

definition ia_rocksdb_next ::
  "('o, 'r, 'v, 'd, 'i, 'b, 'l) level_lib \<Rightarrow> ('i, 'b) level_context \<Rightarrow> iabenchmark \<Rightarrow> iakv \<Rightarrow> ('o, 'r, 'v, 'd, 'l) level_world
     \<Rightarrow> (int \<times> iakv \<times> ('i, 'b) level_context \<times> ('o, 'r, 'v, 'd, 'l) level_world) option" where
  "ia_rocksdb_next lib ctx step kv w =
     (case step of
         IA_SET \<Rightarrow>
           (case vc_batch ctx of
              Some b \<Rightarrow> do {
                (b, l) \<leftarrow> writebatch_put lib b (kv_k kv) (kv_ksize kv) (kv_v kv) (kv_vsize kv) (vw_lib w);
                Some (0, kv, ctx\<lparr>vc_batch := Some b\<rparr>, w\<lparr>vw_lib := l\<rparr>) }
            | None \<Rightarrow> do {
                self \<leftarrow> vw_priv w;
                wopts \<leftarrow> vp_wopts self;
                (error, l) \<leftarrow> db_put lib (vp_db self) wopts (kv_k kv) (kv_ksize kv) (kv_v kv) (kv_vsize kv) (vw_lib w);
                Some (if error \<noteq> None then -1 else 0, kv, ctx, w\<lparr>vw_lib := l\<rparr>) })
       | IA_DELETE \<Rightarrow>
           (case vc_batch ctx of
              Some b \<Rightarrow> do {
                (b, l) \<leftarrow> writebatch_delete lib b (kv_k kv) (kv_ksize kv) (vw_lib w);
                Some (0, kv, ctx\<lparr>vc_batch := Some b\<rparr>, w\<lparr>vw_lib := l\<rparr>) }
            | None \<Rightarrow> do {
                self \<leftarrow> vw_priv w;
                wopts \<leftarrow> vp_wopts self;
                (error, l) \<leftarrow> db_delete lib (vp_db self) wopts (kv_k kv) (kv_ksize kv) (vw_lib w);
                Some (if error \<noteq> None then -1 else 0, kv, ctx, w\<lparr>vw_lib := l\<rparr>) })
       | IA_GET \<Rightarrow> do {
           self \<leftarrow> vw_priv w;
           ropts \<leftarrow> vp_ropts self;
           (result, vsize, error, l) \<leftarrow> db_get lib (vp_db self) ropts (kv_k kv) (kv_ksize kv) (vw_lib w);
           let ctx = ctx\<lparr>vc_result := result\<rparr>;
           let kv = kv\<lparr>kv_vsize := vsize\<rparr>;
           let w = w\<lparr>vw_lib := l\<rparr>;
           if error \<noteq> None then Some (-1, kv, ctx, w)
           else if result = None \<and> vc_batch ctx = None then Some (ENOENT, kv, ctx, w)
           else Some (0, kv\<lparr>kv_v := result\<rparr>, ctx, w) }
       | IA_ITERATE \<Rightarrow> do {
           valid \<leftarrow> iter_valid lib (vc_it ctx) (vw_lib w);
           if \<not> valid then Some (ENOENT, kv, ctx, w)
           else do {
             (k, ksize) \<leftarrow> iter_key lib (vc_it ctx) (vw_lib w);
             (it, l) \<leftarrow> iter_next lib (vc_it ctx) (vw_lib w);
             Some (0, kv\<lparr>kv_k := k, kv_ksize := ksize\<rparr>, ctx\<lparr>vc_it := it\<rparr>, w\<lparr>vw_lib := l\<rparr>) } }
       | _ \<Rightarrow> None)"

definition ia_rocksdb ::
  "('o, 'r, 'v, 'd) level_private option \<Rightarrow> bool \<Rightarrow> ('o, 'r, 'v, 'd, 'i, 'b, 'l) level_lib
     \<Rightarrow> (('o, 'r, 'v, 'd, 'l) level_world, ('i, 'b) level_context) iadriver" where
  "ia_rocksdb blk mem lib = \<lparr>d_name = ''rocksdb'', d_open = ia_rocksdb_open blk lib, d_close = ia_rocksdb_close lib,
     d_thread_new = ia_rocksdb_thread_new mem, d_thread_dispose = ia_rocksdb_thread_dispose lib,
     d_begin = ia_rocksdb_begin lib, d_next = ia_rocksdb_next lib, d_done = ia_rocksdb_done lib, d_option = None\<rparr>"

text \<open>All but the opening is the same code.\<close>

lemma rocksdb_same_operations:
  "ia_rocksdb_close = ia_leveldb_close" "ia_rocksdb_thread_new = ia_leveldb_thread_new"
  "ia_rocksdb_thread_dispose = ia_leveldb_thread_dispose" "ia_rocksdb_begin = ia_leveldb_begin"
  "ia_rocksdb_done = ia_leveldb_done" "ia_rocksdb_next = ia_leveldb_next"
  by (intro ext; simp only: ia_rocksdb_close_def ia_leveldb_close_def ia_rocksdb_thread_new_def ia_leveldb_thread_new_def
      ia_rocksdb_thread_dispose_def ia_leveldb_thread_dispose_def ia_rocksdb_begin_def ia_leveldb_begin_def
      ia_rocksdb_done_def ia_leveldb_done_def ia_rocksdb_next_def ia_leveldb_next_def)+

section \<open>What the drivers rely on\<close>

text \<open>
  The documented behaviour of the libraries: \<open>dlive\<close>, \<open>ilive\<close>, \<open>blive\<close> describe a database, an iterator
  and a write batch that have not been destroyed.  Every call on live objects returns; an iterator
  that has run off its end must not be asked for its key or moved on.
\<close>

definition level_databases ::
  "('o, 'r, 'v, 'd, 'i, 'b, 'l) level_lib \<Rightarrow> ('d \<Rightarrow> bool) \<Rightarrow> bool" where
  "level_databases lib dlive \<longleftrightarrow>
     (\<forall>opts dir l. \<exists>dp err l'. db_open lib opts dir l = Some (dp, err, l') \<and>
        (if err = None then \<exists>d. dp = Some d \<and> dlive d else dp = None)) \<and>
     (\<forall>d l. dlive d \<longrightarrow> db_close lib d l \<noteq> None) \<and>
     (\<forall>d v k ks x xs l. dlive d \<longrightarrow> readable k ks \<longrightarrow> readable x xs \<longrightarrow> (\<exists>err l'. db_put lib (Some d) v k ks x xs l = Some (err, l'))) \<and>
     (\<forall>d v k ks l. dlive d \<longrightarrow> readable k ks \<longrightarrow> (\<exists>err l'. db_delete lib (Some d) v k ks l = Some (err, l'))) \<and>
     (\<forall>d r k ks l. dlive d \<longrightarrow> readable k ks \<longrightarrow> (\<exists>res vs err l'. db_get lib (Some d) r k ks l = Some (res, vs, err, l')))"

definition level_iterators ::
  "('o, 'r, 'v, 'd, 'i, 'b, 'l) level_lib \<Rightarrow> ('d \<Rightarrow> bool) \<Rightarrow> ('i \<Rightarrow> bool) \<Rightarrow> bool" where
  "level_iterators lib dlive ilive \<longleftrightarrow>
     (\<forall>d r l. dlive d \<longrightarrow> (\<exists>ip l'. create_iterator lib (Some d) r l = Some (ip, l') \<and> live_or_null ilive ip)) \<and>
     (\<forall>i l. ilive i \<longrightarrow> (\<exists>i' l'. iter_seek_to_first lib i l = Some (i', l') \<and> ilive i')) \<and>
     (\<forall>i l. ilive i \<longrightarrow> iter_destroy lib i l \<noteq> None) \<and>
     (\<forall>i l. ilive i \<longrightarrow> (\<exists>valid. iter_valid lib (Some i) l = Some valid \<and>
        (valid \<longrightarrow> (\<exists>k ks i' l'. iter_key lib (Some i) l = Some (k, ks) \<and> iter_next lib (Some i) l = Some (Some i', l') \<and> ilive i'))))"

definition level_batches ::
  "('o, 'r, 'v, 'd, 'i, 'b, 'l) level_lib \<Rightarrow> ('d \<Rightarrow> bool) \<Rightarrow> ('b \<Rightarrow> bool) \<Rightarrow> bool" where
  "level_batches lib dlive blive \<longleftrightarrow>
     (\<forall>l. \<exists>bp l'. writebatch_create lib l = Some (bp, l') \<and> live_or_null blive bp) \<and>
     (\<forall>b l. blive b \<longrightarrow> writebatch_destroy lib b l \<noteq> None) \<and>
     (\<forall>b k ks x xs l. blive b \<longrightarrow> readable k ks \<longrightarrow> readable x xs \<longrightarrow>
        (\<exists>b' l'. writebatch_put lib b k ks x xs l = Some (b', l') \<and> blive b')) \<and>
     (\<forall>b k ks l. blive b \<longrightarrow> readable k ks \<longrightarrow> (\<exists>b' l'. writebatch_delete lib b k ks l = Some (b', l') \<and> blive b')) \<and>
     (\<forall>d v b l. dlive d \<longrightarrow> blive b \<longrightarrow> (\<exists>err b' l'. db_write lib (Some d) v b l = Some (err, b', l') \<and> blive b'))"

definition level_library ::
  "('o, 'r, 'v, 'd, 'i, 'b, 'l) level_lib \<Rightarrow> ('d \<Rightarrow> bool) \<Rightarrow> ('i \<Rightarrow> bool) \<Rightarrow> ('b \<Rightarrow> bool) \<Rightarrow> bool" where
  "level_library lib dlive ilive blive \<longleftrightarrow>
     level_databases lib dlive \<and> level_iterators lib dlive ilive \<and> level_batches lib dlive blive"

lemma level_library_rules:
  assumes "level_library lib dlive ilive blive"
  shows "\<exists>dp err l'. db_open lib opts dir l = Some (dp, err, l') \<and> (if err = None then \<exists>d. dp = Some d \<and> dlive d else dp = None)"
    and "dlive d \<Longrightarrow> \<exists>l'. db_close lib d l = Some l'"
    and "dlive d \<Longrightarrow> readable k ks \<Longrightarrow> readable y ys \<Longrightarrow> \<exists>err l'. db_put lib (Some d) v k ks y ys l = Some (err, l')"
    and "dlive d \<Longrightarrow> readable k ks \<Longrightarrow> \<exists>err l'. db_delete lib (Some d) v k ks l = Some (err, l')"
    and "dlive d \<Longrightarrow> readable k ks \<Longrightarrow> \<exists>res vs err l'. db_get lib (Some d) r k ks l = Some (res, vs, err, l')"
    and "dlive d \<Longrightarrow> \<exists>ip l'. create_iterator lib (Some d) r l = Some (ip, l') \<and> live_or_null ilive ip"
    and "ilive i \<Longrightarrow> \<exists>i' l'. iter_seek_to_first lib i l = Some (i', l') \<and> ilive i'"
    and "ilive i \<Longrightarrow> \<exists>l'. iter_destroy lib i l = Some l'"
    and "ilive i \<Longrightarrow> \<exists>valid. iter_valid lib (Some i) l = Some valid \<and> (valid \<longrightarrow> (\<exists>k ks i' l'. iter_key lib (Some i) l = Some (k, ks) \<and>
      iter_next lib (Some i) l = Some (Some i', l') \<and> ilive i'))"
    and "\<exists>bp l'. writebatch_create lib l = Some (bp, l') \<and> live_or_null blive bp"
    and "blive b \<Longrightarrow> \<exists>l'. writebatch_destroy lib b l = Some l'"
    and "blive b \<Longrightarrow> readable k ks \<Longrightarrow> readable y ys \<Longrightarrow> \<exists>b' l'. writebatch_put lib b k ks y ys l = Some (b', l') \<and> blive b'"
    and "blive b \<Longrightarrow> readable k ks \<Longrightarrow> \<exists>b' l'. writebatch_delete lib b k ks l = Some (b', l') \<and> blive b'"
    and "dlive d \<Longrightarrow> blive b \<Longrightarrow> \<exists>err b' l'. db_write lib (Some d) v b l = Some (err, b', l') \<and> blive b'"
proof -
  note db = assms [unfolded level_library_def level_databases_def] and it = assms [unfolded level_library_def level_iterators_def]
    and bt = assms [unfolded level_library_def level_batches_def]
  show "\<exists>dp err l'. db_open lib opts dir l = Some (dp, err, l') \<and> (if err = None then \<exists>d. dp = Some d \<and> dlive d else dp = None)"
    using db by simp
  show "dlive d \<Longrightarrow> \<exists>l'. db_close lib d l = Some l'" using db by simp
  show "dlive d \<Longrightarrow> readable k ks \<Longrightarrow> readable y ys \<Longrightarrow> \<exists>err l'. db_put lib (Some d) v k ks y ys l = Some (err, l')"
    using db by simp
  show "dlive d \<Longrightarrow> readable k ks \<Longrightarrow> \<exists>err l'. db_delete lib (Some d) v k ks l = Some (err, l')"
    using db by simp
  show "dlive d \<Longrightarrow> readable k ks \<Longrightarrow> \<exists>res vs err l'. db_get lib (Some d) r k ks l = Some (res, vs, err, l')"
    using db by simp
  show "dlive d \<Longrightarrow> \<exists>ip l'. create_iterator lib (Some d) r l = Some (ip, l') \<and> live_or_null ilive ip" using it by simp
  show "ilive i \<Longrightarrow> \<exists>i' l'. iter_seek_to_first lib i l = Some (i', l') \<and> ilive i'" using it by simp
  show "ilive i \<Longrightarrow> \<exists>l'. iter_destroy lib i l = Some l'" using it by simp
  show "ilive i \<Longrightarrow> \<exists>valid. iter_valid lib (Some i) l = Some valid \<and> (valid \<longrightarrow> (\<exists>k ks i' l'. iter_key lib (Some i) l = Some (k, ks) \<and>
      iter_next lib (Some i) l = Some (Some i', l') \<and> ilive i'))" using it by simp
  show "\<exists>bp l'. writebatch_create lib l = Some (bp, l') \<and> live_or_null blive bp" using bt by simp
  show "blive b \<Longrightarrow> \<exists>l'. writebatch_destroy lib b l = Some l'" using bt by simp
  show "blive b \<Longrightarrow> readable k ks \<Longrightarrow> readable y ys \<Longrightarrow> \<exists>b' l'. writebatch_put lib b k ks y ys l = Some (b', l') \<and> blive b'" using bt by simp
  show "blive b \<Longrightarrow> readable k ks \<Longrightarrow> \<exists>b' l'. writebatch_delete lib b k ks l = Some (b', l') \<and> blive b'" using bt by simp
  show "dlive d \<Longrightarrow> blive b \<Longrightarrow> \<exists>err b' l'. db_write lib (Some d) v b l = Some (err, b', l') \<and> blive b'" using bt by simp
qed

section \<open>The contract\<close>

definition level_opened :: "('d \<Rightarrow> bool) \<Rightarrow> ('o, 'r, 'v, 'd, 'l) level_world \<Rightarrow> bool" where
  "level_opened dlive w \<longleftrightarrow> (\<exists>self d r v. vw_priv w = Some self \<and> vp_db self = Some d \<and> dlive d \<and>
     vp_ropts self = Some r \<and> vp_wopts self = Some v)"

definition level_idle ::
  "('d \<Rightarrow> bool) \<Rightarrow> ('i \<Rightarrow> bool) \<Rightarrow> ('b \<Rightarrow> bool) \<Rightarrow> ('i, 'b) level_context \<Rightarrow> ('o, 'r, 'v, 'd, 'l) level_world \<Rightarrow> bool" where
  "level_idle dlive ilive blive ctx w \<longleftrightarrow> level_opened dlive w \<and> live_or_null ilive (vc_it ctx) \<and> live_or_null blive (vc_batch ctx)"

definition level_ready ::
  "iabenchmark \<Rightarrow> ('i, 'b) level_context \<Rightarrow> ('o, 'r, 'v, 'd, 'l) level_world \<Rightarrow> bool" where
  "level_ready step ctx w \<longleftrightarrow> (step = IA_ITERATE \<longrightarrow> vc_it ctx \<noteq> None)"

definition level_rely :: "('o, 'r, 'v, 'd, 'l) level_world \<Rightarrow> ('o, 'r, 'v, 'd, 'l) level_world \<Rightarrow> bool" where
  "level_rely w w' \<longleftrightarrow> vw_priv w' = vw_priv w"

definition level_closeable :: "('d \<Rightarrow> bool) \<Rightarrow> ('o, 'r, 'v, 'd, 'l) level_world \<Rightarrow> bool" where
  "level_closeable dlive w \<longleftrightarrow> (case vw_priv w of None \<Rightarrow> True | Some self \<Rightarrow> live_or_null dlive (vp_db self))"

lemma level_rely_lib [simp]: "level_rely w (w\<lparr>vw_lib := l\<rparr>)"
  by (simp add: level_rely_def)

lemma level_opened_lib [simp]: "level_opened dlive (w\<lparr>vw_lib := l\<rparr>) = level_opened dlive w"
  by (simp add: level_opened_def)

lemma level_begin_ok:
  assumes lib: "level_library lib dlive ilive blive" and idle: "level_idle dlive ilive blive ctx w" and b: "b < IA_MAX"
  shows "\<exists>rc ctx' w'. ia_leveldb_begin lib ctx b w = Some (rc, ctx', w') \<and> level_rely w w' \<and>
    level_idle dlive ilive blive ctx' w' \<and> (rc = 0 \<and> level_ready b ctx' w' \<or> rc = -1)"
proof -
  obtain self d r v where w: "level_opened dlive w" "vw_priv w = Some self" "vp_db self = Some d" "dlive d" "vp_ropts self = Some r"
    using idle by (auto simp: level_idle_def level_opened_def)
  consider "b \<in> {IA_GET, IA_SET, IA_DELETE}" | "b = IA_ITERATE" | "b \<in> {IA_CRUD, IA_BATCH}"
    using b by (cases b) (auto simp: below_MAX)
  then show ?thesis
  proof cases
    case 1
    then show ?thesis using idle by (auto simp: ia_leveldb_begin_def level_rely_def level_ready_def)
  next
    case 2
    obtain ip l where i: "create_iterator lib (Some d) r (vw_lib w) = Some (ip, l)" "live_or_null ilive ip"
      using level_library_rules(6) [OF lib w(4)] by blast
    show ?thesis
    proof (cases ip)
      case None
      then show ?thesis using 2 i w idle by (simp add: ia_leveldb_begin_def level_idle_def)
    next
      case (Some it)
      then obtain it' l' where "iter_seek_to_first lib it l = Some (it', l')" "ilive it'"
        using level_library_rules(7) [OF lib] i(2) by force
      then show ?thesis using 2 i Some w idle by (simp add: ia_leveldb_begin_def level_idle_def level_ready_def)
    qed
  next
    case 3
    obtain bp l where bp: "writebatch_create lib (vw_lib w) = Some (bp, l)" "live_or_null blive bp"
      using level_library_rules(10) [OF lib] by blast
    with 3 show ?thesis using idle by (auto simp: ia_leveldb_begin_def level_idle_def level_ready_def)
  qed
qed

lemma level_done_ok:
  assumes lib: "level_library lib dlive ilive blive" and idle: "level_idle dlive ilive blive ctx w" and b: "b < IA_MAX"
  shows "\<exists>rc ctx' w'. ia_leveldb_done lib ctx b w = Some (rc, ctx', w') \<and> level_rely w w' \<and>
    level_idle dlive ilive blive ctx' w' \<and> rc \<in> {0, -1}"
proof -
  obtain self d v where w: "level_opened dlive w" "vw_priv w = Some self" "vp_db self = Some d" "dlive d" "vp_wopts self = Some v"
    using idle by (auto simp: level_idle_def level_opened_def)
  consider "b \<in> {IA_GET, IA_SET, IA_DELETE}" | "b = IA_ITERATE" | "b \<in> {IA_CRUD, IA_BATCH}"
    using b by (cases b) (auto simp: below_MAX)
  then show ?thesis
  proof cases
    case 1
    then show ?thesis using idle by (auto simp: ia_leveldb_done_def level_rely_def level_idle_def)
  next
    case 2
    show ?thesis
    proof (cases "vc_it ctx")
      case (Some it)
      then obtain l where "iter_destroy lib it (vw_lib w) = Some l"
        using level_library_rules(8) [OF lib] idle by (force simp: level_idle_def)
      then show ?thesis using 2 Some idle by (simp add: ia_leveldb_done_def level_idle_def)
    qed (use 2 idle in \<open>simp add: ia_leveldb_done_def level_rely_def\<close>)
  next
    case 3
    show ?thesis
    proof (cases "vc_batch ctx")
      case (Some bt)
      then have "blive bt" using idle by (simp add: level_idle_def)
      then obtain err bt' l where 1: "db_write lib (Some d) v bt (vw_lib w) = Some (err, bt', l)" "blive bt'"
        using level_library_rules(14) [OF lib w(4)] by blast
      then obtain l' where "writebatch_destroy lib bt' l = Some l'"
        using level_library_rules(11) [OF lib] by blast
      then show ?thesis using 1 3 Some w idle by (cases err) (auto simp: ia_leveldb_done_def level_idle_def)
    qed (use 3 idle in \<open>auto simp: ia_leveldb_done_def level_rely_def\<close>)
  qed
qed

lemma level_data_ok:
  assumes lib: "level_library lib dlive ilive blive" and idle: "level_idle dlive ilive blive ctx w"
    and step: "step \<in> {IA_SET, IA_DELETE, IA_GET}" and kv: "kv_ready kv"
  shows "\<exists>rc kv' ctx' w'. ia_leveldb_next lib ctx step kv w = Some (rc, kv', ctx', w') \<and> level_rely w w' \<and>
    level_idle dlive ilive blive ctx' w' \<and> vc_it ctx' = vc_it ctx \<and> rc \<in> {0, ENOENT, -1} \<and> (step \<in> {IA_SET, IA_DELETE} \<longrightarrow> kv' = kv)"
proof -
  obtain self d r v where w: "level_opened dlive w" "vw_priv w = Some self" "vp_db self = Some d" "dlive d" "vp_ropts self = Some r"
    "vp_wopts self = Some v" using idle by (auto simp: level_idle_def level_opened_def)
  have k: "readable (kv_k kv) (kv_ksize kv)" "readable (kv_v kv) (kv_vsize kv)" using kv by (simp_all add: kv_ready_def)
  obtain err1 l1 where put: "db_put lib (Some d) v (kv_k kv) (kv_ksize kv) (kv_v kv) (kv_vsize kv) (vw_lib w) = Some (err1, l1)"
    using level_library_rules(3) [OF lib w(4) k(1) k(2)] by blast
  obtain err2 l2 where del: "db_delete lib (Some d) v (kv_k kv) (kv_ksize kv) (vw_lib w) = Some (err2, l2)"
    using level_library_rules(4) [OF lib w(4) k(1)] by blast
  obtain res vs err3 l3 where get: "db_get lib (Some d) r (kv_k kv) (kv_ksize kv) (vw_lib w) = Some (res, vs, err3, l3)"
    using level_library_rules(5) [OF lib w(4) k(1)] by blast
  show ?thesis
  proof (cases "step = IA_GET")
    case True
    let ?kv = "kv\<lparr>kv_vsize := vs\<rparr>" and ?ctx = "ctx\<lparr>vc_result := res\<rparr>"
    have "ia_leveldb_next lib ctx step kv w = Some (if err3 \<noteq> None then (-1, ?kv, ?ctx, w\<lparr>vw_lib := l3\<rparr>)
        else if res = None \<and> vc_batch ctx = None then (ENOENT, ?kv, ?ctx, w\<lparr>vw_lib := l3\<rparr>)
        else (0, ?kv\<lparr>kv_v := res\<rparr>, ?ctx, w\<lparr>vw_lib := l3\<rparr>))"
      using True get w by (simp add: ia_leveldb_next_def Let_def)
    moreover have "level_idle dlive ilive blive (ctx\<lparr>vc_result := x\<rparr>) (w\<lparr>vw_lib := l3\<rparr>)" for x using idle by (simp add: level_idle_def)
    ultimately show ?thesis using True by simp
  next
    case get: False
    show ?thesis
    proof (cases "vc_batch ctx")
      case None
      have "level_idle dlive ilive blive ctx (w\<lparr>vw_lib := l\<rparr>)" for l using idle by (simp add: level_idle_def)
      moreover have "ia_leveldb_next lib ctx step kv w = Some (if step = IA_SET then (if err1 \<noteq> None then -1 else 0, kv, ctx, w\<lparr>vw_lib := l1\<rparr>)
          else (if err2 \<noteq> None then -1 else 0, kv, ctx, w\<lparr>vw_lib := l2\<rparr>))"
        using get step None put del w by (auto simp: ia_leveldb_next_def)
      ultimately show ?thesis by simp
    next
      case (Some b)
      then have b: "blive b" using idle by (simp add: level_idle_def)
      obtain b1 l4 where 1: "writebatch_put lib b (kv_k kv) (kv_ksize kv) (kv_v kv) (kv_vsize kv) (vw_lib w) = Some (b1, l4)" "blive b1"
        using level_library_rules(12) [OF lib b k(1) k(2)] by blast
      obtain b2 l5 where 2: "writebatch_delete lib b (kv_k kv) (kv_ksize kv) (vw_lib w) = Some (b2, l5)" "blive b2"
        using level_library_rules(13) [OF lib b k(1)] by blast
      have "level_idle dlive ilive blive (ctx\<lparr>vc_batch := Some c\<rparr>) (w\<lparr>vw_lib := l\<rparr>)" if "blive c" for c l
        using idle that by (simp add: level_idle_def)
      moreover have "ia_leveldb_next lib ctx step kv w = Some (if step = IA_SET then (0, kv, ctx\<lparr>vc_batch := Some b1\<rparr>, w\<lparr>vw_lib := l4\<rparr>)
          else (0, kv, ctx\<lparr>vc_batch := Some b2\<rparr>, w\<lparr>vw_lib := l5\<rparr>))"
        using get step Some 1(1) 2(1) by (auto simp: ia_leveldb_next_def)
      ultimately show ?thesis using 1(2) 2(2) by simp
    qed
  qed
qed

lemma level_iterate_ok:
  assumes lib: "level_library lib dlive ilive blive" and idle: "level_idle dlive ilive blive ctx w" and it: "vc_it ctx \<noteq> None"
  shows "\<exists>rc kv' ctx' w'. ia_leveldb_next lib ctx IA_ITERATE kv w = Some (rc, kv', ctx', w') \<and> level_rely w w' \<and>
    level_idle dlive ilive blive ctx' w' \<and> vc_it ctx' \<noteq> None \<and> rc \<in> {0, ENOENT}"
proof -
  obtain i where i: "vc_it ctx = Some i" "ilive i" using idle it by (auto simp: level_idle_def)
  obtain valid where v: "iter_valid lib (Some i) (vw_lib w) = Some valid" "valid \<longrightarrow> (\<exists>k ks i' l'. iter_key lib (Some i) (vw_lib w) = Some (k, ks) \<and>
      iter_next lib (Some i) (vw_lib w) = Some (Some i', l') \<and> ilive i')"
    using level_library_rules(9) [OF lib i(2)] by blast
  show ?thesis
  proof (cases valid)
    case True
    then obtain k ks i' l' where "iter_key lib (Some i) (vw_lib w) = Some (k, ks)"
      "iter_next lib (Some i) (vw_lib w) = Some (Some i', l')" "ilive i'" using v(2) by auto
    moreover from this have "ia_leveldb_next lib ctx IA_ITERATE kv w =
        Some (0, kv\<lparr>kv_k := k, kv_ksize := ks\<rparr>, ctx\<lparr>vc_it := Some i'\<rparr>, w\<lparr>vw_lib := l'\<rparr>)"
      using True i(1) v(1) by (simp add: ia_leveldb_next_def)
    ultimately show ?thesis using idle by (simp add: level_idle_def)
  next
    case False
    then show ?thesis using i v(1) idle by (simp add: ia_leveldb_next_def level_rely_def)
  qed
qed

end
