(* ===== verification/LevelProperties.thy ===== *)
theory LevelProperties
  imports DriverLevel
begin

text \<open>
  The properties of the LevelDB and RocksDB drivers: both keep the contract of the benchmark, also
  when a write fails, and what \<open>get\<close> reports while a batch is open.
\<close>

section \<open>The contract\<close>

lemma leveldb_open_ok:
  assumes lib: "level_library lib dlive ilive blive"
  shows "\<exists>rc w'. ia_leveldb_open mem lib conf datadir w = Some (rc, w') \<and>
    (rc = 0 \<and> level_opened dlive w' \<or> rc = -1 \<and> level_closeable dlive w')"
proof (cases "mem \<and> c_walmode conf \<noteq> IA_WAL_OFF")
  case False
  then show ?thesis by (auto simp: ia_leveldb_open_def level_closeable_def Let_def split: prod.splits)
next
  case True
  obtain opts l1 where 1: "options_create lib (vw_lib w) = (opts, l1)" by fastforce
  obtain v l2 where 2: "writeoptions_create lib l1 = (v, l2)" by fastforce
  obtain r l3 where 3: "readoptions_create lib l2 = (r, l3)" by fastforce
  let ?opts = "options_set_create_if_missing lib (options_set_info_log lib (options_set_compression lib opts (no_compression lib))) 1"
  obtain dp err l4 where 4: "db_open lib ?opts datadir l3 = Some (dp, err, l4)"
    "if err = None then \<exists>d. dp = Some d \<and> dlive d else dp = None"
    using level_library_rules(1) [OF lib] by blast
  show ?thesis
    using True 1 2 3 4 by (cases err) (auto simp: ia_leveldb_open_def level_opened_def level_closeable_def Let_def)
qed

lemma rocksdb_open_ok:
  assumes lib: "level_library lib dlive ilive blive"
  shows "\<exists>rc w'. ia_rocksdb_open mem lib conf datadir w = Some (rc, w') \<and>
    (rc = 0 \<and> level_opened dlive w' \<or> rc = -1 \<and> level_closeable dlive w')"
proof (cases mem)
  case None
  then show ?thesis by (simp add: ia_rocksdb_open_def level_closeable_def)
next
  case (Some self)
  obtain opts l1 where 1: "options_create lib (vw_lib w) = (opts, l1)" by fastforce
  obtain v l2 where 2: "writeoptions_create lib l1 = (v, l2)" by fastforce
  obtain r l3 where 3: "readoptions_create lib l2 = (r, l3)" by fastforce
  let ?opts = "options_set_create_if_missing lib (options_set_info_log lib (options_set_compression lib opts (no_compression lib))) 1"
  obtain v2 opts2 where vo: "(case c_syncmode conf of
      IA_SYNC \<Rightarrow> (writeoptions_set_sync lib v 1, options_set_use_fsync lib ?opts 1)
    | _ \<Rightarrow> (writeoptions_set_sync lib v 0, options_set_use_fsync lib ?opts 0)) = (v2, opts2)" by fastforce
  obtain dp err l4 where 4: "db_open lib opts2 datadir l3 = Some (dp, err, l4)"
    "if err = None then \<exists>d. dp = Some d \<and> dlive d else dp = None"
    using level_library_rules(1) [OF lib] by blast
  show ?thesis
    using Some 1 2 3 vo 4 by (cases err) (auto simp: ia_rocksdb_open_def level_opened_def level_closeable_def Let_def)
qed

lemma level_close_ok:
  assumes lib: "level_library lib dlive ilive blive" and w: "level_closeable dlive w"
  shows "\<exists>w'. ia_leveldb_close lib w = Some (0, w') \<and> vw_priv w' = None"
proof (cases "vw_priv w")
  case (Some self)
  obtain l where "(case vp_db self of None \<Rightarrow> Some (vw_lib w) | Some db \<Rightarrow> db_close lib db (vw_lib w)) = Some l"
    using w Some level_library_rules(2) [OF lib] by (cases "vp_db self") (auto simp: level_closeable_def)
  then show ?thesis using Some by (simp add: ia_leveldb_close_def Let_def)
qed (simp add: ia_leveldb_close_def)

text \<open>The common part, for any driver with these operations and its own way to open.\<close>

lemma level_program_holds:
  fixes lib :: "('o, 'r, 'v, 'd, 'i, 'b, 'l) level_lib"
  assumes lib: "level_library lib dlive ilive blive"
    and opens: "\<And>conf dir w. \<exists>rc w'. op conf dir w = Some (rc, w') \<and>
      (rc = 0 \<and> level_opened dlive w' \<or> rc = -1 \<and> level_closeable dlive w')"
  shows "program_driver \<lparr>d_name = nm, d_open = op, d_close = ia_leveldb_close lib, d_thread_new = ia_leveldb_thread_new mem,
      d_thread_dispose = ia_leveldb_thread_dispose lib, d_begin = ia_leveldb_begin lib, d_next = ia_leveldb_next lib,
      d_done = ia_leveldb_done lib, d_option = None\<rparr>
    (level_opened dlive) (level_idle dlive ilive blive) level_ready level_rely (\<lambda>w. vw_priv w = None) (level_closeable dlive)"
    (is "program_driver ?drv _ _ _ _ _ _")
proof -
  have idle: "level_idle dlive ilive blive = (\<lambda>(c :: ('i, 'b) level_context) w. level_opened dlive w \<and>
      (live_or_null ilive (vc_it c) \<and> live_or_null blive (vc_batch c)))"
    by (simp add: fun_eq_iff level_idle_def)
  have ready: "level_ready = (\<lambda>b (c :: ('i, 'b) level_context) w. b = IA_ITERATE \<longrightarrow> vc_it c \<noteq> None)"
    by (simp add: fun_eq_iff level_ready_def)
  have rely: "level_rely = (\<lambda>w w' :: ('o, 'r, 'v, 'd, 'l) level_world. vw_priv w' = vw_priv w)"
    by (simp add: fun_eq_iff level_rely_def)
  show ?thesis
    unfolding idle ready rely
  proof (rule private_driverI [where priv = vw_priv], goal_cases)
    case (3 c w)
    obtain l1 where 1: "(case vc_it c of None \<Rightarrow> Some (vw_lib w) | Some it \<Rightarrow> iter_destroy lib it (vw_lib w)) = Some l1"
      using 3 level_library_rules(8) [OF lib] by (cases "vc_it c") auto
    obtain l2 where "(case vc_batch c of None \<Rightarrow> Some l1 | Some bt \<Rightarrow> writebatch_destroy lib bt l1) = Some l2"
      using 3 level_library_rules(11) [OF lib] by (cases "vc_batch c") auto
    with 1 show ?case by (simp add: ia_leveldb_thread_dispose_def)
  next
    case (4 b c w)
    then show ?case using level_begin_ok [OF lib, of c w b] by (simp add: level_idle_def level_rely_def level_ready_def) blast
  next
    case (5 b c w)
    then show ?case using level_done_ok [OF lib, of c w b] by (simp add: level_idle_def level_rely_def) blast
  next
    case (6 step kv c w)
    then show ?case using level_data_ok [OF lib, of c w step kv] by (fastforce simp: level_idle_def level_rely_def)
  next
    case (7 kv c w)
    then show ?case using level_iterate_ok [OF lib, of c w kv] by (fastforce simp: level_idle_def level_rely_def)
  next
    case (9 conf dir w)
    then show ?case using opens by simp
  next
    case (10 w)
    then show ?case using level_close_ok [OF lib, of w] by auto
  qed (auto simp: level_opened_def level_closeable_def ia_leveldb_thread_new_def)
qed

section \<open>A library in a list\<close>

definition bytes_at :: "u8 list option \<Rightarrow> u64 \<Rightarrow> u8 list" where
  "bytes_at p n = (case p of None \<Rightarrow> [] | Some bs \<Rightarrow> take (unat n) bs)"

definition put_record :: "u8 list \<times> u8 list option \<Rightarrow> (u8 list \<times> u8 list) list \<Rightarrow> (u8 list \<times> u8 list) list" where
  "put_record op rs = (case op of (k, x) \<Rightarrow>
     (case x of None \<Rightarrow> [] | Some v \<Rightarrow> [(k, v)]) @ filter (\<lambda>r. fst r \<noteq> k) rs)"

text \<open>An iterator is the number of the record it is at, a batch the list of its changes.\<close>

definition sample_level ::
  "(unit, unit, unit, unit, nat, (u8 list \<times> u8 list option) list, (u8 list \<times> u8 list) list) level_lib" where
  "sample_level = \<lparr>no_compression = 0, options_create = Pair (), options_set_compression = (\<lambda>opts n. opts),
     options_set_info_log = (\<lambda>opts. opts), options_set_create_if_missing = (\<lambda>opts n. opts), options_set_use_fsync = (\<lambda>opts n. opts),
     options_destroy = (\<lambda>opts l. l), writeoptions_create = Pair (), writeoptions_set_sync = (\<lambda>v n. v),
     writeoptions_disable_WAL = (\<lambda>v n. v), writeoptions_destroy = (\<lambda>v l. l), readoptions_create = Pair (),
     readoptions_set_fill_cache = (\<lambda>r n. r), readoptions_destroy = (\<lambda>r l. l),
     db_open = (\<lambda>opts dir l. Some (Some (), None, l)), db_close = (\<lambda>d l. Some l),
     db_put = (\<lambda>d v k ks x xs l. map_option (\<lambda>_. (None, put_record (bytes_at k ks, Some (bytes_at x xs)) l)) d),
     db_delete = (\<lambda>d v k ks l. map_option (\<lambda>_. (None, put_record (bytes_at k ks, None) l)) d),
     db_write = (\<lambda>d v b l. map_option (\<lambda>_. (None, b, fold put_record b l)) d),
     db_get = (\<lambda>d r k ks l. map_option (\<lambda>_. (case map_of l (bytes_at k ks) of
         None \<Rightarrow> (None, 0, None, l) | Some x \<Rightarrow> (Some x, of_nat (length x), None, l))) d),
     create_iterator = (\<lambda>d r l. map_option (\<lambda>_. (Some 0, l)) d), iter_destroy = (\<lambda>i l. Some l),
     iter_seek_to_first = (\<lambda>i l. Some (0, l)), iter_valid = (\<lambda>ip l. map_option (\<lambda>i. i < length l) ip),
     iter_key = (\<lambda>ip l. map_option (\<lambda>i. (Some (fst (l ! i)), of_nat (length (fst (l ! i))))) ip),
     iter_next = (\<lambda>ip l. map_option (\<lambda>i. (Some (Suc i), l)) ip),
     writebatch_create = (\<lambda>l. Some (Some [], l)), writebatch_destroy = (\<lambda>b l. Some l),
     writebatch_put = (\<lambda>b k ks x xs l. Some (b @ [(bytes_at k ks, Some (bytes_at x xs))], l)),
     writebatch_delete = (\<lambda>b k ks l. Some (b @ [(bytes_at k ks, None)], l))\<rparr>"

lemma sample_level_library: "level_library sample_level (\<lambda>d. True) (\<lambda>i. True) (\<lambda>b. True)"
  by (simp add: level_library_def level_databases_def level_iterators_def level_batches_def sample_level_def live_or_null_def
      split: option.split)

section \<open>Properties\<close>

text \<open>
  With a library that behaves as documented, both the LevelDB and the RocksDB driver keep the
  contract of the benchmark and the program, also when writes, opening and allocations fail, and
  whatever the block holds that \<open>malloc\<close> gives the RocksDB driver: no freed or null object is used.
\<close>

theorem level_drivers_keep_contract:
  assumes "level_library lib dlive ilive blive"
  shows "program_driver (ia_leveldb mem lib) (level_opened dlive) (level_idle dlive ilive blive) level_ready level_rely
      (\<lambda>w. vw_priv w = None) (level_closeable dlive) \<and>
    program_driver (ia_rocksdb blk mem lib) (level_opened dlive) (level_idle dlive ilive blive) level_ready level_rely
      (\<lambda>w. vw_priv w = None) (level_closeable dlive)"
  unfolding ia_leveldb_def ia_rocksdb_def rocksdb_same_operations
  using level_program_holds [OF assms] leveldb_open_ok [OF assms] rocksdb_open_ok [OF assms] by blast

theorem level_drivers_keep_contract_witness:
  "program_driver (ia_leveldb True sample_level) (level_opened (\<lambda>d. True)) (level_idle (\<lambda>d. True) (\<lambda>i. True) (\<lambda>b. True)) level_ready
     level_rely (\<lambda>w. vw_priv w = None) (level_closeable (\<lambda>d. True))"
  using level_drivers_keep_contract [OF sample_level_library] by blast

text \<open>
  While a batch is open, \<open>get\<close> asks the database, which does not see the batch: for a key that only
  the batch has, it reports success and hands back a null value.
\<close>

lemma level_get_in_batch:
  assumes "vw_priv w = Some self" and "vp_ropts self = Some r" and "vc_batch ctx = Some b"
    and "db_get lib (vp_db self) r (kv_k kv) (kv_ksize kv) (vw_lib w) = Some (None, 0, None, l)"
  shows "ia_leveldb_next lib ctx IA_GET kv w =
    Some (0, kv\<lparr>kv_vsize := 0, kv_v := None\<rparr>, ctx\<lparr>vc_result := None\<rparr>, w\<lparr>vw_lib := l\<rparr>)"
  using assms by (simp add: ia_leveldb_next_def Let_def)

end
