(* ===== verification/DriverIowow.thy ===== *)
theory DriverIowow
  imports Driver "HOL-Library.Monad_Syntax"
begin

text \<open>
  The IOWOW driver (\<open>src/drivers/ia_iowow.c\<close>) and the contract it keeps.  The library is a parameter,
  its objects are the values their pointers point to, as in the LMDB driver.  \<open>next\<close> reads the sync
  mode of the configuration, which is an argument of the driver here.
\<close>

section \<open>The library\<close>

record iwkv_val =
  iv_data :: "u8 list option"
  iv_size :: u64

record ('kv, 'db, 'cur, 'l) iwkv_lib =
  IWKV_ERROR_NOTFOUND :: u64
  IWKV_SYNC :: u32
  IWKV_CURSOR_BEFORE_FIRST :: nat
  IWKV_CURSOR_NEXT :: nat
  iwkv_open :: "string \<Rightarrow> bool \<Rightarrow> 'kv option \<Rightarrow> 'l \<Rightarrow> (u64 \<times> 'kv option \<times> 'l) option"
  iwkv_db :: "'kv option \<Rightarrow> u32 \<Rightarrow> u32 \<Rightarrow> 'db option \<Rightarrow> 'l \<Rightarrow> (u64 \<times> 'db option \<times> 'l) option"
  iwkv_close :: "'kv option \<Rightarrow> 'l \<Rightarrow> (u64 \<times> 'kv option \<times> 'l) option"
  iwkv_cursor_open :: "'db option \<Rightarrow> 'cur option \<Rightarrow> nat \<Rightarrow> 'l \<Rightarrow> (u64 \<times> 'cur option \<times> 'l) option"
  iwkv_cursor_close :: "'cur option \<Rightarrow> 'l \<Rightarrow> (u64 \<times> 'cur option \<times> 'l) option"
  iwkv_cursor_to :: "'cur option \<Rightarrow> nat \<Rightarrow> 'l \<Rightarrow> (u64 \<times> 'cur option \<times> 'l) option"
  iwkv_cursor_get :: "'cur option \<Rightarrow> 'l \<Rightarrow> (u64 \<times> iwkv_val \<times> iwkv_val \<times> 'l) option"
  iwkv_put :: "'db option \<Rightarrow> iwkv_val \<Rightarrow> iwkv_val \<Rightarrow> u32 \<Rightarrow> 'l \<Rightarrow> (u64 \<times> 'l) option"
  iwkv_del :: "'db option \<Rightarrow> iwkv_val \<Rightarrow> u32 \<Rightarrow> 'l \<Rightarrow> (u64 \<times> 'l) option"
  iwkv_get :: "'db option \<Rightarrow> iwkv_val \<Rightarrow> 'l \<Rightarrow> (u64 \<times> iwkv_val \<times> 'l) option"

section \<open>The driver\<close>

record ('kv, 'db) iowow_private =
  ip_iwkv :: "'kv option"
  ip_iwdb :: "'db option"

record 'cur iowow_context =
  ic_cursor :: "'cur option"

record ('kv, 'db, 'l) iowow_world =
  iw_priv :: "('kv, 'db) iowow_private option"
  iw_lib :: 'l

text \<open>The result of \<open>calloc\<close> is not tested before it is used.\<close>

definition ia_iowow_open ::
  "bool \<Rightarrow> ('kv, 'db, 'cur, 'l) iwkv_lib \<Rightarrow> iaconfig \<Rightarrow> string \<Rightarrow> ('kv, 'db, 'l) iowow_world \<Rightarrow> (int \<times> ('kv, 'db, 'l) iowow_world) option" where
  "ia_iowow_open mem lib conf datadir w =
     (let db_path = datadir @ ''/test.iowow'';
          priv = (if mem then Some \<lparr>ip_iwkv = None, ip_iwdb = None\<rparr> else None);
          wal = (case c_walmode conf of IA_WAL_ON \<Rightarrow> True | IA_WAL_OFF \<Rightarrow> False | IA_WAL_INDEF \<Rightarrow> False)
      in do {
        self \<leftarrow> priv;
        (rc, iwkv, l) \<leftarrow> iwkv_open lib db_path wal (ip_iwkv self) (iw_lib w);
        let self = self\<lparr>ip_iwkv := iwkv\<rparr>;
        if rc \<noteq> 0 then Some (-1, w\<lparr>iw_priv := Some self, iw_lib := l\<rparr>)
        else do {
          (rc, iwdb, l) \<leftarrow> iwkv_db lib (ip_iwkv self) 1 0 (ip_iwdb self) l;
          let self = self\<lparr>ip_iwdb := iwdb\<rparr>;
          Some (if rc \<noteq> 0 then -1 else 0, w\<lparr>iw_priv := Some self, iw_lib := l\<rparr>) } })"

definition ia_iowow_close ::
  "('kv, 'db, 'cur, 'l) iwkv_lib \<Rightarrow> ('kv, 'db, 'l) iowow_world \<Rightarrow> (int \<times> ('kv, 'db, 'l) iowow_world) option" where
  "ia_iowow_close lib w =
     (case iw_priv w of
        None \<Rightarrow> Some (0, w)
      | Some self \<Rightarrow> do {
          (rc, iwkv, l) \<leftarrow> iwkv_close lib (ip_iwkv self) (iw_lib w);
          Some (if rc \<noteq> 0 then -1 else 0, w\<lparr>iw_priv := None, iw_lib := l\<rparr>) })"

definition ia_iowow_thread_new ::
  "bool \<Rightarrow> ('kv, 'db, 'l) iowow_world \<Rightarrow> ('cur iowow_context option \<times> ('kv, 'db, 'l) iowow_world) option" where
  "ia_iowow_thread_new mem w = Some (if mem then Some \<lparr>ic_cursor = None\<rparr> else None, w)"

definition ia_iowow_thread_dispose :: "'cur iowow_context \<Rightarrow> ('kv, 'db, 'l) iowow_world \<Rightarrow> ('kv, 'db, 'l) iowow_world option" where
  "ia_iowow_thread_dispose ctx w = Some w"

definition ia_iowow_begin ::
  "('kv, 'db, 'cur, 'l) iwkv_lib \<Rightarrow> 'cur iowow_context \<Rightarrow> iabenchmark \<Rightarrow> ('kv, 'db, 'l) iowow_world
     \<Rightarrow> (int \<times> 'cur iowow_context \<times> ('kv, 'db, 'l) iowow_world) option" where
  "ia_iowow_begin lib ctx step w =
     (if step = IA_ITERATE then do {
        self \<leftarrow> iw_priv w;
        (rc, cursor, l) \<leftarrow> iwkv_cursor_open lib (ip_iwdb self) (ic_cursor ctx) (IWKV_CURSOR_BEFORE_FIRST lib) (iw_lib w);
        Some (if rc \<noteq> 0 then -1 else 0, ctx\<lparr>ic_cursor := cursor\<rparr>, w\<lparr>iw_lib := l\<rparr>) }
      else if step = IA_MAX then None
      else Some (0, ctx, w))"

definition ia_iowow_done ::
  "('kv, 'db, 'cur, 'l) iwkv_lib \<Rightarrow> 'cur iowow_context \<Rightarrow> iabenchmark \<Rightarrow> ('kv, 'db, 'l) iowow_world
     \<Rightarrow> (int \<times> 'cur iowow_context \<times> ('kv, 'db, 'l) iowow_world) option" where
  "ia_iowow_done lib ctx step w =
     (if step = IA_ITERATE then
        (if ic_cursor ctx \<noteq> None then do {
           (rc, cursor, l) \<leftarrow> iwkv_cursor_close lib (ic_cursor ctx) (iw_lib w);
           Some (if rc \<noteq> 0 then -1 else 0, ctx\<lparr>ic_cursor := cursor\<rparr>, w\<lparr>iw_lib := l\<rparr>) }
         else Some (0, ctx, w))
      else if step = IA_MAX then None
      else Some (0, ctx, w))"

definition ia_iowow_next ::
  "iasyncmode \<Rightarrow> ('kv, 'db, 'cur, 'l) iwkv_lib \<Rightarrow> 'cur iowow_context \<Rightarrow> iabenchmark \<Rightarrow> iakv \<Rightarrow> ('kv, 'db, 'l) iowow_world
     \<Rightarrow> (int \<times> iakv \<times> 'cur iowow_context \<times> ('kv, 'db, 'l) iowow_world) option" where
  "ia_iowow_next syncmode lib ctx step kv w =
     do { self \<leftarrow> iw_priv w;
          let db = ip_iwdb self;
          let flags = (if syncmode = IA_SYNC then IWKV_SYNC lib else 0);
          let k = \<lparr>iv_data = kv_k kv, iv_size = kv_ksize kv\<rparr>;
          let v = \<lparr>iv_data = kv_v kv, iv_size = kv_vsize kv\<rparr>;
          case step of
            IA_SET \<Rightarrow> do {
              (rc, l) \<leftarrow> iwkv_put lib db k v flags (iw_lib w);
              Some (if rc \<noteq> 0 then -1 else 0, kv, ctx, w\<lparr>iw_lib := l\<rparr>) }
          | IA_DELETE \<Rightarrow> do {
              (rc, l) \<leftarrow> iwkv_del lib db k flags (iw_lib w);
              Some (if rc = IWKV_ERROR_NOTFOUND lib then ENOENT else if rc \<noteq> 0 then -1 else 0, kv, ctx, w\<lparr>iw_lib := l\<rparr>) }
          | IA_GET \<Rightarrow> do {
              (rc, v, l) \<leftarrow> iwkv_get lib db k (iw_lib w);
              let w = w\<lparr>iw_lib := l\<rparr>;
              if rc = IWKV_ERROR_NOTFOUND lib then Some (ENOENT, kv, ctx, w)
              else if rc \<noteq> 0 then Some (-1, kv, ctx, w)
              else Some (0, kv\<lparr>kv_vsize := iv_size v\<rparr>, ctx, w) }
          | IA_ITERATE \<Rightarrow> do {
              (rc, cursor, l) \<leftarrow> iwkv_cursor_to lib (ic_cursor ctx) (IWKV_CURSOR_NEXT lib) (iw_lib w);
              let ctx = ctx\<lparr>ic_cursor := cursor\<rparr>;
              if rc = IWKV_ERROR_NOTFOUND lib
              then Some (ENOENT, \<lparr>kv_ksize = 0, kv_vsize = 0, kv_k = None, kv_v = None\<rparr>, ctx, w\<lparr>iw_lib := l\<rparr>)
              else if rc \<noteq> 0 then Some (-1, kv, ctx, w\<lparr>iw_lib := l\<rparr>)
              else do {
                (rc, k, v, l) \<leftarrow> iwkv_cursor_get lib (ic_cursor ctx) l;
                let w = w\<lparr>iw_lib := l\<rparr>;
                if rc \<noteq> 0 then Some (-1, kv, ctx, w)
                else Some (0, kv\<lparr>kv_ksize := iv_size k, kv_vsize := iv_size v\<rparr>, ctx, w) } }
          | _ \<Rightarrow> None }"

text \<open>\<open>mem\<close> and \<open>mem'\<close> are the outcomes of \<open>calloc\<close> in \<open>open\<close> and \<open>thread_new\<close>.\<close>

definition ia_iowow ::
  "iasyncmode \<Rightarrow> bool \<Rightarrow> bool \<Rightarrow> ('kv, 'db, 'cur, 'l) iwkv_lib \<Rightarrow> (('kv, 'db, 'l) iowow_world, 'cur iowow_context) iadriver" where
  "ia_iowow syncmode mem mem' lib = \<lparr>d_name = ''iowow'', d_open = ia_iowow_open mem lib, d_close = ia_iowow_close lib,
     d_thread_new = ia_iowow_thread_new mem', d_thread_dispose = ia_iowow_thread_dispose,
     d_begin = ia_iowow_begin lib, d_next = ia_iowow_next syncmode lib, d_done = ia_iowow_done lib, d_option = None\<rparr>"

section \<open>What the driver relies on\<close>

text \<open>
  \<open>klive\<close>, \<open>dlive\<close> and \<open>clive\<close> describe a store, a database and a cursor that have not been closed.
  Calls on live objects return; opening leaves a null handle when it fails; closing a null store is
  refused, and closing a cursor clears its handle.
\<close>

definition iwkv_library ::
  "('kv, 'db, 'cur, 'l) iwkv_lib \<Rightarrow> ('kv \<Rightarrow> bool) \<Rightarrow> ('db \<Rightarrow> bool) \<Rightarrow> ('cur \<Rightarrow> bool) \<Rightarrow> bool" where
  "iwkv_library lib klive dlive clive \<longleftrightarrow> IWKV_ERROR_NOTFOUND lib \<noteq> 0 \<and>
     (\<forall>path wal l. \<exists>rc kp l'. iwkv_open lib path wal None l = Some (rc, kp, l') \<and>
        (if rc = 0 then \<exists>k. kp = Some k \<and> klive k else kp = None)) \<and>
     (\<forall>k l. klive k \<longrightarrow> (\<exists>rc dp l'. iwkv_db lib (Some k) 1 0 None l = Some (rc, dp, l') \<and>
        (if rc = 0 then \<exists>d. dp = Some d \<and> dlive d else dp = None))) \<and>
     (\<forall>kp l. live_or_null klive kp \<longrightarrow> (\<exists>rc kp' l'. iwkv_close lib kp l = Some (rc, kp', l'))) \<and>
     (\<forall>d old at l. dlive d \<longrightarrow> (\<exists>rc cp l'. iwkv_cursor_open lib (Some d) old at l = Some (rc, cp, l') \<and>
        (if rc = 0 then \<exists>c. cp = Some c \<and> clive c else cp = None))) \<and>
     (\<forall>c l. clive c \<longrightarrow> (\<exists>rc l'. iwkv_cursor_close lib (Some c) l = Some (rc, None, l'))) \<and>
     (\<forall>c opr l. clive c \<longrightarrow> (\<exists>rc c' l'. iwkv_cursor_to lib (Some c) opr l = Some (rc, Some c', l') \<and> clive c')) \<and>
     (\<forall>c l. clive c \<longrightarrow> (\<exists>rc k v l'. iwkv_cursor_get lib (Some c) l = Some (rc, k, v, l'))) \<and>
     (\<forall>d k v fl l. dlive d \<longrightarrow> readable (iv_data k) (iv_size k) \<longrightarrow> readable (iv_data v) (iv_size v) \<longrightarrow>
        (\<exists>rc l'. iwkv_put lib (Some d) k v fl l = Some (rc, l'))) \<and>
     (\<forall>d k fl l. dlive d \<longrightarrow> readable (iv_data k) (iv_size k) \<longrightarrow> (\<exists>rc l'. iwkv_del lib (Some d) k fl l = Some (rc, l'))) \<and>
     (\<forall>d k l. dlive d \<longrightarrow> readable (iv_data k) (iv_size k) \<longrightarrow> (\<exists>rc v l'. iwkv_get lib (Some d) k l = Some (rc, v, l')))"

section \<open>The contract\<close>

definition iowow_opened :: "('kv \<Rightarrow> bool) \<Rightarrow> ('db \<Rightarrow> bool) \<Rightarrow> ('kv, 'db, 'l) iowow_world \<Rightarrow> bool" where
  "iowow_opened klive dlive w \<longleftrightarrow> (\<exists>k d. iw_priv w = Some \<lparr>ip_iwkv = Some k, ip_iwdb = Some d\<rparr> \<and> klive k \<and> dlive d)"

definition iowow_closeable :: "('kv \<Rightarrow> bool) \<Rightarrow> ('kv, 'db, 'l) iowow_world \<Rightarrow> bool" where
  "iowow_closeable klive w \<longleftrightarrow> (case iw_priv w of None \<Rightarrow> True | Some self \<Rightarrow> live_or_null klive (ip_iwkv self))"

definition iowow_idle ::
  "('kv \<Rightarrow> bool) \<Rightarrow> ('db \<Rightarrow> bool) \<Rightarrow> ('cur \<Rightarrow> bool) \<Rightarrow> 'cur iowow_context \<Rightarrow> ('kv, 'db, 'l) iowow_world \<Rightarrow> bool" where
  "iowow_idle klive dlive clive ctx w \<longleftrightarrow> iowow_opened klive dlive w \<and> live_or_null clive (ic_cursor ctx)"

definition iowow_ready :: "iabenchmark \<Rightarrow> 'cur iowow_context \<Rightarrow> ('kv, 'db, 'l) iowow_world \<Rightarrow> bool" where
  "iowow_ready step ctx w \<longleftrightarrow> (step = IA_ITERATE \<longrightarrow> ic_cursor ctx \<noteq> None)"

definition iowow_rely :: "('kv, 'db, 'l) iowow_world \<Rightarrow> ('kv, 'db, 'l) iowow_world \<Rightarrow> bool" where
  "iowow_rely w w' \<longleftrightarrow> iw_priv w' = iw_priv w"

lemma iowow_lib [simp]: "iowow_rely w (w\<lparr>iw_lib := l\<rparr>)" "iowow_opened klive dlive (w\<lparr>iw_lib := l\<rparr>) = iowow_opened klive dlive w"
  by (simp_all add: iowow_rely_def iowow_opened_def)

lemma iowow_open_ok:
  assumes lib: "iwkv_library lib klive dlive clive"
  shows "\<exists>rc w'. ia_iowow_open True lib conf dir w = Some (rc, w') \<and>
    (rc = 0 \<and> iowow_opened klive dlive w' \<or> rc = -1 \<and> iowow_closeable klive w')"
proof -
  let ?wal = "case c_walmode conf of IA_WAL_ON \<Rightarrow> True | IA_WAL_OFF \<Rightarrow> False | IA_WAL_INDEF \<Rightarrow> False"
  have "\<exists>rc kp l'. iwkv_open lib path wal None l = Some (rc, kp, l') \<and> (if rc = 0 then \<exists>k. kp = Some k \<and> klive k else kp = None)" for path wal l
    using lib by (simp add: iwkv_library_def)
  then obtain rc kp l1 where 1: "iwkv_open lib (dir @ ''/test.iowow'') ?wal None (iw_lib w) = Some (rc, kp, l1)"
    "if rc = 0 then \<exists>k. kp = Some k \<and> klive k else kp = None" by blast
  show ?thesis
  proof (cases "rc = 0")
    case False
    then show ?thesis using 1 by (simp add: ia_iowow_open_def iowow_closeable_def Let_def)
  next
    case True
    then obtain k where k: "kp = Some k" "klive k" using 1(2) by auto
    have "\<exists>rc dp l'. iwkv_db lib (Some k) 1 0 None l1 = Some (rc, dp, l') \<and> (if rc = 0 then \<exists>d. dp = Some d \<and> dlive d else dp = None)"
      using lib k(2) by (simp add: iwkv_library_def)
    then show ?thesis
      using 1(1) True k by (auto simp: ia_iowow_open_def iowow_closeable_def iowow_opened_def Let_def)
  qed
qed

lemma iowow_begin_ok:
  assumes lib: "iwkv_library lib klive dlive clive" and idle: "iowow_idle klive dlive clive ctx w" and b: "b < IA_MAX"
  shows "\<exists>rc ctx' w'. ia_iowow_begin lib ctx b w = Some (rc, ctx', w') \<and> iowow_rely w w' \<and>
    iowow_idle klive dlive clive ctx' w' \<and> (rc = 0 \<and> iowow_ready b ctx' w' \<or> rc = -1)"
proof (cases "b = IA_ITERATE")
  case False
  then show ?thesis using b idle by (simp add: ia_iowow_begin_def below_MAX iowow_rely_def iowow_ready_def)
next
  case True
  obtain k d where w: "iw_priv w = Some \<lparr>ip_iwkv = Some k, ip_iwdb = Some d\<rparr>" "dlive d"
    using idle by (auto simp: iowow_idle_def iowow_opened_def)
  have "\<exists>rc cp l'. iwkv_cursor_open lib (Some d) old at l = Some (rc, cp, l') \<and> (if rc = 0 then \<exists>c. cp = Some c \<and> clive c else cp = None)" for old at l
    using lib w(2) by (simp add: iwkv_library_def)
  then obtain rc cp l where "iwkv_cursor_open lib (Some d) (ic_cursor ctx) (IWKV_CURSOR_BEFORE_FIRST lib) (iw_lib w) = Some (rc, cp, l)"
    "if rc = 0 then \<exists>c. cp = Some c \<and> clive c else cp = None" by blast
  then show ?thesis using True w idle by (auto simp: ia_iowow_begin_def iowow_idle_def iowow_ready_def split: if_splits)
qed

lemma iowow_done_ok:
  assumes lib: "iwkv_library lib klive dlive clive" and idle: "iowow_idle klive dlive clive ctx w" and b: "b < IA_MAX"
  shows "\<exists>rc ctx' w'. ia_iowow_done lib ctx b w = Some (rc, ctx', w') \<and> iowow_rely w w' \<and>
    iowow_idle klive dlive clive ctx' w' \<and> rc \<in> {0, -1}"
proof (cases "b = IA_ITERATE \<and> ic_cursor ctx \<noteq> None")
  case False
  then show ?thesis using b idle by (auto simp: ia_iowow_done_def below_MAX iowow_rely_def)
next
  case True
  then obtain c where c: "ic_cursor ctx = Some c" "clive c" using idle by (auto simp: iowow_idle_def)
  have "\<exists>rc l'. iwkv_cursor_close lib (Some c) (iw_lib w) = Some (rc, None, l')" using lib c(2) by (simp add: iwkv_library_def)
  then show ?thesis using True c idle by (auto simp: ia_iowow_done_def iowow_idle_def)
qed

lemma iowow_data_ok:
  assumes lib: "iwkv_library lib klive dlive clive" and idle: "iowow_idle klive dlive clive ctx w"
    and step: "step \<in> {IA_SET, IA_DELETE, IA_GET}" and kv: "kv_ready kv"
  shows "\<exists>rc kv' w'. ia_iowow_next sync lib ctx step kv w = Some (rc, kv', ctx, w') \<and> iowow_rely w w' \<and>
    iowow_idle klive dlive clive ctx w' \<and> rc \<in> {0, ENOENT, -1} \<and> (step \<in> {IA_SET, IA_DELETE} \<longrightarrow> kv' = kv)"
proof -
  obtain k d where w: "iw_priv w = Some \<lparr>ip_iwkv = Some k, ip_iwdb = Some d\<rparr>" "dlive d"
    using idle by (auto simp: iowow_idle_def iowow_opened_def)
  let ?k = "\<lparr>iv_data = kv_k kv, iv_size = kv_ksize kv\<rparr>" and ?v = "\<lparr>iv_data = kv_v kv, iv_size = kv_vsize kv\<rparr>"
  let ?fl = "if sync = IA_SYNC then IWKV_SYNC lib else 0"
  have lib': "\<exists>rc l'. iwkv_put lib (Some d) ?k ?v ?fl (iw_lib w) = Some (rc, l')"
    "\<exists>rc l'. iwkv_del lib (Some d) ?k ?fl (iw_lib w) = Some (rc, l')" "\<exists>rc v l'. iwkv_get lib (Some d) ?k (iw_lib w) = Some (rc, v, l')"
    using lib w(2) kv by (simp_all add: iwkv_library_def kv_ready_def)
  have idle': "iowow_idle klive dlive clive ctx (w\<lparr>iw_lib := l\<rparr>)" for l using idle by (simp add: iowow_idle_def)
  from lib' obtain rc1 l1 rc2 l2 rc3 v l3 where
    p: "iwkv_put lib (Some d) ?k ?v ?fl (iw_lib w) = Some (rc1, l1)" "iwkv_del lib (Some d) ?k ?fl (iw_lib w) = Some (rc2, l2)"
      "iwkv_get lib (Some d) ?k (iw_lib w) = Some (rc3, v, l3)" by blast
  have "ia_iowow_next sync lib ctx step kv w = Some (
      if step = IA_SET then (if rc1 \<noteq> 0 then -1 else 0, kv, ctx, w\<lparr>iw_lib := l1\<rparr>)
      else if step = IA_DELETE then (if rc2 = IWKV_ERROR_NOTFOUND lib then ENOENT else if rc2 \<noteq> 0 then -1 else 0, kv, ctx, w\<lparr>iw_lib := l2\<rparr>)
      else if rc3 = IWKV_ERROR_NOTFOUND lib then (ENOENT, kv, ctx, w\<lparr>iw_lib := l3\<rparr>)
      else if rc3 \<noteq> 0 then (-1, kv, ctx, w\<lparr>iw_lib := l3\<rparr>)
      else (0, kv\<lparr>kv_vsize := iv_size v\<rparr>, ctx, w\<lparr>iw_lib := l3\<rparr>))"
    using step w(1) p by (auto simp: ia_iowow_next_def Let_def)
  then show ?thesis using idle' by simp
qed

lemma iowow_iterate_ok:
  assumes lib: "iwkv_library lib klive dlive clive" and idle: "iowow_idle klive dlive clive ctx w" and c: "ic_cursor ctx \<noteq> None"
  shows "\<exists>rc kv' ctx' w'. ia_iowow_next sync lib ctx IA_ITERATE kv w = Some (rc, kv', ctx', w') \<and> iowow_rely w w' \<and>
    iowow_idle klive dlive clive ctx' w' \<and> ic_cursor ctx' \<noteq> None \<and> rc \<in> {0, ENOENT, -1}"
proof -
  obtain k d where w: "iw_priv w = Some \<lparr>ip_iwkv = Some k, ip_iwdb = Some d\<rparr>" "dlive d"
    using idle by (auto simp: iowow_idle_def iowow_opened_def)
  obtain c where c: "ic_cursor ctx = Some c" "clive c" using idle c by (auto simp: iowow_idle_def)
  have "\<exists>rc c' l'. iwkv_cursor_to lib (Some c) (IWKV_CURSOR_NEXT lib) (iw_lib w) = Some (rc, Some c', l') \<and> clive c'"
    using lib c(2) by (simp add: iwkv_library_def)
  then obtain rc c' l where 1: "iwkv_cursor_to lib (Some c) (IWKV_CURSOR_NEXT lib) (iw_lib w) = Some (rc, Some c', l)" "clive c'" by blast
  have "\<exists>rc k v l'. iwkv_cursor_get lib (Some c') l = Some (rc, k, v, l')" using lib 1(2) by (simp add: iwkv_library_def)
  then obtain rc2 ck cv l2 where 2: "iwkv_cursor_get lib (Some c') l = Some (rc2, ck, cv, l2)" by blast
  have idle': "iowow_idle klive dlive clive (ctx\<lparr>ic_cursor := Some c'\<rparr>) (w\<lparr>iw_lib := l\<rparr>)" for l using idle 1(2) by (simp add: iowow_idle_def)
  have "ia_iowow_next sync lib ctx IA_ITERATE kv w = Some (
      if rc = IWKV_ERROR_NOTFOUND lib
      then (ENOENT, \<lparr>kv_ksize = 0, kv_vsize = 0, kv_k = None, kv_v = None\<rparr>, ctx\<lparr>ic_cursor := Some c'\<rparr>, w\<lparr>iw_lib := l\<rparr>)
      else if rc \<noteq> 0 then (-1, kv, ctx\<lparr>ic_cursor := Some c'\<rparr>, w\<lparr>iw_lib := l\<rparr>)
      else if rc2 \<noteq> 0 then (-1, kv, ctx\<lparr>ic_cursor := Some c'\<rparr>, w\<lparr>iw_lib := l2\<rparr>)
      else (0, kv\<lparr>kv_ksize := iv_size ck, kv_vsize := iv_size cv\<rparr>, ctx\<lparr>ic_cursor := Some c'\<rparr>, w\<lparr>iw_lib := l2\<rparr>))"
    using w(1) c(1) 1(1) 2 by (simp add: ia_iowow_next_def Let_def)
  then show ?thesis using idle' by simp
qed

lemma iowow_program_holds:
  fixes lib :: "('kv, 'db, 'cur, 'l) iwkv_lib"
  assumes lib: "iwkv_library lib klive dlive clive"
  shows "program_driver (ia_iowow sync True mem lib) (iowow_opened klive dlive) (iowow_idle klive dlive clive) iowow_ready iowow_rely
    (\<lambda>w. iw_priv w = None) (iowow_closeable klive)"
proof -
  have idle: "iowow_idle klive dlive clive = (\<lambda>c w. iowow_opened klive dlive w \<and> live_or_null clive (ic_cursor c))"
    by (simp add: fun_eq_iff iowow_idle_def)
  have ready: "iowow_ready = (\<lambda>b (c :: 'cur iowow_context) w. b = IA_ITERATE \<longrightarrow> ic_cursor c \<noteq> None)"
    by (simp add: fun_eq_iff iowow_ready_def)
  have rely: "iowow_rely = (\<lambda>w w' :: ('kv, 'db, 'l) iowow_world. iw_priv w' = iw_priv w)"
    by (simp add: fun_eq_iff iowow_rely_def)
  show ?thesis
    unfolding idle ready rely ia_iowow_def
  proof (rule private_driverI [where priv = iw_priv], goal_cases)
    case (4 b c w)
    then show ?case using iowow_begin_ok [OF lib, of c w b] by (simp add: iowow_idle_def iowow_rely_def iowow_ready_def) blast
  next
    case (5 b c w)
    then show ?case using iowow_done_ok [OF lib, of c w b] by (simp add: iowow_idle_def iowow_rely_def) blast
  next
    case (6 step kv c w)
    then show ?case using iowow_data_ok [OF lib, of c w step kv sync] by (fastforce simp: iowow_idle_def iowow_rely_def)
  next
    case (7 kv c w)
    then show ?case using iowow_iterate_ok [OF lib, of c w sync kv] by (fastforce simp: iowow_idle_def iowow_rely_def)
  next
    case (9 conf dir w)
    then show ?case using iowow_open_ok [OF lib] by simp
  next
    case (10 w)
    show ?case
    proof (cases "iw_priv w")
      case (Some self)
      then have "live_or_null klive (ip_iwkv self)" using 10 by (simp add: iowow_closeable_def)
      then have "\<exists>rc kp' l'. iwkv_close lib (ip_iwkv self) (iw_lib w) = Some (rc, kp', l')" using lib by (simp add: iwkv_library_def)
      then show ?thesis using Some by (auto simp: ia_iowow_close_def)
    qed (simp add: ia_iowow_close_def)
  qed (auto simp: iowow_opened_def iowow_closeable_def ia_iowow_thread_new_def ia_iowow_thread_dispose_def)
qed

text \<open>Without memory for its private struct the driver follows the null pointer.\<close>

lemma iowow_open_without_memory: "ia_iowow_open False lib conf dir w = None"
  by (simp add: ia_iowow_open_def Let_def)

section \<open>A library that can be run\<close>

text \<open>A library that keeps its records in a list; a cursor is the number of the records it has passed.\<close>

definition iowow_bytes :: "iwkv_val \<Rightarrow> u8 list" where
  "iowow_bytes v = (case iv_data v of None \<Rightarrow> [] | Some bs \<Rightarrow> take (unat (iv_size v)) bs)"

definition iowow_value :: "u8 list \<Rightarrow> iwkv_val" where
  "iowow_value bs = \<lparr>iv_data = Some bs, iv_size = of_nat (length bs)\<rparr>"

definition sample_iwkv :: "(unit, unit, nat, (u8 list \<times> u8 list) list) iwkv_lib" where
  "sample_iwkv = \<lparr>IWKV_ERROR_NOTFOUND = 75001, IWKV_SYNC = 2, IWKV_CURSOR_BEFORE_FIRST = 1, IWKV_CURSOR_NEXT = 3,
     iwkv_open = (\<lambda>path wal old l. Some (0, Some (), l)), iwkv_db = (\<lambda>kp n fl old l. map_option (\<lambda>_. (0, Some (), l)) kp),
     iwkv_close = (\<lambda>kp l. Some (if kp = None then 75003 else 0, None, l)),
     iwkv_cursor_open = (\<lambda>dp old at l. map_option (\<lambda>_. (0, Some 0, l)) dp),
     iwkv_cursor_close = (\<lambda>cp l. map_option (\<lambda>_. (0, None, l)) cp),
     iwkv_cursor_to = (\<lambda>cp opr l. map_option (\<lambda>c. if c < length l then (0, Some (Suc c), l) else (75001, Some c, l)) cp),
     iwkv_cursor_get = (\<lambda>cp l. map_option (\<lambda>c. (0, iowow_value (fst (l ! (c - 1))), iowow_value (snd (l ! (c - 1))), l)) cp),
     iwkv_put = (\<lambda>dp k v fl l. map_option (\<lambda>_. (0, (iowow_bytes k, iowow_bytes v) # filter (\<lambda>r. fst r \<noteq> iowow_bytes k) l)) dp),
     iwkv_del = (\<lambda>dp k fl l. map_option (\<lambda>_. (if iowow_bytes k \<in> fst ` set l then 0 else 75001, filter (\<lambda>r. fst r \<noteq> iowow_bytes k) l)) dp),
     iwkv_get = (\<lambda>dp k l. map_option (\<lambda>_. (case map_of l (iowow_bytes k) of
         None \<Rightarrow> (75001, iowow_value [], l) | Some x \<Rightarrow> (0, iowow_value x, l))) dp)\<rparr>"

lemma sample_iwkv_library: "iwkv_library sample_iwkv (\<lambda>k. True) (\<lambda>d. True) (\<lambda>c. True)"
  by (simp add: iwkv_library_def sample_iwkv_def live_or_null_def split: option.split)

end
