(* ===== verification/DriverWiredtiger.thy ===== *)
theory DriverWiredtiger
  imports Driver "HOL-Library.Monad_Syntax"
begin

text \<open>
  The WiredTiger driver (\<open>src/drivers/ia_wiredtiger.c\<close>) and the contract it keeps.  The library is a
  parameter: the methods of its connections, sessions and cursors are fields of a record, and an
  object is the value its pointer points to, as in the LMDB driver.
\<close>

section \<open>The library\<close>

record wt_item =
  wi_data :: "u8 list option"
  wi_size :: u64

record ('conn, 'sess, 'cur, 'l) wt_lib =
  WT_NOTFOUND :: int
  wiredtiger_open :: "string \<Rightarrow> string \<Rightarrow> 'l \<Rightarrow> (int \<times> 'conn option \<times> 'l) option"
  conn_open_session :: "'conn option \<Rightarrow> string option \<Rightarrow> 'l \<Rightarrow> (int \<times> 'sess option \<times> 'l) option"
  conn_close :: "'conn \<Rightarrow> 'l \<Rightarrow> (int \<times> 'l) option"
  session_create :: "'sess option \<Rightarrow> string option \<Rightarrow> string \<Rightarrow> 'l \<Rightarrow> (int \<times> 'sess option \<times> 'l) option"
  session_close :: "'sess option \<Rightarrow> 'l \<Rightarrow> (int \<times> 'sess option \<times> 'l) option"
  session_open_cursor :: "'sess option \<Rightarrow> string option \<Rightarrow> string option \<Rightarrow> 'l \<Rightarrow> (int \<times> 'sess option \<times> 'cur option \<times> 'l) option"
  begin_transaction :: "'sess option \<Rightarrow> string option \<Rightarrow> 'l \<Rightarrow> (int \<times> 'sess option \<times> 'l) option"
  commit_transaction :: "'sess option \<Rightarrow> 'l \<Rightarrow> (int \<times> 'sess option \<times> 'l) option"
  rollback_transaction :: "'sess option \<Rightarrow> 'l \<Rightarrow> (int \<times> 'sess option \<times> 'l) option"
  session_checkpoint :: "'sess option \<Rightarrow> 'l \<Rightarrow> (int \<times> 'sess option \<times> 'l) option"
  cursor_close :: "'cur \<Rightarrow> 'l \<Rightarrow> (int \<times> 'l) option"
  cursor_reset :: "'cur option \<Rightarrow> 'l \<Rightarrow> (int \<times> 'cur option \<times> 'l) option"
  cursor_next :: "'cur option \<Rightarrow> 'l \<Rightarrow> (int \<times> 'cur option \<times> 'l) option"
  cursor_insert :: "'cur option \<Rightarrow> 'l \<Rightarrow> (int \<times> 'cur option \<times> 'l) option"
  cursor_remove :: "'cur option \<Rightarrow> 'l \<Rightarrow> (int \<times> 'cur option \<times> 'l) option"
  cursor_search :: "'cur option \<Rightarrow> 'l \<Rightarrow> (int \<times> 'cur option \<times> 'l) option"
  cursor_set_key :: "'cur option \<Rightarrow> wt_item \<Rightarrow> 'l \<Rightarrow> ('cur option \<times> 'l) option"
  cursor_set_value :: "'cur option \<Rightarrow> wt_item \<Rightarrow> 'l \<Rightarrow> ('cur option \<times> 'l) option"
  cursor_get_key :: "'cur option \<Rightarrow> 'l \<Rightarrow> (int \<times> wt_item \<times> 'l) option"
  cursor_get_value :: "'cur option \<Rightarrow> 'l \<Rightarrow> (int \<times> wt_item \<times> 'l) option"

section \<open>State of the driver\<close>

record 'conn wt_private =
  wp_conn :: "'conn option"
  wp_session_config :: "string option"
  wp_cursor_config :: "string option"
  wp_transaction_config :: "string option"
  wp_table_name :: "string option"
  wp_need_checkpoints :: bool

record ('sess, 'cur) wt_context =
  wc_session :: "'sess option"
  wc_cursor :: "'cur option"
  wc_transaction :: bool

record ('conn, 'l) wt_world =
  ww_priv :: "'conn wt_private option"
  ww_lib :: 'l

section \<open>Opening and closing\<close>

fun durability_config :: "iasyncmode \<Rightarrow> string" where
  "durability_config IA_SYNC = ''transaction_sync=(enabled=true),checkpoint_sync=true''"
| "durability_config IA_LAZY = ''transaction_sync=(enabled=true,method=none),checkpoint_sync=true''"
| "durability_config IA_NOSYNC = ''transaction_sync=(enabled=false),checkpoint_sync=false''"

fun wal_config :: "iawalmode \<Rightarrow> string" where
  "wal_config IA_WAL_INDEF = []"
| "wal_config IA_WAL_ON = ''log=(enabled=true),''"
| "wal_config IA_WAL_OFF = ''log=(enabled=false),''"

text \<open>The end of \<open>ia_wt_open\<close> after an error.\<close>

definition wt_bailout :: "('conn, 'sess, 'cur, 'l) wt_lib \<Rightarrow> 'sess option \<Rightarrow> 'l \<Rightarrow> 'l option" where
  "wt_bailout lib session l =
     (if session = None then Some l
      else do { (rc, session, l) \<leftarrow> rollback_transaction lib session l;
                (rc, session, l) \<leftarrow> session_close lib session l;
                Some l })"

definition ia_wt_open ::
  "bool \<Rightarrow> ('conn, 'sess, 'cur, 'l) wt_lib \<Rightarrow> iaconfig \<Rightarrow> string \<Rightarrow> ('conn, 'l) wt_world \<Rightarrow> (int \<times> ('conn, 'l) wt_world) option" where
  "ia_wt_open mem lib conf datadir w =
     (if \<not> mem then Some (-1, w\<lparr>ww_priv := None\<rparr>)
      else do {
        let self = \<lparr>wp_conn = None, wp_session_config = None, wp_cursor_config = None, wp_transaction_config = None,
          wp_table_name = None, wp_need_checkpoints = (c_syncmode conf = IA_SYNC \<and> c_walmode conf \<noteq> IA_WAL_ON)\<rparr>;
        let config = take 255 (''create,cache_size=1Gb,'' @ wal_config (c_walmode conf) @ durability_config (c_syncmode conf));
        (rc, conn, l) \<leftarrow> wiredtiger_open lib datadir config (ww_lib w);
        let self = self\<lparr>wp_conn := conn\<rparr>;
        if rc \<noteq> 0 then Some (-1, w\<lparr>ww_priv := Some self, ww_lib := l\<rparr>)
        else do {
          (rc, session, l) \<leftarrow> conn_open_session lib (wp_conn self) None l;
          if rc \<noteq> 0 then do { l \<leftarrow> wt_bailout lib session l; Some (-1, w\<lparr>ww_priv := Some self, ww_lib := l\<rparr>) }
          else do {
            let self = self\<lparr>wp_table_name := Some ''table:test''\<rparr>;
            let config = ''split_pct=100,leaf_item_max=1KB,type=lsm,internal_page_max=4KB,leaf_page_max=4KB'';
            (rc, session, l) \<leftarrow> session_create lib session (wp_table_name self) config l;
            if rc \<noteq> 0 then do { l \<leftarrow> wt_bailout lib session l; Some (-1, w\<lparr>ww_priv := Some self, ww_lib := l\<rparr>) }
            else do {
              (rc, session, l) \<leftarrow> session_close lib session l;
              if rc \<noteq> 0 then do { l \<leftarrow> wt_bailout lib session l; Some (-1, w\<lparr>ww_priv := Some self, ww_lib := l\<rparr>) }
              else Some (0, w\<lparr>ww_priv := Some self, ww_lib := l\<rparr>) } } } })"

definition ia_wt_close :: "('conn, 'sess, 'cur, 'l) wt_lib \<Rightarrow> ('conn, 'l) wt_world \<Rightarrow> (int \<times> ('conn, 'l) wt_world) option" where
  "ia_wt_close lib w =
     (case ww_priv w of
        None \<Rightarrow> Some (0, w)
      | Some self \<Rightarrow>
          (case wp_conn self of
             None \<Rightarrow> Some (0, w\<lparr>ww_priv := None\<rparr>)
           | Some conn \<Rightarrow> do { (rc, l) \<leftarrow> conn_close lib conn (ww_lib w); Some (0, w\<lparr>ww_priv := None, ww_lib := l\<rparr>) }))"

section \<open>Contexts and transactions\<close>

definition ia_wiredtiger_thread_dispose ::
  "('conn, 'sess, 'cur, 'l) wt_lib \<Rightarrow> ('sess, 'cur) wt_context \<Rightarrow> ('conn, 'l) wt_world \<Rightarrow> ('conn, 'l) wt_world option" where
  "ia_wiredtiger_thread_dispose lib ctx w =
     do { l \<leftarrow> (case wc_cursor ctx of
            None \<Rightarrow> Some (ww_lib w)
          | Some cursor \<Rightarrow> do { (rc, l) \<leftarrow> cursor_close lib cursor (ww_lib w); Some l });
          if wc_session ctx = None then Some (w\<lparr>ww_lib := l\<rparr>)
          else do {
            (session, l) \<leftarrow> (if wc_transaction ctx
               then do { (rc, session, l) \<leftarrow> rollback_transaction lib (wc_session ctx) l; Some (session, l) }
               else Some (wc_session ctx, l));
            (rc, session, l) \<leftarrow> session_close lib session l;
            Some (w\<lparr>ww_lib := l\<rparr>) } }"

definition ia_wiredtiger_thread_new ::
  "bool \<Rightarrow> ('conn, 'sess, 'cur, 'l) wt_lib \<Rightarrow> ('conn, 'l) wt_world \<Rightarrow> (('sess, 'cur) wt_context option \<times> ('conn, 'l) wt_world) option" where
  "ia_wiredtiger_thread_new mem lib w =
     (if \<not> mem then Some (None, w)
      else do {
        self \<leftarrow> ww_priv w;
        (rc, session, l) \<leftarrow> conn_open_session lib (wp_conn self) (wp_session_config self) (ww_lib w);
        let ctx = \<lparr>wc_session = session, wc_cursor = None, wc_transaction = False\<rparr>;
        if rc \<noteq> 0 then do { w \<leftarrow> ia_wiredtiger_thread_dispose lib ctx (w\<lparr>ww_lib := l\<rparr>); Some (None, w) }
        else do {
          (rc, session, cursor, l) \<leftarrow> session_open_cursor lib (wc_session ctx) (wp_table_name self) (wp_cursor_config self) l;
          let ctx = ctx\<lparr>wc_session := session, wc_cursor := cursor\<rparr>;
          if rc \<noteq> 0 then do { w \<leftarrow> ia_wiredtiger_thread_dispose lib ctx (w\<lparr>ww_lib := l\<rparr>); Some (None, w) }
          else Some (Some ctx, w\<lparr>ww_lib := l\<rparr>) } })"

definition ia_wiredtiger_begin ::
  "('conn, 'sess, 'cur, 'l) wt_lib \<Rightarrow> ('sess, 'cur) wt_context \<Rightarrow> iabenchmark \<Rightarrow> ('conn, 'l) wt_world
     \<Rightarrow> (int \<times> ('sess, 'cur) wt_context \<times> ('conn, 'l) wt_world) option" where
  "ia_wiredtiger_begin lib ctx step w =
     (if step \<in> {IA_BATCH, IA_CRUD} then do {
        self \<leftarrow> ww_priv w;
        (rc, session, l) \<leftarrow> begin_transaction lib (wc_session ctx) (wp_transaction_config self) (ww_lib w);
        let ctx = ctx\<lparr>wc_session := session\<rparr>;
        if rc \<noteq> 0 then Some (-1, ctx, w\<lparr>ww_lib := l\<rparr>) else Some (0, ctx\<lparr>wc_transaction := True\<rparr>, w\<lparr>ww_lib := l\<rparr>) }
      else if step \<in> {IA_SET, IA_DELETE, IA_GET} then Some (0, ctx, w)
      else if step = IA_ITERATE then do {
        (rc, cursor, l) \<leftarrow> cursor_reset lib (wc_cursor ctx) (ww_lib w);
        Some (if rc \<noteq> 0 then -1 else 0, ctx\<lparr>wc_cursor := cursor\<rparr>, w\<lparr>ww_lib := l\<rparr>) }
      else None)"

text \<open>The commit of \<open>done\<close>: \<open>False\<close> when it has failed and the transaction was rolled back.\<close>

definition wt_commit ::
  "('conn, 'sess, 'cur, 'l) wt_lib \<Rightarrow> ('sess, 'cur) wt_context \<Rightarrow> 'l \<Rightarrow> (bool \<times> ('sess, 'cur) wt_context \<times> 'l) option" where
  "wt_commit lib ctx l =
     (if \<not> wc_transaction ctx then Some (True, ctx, l)
      else do {
        (rc, session, l) \<leftarrow> commit_transaction lib (wc_session ctx) l;
        let ctx = ctx\<lparr>wc_session := session\<rparr>;
        if rc = 0 then Some (True, ctx\<lparr>wc_transaction := False\<rparr>, l)
        else do {
          (rc, session, l) \<leftarrow> rollback_transaction lib (wc_session ctx) l;
          Some (False, ctx\<lparr>wc_session := session, wc_transaction := False\<rparr>, l) } })"

text \<open>The checkpoint of \<open>done\<close>; its result is returned as it is.\<close>

definition wt_checkpoint ::
  "('conn, 'sess, 'cur, 'l) wt_lib \<Rightarrow> ('sess, 'cur) wt_context \<Rightarrow> ('conn, 'l) wt_world
     \<Rightarrow> (int \<times> ('sess, 'cur) wt_context \<times> ('conn, 'l) wt_world) option" where
  "wt_checkpoint lib ctx w =
     do { self \<leftarrow> ww_priv w;
          if wp_need_checkpoints self then do {
            (rc, session, l) \<leftarrow> session_checkpoint lib (wc_session ctx) (ww_lib w);
            Some (rc, ctx\<lparr>wc_session := session\<rparr>, w\<lparr>ww_lib := l\<rparr>) }
          else Some (0, ctx, w) }"

definition ia_wiredtiger_done ::
  "('conn, 'sess, 'cur, 'l) wt_lib \<Rightarrow> ('sess, 'cur) wt_context \<Rightarrow> iabenchmark \<Rightarrow> ('conn, 'l) wt_world
     \<Rightarrow> (int \<times> ('sess, 'cur) wt_context \<times> ('conn, 'l) wt_world) option" where
  "ia_wiredtiger_done lib ctx step w =
     (if step \<in> {IA_BATCH, IA_CRUD} then do {
        (ok, ctx, l) \<leftarrow> wt_commit lib ctx (ww_lib w);
        if \<not> ok then Some (-1, ctx, w\<lparr>ww_lib := l\<rparr>) else wt_checkpoint lib ctx (w\<lparr>ww_lib := l\<rparr>) }
      else if step \<in> {IA_DELETE, IA_SET} then wt_checkpoint lib ctx w
      else if step \<in> {IA_ITERATE, IA_GET} then Some (0, ctx, w)
      else None)"

definition ia_wiredtiger_next ::
  "('conn, 'sess, 'cur, 'l) wt_lib \<Rightarrow> ('sess, 'cur) wt_context \<Rightarrow> iabenchmark \<Rightarrow> iakv \<Rightarrow> ('conn, 'l) wt_world
     \<Rightarrow> (int \<times> iakv \<times> ('sess, 'cur) wt_context \<times> ('conn, 'l) wt_world) option" where
  "ia_wiredtiger_next lib ctx step kv w =
     (let k = \<lparr>wi_data = kv_k kv, wi_size = kv_ksize kv\<rparr>;
          v = \<lparr>wi_data = kv_v kv, wi_size = kv_vsize kv\<rparr>
      in case step of
        IA_SET \<Rightarrow> do {
          (cursor, l) \<leftarrow> cursor_set_key lib (wc_cursor ctx) k (ww_lib w);
          (cursor, l) \<leftarrow> cursor_set_value lib cursor v l;
          (rc, cursor, l) \<leftarrow> cursor_insert lib cursor l;
          Some (if rc \<noteq> 0 then -1 else 0, kv, ctx\<lparr>wc_cursor := cursor\<rparr>, w\<lparr>ww_lib := l\<rparr>) }
      | IA_DELETE \<Rightarrow> do {
          (cursor, l) \<leftarrow> cursor_set_key lib (wc_cursor ctx) k (ww_lib w);
          (rc, cursor, l) \<leftarrow> cursor_remove lib cursor l;
          Some (if rc \<noteq> 0 then -1 else 0, kv, ctx\<lparr>wc_cursor := cursor\<rparr>, w\<lparr>ww_lib := l\<rparr>) }
      | IA_GET \<Rightarrow> do {
          (cursor, l) \<leftarrow> cursor_set_key lib (wc_cursor ctx) k (ww_lib w);
          (rc, cursor, l) \<leftarrow> cursor_search lib cursor l;
          let ctx = ctx\<lparr>wc_cursor := cursor\<rparr>;
          if rc \<noteq> 0 then Some (if rc \<noteq> WT_NOTFOUND lib then -1 else ENOENT, kv, ctx, w\<lparr>ww_lib := l\<rparr>)
          else do {
            (rc', v, l) \<leftarrow> cursor_get_value lib (wc_cursor ctx) l;
            Some (0, kv\<lparr>kv_v := wi_data v, kv_vsize := wi_size v\<rparr>, ctx, w\<lparr>ww_lib := l\<rparr>) } }
      | IA_ITERATE \<Rightarrow> do {
          (rc, cursor, l) \<leftarrow> cursor_next lib (wc_cursor ctx) (ww_lib w);
          let ctx = ctx\<lparr>wc_cursor := cursor\<rparr>;
          if rc \<noteq> 0 then Some (if rc \<noteq> WT_NOTFOUND lib then -1 else ENOENT, kv, ctx, w\<lparr>ww_lib := l\<rparr>)
          else do {
            (rc, k, l) \<leftarrow> cursor_get_key lib (wc_cursor ctx) l;
            if rc \<noteq> 0 then Some (-1, kv, ctx, w\<lparr>ww_lib := l\<rparr>)
            else do {
              (rc, v, l) \<leftarrow> cursor_get_value lib (wc_cursor ctx) l;
              if rc \<noteq> 0 then Some (-1, kv, ctx, w\<lparr>ww_lib := l\<rparr>)
              else Some (0, \<lparr>kv_ksize = wi_size k, kv_vsize = wi_size v, kv_k = wi_data k, kv_v = wi_data v\<rparr>,
                         ctx, w\<lparr>ww_lib := l\<rparr>) } } }
      | _ \<Rightarrow> None)"

definition ia_wt ::
  "bool \<Rightarrow> ('conn, 'sess, 'cur, 'l) wt_lib \<Rightarrow> (('conn, 'l) wt_world, ('sess, 'cur) wt_context) iadriver" where
  "ia_wt mem lib = \<lparr>d_name = ''wiredtiger'', d_open = ia_wt_open mem lib, d_close = ia_wt_close lib,
     d_thread_new = ia_wiredtiger_thread_new mem lib, d_thread_dispose = ia_wiredtiger_thread_dispose lib,
     d_begin = ia_wiredtiger_begin lib, d_next = ia_wiredtiger_next lib, d_done = ia_wiredtiger_done lib, d_option = None\<rparr>"

section \<open>What the driver relies on\<close>

text \<open>
  The documented behaviour of the library: \<open>nlive\<close>, \<open>alive\<close> and \<open>clive\<close> describe a connection, a session
  and a cursor that have not been closed.  Calls on live objects return and leave them live; nothing
  is promised about a session that has been closed, whatever \<open>close\<close> returned.
\<close>

definition wt_connections :: "('conn, 'sess, 'cur, 'l) wt_lib \<Rightarrow> ('conn \<Rightarrow> bool) \<Rightarrow> ('sess \<Rightarrow> bool) \<Rightarrow> bool" where
  "wt_connections lib nlive alive \<longleftrightarrow>
     (\<forall>home cfg l. \<exists>rc np l'. wiredtiger_open lib home cfg l = Some (rc, np, l') \<and>
        (if rc = 0 then \<exists>n. np = Some n \<and> nlive n else np = None)) \<and>
     (\<forall>n cfg l. nlive n \<longrightarrow> (\<exists>rc sp l'. conn_open_session lib (Some n) cfg l = Some (rc, sp, l') \<and>
        (if rc = 0 then \<exists>s. sp = Some s \<and> alive s else sp = None))) \<and>
     (\<forall>n l. nlive n \<longrightarrow> (\<exists>rc l'. conn_close lib n l = Some (rc, l')))"

definition keeps_live :: "('x option \<Rightarrow> 'l \<Rightarrow> (int \<times> 'x option \<times> 'l) option) \<Rightarrow> ('x \<Rightarrow> bool) \<Rightarrow> bool" where
  "keeps_live f live \<longleftrightarrow> (\<forall>x l. live x \<longrightarrow> (\<exists>rc x' l'. f (Some x) l = Some (rc, Some x', l') \<and> live x'))"

definition wt_sessions :: "('conn, 'sess, 'cur, 'l) wt_lib \<Rightarrow> ('sess \<Rightarrow> bool) \<Rightarrow> ('cur \<Rightarrow> bool) \<Rightarrow> bool" where
  "wt_sessions lib alive clive \<longleftrightarrow>
     (\<forall>tab cfg. keeps_live (\<lambda>sp. session_create lib sp tab cfg) alive) \<and>
     (\<forall>cfg. keeps_live (\<lambda>sp. begin_transaction lib sp cfg) alive) \<and>
     keeps_live (commit_transaction lib) alive \<and> keeps_live (rollback_transaction lib) alive \<and>
     keeps_live (session_checkpoint lib) alive \<and>
     (\<forall>s l. alive s \<longrightarrow> (\<exists>rc sp l'. session_close lib (Some s) l = Some (rc, sp, l'))) \<and>
     (\<forall>s tab cfg l. alive s \<longrightarrow> (\<exists>rc s' cp l'. session_open_cursor lib (Some s) tab cfg l = Some (rc, Some s', cp, l') \<and>
        alive s' \<and> (if rc = 0 then \<exists>c. cp = Some c \<and> clive c else cp = None)))"

definition wt_cursors :: "('conn, 'sess, 'cur, 'l) wt_lib \<Rightarrow> ('cur \<Rightarrow> bool) \<Rightarrow> bool" where
  "wt_cursors lib clive \<longleftrightarrow> WT_NOTFOUND lib \<noteq> 0 \<and>
     keeps_live (cursor_reset lib) clive \<and> keeps_live (cursor_next lib) clive \<and> keeps_live (cursor_insert lib) clive \<and>
     keeps_live (cursor_remove lib) clive \<and> keeps_live (cursor_search lib) clive \<and>
     (\<forall>c l. clive c \<longrightarrow> (\<exists>rc l'. cursor_close lib c l = Some (rc, l'))) \<and>
     (\<forall>c k l. clive c \<longrightarrow> readable (wi_data k) (wi_size k) \<longrightarrow> (\<exists>c' l'. cursor_set_key lib (Some c) k l = Some (Some c', l') \<and> clive c')) \<and>
     (\<forall>c v l. clive c \<longrightarrow> readable (wi_data v) (wi_size v) \<longrightarrow> (\<exists>c' l'. cursor_set_value lib (Some c) v l = Some (Some c', l') \<and> clive c')) \<and>
     (\<forall>c l. clive c \<longrightarrow> (\<exists>rc k l'. cursor_get_key lib (Some c) l = Some (rc, k, l'))) \<and>
     (\<forall>c l. clive c \<longrightarrow> (\<exists>rc v l'. cursor_get_value lib (Some c) l = Some (rc, v, l')))"

definition wt_library ::
  "('conn, 'sess, 'cur, 'l) wt_lib \<Rightarrow> ('conn \<Rightarrow> bool) \<Rightarrow> ('sess \<Rightarrow> bool) \<Rightarrow> ('cur \<Rightarrow> bool) \<Rightarrow> bool" where
  "wt_library lib nlive alive clive \<longleftrightarrow> wt_connections lib nlive alive \<and> wt_sessions lib alive clive \<and> wt_cursors lib clive"

text \<open>
  The two calls whose failure the driver does not survive as the contract asks: the close of the
  session that \<open>open\<close> has used, and a checkpoint, whose error code \<open>done\<close> returns.
\<close>

definition wt_undisturbed :: "('conn, 'sess, 'cur, 'l) wt_lib \<Rightarrow> ('sess \<Rightarrow> bool) \<Rightarrow> bool" where
  "wt_undisturbed lib alive \<longleftrightarrow>
     (\<forall>s l rc sp l'. alive s \<longrightarrow> session_close lib (Some s) l = Some (rc, sp, l') \<longrightarrow> rc = 0) \<and>
     (\<forall>s l rc sp l'. alive s \<longrightarrow> session_checkpoint lib (Some s) l = Some (rc, sp, l') \<longrightarrow> rc \<in> {0, -1})"

section \<open>The contract\<close>

definition wt_opened :: "('conn \<Rightarrow> bool) \<Rightarrow> ('conn, 'l) wt_world \<Rightarrow> bool" where
  "wt_opened nlive w \<longleftrightarrow> (\<exists>self n. ww_priv w = Some self \<and> wp_conn self = Some n \<and> nlive n)"

definition wt_closeable :: "('conn \<Rightarrow> bool) \<Rightarrow> ('conn, 'l) wt_world \<Rightarrow> bool" where
  "wt_closeable nlive w \<longleftrightarrow> (case ww_priv w of None \<Rightarrow> True | Some self \<Rightarrow> live_or_null nlive (wp_conn self))"

definition wt_good :: "('sess \<Rightarrow> bool) \<Rightarrow> ('cur \<Rightarrow> bool) \<Rightarrow> ('sess, 'cur) wt_context \<Rightarrow> bool" where
  "wt_good alive clive ctx \<longleftrightarrow> (\<exists>s c. wc_session ctx = Some s \<and> alive s \<and> wc_cursor ctx = Some c \<and> clive c)"

lemma keeps_liveD: "keeps_live f live \<Longrightarrow> live x \<Longrightarrow> \<exists>rc x' l'. f (Some x) l = Some (rc, Some x', l') \<and> live x'"
  by (simp add: keeps_live_def)

lemma wt_bailout_ok:
  assumes lib: "wt_library lib nlive alive clive" and s: "live_or_null alive sp"
  shows "\<exists>l'. wt_bailout lib sp l = Some l'"
proof (cases sp)
  case (Some s)
  then have a: "alive s" using s by simp
  have rb: "keeps_live (rollback_transaction lib) alive" using lib by (simp add: wt_library_def wt_sessions_def)
  from keeps_liveD [OF rb a, of l] obtain rc s' l1 where
    1: "rollback_transaction lib (Some s) l = Some (rc, Some s', l1)" "alive s'" by blast
  have "\<exists>rc sp l'. session_close lib (Some s') l1 = Some (rc, sp, l')" using lib 1(2) by (simp add: wt_library_def wt_sessions_def)
  then show ?thesis using Some 1(1) by (auto simp: wt_bailout_def)
qed (simp add: wt_bailout_def)

lemma wt_open_ok:
  assumes lib: "wt_library lib nlive alive clive" and calm: "wt_undisturbed lib alive"
  shows "\<exists>rc w'. ia_wt_open mem lib conf dir w = Some (rc, w') \<and> (rc = 0 \<and> wt_opened nlive w' \<or> rc = -1 \<and> wt_closeable nlive w')"
proof (cases mem)
  case False
  then show ?thesis by (simp add: ia_wt_open_def wt_closeable_def)
next
  case mem: True
  let ?cfg = "take 255 (''create,cache_size=1Gb,'' @ wal_config (c_walmode conf) @ durability_config (c_syncmode conf))"
  let ?tab = "''split_pct=100,leaf_item_max=1KB,type=lsm,internal_page_max=4KB,leaf_page_max=4KB''"
  have "\<exists>rc np l'. wiredtiger_open lib home cfg l = Some (rc, np, l') \<and> (if rc = 0 then \<exists>n. np = Some n \<and> nlive n else np = None)" for home cfg l
    using lib by (simp add: wt_library_def wt_connections_def)
  then obtain rc1 np l1 where 1: "wiredtiger_open lib dir ?cfg (ww_lib w) = Some (rc1, np, l1)"
    "if rc1 = 0 then \<exists>n. np = Some n \<and> nlive n else np = None" by blast
  show ?thesis
  proof (cases "rc1 = 0")
    case False
    then show ?thesis using mem 1 by (simp add: ia_wt_open_def wt_closeable_def Let_def)
  next
    case rc1: True
    then obtain n where n: "np = Some n" "nlive n" using 1(2) by auto
    have "\<exists>rc sp l'. conn_open_session lib (Some n) None l1 = Some (rc, sp, l') \<and> (if rc = 0 then \<exists>s. sp = Some s \<and> alive s else sp = None)"
      using lib n(2) by (simp add: wt_library_def wt_connections_def)
    then obtain rc2 sp l2 where 2: "conn_open_session lib (Some n) None l1 = Some (rc2, sp, l2)"
      "if rc2 = 0 then \<exists>s. sp = Some s \<and> alive s else sp = None" by blast
    show ?thesis
    proof (cases "rc2 = 0")
      case False
      then obtain l' where "wt_bailout lib sp l2 = Some l'" using wt_bailout_ok [OF lib, of sp l2] 2(2) by auto
      then show ?thesis using mem 1 rc1 n 2 False by (simp add: ia_wt_open_def wt_closeable_def Let_def)
    next
      case rc2: True
      then obtain s where s: "sp = Some s" "alive s" using 2(2) by auto
      have create: "keeps_live (\<lambda>sp. session_create lib sp (Some ''table:test'') ?tab) alive" using lib by (simp add: wt_library_def wt_sessions_def)
      from keeps_liveD [OF create s(2), of l2] obtain rc3 s' l3 where
        3: "session_create lib (Some s) (Some ''table:test'') ?tab l2 = Some (rc3, Some s', l3)" "alive s'" by blast
      obtain l' where b: "wt_bailout lib (Some s') l3 = Some l'" using wt_bailout_ok [OF lib, of "Some s'" l3] 3(2) by auto
      have "\<exists>rc sp l'. session_close lib (Some s') l3 = Some (rc, sp, l')" using lib 3(2) by (simp add: wt_library_def wt_sessions_def)
      then obtain sp' l4 where 4: "session_close lib (Some s') l3 = Some (0, sp', l4)" using calm 3(2) unfolding wt_undisturbed_def by metis
      show ?thesis
        using mem 1(1) rc1 n 2(1) rc2 s(1) 3(1) 4 b by (simp add: ia_wt_open_def wt_closeable_def wt_opened_def Let_def)
    qed
  qed
qed

lemma wt_dispose_ok:
  assumes lib: "wt_library lib nlive alive clive"
    and ctx: "live_or_null alive (wc_session ctx)" "live_or_null clive (wc_cursor ctx)"
  shows "\<exists>w'. ia_wiredtiger_thread_dispose lib ctx w = Some w' \<and> ww_priv w' = ww_priv w"
proof -
  have close: "\<exists>rc l'. cursor_close lib c l = Some (rc, l')" if "clive c" for c l
    using lib that by (simp add: wt_library_def wt_cursors_def)
  obtain l1 where 1: "(case wc_cursor ctx of None \<Rightarrow> Some (ww_lib w)
      | Some cursor \<Rightarrow> do { (rc, l) \<leftarrow> cursor_close lib cursor (ww_lib w); Some l }) = Some l1"
    using ctx(2) close [of "the (wc_cursor ctx)" "ww_lib w"] by (cases "wc_cursor ctx") auto
  show ?thesis
  proof (cases "wc_session ctx")
    case None
    then show ?thesis using 1 by (simp add: ia_wiredtiger_thread_dispose_def)
  next
    case (Some s)
    then have a: "alive s" using ctx(1) by simp
    have rb: "keeps_live (rollback_transaction lib) alive" using lib by (simp add: wt_library_def wt_sessions_def)
    obtain s' l2 where 2: "(if wc_transaction ctx then do { (rc, session, l) \<leftarrow> rollback_transaction lib (wc_session ctx) l1; Some (session, l) }
        else Some (wc_session ctx, l1)) = Some (Some s', l2)" "alive s'"
      using keeps_liveD [OF rb a, of l1] a Some by (cases "wc_transaction ctx") auto
    have "\<exists>rc sp l'. session_close lib (Some s') l2 = Some (rc, sp, l')" using lib 2(2) by (simp add: wt_library_def wt_sessions_def)
    then show ?thesis using 1 2(1) Some by (auto simp: ia_wiredtiger_thread_dispose_def)
  qed
qed

lemma wt_new_ok:
  assumes lib: "wt_library lib nlive alive clive" and op: "wt_opened nlive w"
  shows "\<exists>r w'. ia_wiredtiger_thread_new mem lib w = Some (r, w') \<and> ww_priv w' = ww_priv w \<and>
    (\<forall>ctx. r = Some ctx \<longrightarrow> wt_good alive clive ctx)"
proof (cases mem)
  case False
  then show ?thesis by (simp add: ia_wiredtiger_thread_new_def)
next
  case mem: True
  obtain self n where w: "ww_priv w = Some self" "wp_conn self = Some n" "nlive n" using op by (auto simp: wt_opened_def)
  have "\<exists>rc sp l'. conn_open_session lib (Some n) cfg l = Some (rc, sp, l') \<and> (if rc = 0 then \<exists>s. sp = Some s \<and> alive s else sp = None)" for cfg l
    using lib w(3) by (simp add: wt_library_def wt_connections_def)
  then obtain rc1 sp l1 where 1: "conn_open_session lib (Some n) (wp_session_config self) (ww_lib w) = Some (rc1, sp, l1)"
    "if rc1 = 0 then \<exists>s. sp = Some s \<and> alive s else sp = None" by blast
  let ?c = "\<lambda>s c. \<lparr>wc_session = s, wc_cursor = c, wc_transaction = False\<rparr>"
  show ?thesis
  proof (cases "rc1 = 0")
    case False
    then obtain w' where "ia_wiredtiger_thread_dispose lib (?c None None) (w\<lparr>ww_lib := l1\<rparr>) = Some w'" "ww_priv w' = ww_priv w"
      using wt_dispose_ok [OF lib, of "?c None None" "w\<lparr>ww_lib := l1\<rparr>"] by auto
    then show ?thesis using mem w 1 False by (simp add: ia_wiredtiger_thread_new_def Let_def)
  next
    case rc1: True
    then obtain s where s: "sp = Some s" "alive s" using 1(2) by auto
    have "\<exists>rc s' cp l'. session_open_cursor lib (Some s) (wp_table_name self) (wp_cursor_config self) l1 = Some (rc, Some s', cp, l') \<and>
        alive s' \<and> (if rc = 0 then \<exists>c. cp = Some c \<and> clive c else cp = None)"
      using lib s(2) by (simp add: wt_library_def wt_sessions_def)
    then obtain rc2 s' cp l2 where 2: "session_open_cursor lib (Some s) (wp_table_name self) (wp_cursor_config self) l1 = Some (rc2, Some s', cp, l2)"
      "alive s'" "if rc2 = 0 then \<exists>c. cp = Some c \<and> clive c else cp = None" by blast
    have "live_or_null clive cp" using 2(3) by (auto split: if_splits)
    then obtain w' where d: "ia_wiredtiger_thread_dispose lib (?c (Some s') cp) (w\<lparr>ww_lib := l2\<rparr>) = Some w'" "ww_priv w' = ww_priv w"
      using wt_dispose_ok [OF lib, of "?c (Some s') cp" "w\<lparr>ww_lib := l2\<rparr>"] 2(2) by auto
    show ?thesis using mem w 1(1) rc1 s(1) 2 d by (auto simp: ia_wiredtiger_thread_new_def wt_good_def Let_def)
  qed
qed

lemma wt_begin_ok:
  assumes lib: "wt_library lib nlive alive clive" and op: "wt_opened nlive w" and good: "wt_good alive clive ctx" and b: "b < IA_MAX"
  shows "\<exists>rc ctx' w'. ia_wiredtiger_begin lib ctx b w = Some (rc, ctx', w') \<and> ww_priv w' = ww_priv w \<and> wt_good alive clive ctx' \<and> rc \<in> {0, -1}"
proof -
  obtain self where w: "ww_priv w = Some self" using op by (auto simp: wt_opened_def)
  obtain s c where c: "wc_session ctx = Some s" "alive s" "wc_cursor ctx = Some c" "clive c" using good by (auto simp: wt_good_def)
  have bt: "keeps_live (\<lambda>sp. begin_transaction lib sp (wp_transaction_config self)) alive" and reset: "keeps_live (cursor_reset lib) clive"
    using lib by (simp_all add: wt_library_def wt_sessions_def wt_cursors_def)
  obtain rc1 s' l1 where 1: "begin_transaction lib (Some s) (wp_transaction_config self) (ww_lib w) = Some (rc1, Some s', l1)" "alive s'"
    using keeps_liveD [OF bt c(2), of "ww_lib w"] by blast
  obtain rc2 c' l2 where 2: "cursor_reset lib (Some c) (ww_lib w) = Some (rc2, Some c', l2)" "clive c'"
    using keeps_liveD [OF reset c(4), of "ww_lib w"] by blast
  consider "b \<in> {IA_BATCH, IA_CRUD}" | "b \<in> {IA_SET, IA_DELETE, IA_GET}" | "b = IA_ITERATE" using b by (cases b) auto
  then show ?thesis
  proof cases
    case 1
    then show ?thesis using w c \<open>begin_transaction lib _ _ _ = _\<close> \<open>alive s'\<close> by (simp add: ia_wiredtiger_begin_def wt_good_def Let_def)
  next
    case 2
    then show ?thesis using good by (auto simp: ia_wiredtiger_begin_def)
  next
    case 3
    then show ?thesis using c 2 by (simp add: ia_wiredtiger_begin_def wt_good_def)
  qed
qed

lemma wt_commit_ok:
  assumes lib: "wt_library lib nlive alive clive" and good: "wt_good alive clive ctx"
  shows "\<exists>ok ctx' l'. wt_commit lib ctx l = Some (ok, ctx', l') \<and> wt_good alive clive ctx'"
proof -
  obtain s c where c: "wc_session ctx = Some s" "alive s" "wc_cursor ctx = Some c" "clive c" using good by (auto simp: wt_good_def)
  have cm: "keeps_live (commit_transaction lib) alive" and rb: "keeps_live (rollback_transaction lib) alive"
    using lib by (simp_all add: wt_library_def wt_sessions_def)
  obtain rc1 s1 l1 where 1: "commit_transaction lib (Some s) l = Some (rc1, Some s1, l1)" "alive s1"
    using keeps_liveD [OF cm c(2), of l] by blast
  obtain rc2 s2 l2 where 2: "rollback_transaction lib (Some s1) l1 = Some (rc2, Some s2, l2)" "alive s2"
    using keeps_liveD [OF rb 1(2), of l1] by blast
  show ?thesis using good c 1 2 by (auto simp: wt_commit_def wt_good_def Let_def)
qed

lemma wt_checkpoint_ok:
  assumes lib: "wt_library lib nlive alive clive" and calm: "wt_undisturbed lib alive"
    and op: "wt_opened nlive w" and good: "wt_good alive clive ctx"
  shows "\<exists>rc ctx' w'. wt_checkpoint lib ctx w = Some (rc, ctx', w') \<and> ww_priv w' = ww_priv w \<and> wt_good alive clive ctx' \<and> rc \<in> {0, -1}"
proof -
  obtain self where w: "ww_priv w = Some self" using op by (auto simp: wt_opened_def)
  obtain s c where c: "wc_session ctx = Some s" "alive s" "wc_cursor ctx = Some c" "clive c" using good by (auto simp: wt_good_def)
  have cp: "keeps_live (session_checkpoint lib) alive" using lib by (simp add: wt_library_def wt_sessions_def)
  obtain rc s' l where 1: "session_checkpoint lib (Some s) (ww_lib w) = Some (rc, Some s', l)" "alive s'"
    using keeps_liveD [OF cp c(2), of "ww_lib w"] by blast
  have "rc \<in> {0, -1}" using calm c(2) 1(1) unfolding wt_undisturbed_def by blast
  then show ?thesis using w c 1 good by (simp add: wt_checkpoint_def wt_good_def)
qed

lemma wt_done_ok:
  assumes lib: "wt_library lib nlive alive clive" and calm: "wt_undisturbed lib alive"
    and op: "wt_opened nlive w" and good: "wt_good alive clive ctx" and b: "b < IA_MAX"
  shows "\<exists>rc ctx' w'. ia_wiredtiger_done lib ctx b w = Some (rc, ctx', w') \<and> ww_priv w' = ww_priv w \<and> wt_good alive clive ctx' \<and> rc \<in> {0, -1}"
proof -
  obtain ok ctx1 l1 where 1: "wt_commit lib ctx (ww_lib w) = Some (ok, ctx1, l1)" "wt_good alive clive ctx1"
    using wt_commit_ok [OF lib good] by blast
  have op1: "wt_opened nlive (w\<lparr>ww_lib := l1\<rparr>)" using op by (simp add: wt_opened_def)
  have chk1: "\<exists>rc ctx' w'. wt_checkpoint lib ctx1 (w\<lparr>ww_lib := l1\<rparr>) = Some (rc, ctx', w') \<and> ww_priv w' = ww_priv w \<and> wt_good alive clive ctx' \<and> rc \<in> {0, -1}"
    using wt_checkpoint_ok [OF lib calm op1 1(2)] by simp
  have chk: "\<exists>rc ctx' w'. wt_checkpoint lib ctx w = Some (rc, ctx', w') \<and> ww_priv w' = ww_priv w \<and> wt_good alive clive ctx' \<and> rc \<in> {0, -1}"
    by (rule wt_checkpoint_ok [OF lib calm op good])
  consider "b \<in> {IA_BATCH, IA_CRUD}" | "b \<in> {IA_DELETE, IA_SET}" | "b \<in> {IA_ITERATE, IA_GET}" using b by (cases b) auto
  then show ?thesis
  proof cases
    case 1
    then show ?thesis using \<open>wt_commit lib ctx _ = _\<close> \<open>wt_good alive clive ctx1\<close> chk1 by (cases ok) (simp_all add: ia_wiredtiger_done_def)
  next
    case 2
    then show ?thesis using chk by (auto simp: ia_wiredtiger_done_def)
  next
    case 3
    then show ?thesis using good by (auto simp: ia_wiredtiger_done_def)
  qed
qed

lemma wt_data_ok:
  assumes lib: "wt_library lib nlive alive clive" and good: "wt_good alive clive ctx"
    and step: "step \<in> {IA_SET, IA_DELETE, IA_GET}" and kv: "kv_ready kv"
  shows "\<exists>rc kv' ctx' w'. ia_wiredtiger_next lib ctx step kv w = Some (rc, kv', ctx', w') \<and> ww_priv w' = ww_priv w \<and>
    wt_good alive clive ctx' \<and> rc \<in> {0, ENOENT, -1} \<and> (step \<in> {IA_SET, IA_DELETE} \<longrightarrow> kv' = kv)"
proof -
  obtain s c where c: "wc_session ctx = Some s" "alive s" "wc_cursor ctx = Some c" "clive c" using good by (auto simp: wt_good_def)
  have curs: "wt_cursors lib clive" using lib by (simp add: wt_library_def)
  have keeps: "keeps_live (cursor_insert lib) clive" "keeps_live (cursor_remove lib) clive" "keeps_live (cursor_search lib) clive"
    using curs by (simp_all add: wt_cursors_def)
  let ?k = "\<lparr>wi_data = kv_k kv, wi_size = kv_ksize kv\<rparr>" and ?v = "\<lparr>wi_data = kv_v kv, wi_size = kv_vsize kv\<rparr>"
  have "\<exists>c' l'. cursor_set_key lib (Some c) ?k (ww_lib w) = Some (Some c', l') \<and> clive c'"
    using curs c(4) kv by (simp add: wt_cursors_def kv_ready_def)
  then obtain c1 l1 where 1: "cursor_set_key lib (Some c) ?k (ww_lib w) = Some (Some c1, l1)" "clive c1" by blast
  have "\<exists>c' l'. cursor_set_value lib (Some c1) ?v l1 = Some (Some c', l') \<and> clive c'"
    using curs 1(2) kv by (simp add: wt_cursors_def kv_ready_def)
  then obtain c2 l2 where 2: "cursor_set_value lib (Some c1) ?v l1 = Some (Some c2, l2)" "clive c2" by blast
  obtain rc3 c3 l3 where 3: "cursor_insert lib (Some c2) l2 = Some (rc3, Some c3, l3)" "clive c3"
    using keeps_liveD [OF keeps(1) 2(2), of l2] by blast
  obtain rc4 c4 l4 where 4: "cursor_remove lib (Some c1) l1 = Some (rc4, Some c4, l4)" "clive c4"
    using keeps_liveD [OF keeps(2) 1(2), of l1] by blast
  obtain rc5 c5 l5 where 5: "cursor_search lib (Some c1) l1 = Some (rc5, Some c5, l5)" "clive c5"
    using keeps_liveD [OF keeps(3) 1(2), of l1] by blast
  have "\<exists>rc v l'. cursor_get_value lib (Some c5) l5 = Some (rc, v, l')" using curs 5(2) by (simp add: wt_cursors_def)
  then obtain rc6 v6 l6 where 6: "cursor_get_value lib (Some c5) l5 = Some (rc6, v6, l6)" by blast
  consider "step = IA_SET" | "step = IA_DELETE" | "step = IA_GET" using step by auto
  then show ?thesis
  proof cases
    case 1
    then show ?thesis using c \<open>cursor_set_key lib _ _ _ = _\<close> 2 3 by (simp add: ia_wiredtiger_next_def wt_good_def)
  next
    case 2
    then show ?thesis using c \<open>cursor_set_key lib _ _ _ = _\<close> 4 by (simp add: ia_wiredtiger_next_def wt_good_def)
  next
    case 3
    then show ?thesis using c \<open>cursor_set_key lib _ _ _ = _\<close> 5 6 by (simp add: ia_wiredtiger_next_def wt_good_def Let_def)
  qed
qed

lemma wt_iterate_ok:
  assumes lib: "wt_library lib nlive alive clive" and good: "wt_good alive clive ctx"
  shows "\<exists>rc kv' ctx' w'. ia_wiredtiger_next lib ctx IA_ITERATE kv w = Some (rc, kv', ctx', w') \<and> ww_priv w' = ww_priv w \<and>
    wt_good alive clive ctx' \<and> rc \<in> {0, ENOENT, -1}"
proof -
  obtain s c where c: "wc_session ctx = Some s" "alive s" "wc_cursor ctx = Some c" "clive c" using good by (auto simp: wt_good_def)
  have curs: "wt_cursors lib clive" using lib by (simp add: wt_library_def)
  have nxt: "keeps_live (cursor_next lib) clive" using curs by (simp add: wt_cursors_def)
  obtain rc1 c1 l1 where 1: "cursor_next lib (Some c) (ww_lib w) = Some (rc1, Some c1, l1)" "clive c1"
    using keeps_liveD [OF nxt c(4), of "ww_lib w"] by blast
  have "\<exists>rc k l'. cursor_get_key lib (Some c1) l1 = Some (rc, k, l')" using curs 1(2) by (simp add: wt_cursors_def)
  then obtain rc2 k2 l2 where 2: "cursor_get_key lib (Some c1) l1 = Some (rc2, k2, l2)" by blast
  have "\<exists>rc v l'. cursor_get_value lib (Some c1) l2 = Some (rc, v, l')" using curs 1(2) by (simp add: wt_cursors_def)
  then obtain rc3 v3 l3 where 3: "cursor_get_value lib (Some c1) l2 = Some (rc3, v3, l3)" by blast
  show ?thesis using c 1 2 3 by (simp add: ia_wiredtiger_next_def wt_good_def Let_def)
qed

lemma wt_program_holds:
  fixes lib :: "('conn, 'sess, 'cur, 'l) wt_lib"
  assumes lib: "wt_library lib nlive alive clive" and calm: "wt_undisturbed lib alive"
  shows "program_driver (ia_wt mem lib) (wt_opened nlive) (\<lambda>ctx w. wt_opened nlive w \<and> wt_good alive clive ctx) (\<lambda>b ctx w. True)
    (\<lambda>w w'. ww_priv w' = ww_priv w) (\<lambda>w. ww_priv w = None) (wt_closeable nlive)"
  unfolding ia_wt_def
proof (rule private_driverI [where priv = ww_priv and ready = "\<lambda>b ctx. True"], goal_cases)
  case (2 w)
  then show ?case using wt_new_ok [OF lib 2, of mem] by simp
next
  case (3 ctx w)
  then show ?case using wt_dispose_ok [OF lib, of ctx w] by (auto simp: wt_good_def)
next
  case (4 b ctx w)
  then show ?case using wt_begin_ok [OF lib 4] by auto
next
  case (5 b ctx w)
  then show ?case using wt_done_ok [OF lib calm 5] by simp
next
  case (6 step kv ctx w)
  then show ?case using wt_data_ok [OF lib 6(2-4), of w] by simp
next
  case (7 kv ctx w)
  then show ?case using wt_iterate_ok [OF lib 7(2), of kv w] by simp
next
  case (9 conf dir w)
  then show ?case using wt_open_ok [OF lib calm] by simp
next
  case (10 w)
  show ?case
  proof (cases "ww_priv w")
    case (Some self)
    show ?thesis
    proof (cases "wp_conn self")
      case n: (Some n)
      then have "\<exists>rc l'. conn_close lib n (ww_lib w) = Some (rc, l')"
        using lib 10 Some by (simp add: wt_library_def wt_connections_def wt_closeable_def)
      then show ?thesis using Some n by (auto simp: ia_wt_close_def)
    qed (use Some in \<open>simp add: ia_wt_close_def\<close>)
  qed (simp add: ia_wt_close_def)
qed (auto simp: wt_opened_def wt_closeable_def)

text \<open>
  After a failed close of its session \<open>open\<close> goes on with the same session: a library in which the
  session is gone then gives no result.
\<close>

lemma wt_open_uses_closed_session:
  assumes "wiredtiger_open lib dir (take 255 (''create,cache_size=1Gb,'' @ wal_config (c_walmode conf) @ durability_config (c_syncmode conf)))
      (ww_lib w) = Some (0, Some n, l1)"
    and "conn_open_session lib (Some n) None l1 = Some (0, Some s, l2)"
    and "session_create lib (Some s) (Some ''table:test'')
      ''split_pct=100,leaf_item_max=1KB,type=lsm,internal_page_max=4KB,leaf_page_max=4KB'' l2 = Some (0, Some s', l3)"
    and "session_close lib (Some s') l3 = Some (rc, Some s'', l4)" "rc \<noteq> 0"
    and "rollback_transaction lib (Some s'') l4 = None"
  shows "ia_wt_open True lib conf dir w = None"
  using assms by (simp add: ia_wt_open_def wt_bailout_def Let_def)

section \<open>A library that can be run\<close>

text \<open>
  A library that keeps its records in a list; a cursor is the record it is at, the key and value it
  was given, and the number of the records it has passed.
\<close>

record wt_sample_cursor =
  sc_key :: "u8 list"
  sc_value :: "u8 list"
  sc_passed :: nat

definition wt_bytes :: "wt_item \<Rightarrow> u8 list" where
  "wt_bytes v = (case wi_data v of None \<Rightarrow> [] | Some bs \<Rightarrow> take (unat (wi_size v)) bs)"

definition wt_value :: "u8 list \<Rightarrow> wt_item" where
  "wt_value bs = \<lparr>wi_data = Some bs, wi_size = of_nat (length bs)\<rparr>"

definition sample_wt :: "(unit, unit, wt_sample_cursor, (u8 list \<times> u8 list) list) wt_lib" where
  "sample_wt = \<lparr>WT_NOTFOUND = -31803,
     wiredtiger_open = (\<lambda>home cfg l. Some (0, Some (), l)), conn_open_session = (\<lambda>np cfg l. map_option (\<lambda>_. (0, Some (), l)) np),
     conn_close = (\<lambda>n l. Some (0, l)),
     session_create = (\<lambda>sp tab cfg l. map_option (\<lambda>_. (0, Some (), l)) sp),
     session_close = (\<lambda>sp l. map_option (\<lambda>_. (0, None, l)) sp),
     session_open_cursor = (\<lambda>sp tab cfg l. map_option (\<lambda>_. (0, Some (), Some \<lparr>sc_key = [], sc_value = [], sc_passed = 0\<rparr>, l)) sp),
     begin_transaction = (\<lambda>sp cfg l. map_option (\<lambda>_. (0, Some (), l)) sp),
     commit_transaction = (\<lambda>sp l. map_option (\<lambda>_. (0, Some (), l)) sp),
     rollback_transaction = (\<lambda>sp l. map_option (\<lambda>_. (0, Some (), l)) sp),
     session_checkpoint = (\<lambda>sp l. map_option (\<lambda>_. (0, Some (), l)) sp),
     cursor_close = (\<lambda>c l. Some (0, l)),
     cursor_reset = (\<lambda>cp l. map_option (\<lambda>c. (0, Some (c\<lparr>sc_passed := 0\<rparr>), l)) cp),
     cursor_next = (\<lambda>cp l. map_option (\<lambda>c. if sc_passed c < length l
       then (0, Some (c\<lparr>sc_key := fst (l ! sc_passed c), sc_value := snd (l ! sc_passed c), sc_passed := Suc (sc_passed c)\<rparr>), l)
       else (-31803, Some (c\<lparr>sc_passed := 0\<rparr>), l)) cp),
     cursor_insert = (\<lambda>cp l. map_option (\<lambda>c. (0, Some c, (sc_key c, sc_value c) # filter (\<lambda>r. fst r \<noteq> sc_key c) l)) cp),
     cursor_remove = (\<lambda>cp l. map_option (\<lambda>c. (if sc_key c \<in> fst ` set l then 0 else -31803, Some c, filter (\<lambda>r. fst r \<noteq> sc_key c) l)) cp),
     cursor_search = (\<lambda>cp l. map_option (\<lambda>c. case map_of l (sc_key c) of
       None \<Rightarrow> (-31803, Some c, l) | Some x \<Rightarrow> (0, Some (c\<lparr>sc_value := x\<rparr>), l)) cp),
     cursor_set_key = (\<lambda>cp k l. map_option (\<lambda>c. (Some (c\<lparr>sc_key := wt_bytes k\<rparr>), l)) cp),
     cursor_set_value = (\<lambda>cp v l. map_option (\<lambda>c. (Some (c\<lparr>sc_value := wt_bytes v\<rparr>), l)) cp),
     cursor_get_key = (\<lambda>cp l. map_option (\<lambda>c. (0, wt_value (sc_key c), l)) cp),
     cursor_get_value = (\<lambda>cp l. map_option (\<lambda>c. (0, wt_value (sc_value c), l)) cp)\<rparr>"

lemma sample_wt_library: "wt_library sample_wt (\<lambda>n. True) (\<lambda>s. True) (\<lambda>c. True)"
  by (auto simp: wt_library_def wt_connections_def wt_sessions_def wt_cursors_def keeps_live_def sample_wt_def split: option.split)

lemma sample_wt_undisturbed: "wt_undisturbed sample_wt (\<lambda>s. True)"
  by (simp add: wt_undisturbed_def sample_wt_def)

end
