(* ===== verification/DriverForestdb.thy ===== *)
theory DriverForestdb
  imports Driver "HOL-Library.Monad_Syntax"
begin

text \<open>
  The ForestDB driver (\<open>src/drivers/ia_forestdb.c\<close>) and the contract it keeps.  The library is a
  parameter.  The handles of a file and of its store are opaque; an iterator and a document are the
  values their pointers point to, as in the other drivers.
\<close>

section \<open>The library\<close>

text \<open>The fields of \<open>fdb_config\<close> that the driver sets; \<open>fc_rest\<close> stands for those it leaves alone.\<close>

record 'o fdb_config =
  fc_seqtree_opt :: int
  fc_compress_document_body :: bool
  fc_compaction_mode :: int
  fc_wal_flush_before_commit :: bool
  fc_durability_opt :: int
  fc_wal_threshold :: u64
  fc_rest :: 'o

record ('o, 'k, 'db, 'kvs, 'it, 'doc, 'l) fdb_lib =
  FDB_RESULT_SUCCESS :: int
  FDB_RESULT_KEY_NOT_FOUND :: int
  FDB_RESULT_ITERATOR_FAIL :: int
  FDB_SEQTREE_NOT_USE :: int
  FDB_COMPACTION_MANUAL :: int
  FDB_DRB_ODIRECT :: int
  FDB_DRB_ASYNC :: int
  fdb_get_default_config :: "'o fdb_config"
  fdb_get_default_kvs_config :: 'k
  fdb_init :: "'o fdb_config \<Rightarrow> 'l \<Rightarrow> (int \<times> 'l) option"
  fdb_shutdown :: "'l \<Rightarrow> (int \<times> 'l) option"
  fdb_open :: "string option \<Rightarrow> 'o fdb_config \<Rightarrow> 'l \<Rightarrow> (int \<times> 'db option \<times> 'l) option"
  fdb_close :: "'db \<Rightarrow> 'l \<Rightarrow> (int \<times> 'l) option"
  fdb_kvs_open_default :: "'db option \<Rightarrow> 'k \<Rightarrow> 'l \<Rightarrow> (int \<times> 'kvs option \<times> 'l) option"
  fdb_kvs_close :: "'kvs \<Rightarrow> 'l \<Rightarrow> (int \<times> 'l) option"
  fdb_free_block :: "u8 list \<Rightarrow> 'l \<Rightarrow> (int \<times> 'l) option"
  fdb_doc_free :: "'doc \<Rightarrow> 'l \<Rightarrow> (int \<times> 'l) option"
  fdb_compact :: "'db option \<Rightarrow> 'l \<Rightarrow> (int \<times> 'l) option"
  fdb_begin_transaction :: "'db option \<Rightarrow> 'l \<Rightarrow> (int \<times> 'l) option"
  fdb_abort_transaction :: "'db option \<Rightarrow> 'l \<Rightarrow> (int \<times> 'l) option"
  fdb_end_transaction :: "'db option \<Rightarrow> 'l \<Rightarrow> (int \<times> 'l) option"
  fdb_commit :: "'db option \<Rightarrow> 'l \<Rightarrow> (int \<times> 'l) option"
  fdb_iterator_init :: "'kvs option \<Rightarrow> 'it option \<Rightarrow> 'l \<Rightarrow> (int \<times> 'it option \<times> 'l) option"
  fdb_iterator_seek_to_min :: "'it option \<Rightarrow> 'l \<Rightarrow> (int \<times> 'it option \<times> 'l) option"
  fdb_iterator_get :: "'it option \<Rightarrow> 'doc option \<Rightarrow> 'l \<Rightarrow> (int \<times> 'it option \<times> 'doc option \<times> 'l) option"
  fdb_iterator_next :: "'it option \<Rightarrow> 'l \<Rightarrow> (int \<times> 'it option \<times> 'l) option"
  fdb_iterator_close :: "'it \<Rightarrow> 'l \<Rightarrow> (int \<times> 'l) option"
  fdb_set_kv :: "'kvs option \<Rightarrow> u8 list option \<Rightarrow> u64 \<Rightarrow> u8 list option \<Rightarrow> u64 \<Rightarrow> 'l \<Rightarrow> (int \<times> 'l) option"
  fdb_del_kv :: "'kvs option \<Rightarrow> u8 list option \<Rightarrow> u64 \<Rightarrow> 'l \<Rightarrow> (int \<times> 'l) option"
  fdb_get_kv :: "'kvs option \<Rightarrow> u8 list option \<Rightarrow> u64 \<Rightarrow> u64 \<Rightarrow> 'l \<Rightarrow> (int \<times> u8 list option \<times> u64 \<times> 'l) option"

section \<open>State of the driver\<close>

record ('o, 'k) fdb_private =
  fp_config :: "'o fdb_config"
  fp_kvs_config :: 'k
  fp_data_filename :: "string option"
  fp_needsCompact :: bool

record ('db, 'kvs, 'it, 'doc) fdb_context =
  fx_db :: "'db option"
  fx_kvs :: "'kvs option"
  fx_result :: "u8 list option"
  fx_it :: "'it option"
  fx_doc :: "'doc option"
  fx_transaction :: bool

record ('o, 'k, 'l) fdb_world =
  fw_priv :: "('o, 'k) fdb_private option"
  fw_lib :: 'l

section \<open>Opening and closing\<close>

fun fdb_sync_config :: "('o, 'k, 'db, 'kvs, 'it, 'doc, 'l) fdb_lib \<Rightarrow> iasyncmode \<Rightarrow> 'o fdb_config \<Rightarrow> 'o fdb_config" where
  "fdb_sync_config lib IA_SYNC c = c\<lparr>fc_wal_flush_before_commit := True, fc_durability_opt := FDB_DRB_ODIRECT lib\<rparr>"
| "fdb_sync_config lib IA_LAZY c = c\<lparr>fc_wal_flush_before_commit := True, fc_durability_opt := FDB_DRB_ASYNC lib\<rparr>"
| "fdb_sync_config lib IA_NOSYNC c = c\<lparr>fc_wal_flush_before_commit := False, fc_durability_opt := FDB_DRB_ASYNC lib\<rparr>"

text \<open>
  \<open>mem\<close> says whether \<open>calloc\<close> succeeds, \<open>nmem\<close> whether \<open>asprintf\<close> does, which leaves the pointer alone when
  it fails.  The block of \<open>calloc\<close> holds zeros: \<open>zeros\<close> is what they are as configurations of the library.
\<close>

definition ia_forestdb_open ::
  "bool \<Rightarrow> bool \<Rightarrow> 'o fdb_config \<times> 'k \<Rightarrow> ('o, 'k, 'db, 'kvs, 'it, 'doc, 'l) fdb_lib \<Rightarrow> iaconfig \<Rightarrow> string
     \<Rightarrow> ('o, 'k, 'l) fdb_world \<Rightarrow> (int \<times> ('o, 'k, 'l) fdb_world) option" where
  "ia_forestdb_open mem nmem zeros lib conf datadir w =
     (if \<not> mem then Some (-1, w\<lparr>fw_priv := None\<rparr>)
      else do {
        let self = \<lparr>fp_config = fst zeros, fp_kvs_config = snd zeros, fp_data_filename = None, fp_needsCompact = False\<rparr>;
        if \<not> nmem then Some (-1, w\<lparr>fw_priv := Some self\<rparr>)
        else do {
          let config = (fdb_get_default_config lib)\<lparr>fc_seqtree_opt := FDB_SEQTREE_NOT_USE lib, fc_compress_document_body := False,
            fc_compaction_mode := FDB_COMPACTION_MANUAL lib\<rparr>;
          let config = fdb_sync_config lib (c_syncmode conf) config;
          let config = (if c_walmode conf = IA_WAL_OFF then config\<lparr>fc_wal_threshold := 0\<rparr> else config);
          let self = self\<lparr>fp_data_filename := Some (datadir @ ''/io.arena''), fp_config := config, fp_needsCompact := True\<rparr>;
          (status, l) \<leftarrow> fdb_init lib config (fw_lib w);
          if status \<noteq> FDB_RESULT_SUCCESS lib then do {
            (rc, l) \<leftarrow> fdb_shutdown lib l;
            Some (-1, w\<lparr>fw_priv := Some self, fw_lib := l\<rparr>) }
          else Some (0, w\<lparr>fw_priv := Some (self\<lparr>fp_kvs_config := fdb_get_default_kvs_config lib\<rparr>), fw_lib := l\<rparr>) } })"

definition ia_forestdb_close ::
  "('o, 'k, 'db, 'kvs, 'it, 'doc, 'l) fdb_lib \<Rightarrow> ('o, 'k, 'l) fdb_world \<Rightarrow> (int \<times> ('o, 'k, 'l) fdb_world) option" where
  "ia_forestdb_close lib w =
     (case fw_priv w of
        None \<Rightarrow> Some (0, w)
      | Some self \<Rightarrow> do { (rc, l) \<leftarrow> fdb_shutdown lib (fw_lib w); Some (0, w\<lparr>fw_priv := None, fw_lib := l\<rparr>) })"

section \<open>Contexts and transactions\<close>

definition ia_forestdb_thread_new ::
  "bool \<Rightarrow> ('o, 'k, 'db, 'kvs, 'it, 'doc, 'l) fdb_lib \<Rightarrow> ('o, 'k, 'l) fdb_world
     \<Rightarrow> (('db, 'kvs, 'it, 'doc) fdb_context option \<times> ('o, 'k, 'l) fdb_world) option" where
  "ia_forestdb_thread_new mem lib w =
     (if \<not> mem then Some (None, w)
      else do {
        self \<leftarrow> fw_priv w;
        let ctx = \<lparr>fx_db = None, fx_kvs = None, fx_result = None, fx_it = None, fx_doc = None, fx_transaction = False\<rparr>;
        (status, db, l) \<leftarrow> fdb_open lib (fp_data_filename self) (fp_config self) (fw_lib w);
        let ctx = ctx\<lparr>fx_db := db\<rparr>;
        if status \<noteq> FDB_RESULT_SUCCESS lib then Some (None, w\<lparr>fw_lib := l\<rparr>)
        else do {
          (status, kvs, l) \<leftarrow> fdb_kvs_open_default lib (fx_db ctx) (fp_kvs_config self) l;
          if status \<noteq> FDB_RESULT_SUCCESS lib then Some (None, w\<lparr>fw_lib := l\<rparr>)
          else Some (Some (ctx\<lparr>fx_kvs := kvs\<rparr>), w\<lparr>fw_lib := l\<rparr>) } })"

text \<open>A call on a pointer that is not null; its result is not looked at.\<close>

definition unless_null :: "('x \<Rightarrow> 'l \<Rightarrow> (int \<times> 'l) option) \<Rightarrow> 'x option \<Rightarrow> 'l \<Rightarrow> 'l option" where
  "unless_null f p l = (case p of None \<Rightarrow> Some l | Some x \<Rightarrow> map_option snd (f x l))"

definition ia_forestdb_thread_dispose ::
  "('o, 'k, 'db, 'kvs, 'it, 'doc, 'l) fdb_lib \<Rightarrow> ('db, 'kvs, 'it, 'doc) fdb_context \<Rightarrow> ('o, 'k, 'l) fdb_world \<Rightarrow> ('o, 'k, 'l) fdb_world option" where
  "ia_forestdb_thread_dispose lib ctx w =
     do { l \<leftarrow> unless_null (fdb_free_block lib) (fx_result ctx) (fw_lib w);
          l \<leftarrow> unless_null (fdb_iterator_close lib) (fx_it ctx) l;
          l \<leftarrow> (if fx_transaction ctx then map_option snd (fdb_abort_transaction lib (fx_db ctx) l) else Some l);
          l \<leftarrow> unless_null (fdb_doc_free lib) (fx_doc ctx) l;
          l \<leftarrow> unless_null (fdb_kvs_close lib) (fx_kvs ctx) l;
          l \<leftarrow> unless_null (fdb_close lib) (fx_db ctx) l;
          Some (w\<lparr>fw_lib := l\<rparr>) }"

text \<open>The compaction before the first operation: \<open>False\<close> when it has failed.\<close>

definition fdb_first_compact ::
  "('o, 'k, 'db, 'kvs, 'it, 'doc, 'l) fdb_lib \<Rightarrow> ('db, 'kvs, 'it, 'doc) fdb_context \<Rightarrow> ('o, 'k, 'l) fdb_world \<Rightarrow> (bool \<times> ('o, 'k, 'l) fdb_world) option" where
  "fdb_first_compact lib ctx w =
     do { self \<leftarrow> fw_priv w;
          if fp_needsCompact self then do {
            (status, l) \<leftarrow> fdb_compact lib (fx_db ctx) (fw_lib w);
            Some (status = FDB_RESULT_SUCCESS lib, w\<lparr>fw_priv := Some (self\<lparr>fp_needsCompact := False\<rparr>), fw_lib := l\<rparr>) }
          else Some (True, w) }"

definition ia_forestdb_begin ::
  "('o, 'k, 'db, 'kvs, 'it, 'doc, 'l) fdb_lib \<Rightarrow> ('db, 'kvs, 'it, 'doc) fdb_context \<Rightarrow> iabenchmark \<Rightarrow> ('o, 'k, 'l) fdb_world
     \<Rightarrow> (int \<times> ('db, 'kvs, 'it, 'doc) fdb_context \<times> ('o, 'k, 'l) fdb_world) option" where
  "ia_forestdb_begin lib ctx step w =
     do { (ok, w) \<leftarrow> fdb_first_compact lib ctx w;
          if \<not> ok then Some (-1, ctx, w)
          else if step = IA_CRUD then do {
            (status, l) \<leftarrow> fdb_begin_transaction lib (fx_db ctx) (fw_lib w);
            if status \<noteq> FDB_RESULT_SUCCESS lib then Some (-1, ctx, w\<lparr>fw_lib := l\<rparr>)
            else Some (0, ctx\<lparr>fx_transaction := True\<rparr>, w\<lparr>fw_lib := l\<rparr>) }
          else if step \<in> {IA_BATCH, IA_SET, IA_DELETE, IA_GET} then Some (0, ctx, w)
          else if step = IA_ITERATE then do {
            (status, it, l) \<leftarrow> fdb_iterator_init lib (fx_kvs ctx) (fx_it ctx) (fw_lib w);
            if status \<noteq> FDB_RESULT_SUCCESS lib then Some (-1, ctx\<lparr>fx_it := it\<rparr>, w\<lparr>fw_lib := l\<rparr>)
            else do {
              (status, it, l) \<leftarrow> fdb_iterator_seek_to_min lib it l;
              Some (if status \<noteq> FDB_RESULT_SUCCESS lib then -1 else 0, ctx\<lparr>fx_it := it\<rparr>, w\<lparr>fw_lib := l\<rparr>) } }
          else None }"

definition ia_forestdb_done ::
  "('o, 'k, 'db, 'kvs, 'it, 'doc, 'l) fdb_lib \<Rightarrow> ('db, 'kvs, 'it, 'doc) fdb_context \<Rightarrow> iabenchmark \<Rightarrow> ('o, 'k, 'l) fdb_world
     \<Rightarrow> (int \<times> ('db, 'kvs, 'it, 'doc) fdb_context \<times> ('o, 'k, 'l) fdb_world) option" where
  "ia_forestdb_done lib ctx step w =
     (if step = IA_CRUD then
        (if fx_transaction ctx then do {
           (status, l) \<leftarrow> fdb_end_transaction lib (fx_db ctx) (fw_lib w);
           Some (if status \<noteq> FDB_RESULT_SUCCESS lib then -1 else 0, ctx\<lparr>fx_transaction := False\<rparr>, w\<lparr>fw_lib := l\<rparr>) }
         else Some (0, ctx, w))
      else if step \<in> {IA_BATCH, IA_DELETE, IA_SET} then do {
        (status, l) \<leftarrow> fdb_commit lib (fx_db ctx) (fw_lib w);
        Some (if status \<noteq> FDB_RESULT_SUCCESS lib then -1 else 0, ctx, w\<lparr>fw_lib := l\<rparr>) }
      else if step = IA_GET then do {
        l \<leftarrow> unless_null (fdb_free_block lib) (fx_result ctx) (fw_lib w);
        Some (0, ctx\<lparr>fx_result := None\<rparr>, w\<lparr>fw_lib := l\<rparr>) }
      else if step = IA_ITERATE then do {
        l \<leftarrow> unless_null (fdb_doc_free lib) (fx_doc ctx) (fw_lib w);
        let ctx = ctx\<lparr>fx_doc := None\<rparr>;
        case fx_it ctx of
          None \<Rightarrow> Some (0, ctx, w\<lparr>fw_lib := l\<rparr>)
        | Some it \<Rightarrow> do {
            (status, l) \<leftarrow> fdb_iterator_close lib it l;
            Some (if status \<noteq> FDB_RESULT_SUCCESS lib then -1 else 0, ctx\<lparr>fx_it := None\<rparr>, w\<lparr>fw_lib := l\<rparr>) } }
      else None)"

section \<open>Operations\<close>

text \<open>
  Within a transaction a record that is not found counts as found.  An iteration leaves the record
  in \<open>fx_doc\<close> and moves on at once: at the last record it already reports the end.
\<close>

definition ia_forestdb_next ::
  "('o, 'k, 'db, 'kvs, 'it, 'doc, 'l) fdb_lib \<Rightarrow> ('db, 'kvs, 'it, 'doc) fdb_context \<Rightarrow> iabenchmark \<Rightarrow> iakv \<Rightarrow> ('o, 'k, 'l) fdb_world
     \<Rightarrow> (int \<times> iakv \<times> ('db, 'kvs, 'it, 'doc) fdb_context \<times> ('o, 'k, 'l) fdb_world) option" where
  "ia_forestdb_next lib ctx step kv w =
     (case step of
        IA_SET \<Rightarrow> do {
          (status, l) \<leftarrow> fdb_set_kv lib (fx_kvs ctx) (kv_k kv) (kv_ksize kv) (kv_v kv) (kv_vsize kv) (fw_lib w);
          Some (if status \<noteq> FDB_RESULT_SUCCESS lib then -1 else 0, kv, ctx, w\<lparr>fw_lib := l\<rparr>) }
      | IA_DELETE \<Rightarrow> do {
          (status, l) \<leftarrow> fdb_del_kv lib (fx_kvs ctx) (kv_k kv) (kv_ksize kv) (fw_lib w);
          Some (if status \<noteq> FDB_RESULT_SUCCESS lib then -1 else 0, kv, ctx, w\<lparr>fw_lib := l\<rparr>) }
      | IA_GET \<Rightarrow> do {
          l \<leftarrow> unless_null (fdb_free_block lib) (fx_result ctx) (fw_lib w);
          (status, result, vsize, l) \<leftarrow> fdb_get_kv lib (fx_kvs ctx) (kv_k kv) (kv_ksize kv) (kv_vsize kv) l;
          let ctx = ctx\<lparr>fx_result := result\<rparr>;
          let kv = kv\<lparr>kv_vsize := vsize\<rparr>;
          if status \<noteq> FDB_RESULT_SUCCESS lib \<and> status \<noteq> FDB_RESULT_KEY_NOT_FOUND lib then Some (-1, kv, ctx, w\<lparr>fw_lib := l\<rparr>)
          else if status \<noteq> FDB_RESULT_SUCCESS lib \<and> \<not> fx_transaction ctx then Some (ENOENT, kv, ctx, w\<lparr>fw_lib := l\<rparr>)
          else Some (0, kv\<lparr>kv_v := fx_result ctx\<rparr>, ctx, w\<lparr>fw_lib := l\<rparr>) }
      | IA_ITERATE \<Rightarrow> do {
          (status, it, doc, l) \<leftarrow> fdb_iterator_get lib (fx_it ctx) (fx_doc ctx) (fw_lib w);
          let ctx = ctx\<lparr>fx_it := it, fx_doc := doc\<rparr>;
          if status \<noteq> FDB_RESULT_SUCCESS lib then Some (-1, kv, ctx, w\<lparr>fw_lib := l\<rparr>)
          else do {
            (status, it, l) \<leftarrow> fdb_iterator_next lib (fx_it ctx) l;
            Some (if status = FDB_RESULT_SUCCESS lib then 0 else if status \<noteq> FDB_RESULT_ITERATOR_FAIL lib then -1 else ENOENT,
                  kv, ctx\<lparr>fx_it := it\<rparr>, w\<lparr>fw_lib := l\<rparr>) } }
      | _ \<Rightarrow> None)"

definition ia_forestdb ::
  "bool \<Rightarrow> bool \<Rightarrow> 'o fdb_config \<times> 'k \<Rightarrow> ('o, 'k, 'db, 'kvs, 'it, 'doc, 'l) fdb_lib
     \<Rightarrow> (('o, 'k, 'l) fdb_world, ('db, 'kvs, 'it, 'doc) fdb_context) iadriver" where
  "ia_forestdb mem nmem zeros lib = \<lparr>d_name = ''forestdb'', d_open = ia_forestdb_open mem nmem zeros lib, d_close = ia_forestdb_close lib,
     d_thread_new = ia_forestdb_thread_new mem lib, d_thread_dispose = ia_forestdb_thread_dispose lib,
     d_begin = ia_forestdb_begin lib, d_next = ia_forestdb_next lib, d_done = ia_forestdb_done lib, d_option = None\<rparr>"

section \<open>What the driver relies on\<close>

text \<open>
  The documented behaviour of the library: \<open>dlive\<close>, \<open>klive\<close> and \<open>ilive\<close> describe handles and iterators that
  have been opened.  Calls on them return, and leave an iterator open.
\<close>

definition fdb_files :: "('o, 'k, 'db, 'kvs, 'it, 'doc, 'l) fdb_lib \<Rightarrow> ('db \<Rightarrow> bool) \<Rightarrow> ('kvs \<Rightarrow> bool) \<Rightarrow> bool" where
  "fdb_files lib dlive klive \<longleftrightarrow>
     (\<forall>c l. \<exists>rc l'. fdb_init lib c l = Some (rc, l')) \<and> (\<forall>l. \<exists>rc l'. fdb_shutdown lib l = Some (rc, l')) \<and>
     (\<forall>file c l. \<exists>rc dp l'. fdb_open lib file c l = Some (rc, dp, l') \<and>
        (rc = FDB_RESULT_SUCCESS lib \<longrightarrow> (\<exists>d. dp = Some d \<and> dlive d))) \<and>
     (\<forall>d c l. dlive d \<longrightarrow> (\<exists>rc kp l'. fdb_kvs_open_default lib (Some d) c l = Some (rc, kp, l') \<and>
        (rc = FDB_RESULT_SUCCESS lib \<longrightarrow> (\<exists>k. kp = Some k \<and> klive k)))) \<and>
     (\<forall>d l. dlive d \<longrightarrow> (\<exists>rc l'. fdb_close lib d l = Some (rc, l'))) \<and>
     (\<forall>k l. klive k \<longrightarrow> (\<exists>rc l'. fdb_kvs_close lib k l = Some (rc, l')))"

definition fdb_transactions :: "('o, 'k, 'db, 'kvs, 'it, 'doc, 'l) fdb_lib \<Rightarrow> ('db \<Rightarrow> bool) \<Rightarrow> bool" where
  "fdb_transactions lib dlive \<longleftrightarrow> (\<forall>d l. dlive d \<longrightarrow>
     (\<exists>rc l'. fdb_compact lib (Some d) l = Some (rc, l')) \<and> (\<exists>rc l'. fdb_begin_transaction lib (Some d) l = Some (rc, l')) \<and>
     (\<exists>rc l'. fdb_abort_transaction lib (Some d) l = Some (rc, l')) \<and> (\<exists>rc l'. fdb_end_transaction lib (Some d) l = Some (rc, l')) \<and>
     (\<exists>rc l'. fdb_commit lib (Some d) l = Some (rc, l')))"

definition fdb_iterators :: "('o, 'k, 'db, 'kvs, 'it, 'doc, 'l) fdb_lib \<Rightarrow> ('kvs \<Rightarrow> bool) \<Rightarrow> ('it \<Rightarrow> bool) \<Rightarrow> bool" where
  "fdb_iterators lib klive ilive \<longleftrightarrow>
     (\<forall>k old l. klive k \<longrightarrow> (\<exists>rc ip l'. fdb_iterator_init lib (Some k) old l = Some (rc, ip, l') \<and>
        (if rc = FDB_RESULT_SUCCESS lib then \<exists>i. ip = Some i \<and> ilive i else ip = old))) \<and>
     (\<forall>i l. ilive i \<longrightarrow> (\<exists>rc i' l'. fdb_iterator_seek_to_min lib (Some i) l = Some (rc, Some i', l') \<and> ilive i')) \<and>
     (\<forall>i doc l. ilive i \<longrightarrow> (\<exists>rc i' doc' l'. fdb_iterator_get lib (Some i) doc l = Some (rc, Some i', doc', l') \<and> ilive i')) \<and>
     (\<forall>i l. ilive i \<longrightarrow> (\<exists>rc i' l'. fdb_iterator_next lib (Some i) l = Some (rc, Some i', l') \<and> ilive i')) \<and>
     (\<forall>i l. ilive i \<longrightarrow> (\<exists>rc l'. fdb_iterator_close lib i l = Some (rc, l')))"

definition fdb_records :: "('o, 'k, 'db, 'kvs, 'it, 'doc, 'l) fdb_lib \<Rightarrow> ('kvs \<Rightarrow> bool) \<Rightarrow> bool" where
  "fdb_records lib klive \<longleftrightarrow>
     (\<forall>b l. \<exists>rc l'. fdb_free_block lib b l = Some (rc, l')) \<and> (\<forall>doc l. \<exists>rc l'. fdb_doc_free lib doc l = Some (rc, l')) \<and>
     (\<forall>k key ksize l. klive k \<longrightarrow> readable key ksize \<longrightarrow>
        (\<forall>v vsize. readable v vsize \<longrightarrow> (\<exists>rc l'. fdb_set_kv lib (Some k) key ksize v vsize l = Some (rc, l'))) \<and>
        (\<exists>rc l'. fdb_del_kv lib (Some k) key ksize l = Some (rc, l')) \<and>
        (\<forall>vsize. \<exists>rc b n l'. fdb_get_kv lib (Some k) key ksize vsize l = Some (rc, b, n, l')))"

definition fdb_library ::
  "('o, 'k, 'db, 'kvs, 'it, 'doc, 'l) fdb_lib \<Rightarrow> ('db \<Rightarrow> bool) \<Rightarrow> ('kvs \<Rightarrow> bool) \<Rightarrow> ('it \<Rightarrow> bool) \<Rightarrow> bool" where
  "fdb_library lib dlive klive ilive \<longleftrightarrow>
     fdb_files lib dlive klive \<and> fdb_transactions lib dlive \<and> fdb_iterators lib klive ilive \<and> fdb_records lib klive"

section \<open>The contract\<close>

text \<open>What the doers leave alone of the private struct: all of it but the note of the first compaction.\<close>

definition fdb_settled :: "('o, 'k, 'l) fdb_world \<Rightarrow> ('o, 'k) fdb_private option" where
  "fdb_settled w = map_option (\<lambda>self. self\<lparr>fp_needsCompact := False\<rparr>) (fw_priv w)"

definition fdb_opened :: "('o, 'k, 'l) fdb_world \<Rightarrow> bool" where
  "fdb_opened w \<longleftrightarrow> fw_priv w \<noteq> None"

definition fdb_good ::
  "('db \<Rightarrow> bool) \<Rightarrow> ('kvs \<Rightarrow> bool) \<Rightarrow> ('it \<Rightarrow> bool) \<Rightarrow> ('db, 'kvs, 'it, 'doc) fdb_context \<Rightarrow> bool" where
  "fdb_good dlive klive ilive ctx \<longleftrightarrow> (\<exists>d k. fx_db ctx = Some d \<and> dlive d \<and> fx_kvs ctx = Some k \<and> klive k) \<and> live_or_null ilive (fx_it ctx)"

definition fdb_ready :: "iabenchmark \<Rightarrow> ('db, 'kvs, 'it, 'doc) fdb_context \<Rightarrow> bool" where
  "fdb_ready b ctx \<longleftrightarrow> (b = IA_ITERATE \<longrightarrow> fx_it ctx \<noteq> None)"

lemma fdb_settled_lib [simp]: "fdb_settled (w\<lparr>fw_lib := l\<rparr>) = fdb_settled w" "fdb_opened (w\<lparr>fw_lib := l\<rparr>) = fdb_opened w"
  by (simp_all add: fdb_settled_def fdb_opened_def)

lemma fdb_opened_settled: "fdb_settled w' = fdb_settled w \<Longrightarrow> fdb_opened w' = fdb_opened w"
  by (cases "fw_priv w"; cases "fw_priv w'") (simp_all add: fdb_settled_def fdb_opened_def)

lemma unless_null_returns:
  assumes "live_or_null live p" and "\<And>x l. live x \<Longrightarrow> \<exists>rc l'. f x l = Some (rc, l')"
  shows "\<exists>l'. unless_null f p l = Some l'"
proof (cases p)
  case (Some x)
  then obtain rc l' where "f x l = Some (rc, l')" using assms by fastforce
  then show ?thesis using Some by (simp add: unless_null_def)
qed (simp add: unless_null_def)

lemma fdb_new_ok:
  assumes lib: "fdb_library lib dlive klive ilive" and op: "fdb_opened w"
  shows "\<exists>r w'. ia_forestdb_thread_new mem lib w = Some (r, w') \<and> fdb_settled w' = fdb_settled w \<and>
    (\<forall>ctx. r = Some ctx \<longrightarrow> fdb_good dlive klive ilive ctx)"
proof (cases mem)
  case False
  then show ?thesis by (simp add: ia_forestdb_thread_new_def)
next
  case mem: True
  have files: "fdb_files lib dlive klive" using lib by (simp add: fdb_library_def)
  obtain self where w: "fw_priv w = Some self" using op by (auto simp: fdb_opened_def)
  have "\<exists>rc dp l'. fdb_open lib (fp_data_filename self) (fp_config self) (fw_lib w) = Some (rc, dp, l') \<and>
      (rc = FDB_RESULT_SUCCESS lib \<longrightarrow> (\<exists>d. dp = Some d \<and> dlive d))" using files by (simp add: fdb_files_def)
  then obtain rc1 dp l1 where 1: "fdb_open lib (fp_data_filename self) (fp_config self) (fw_lib w) = Some (rc1, dp, l1)"
    "rc1 = FDB_RESULT_SUCCESS lib \<longrightarrow> (\<exists>d. dp = Some d \<and> dlive d)" by blast
  show ?thesis
  proof (cases "rc1 = FDB_RESULT_SUCCESS lib")
    case False
    then show ?thesis using mem w 1 by (simp add: ia_forestdb_thread_new_def Let_def)
  next
    case True
    then obtain d where d: "dp = Some d" "dlive d" using 1(2) by blast
    have "\<exists>rc kp l'. fdb_kvs_open_default lib (Some d) (fp_kvs_config self) l1 = Some (rc, kp, l') \<and>
        (rc = FDB_RESULT_SUCCESS lib \<longrightarrow> (\<exists>k. kp = Some k \<and> klive k))" using files d(2) by (simp add: fdb_files_def)
    then show ?thesis using mem w 1(1) True d by (auto simp: ia_forestdb_thread_new_def fdb_good_def Let_def)
  qed
qed

text \<open>The calls on a pointer that may be null return.\<close>

lemma fdb_unless_null:
  assumes "fdb_library lib dlive klive ilive"
  shows "\<exists>l'. unless_null (fdb_free_block lib) b l = Some l'" and "\<exists>l'. unless_null (fdb_doc_free lib) doc l = Some l'"
    and "live_or_null ilive i \<Longrightarrow> \<exists>l'. unless_null (fdb_iterator_close lib) i l = Some l'"
    and "live_or_null klive k \<Longrightarrow> \<exists>l'. unless_null (fdb_kvs_close lib) k l = Some l'"
    and "live_or_null dlive d \<Longrightarrow> \<exists>l'. unless_null (fdb_close lib) d l = Some l'"
proof -
  have files: "fdb_files lib dlive klive" "fdb_iterators lib klive ilive" "fdb_records lib klive"
    using assms by (simp_all add: fdb_library_def)
  have any: "live_or_null (\<lambda>x. True) p" for p :: "'z option" by (cases p) simp_all
  show "\<exists>l'. unless_null (fdb_free_block lib) b l = Some l'"
    by (rule unless_null_returns [OF any]) (use files(3) in \<open>simp add: fdb_records_def\<close>)
  show "\<exists>l'. unless_null (fdb_doc_free lib) doc l = Some l'"
    by (rule unless_null_returns [OF any]) (use files(3) in \<open>simp add: fdb_records_def\<close>)
  show "\<exists>l'. unless_null (fdb_iterator_close lib) i l = Some l'" if "live_or_null ilive i"
    by (rule unless_null_returns [OF that]) (use files(2) in \<open>simp add: fdb_iterators_def\<close>)
  show "\<exists>l'. unless_null (fdb_kvs_close lib) k l = Some l'" if "live_or_null klive k"
    by (rule unless_null_returns [OF that]) (use files(1) in \<open>simp add: fdb_files_def\<close>)
  show "\<exists>l'. unless_null (fdb_close lib) d l = Some l'" if "live_or_null dlive d"
    by (rule unless_null_returns [OF that]) (use files(1) in \<open>simp add: fdb_files_def\<close>)
qed

lemma fdb_dispose_ok:
  assumes lib: "fdb_library lib dlive klive ilive" and good: "fdb_good dlive klive ilive ctx"
  shows "\<exists>w'. ia_forestdb_thread_dispose lib ctx w = Some w' \<and> fdb_settled w' = fdb_settled w"
proof -
  obtain d k where c: "fx_db ctx = Some d" "dlive d" "fx_kvs ctx = Some k" "klive k" "live_or_null ilive (fx_it ctx)"
    using good by (auto simp: fdb_good_def)
  obtain l1 where 1: "unless_null (fdb_free_block lib) (fx_result ctx) (fw_lib w) = Some l1" using fdb_unless_null(1) [OF lib] by blast
  obtain l2 where 2: "unless_null (fdb_iterator_close lib) (fx_it ctx) l1 = Some l2" using fdb_unless_null(3) [OF lib c(5)] by blast
  have "\<exists>rc l'. fdb_abort_transaction lib (Some d) l2 = Some (rc, l')" using lib c(2) by (simp add: fdb_library_def fdb_transactions_def)
  then obtain l3 where 3: "(if fx_transaction ctx then map_option snd (fdb_abort_transaction lib (fx_db ctx) l2) else Some l2) = Some l3"
    using c(1) by (cases "fx_transaction ctx") auto
  obtain l4 where 4: "unless_null (fdb_doc_free lib) (fx_doc ctx) l3 = Some l4" using fdb_unless_null(2) [OF lib] by blast
  obtain l5 where 5: "unless_null (fdb_kvs_close lib) (fx_kvs ctx) l4 = Some l5" using fdb_unless_null(4) [OF lib, of "fx_kvs ctx" l4] c by auto
  obtain l6 where 6: "unless_null (fdb_close lib) (fx_db ctx) l5 = Some l6" using fdb_unless_null(5) [OF lib, of "fx_db ctx" l5] c by auto
  show ?thesis using 1 2 3 4 5 6 by (simp add: ia_forestdb_thread_dispose_def)
qed

lemma fdb_first_compact_ok:
  assumes lib: "fdb_library lib dlive klive ilive" and op: "fdb_opened w" and good: "fdb_good dlive klive ilive ctx"
  shows "\<exists>ok w'. fdb_first_compact lib ctx w = Some (ok, w') \<and> fdb_settled w' = fdb_settled w"
proof -
  obtain self where w: "fw_priv w = Some self" using op by (auto simp: fdb_opened_def)
  obtain d where d: "fx_db ctx = Some d" "dlive d" using good by (auto simp: fdb_good_def)
  have "\<exists>rc l'. fdb_compact lib (Some d) (fw_lib w) = Some (rc, l')" using lib d(2) by (simp add: fdb_library_def fdb_transactions_def)
  then show ?thesis using w d(1) by (auto simp: fdb_first_compact_def fdb_settled_def)
qed

lemma fdb_begin_ok:
  assumes lib: "fdb_library lib dlive klive ilive" and op: "fdb_opened w" and good: "fdb_good dlive klive ilive ctx" and b: "b < IA_MAX"
  shows "\<exists>rc ctx' w'. ia_forestdb_begin lib ctx b w = Some (rc, ctx', w') \<and> fdb_settled w' = fdb_settled w \<and>
    fdb_good dlive klive ilive ctx' \<and> (rc = 0 \<and> fdb_ready b ctx' \<or> rc = -1)"
proof -
  obtain ok w1 where 1: "fdb_first_compact lib ctx w = Some (ok, w1)" "fdb_settled w1 = fdb_settled w"
    using fdb_first_compact_ok [OF lib op good] by blast
  obtain d k where c: "fx_db ctx = Some d" "dlive d" "fx_kvs ctx = Some k" "klive k" "live_or_null ilive (fx_it ctx)"
    using good by (auto simp: fdb_good_def)
  have "\<exists>rc l'. fdb_begin_transaction lib (Some d) (fw_lib w1) = Some (rc, l')" using lib c(2) by (simp add: fdb_library_def fdb_transactions_def)
  then obtain rc2 l2 where 2: "fdb_begin_transaction lib (Some d) (fw_lib w1) = Some (rc2, l2)" by blast
  have iter: "fdb_iterators lib klive ilive" using lib by (simp add: fdb_library_def)
  have "\<exists>rc ip l'. fdb_iterator_init lib (Some k) (fx_it ctx) (fw_lib w1) = Some (rc, ip, l') \<and>
        (if rc = FDB_RESULT_SUCCESS lib then \<exists>i. ip = Some i \<and> ilive i else ip = fx_it ctx)"
    using iter c(4) by (simp add: fdb_iterators_def)
  then obtain rc3 ip l3 where 3: "fdb_iterator_init lib (Some k) (fx_it ctx) (fw_lib w1) = Some (rc3, ip, l3)"
    "if rc3 = FDB_RESULT_SUCCESS lib then \<exists>i. ip = Some i \<and> ilive i else ip = fx_it ctx" by blast
  consider "\<not> ok" | "ok" "b = IA_CRUD" | "ok" "b \<in> {IA_BATCH, IA_SET, IA_DELETE, IA_GET}" | "ok" "b = IA_ITERATE"
    using b by (cases b) auto
  then show ?thesis
  proof cases
    case 1
    then show ?thesis using \<open>fdb_first_compact lib ctx w = _\<close> \<open>fdb_settled w1 = _\<close> good by (simp add: ia_forestdb_begin_def)
  next
    case 2
    then show ?thesis using 1 \<open>fdb_begin_transaction lib _ _ = _\<close> c good by (simp add: ia_forestdb_begin_def fdb_good_def fdb_ready_def)
  next
    case 3
    then show ?thesis using 1 good by (auto simp: ia_forestdb_begin_def fdb_ready_def)
  next
    case 4
    show ?thesis
    proof (cases "rc3 = FDB_RESULT_SUCCESS lib")
      case True
      then obtain i where i: "ip = Some i" "ilive i" using 3(2) by auto
      have "\<exists>rc i' l'. fdb_iterator_seek_to_min lib (Some i) l3 = Some (rc, Some i', l') \<and> ilive i'"
        using iter i(2) by (simp add: fdb_iterators_def)
      then show ?thesis using 4 1 3(1) True i c by (auto simp: ia_forestdb_begin_def fdb_good_def fdb_ready_def)
    qed (use 4 1 3 c in \<open>simp add: ia_forestdb_begin_def fdb_good_def\<close>)
  qed
qed

lemma fdb_done_ok:
  assumes lib: "fdb_library lib dlive klive ilive" and good: "fdb_good dlive klive ilive ctx" and b: "b < IA_MAX"
  shows "\<exists>rc ctx' w'. ia_forestdb_done lib ctx b w = Some (rc, ctx', w') \<and> fdb_settled w' = fdb_settled w \<and>
    fdb_good dlive klive ilive ctx' \<and> rc \<in> {0, -1}"
proof -
  obtain d where c: "fx_db ctx = Some d" "dlive d" "live_or_null ilive (fx_it ctx)" using good by (auto simp: fdb_good_def)
  have "\<exists>rc l'. fdb_end_transaction lib (Some d) (fw_lib w) = Some (rc, l')" "\<exists>rc l'. fdb_commit lib (Some d) (fw_lib w) = Some (rc, l')"
    using lib c(2) by (simp_all add: fdb_library_def fdb_transactions_def)
  then obtain rc1 l1 rc2 l2 where 1: "fdb_end_transaction lib (Some d) (fw_lib w) = Some (rc1, l1)"
    "fdb_commit lib (Some d) (fw_lib w) = Some (rc2, l2)" by blast
  obtain l3 where 3: "unless_null (fdb_free_block lib) (fx_result ctx) (fw_lib w) = Some l3" using fdb_unless_null(1) [OF lib] by blast
  obtain l4 where 4: "unless_null (fdb_doc_free lib) (fx_doc ctx) (fw_lib w) = Some l4" using fdb_unless_null(2) [OF lib] by blast
  consider "b = IA_CRUD" | "b \<in> {IA_BATCH, IA_DELETE, IA_SET}" | "b = IA_GET" | "b = IA_ITERATE" using b by (cases b) auto
  then show ?thesis
  proof cases
    case 1
    then show ?thesis using \<open>fdb_end_transaction lib _ _ = _\<close> c good by (simp add: ia_forestdb_done_def fdb_good_def)
  next
    case 2
    then show ?thesis using 1 c good by (auto simp: ia_forestdb_done_def)
  next
    case 3
    then show ?thesis using \<open>unless_null (fdb_free_block lib) _ _ = _\<close> good by (simp add: ia_forestdb_done_def fdb_good_def)
  next
    case 4
    show ?thesis
    proof (cases "fx_it ctx")
      case (Some i)
      then have "\<exists>rc l'. fdb_iterator_close lib i l4 = Some (rc, l')" using lib c(3) by (simp add: fdb_library_def fdb_iterators_def)
      then show ?thesis using 4 \<open>unless_null (fdb_doc_free lib) _ _ = _\<close> Some good by (auto simp: ia_forestdb_done_def fdb_good_def)
    qed (use 4 \<open>unless_null (fdb_doc_free lib) _ _ = _\<close> good in \<open>simp add: ia_forestdb_done_def fdb_good_def\<close>)
  qed
qed

lemma fdb_data_ok:
  assumes lib: "fdb_library lib dlive klive ilive" and good: "fdb_good dlive klive ilive ctx"
    and step: "step \<in> {IA_SET, IA_DELETE, IA_GET}" and kv: "kv_ready kv"
  shows "\<exists>rc kv' ctx' w'. ia_forestdb_next lib ctx step kv w = Some (rc, kv', ctx', w') \<and> fdb_settled w' = fdb_settled w \<and>
    fdb_good dlive klive ilive ctx' \<and> fx_it ctx' = fx_it ctx \<and> rc \<in> {0, ENOENT, -1} \<and> (step \<in> {IA_SET, IA_DELETE} \<longrightarrow> kv' = kv)"
proof -
  obtain k where c: "fx_kvs ctx = Some k" "klive k" using good by (auto simp: fdb_good_def)
  have key: "readable (kv_k kv) (kv_ksize kv)" and val: "readable (kv_v kv) (kv_vsize kv)" using kv by (simp_all add: kv_ready_def)
  obtain l1 where 1: "unless_null (fdb_free_block lib) (fx_result ctx) (fw_lib w) = Some l1" using fdb_unless_null(1) [OF lib] by blast
  have recs: "fdb_records lib klive" using lib by (simp add: fdb_library_def)
  have "\<exists>rc l'. fdb_set_kv lib (Some k) (kv_k kv) (kv_ksize kv) (kv_v kv) (kv_vsize kv) (fw_lib w) = Some (rc, l')"
    "\<exists>rc l'. fdb_del_kv lib (Some k) (kv_k kv) (kv_ksize kv) (fw_lib w) = Some (rc, l')"
    "\<exists>rc b n l'. fdb_get_kv lib (Some k) (kv_k kv) (kv_ksize kv) (kv_vsize kv) l1 = Some (rc, b, n, l')"
    using recs c(2) key val by (simp_all add: fdb_records_def)
  then obtain rc2 l2 rc3 l3 rc4 b n l4 where
    2: "fdb_set_kv lib (Some k) (kv_k kv) (kv_ksize kv) (kv_v kv) (kv_vsize kv) (fw_lib w) = Some (rc2, l2)" and
    3: "fdb_del_kv lib (Some k) (kv_k kv) (kv_ksize kv) (fw_lib w) = Some (rc3, l3)" and
    4: "fdb_get_kv lib (Some k) (kv_k kv) (kv_ksize kv) (kv_vsize kv) l1 = Some (rc4, b, n, l4)" by blast
  consider "step = IA_SET" | "step = IA_DELETE" | "step = IA_GET" using step by auto
  then show ?thesis
  proof cases
    case 1
    then show ?thesis using c(1) 2 good by (simp add: ia_forestdb_next_def fdb_good_def)
  next
    case 2
    then show ?thesis using c(1) 3 good by (simp add: ia_forestdb_next_def fdb_good_def)
  next
    case 3
    then show ?thesis using c(1) 1 4 good by (simp add: ia_forestdb_next_def fdb_good_def Let_def)
  qed
qed

lemma fdb_iterate_ok:
  assumes lib: "fdb_library lib dlive klive ilive" and good: "fdb_good dlive klive ilive ctx" and it: "fx_it ctx \<noteq> None"
  shows "\<exists>rc kv' ctx' w'. ia_forestdb_next lib ctx IA_ITERATE kv w = Some (rc, kv', ctx', w') \<and> fdb_settled w' = fdb_settled w \<and>
    fdb_good dlive klive ilive ctx' \<and> fx_it ctx' \<noteq> None \<and> rc \<in> {0, ENOENT, -1}"
proof -
  have iter: "fdb_iterators lib klive ilive" using lib by (simp add: fdb_library_def)
  obtain i where i: "fx_it ctx = Some i" "ilive i" using good it by (auto simp: fdb_good_def)
  have "\<exists>rc i' doc l'. fdb_iterator_get lib (Some i) (fx_doc ctx) (fw_lib w) = Some (rc, Some i', doc, l') \<and> ilive i'"
    using iter i(2) by (simp add: fdb_iterators_def)
  then obtain rc1 i1 doc l1 where 1: "fdb_iterator_get lib (Some i) (fx_doc ctx) (fw_lib w) = Some (rc1, Some i1, doc, l1)" "ilive i1" by blast
  have "\<exists>rc i' l'. fdb_iterator_next lib (Some i1) l1 = Some (rc, Some i', l') \<and> ilive i'" using iter 1(2) by (simp add: fdb_iterators_def)
  then obtain rc2 i2 l2 where 2: "fdb_iterator_next lib (Some i1) l1 = Some (rc2, Some i2, l2)" "ilive i2" by blast
  show ?thesis using i 1 2 good by (simp add: ia_forestdb_next_def fdb_good_def Let_def)
qed

lemma fdb_open_ok:
  assumes lib: "fdb_library lib dlive klive ilive"
  shows "\<exists>rc w'. ia_forestdb_open mem nmem zeros lib conf dir w = Some (rc, w') \<and> (rc = 0 \<and> fdb_opened w' \<or> rc = -1)"
proof -
  have "\<exists>rc l'. fdb_init lib c l = Some (rc, l')" "\<exists>rc l'. fdb_shutdown lib l = Some (rc, l')" for c l
    using lib by (simp_all add: fdb_library_def fdb_files_def)
  moreover from this(1) obtain rc l' where
    "fdb_init lib (let c = fdb_sync_config lib (c_syncmode conf) ((fdb_get_default_config lib)\<lparr>fc_seqtree_opt := FDB_SEQTREE_NOT_USE lib,
      fc_compress_document_body := False, fc_compaction_mode := FDB_COMPACTION_MANUAL lib\<rparr>)
     in if c_walmode conf = IA_WAL_OFF then c\<lparr>fc_wal_threshold := 0\<rparr> else c) (fw_lib w) = Some (rc, l')" by blast
  moreover from calculation(2) obtain rc2 l2 where "fdb_shutdown lib l' = Some (rc2, l2)" by blast
  ultimately show ?thesis by (simp add: ia_forestdb_open_def fdb_opened_def Let_def)
qed

lemma fdb_program_holds:
  fixes lib :: "('o, 'k, 'db, 'kvs, 'it, 'doc, 'l) fdb_lib"
  assumes lib: "fdb_library lib dlive klive ilive"
  shows "program_driver (ia_forestdb mem nmem zeros lib) fdb_opened (\<lambda>ctx w. fdb_opened w \<and> fdb_good dlive klive ilive ctx)
    (\<lambda>b ctx w. fdb_ready b ctx) (\<lambda>w w'. fdb_settled w' = fdb_settled w) (\<lambda>w. fw_priv w = None) (\<lambda>w. True)"
  unfolding ia_forestdb_def
proof (rule private_driverI [where priv = fdb_settled and ready = fdb_ready], goal_cases)
  case (1 w w')
  then show ?case using fdb_opened_settled by blast
next
  case (2 w)
  then show ?case using fdb_new_ok [OF lib 2, of mem] by simp
next
  case (3 ctx w)
  then show ?case using fdb_dispose_ok [OF lib 3(2)] by simp
next
  case (4 b ctx w)
  then show ?case using fdb_begin_ok [OF lib 4] by simp
next
  case (5 b ctx w)
  then show ?case using fdb_done_ok [OF lib 5(2,3)] by simp
next
  case (6 step kv ctx w)
  then show ?case using fdb_data_ok [OF lib 6(2-4), of w] by (fastforce simp: fdb_ready_def)
next
  case (7 kv ctx w)
  then show ?case using fdb_iterate_ok [OF lib 7(2), of kv w] by (simp add: fdb_ready_def)
next
  case (9 conf dir w)
  then show ?case using fdb_open_ok [OF lib] by simp
next
  case (10 w)
  have "\<exists>rc l'. fdb_shutdown lib (fw_lib w) = Some (rc, l')" using lib by (simp add: fdb_library_def fdb_files_def)
  then show ?case by (auto simp: ia_forestdb_close_def split: option.split)
qed simp_all

section \<open>A library that can be run\<close>

text \<open>A library that keeps its records in a list; an iterator is the number of the record it is at.\<close>

definition fdb_bytes :: "u8 list option \<Rightarrow> u64 \<Rightarrow> u8 list" where
  "fdb_bytes p n = (case p of None \<Rightarrow> [] | Some bs \<Rightarrow> take (unat n) bs)"

definition sample_fdb :: "(unit, unit, unit, unit, nat, u8 list \<times> u8 list, (u8 list \<times> u8 list) list) fdb_lib" where
  "sample_fdb = \<lparr>FDB_RESULT_SUCCESS = 0, FDB_RESULT_KEY_NOT_FOUND = -9, FDB_RESULT_ITERATOR_FAIL = -12, FDB_SEQTREE_NOT_USE = 0,
     FDB_COMPACTION_MANUAL = 0, FDB_DRB_ODIRECT = 1, FDB_DRB_ASYNC = 2,
     fdb_get_default_config = \<lparr>fc_seqtree_opt = 0, fc_compress_document_body = False, fc_compaction_mode = 0,
       fc_wal_flush_before_commit = True, fc_durability_opt = 0, fc_wal_threshold = 256, fc_rest = ()\<rparr>,
     fdb_get_default_kvs_config = (), fdb_init = (\<lambda>c l. Some (0, l)), fdb_shutdown = (\<lambda>l. Some (0, l)),
     fdb_open = (\<lambda>file c l. Some (0, Some (), l)), fdb_close = (\<lambda>d l. Some (0, l)),
     fdb_kvs_open_default = (\<lambda>dp c l. map_option (\<lambda>_. (0, Some (), l)) dp), fdb_kvs_close = (\<lambda>k l. Some (0, l)),
     fdb_free_block = (\<lambda>b l. Some (0, l)), fdb_doc_free = (\<lambda>doc l. Some (0, l)),
     fdb_compact = (\<lambda>dp l. map_option (\<lambda>_. (0, l)) dp), fdb_begin_transaction = (\<lambda>dp l. map_option (\<lambda>_. (0, l)) dp),
     fdb_abort_transaction = (\<lambda>dp l. map_option (\<lambda>_. (0, l)) dp), fdb_end_transaction = (\<lambda>dp l. map_option (\<lambda>_. (0, l)) dp),
     fdb_commit = (\<lambda>dp l. map_option (\<lambda>_. (0, l)) dp),
     fdb_iterator_init = (\<lambda>kp old l. map_option (\<lambda>_. (0, Some 0, l)) kp),
     fdb_iterator_seek_to_min = (\<lambda>ip l. map_option (\<lambda>i. (if l = [] then -12 else 0, Some 0, l)) ip),
     fdb_iterator_get = (\<lambda>ip doc l. map_option (\<lambda>i. if i < length l then (0, Some i, Some (l ! i), l) else (-12, Some i, doc, l)) ip),
     fdb_iterator_next = (\<lambda>ip l. map_option (\<lambda>i. if Suc i < length l then (0, Some (Suc i), l) else (-12, Some i, l)) ip),
     fdb_iterator_close = (\<lambda>i l. Some (0, l)),
     fdb_set_kv = (\<lambda>kp k n v m l. map_option (\<lambda>_. (0, (fdb_bytes k n, fdb_bytes v m) # filter (\<lambda>r. fst r \<noteq> fdb_bytes k n) l)) kp),
     fdb_del_kv = (\<lambda>kp k n l. map_option (\<lambda>_. (0, filter (\<lambda>r. fst r \<noteq> fdb_bytes k n) l)) kp),
     fdb_get_kv = (\<lambda>kp k n m l. map_option (\<lambda>_. case map_of l (fdb_bytes k n) of
       None \<Rightarrow> (-9, None, m, l) | Some x \<Rightarrow> (0, Some x, of_nat (length x), l)) kp)\<rparr>"

lemma sample_fdb_library: "fdb_library sample_fdb (\<lambda>d. True) (\<lambda>k. True) (\<lambda>i. True)"
  unfolding fdb_library_def
proof (intro conjI)
  show "fdb_files sample_fdb (\<lambda>d. True) (\<lambda>k. True)" by (simp add: fdb_files_def sample_fdb_def)
  show "fdb_transactions sample_fdb (\<lambda>d. True)" by (simp add: fdb_transactions_def sample_fdb_def)
  show "fdb_iterators sample_fdb (\<lambda>k. True) (\<lambda>i. True)" by (simp add: fdb_iterators_def sample_fdb_def)
  show "fdb_records sample_fdb (\<lambda>k. True)" by (simp add: fdb_records_def sample_fdb_def split: option.split)
qed

text \<open>An iteration over an empty database fails in \<open>begin\<close>, where the other drivers report its end.\<close>

lemma forestdb_iterates_nothing:
  assumes "fdb_first_compact lib ctx w = Some (True, w1)"
    and "fdb_iterator_init lib (fx_kvs ctx) (fx_it ctx) (fw_lib w1) = Some (FDB_RESULT_SUCCESS lib, ip, l1)"
    and "fdb_iterator_seek_to_min lib ip l1 = Some (rc, ip', l2)" "rc \<noteq> FDB_RESULT_SUCCESS lib"
  shows "ia_forestdb_begin lib ctx IA_ITERATE w = Some (-1, ctx\<lparr>fx_it := ip'\<rparr>, w1\<lparr>fw_lib := l2\<rparr>)"
  using assms by (simp add: ia_forestdb_begin_def)

end
