(* ===== verification/DriverUnqlite.thy ===== *)
theory DriverUnqlite
  imports Driver "HOL-Library.Monad_Syntax"
begin

text \<open>
  The UnQLite driver (\<open>src/drivers/ia_unqlite.c\<close>) and the contract it keeps.  The library is a
  parameter.  The private struct comes from \<open>malloc\<close>: the pointer in it is unset until the library
  has written it, and reading it before has no result.
\<close>

section \<open>The library\<close>

record ('db, 'cur, 'l) unqlite_lib =
  UNQLITE_OK :: int
  UNQLITE_NOTFOUND :: int
  UNQLITE_EOF :: int
  UNQLITE_OPEN_CREATE :: u32
  UNQLITE_OPEN_OMIT_JOURNALING :: u32
  unqlite_open :: "string \<Rightarrow> u32 \<Rightarrow> 'l \<Rightarrow> (int \<times> 'db option \<times> 'l) option"
  unqlite_close :: "'db option \<Rightarrow> 'l \<Rightarrow> (int \<times> 'l) option"
  unqlite_begin :: "'db option \<Rightarrow> 'l \<Rightarrow> (int \<times> 'l) option"
  unqlite_commit :: "'db option \<Rightarrow> 'l \<Rightarrow> (int \<times> 'l) option"
  unqlite_kv_cursor_init :: "'db option \<Rightarrow> 'cur option \<Rightarrow> 'l \<Rightarrow> (int \<times> 'cur option \<times> 'l) option"
  unqlite_kv_cursor_release :: "'db option \<Rightarrow> 'cur \<Rightarrow> 'l \<Rightarrow> (int \<times> 'l) option"
  unqlite_kv_cursor_next_entry :: "'cur option \<Rightarrow> 'l \<Rightarrow> (int \<times> 'cur option \<times> 'l) option"
  unqlite_kv_cursor_key :: "'cur option \<Rightarrow> u8 list option \<Rightarrow> int \<Rightarrow> 'l \<Rightarrow> (int \<times> 'cur option \<times> u8 list option \<times> 'l) option"
  unqlite_kv_cursor_data :: "'cur option \<Rightarrow> int \<Rightarrow> 'l \<Rightarrow> (int \<times> 'cur option \<times> 'l) option"
  unqlite_kv_store :: "'db option \<Rightarrow> u8 list option \<Rightarrow> u64 \<Rightarrow> u8 list option \<Rightarrow> u64 \<Rightarrow> 'l \<Rightarrow> (int \<times> 'l) option"
  unqlite_kv_delete :: "'db option \<Rightarrow> u8 list option \<Rightarrow> u64 \<Rightarrow> 'l \<Rightarrow> (int \<times> 'l) option"
  unqlite_kv_fetch :: "'db option \<Rightarrow> u8 list option \<Rightarrow> u64 \<Rightarrow> int \<Rightarrow> 'l \<Rightarrow> (int \<times> 'l) option"

section \<open>State of the driver\<close>

text \<open>\<open>qp_db\<close> is \<open>None\<close> while the pointer is unset, \<open>Some None\<close> for the null pointer.\<close>

record 'db unqlite_private =
  qp_db :: "'db option option"

record 'cur unqlite_context =
  qc_cursor :: "'cur option"

record ('db, 'l) unqlite_world =
  qw_priv :: "'db unqlite_private option"
  qw_lib :: 'l

text \<open>The pointer of the private struct, for the operations that follow it.\<close>

definition unqlite_db :: "('db, 'l) unqlite_world \<Rightarrow> 'db option option" where
  "unqlite_db w = do { self \<leftarrow> qw_priv w; qp_db self }"

section \<open>Opening and closing\<close>

text \<open>\<open>mem\<close> says whether \<open>malloc\<close> succeeds, \<open>nmem\<close> whether \<open>asprintf\<close> does.\<close>

definition ia_unqlite_open ::
  "bool \<Rightarrow> bool \<Rightarrow> ('db, 'cur, 'l) unqlite_lib \<Rightarrow> iaconfig \<Rightarrow> string \<Rightarrow> ('db, 'l) unqlite_world \<Rightarrow> (int \<times> ('db, 'l) unqlite_world) option" where
  "ia_unqlite_open mem nmem lib conf datadir w =
     (if \<not> mem then Some (-1, w\<lparr>qw_priv := None\<rparr>)
      else let self = \<lparr>qp_db = None\<rparr>
           in if \<not> nmem then Some (-1, w\<lparr>qw_priv := Some self\<rparr>)
              else do {
                let filename = datadir @ ''/test.db'';
                let flags = UNQLITE_OPEN_CREATE lib + (if c_walmode conf = IA_WAL_OFF then UNQLITE_OPEN_OMIT_JOURNALING lib else 0);
                (st, db, l) \<leftarrow> unqlite_open lib filename flags (qw_lib w);
                Some (if st \<noteq> UNQLITE_OK lib then -1 else 0, w\<lparr>qw_priv := Some (self\<lparr>qp_db := Some db\<rparr>), qw_lib := l\<rparr>) })"

text \<open>The private struct is freed, and the pointer to it is left behind.\<close>

definition ia_unqlite_close ::
  "('db, 'cur, 'l) unqlite_lib \<Rightarrow> ('db, 'l) unqlite_world \<Rightarrow> (int \<times> ('db, 'l) unqlite_world) option" where
  "ia_unqlite_close lib w =
     (if qw_priv w = None then Some (0, w)
      else do { db \<leftarrow> unqlite_db w; (rc, l) \<leftarrow> unqlite_close lib db (qw_lib w); Some (0, w\<lparr>qw_lib := l\<rparr>) })"

section \<open>Contexts and transactions\<close>

definition ia_unqlite_thread_dispose ::
  "('db, 'cur, 'l) unqlite_lib \<Rightarrow> 'cur unqlite_context \<Rightarrow> ('db, 'l) unqlite_world \<Rightarrow> ('db, 'l) unqlite_world option" where
  "ia_unqlite_thread_dispose lib ctx w =
     (case qc_cursor ctx of
        None \<Rightarrow> Some w
      | Some cursor \<Rightarrow> do { db \<leftarrow> unqlite_db w; (rc, l) \<leftarrow> unqlite_kv_cursor_release lib db cursor (qw_lib w); Some (w\<lparr>qw_lib := l\<rparr>) })"

definition ia_unqlite_thread_new ::
  "bool \<Rightarrow> ('db, 'l) unqlite_world \<Rightarrow> ('cur unqlite_context option \<times> ('db, 'l) unqlite_world) option" where
  "ia_unqlite_thread_new mem w = Some (if mem then Some \<lparr>qc_cursor = None\<rparr> else None, w)"

definition ia_unqlite_begin ::
  "('db, 'cur, 'l) unqlite_lib \<Rightarrow> 'cur unqlite_context \<Rightarrow> iabenchmark \<Rightarrow> ('db, 'l) unqlite_world
     \<Rightarrow> (int \<times> 'cur unqlite_context \<times> ('db, 'l) unqlite_world) option" where
  "ia_unqlite_begin lib ctx step w =
     (if step \<in> {IA_GET, IA_SET, IA_DELETE} then Some (0, ctx, w)
      else if step = IA_ITERATE then do {
        db \<leftarrow> unqlite_db w;
        (st, cursor, l) \<leftarrow> unqlite_kv_cursor_init lib db (qc_cursor ctx) (qw_lib w);
        Some (if st \<noteq> UNQLITE_OK lib then -1 else 0, ctx\<lparr>qc_cursor := cursor\<rparr>, w\<lparr>qw_lib := l\<rparr>) }
      else if step \<in> {IA_BATCH, IA_CRUD} then do {
        db \<leftarrow> unqlite_db w;
        (st, l) \<leftarrow> unqlite_begin lib db (qw_lib w);
        Some (if st \<noteq> UNQLITE_OK lib then -1 else 0, ctx, w\<lparr>qw_lib := l\<rparr>) }
      else None)"

definition ia_unqlite_done ::
  "('db, 'cur, 'l) unqlite_lib \<Rightarrow> 'cur unqlite_context \<Rightarrow> iabenchmark \<Rightarrow> ('db, 'l) unqlite_world
     \<Rightarrow> (int \<times> 'cur unqlite_context \<times> ('db, 'l) unqlite_world) option" where
  "ia_unqlite_done lib ctx step w =
     (if step \<in> {IA_GET, IA_SET, IA_DELETE} then Some (0, ctx, w)
      else if step = IA_ITERATE then
        (case qc_cursor ctx of
           None \<Rightarrow> Some (0, ctx, w)
         | Some cursor \<Rightarrow> do {
             db \<leftarrow> unqlite_db w;
             (rc, l) \<leftarrow> unqlite_kv_cursor_release lib db cursor (qw_lib w);
             Some (0, ctx\<lparr>qc_cursor := None\<rparr>, w\<lparr>qw_lib := l\<rparr>) })
      else if step \<in> {IA_CRUD, IA_BATCH} then do {
        db \<leftarrow> unqlite_db w;
        (st, l) \<leftarrow> unqlite_commit lib db (qw_lib w);
        Some (if st \<noteq> UNQLITE_OK lib then -1 else 0, ctx, w\<lparr>qw_lib := l\<rparr>) }
      else None)"

section \<open>Operations\<close>

text \<open>
  A value that is fetched goes to a buffer of 256 bytes of the driver and is forgotten.  The key of
  an iteration is written to the record's block as far as its size, an \<open>int\<close>, says; the size the
  library reports is forgotten as well.
\<close>

definition ia_unqlite_next ::
  "('db, 'cur, 'l) unqlite_lib \<Rightarrow> 'cur unqlite_context \<Rightarrow> iabenchmark \<Rightarrow> iakv \<Rightarrow> ('db, 'l) unqlite_world
     \<Rightarrow> (int \<times> iakv \<times> 'cur unqlite_context \<times> ('db, 'l) unqlite_world) option" where
  "ia_unqlite_next lib ctx step kv w =
     (case step of
        IA_SET \<Rightarrow> do {
          db \<leftarrow> unqlite_db w;
          (st, l) \<leftarrow> unqlite_kv_store lib db (kv_k kv) (kv_ksize kv) (kv_v kv) (kv_vsize kv) (qw_lib w);
          Some (if st \<noteq> UNQLITE_OK lib then -1 else 0, kv, ctx, w\<lparr>qw_lib := l\<rparr>) }
      | IA_DELETE \<Rightarrow> do {
          db \<leftarrow> unqlite_db w;
          (st, l) \<leftarrow> unqlite_kv_delete lib db (kv_k kv) (kv_ksize kv) (qw_lib w);
          Some (if st = UNQLITE_OK lib then 0 else if st = UNQLITE_NOTFOUND lib then ENOENT else -1, kv, ctx, w\<lparr>qw_lib := l\<rparr>) }
      | IA_GET \<Rightarrow> do {
          db \<leftarrow> unqlite_db w;
          (st, l) \<leftarrow> unqlite_kv_fetch lib db (kv_k kv) (kv_ksize kv) 256 (qw_lib w);
          Some (if st = UNQLITE_OK lib then 0 else if st = UNQLITE_NOTFOUND lib then ENOENT else -1, kv, ctx, w\<lparr>qw_lib := l\<rparr>) }
      | IA_ITERATE \<Rightarrow> do {
          (st, cursor, l) \<leftarrow> unqlite_kv_cursor_next_entry lib (qc_cursor ctx) (qw_lib w);
          let ctx = ctx\<lparr>qc_cursor := cursor\<rparr>;
          if st \<noteq> UNQLITE_OK lib
          then Some (if st = UNQLITE_NOTFOUND lib \<or> st = UNQLITE_EOF lib then ENOENT else -1, kv, ctx, w\<lparr>qw_lib := l\<rparr>)
          else do {
            let key_size = sint (ucast (kv_ksize kv) :: u32);
            (st, cursor, k, l) \<leftarrow> unqlite_kv_cursor_key lib (qc_cursor ctx) (kv_k kv) key_size l;
            let ctx = ctx\<lparr>qc_cursor := cursor\<rparr>;
            let kv = kv\<lparr>kv_k := k\<rparr>;
            if st \<noteq> UNQLITE_OK lib then Some (-1, kv, ctx, w\<lparr>qw_lib := l\<rparr>)
            else do {
              (st, cursor, l) \<leftarrow> unqlite_kv_cursor_data lib (qc_cursor ctx) 256 l;
              Some (if st \<noteq> UNQLITE_OK lib then -1 else 0, kv, ctx\<lparr>qc_cursor := cursor\<rparr>, w\<lparr>qw_lib := l\<rparr>) } } }
      | _ \<Rightarrow> None)"

definition ia_unqlite ::
  "bool \<Rightarrow> bool \<Rightarrow> ('db, 'cur, 'l) unqlite_lib \<Rightarrow> (('db, 'l) unqlite_world, 'cur unqlite_context) iadriver" where
  "ia_unqlite mem nmem lib = \<lparr>d_name = ''unqlite'', d_open = ia_unqlite_open mem nmem lib, d_close = ia_unqlite_close lib,
     d_thread_new = ia_unqlite_thread_new mem, d_thread_dispose = ia_unqlite_thread_dispose lib,
     d_begin = ia_unqlite_begin lib, d_next = ia_unqlite_next lib, d_done = ia_unqlite_done lib, d_option = None\<rparr>"

section \<open>What the driver relies on\<close>

text \<open>
  The documented behaviour of the library: \<open>unqlite_open\<close> writes a handle even when it fails, or null
  when there is no memory, and \<open>unqlite_close\<close> takes what it wrote.  \<open>dlive\<close> describes a handle that
  has been written, \<open>clive\<close> a cursor that has been opened.
\<close>

definition unqlite_library :: "('db, 'cur, 'l) unqlite_lib \<Rightarrow> ('db \<Rightarrow> bool) \<Rightarrow> ('cur \<Rightarrow> bool) \<Rightarrow> bool" where
  "unqlite_library lib dlive clive \<longleftrightarrow>
     (\<forall>file fl l. \<exists>rc dp l'. unqlite_open lib file fl l = Some (rc, dp, l') \<and> live_or_null dlive dp \<and> (rc = UNQLITE_OK lib \<longrightarrow> dp \<noteq> None)) \<and>
     (\<forall>dp l. live_or_null dlive dp \<longrightarrow> (\<exists>rc l'. unqlite_close lib dp l = Some (rc, l'))) \<and>
     (\<forall>d l. dlive d \<longrightarrow> (\<exists>rc l'. unqlite_begin lib (Some d) l = Some (rc, l')) \<and> (\<exists>rc l'. unqlite_commit lib (Some d) l = Some (rc, l'))) \<and>
     (\<forall>d old l. dlive d \<longrightarrow> (\<exists>rc cp l'. unqlite_kv_cursor_init lib (Some d) old l = Some (rc, cp, l') \<and>
        (if rc = UNQLITE_OK lib then \<exists>c. cp = Some c \<and> clive c else cp = old))) \<and>
     (\<forall>d c l. dlive d \<longrightarrow> clive c \<longrightarrow> (\<exists>rc l'. unqlite_kv_cursor_release lib (Some d) c l = Some (rc, l'))) \<and>
     (\<forall>c l. clive c \<longrightarrow> (\<exists>rc c' l'. unqlite_kv_cursor_next_entry lib (Some c) l = Some (rc, Some c', l') \<and> clive c')) \<and>
     (\<forall>c k n l. clive c \<longrightarrow> (\<exists>rc c' k' l'. unqlite_kv_cursor_key lib (Some c) k n l = Some (rc, Some c', k', l') \<and> clive c')) \<and>
     (\<forall>c n l. clive c \<longrightarrow> (\<exists>rc c' l'. unqlite_kv_cursor_data lib (Some c) n l = Some (rc, Some c', l') \<and> clive c')) \<and>
     (\<forall>d k ksize l. dlive d \<longrightarrow> readable k ksize \<longrightarrow>
        (\<forall>v vsize. readable v vsize \<longrightarrow> (\<exists>rc l'. unqlite_kv_store lib (Some d) k ksize v vsize l = Some (rc, l'))) \<and>
        (\<exists>rc l'. unqlite_kv_delete lib (Some d) k ksize l = Some (rc, l')) \<and>
        (\<forall>n. \<exists>rc l'. unqlite_kv_fetch lib (Some d) k ksize n l = Some (rc, l')))"

section \<open>The contract\<close>

definition unqlite_opened :: "('db \<Rightarrow> bool) \<Rightarrow> ('db, 'l) unqlite_world \<Rightarrow> bool" where
  "unqlite_opened dlive w \<longleftrightarrow> (\<exists>d. unqlite_db w = Some (Some d) \<and> dlive d)"

definition unqlite_closeable :: "('db \<Rightarrow> bool) \<Rightarrow> ('db, 'l) unqlite_world \<Rightarrow> bool" where
  "unqlite_closeable dlive w \<longleftrightarrow> qw_priv w = None \<or> (\<exists>dp. unqlite_db w = Some dp \<and> live_or_null dlive dp)"

definition unqlite_good :: "('cur \<Rightarrow> bool) \<Rightarrow> 'cur unqlite_context \<Rightarrow> bool" where
  "unqlite_good clive ctx \<longleftrightarrow> live_or_null clive (qc_cursor ctx)"

definition unqlite_ready :: "iabenchmark \<Rightarrow> 'cur unqlite_context \<Rightarrow> bool" where
  "unqlite_ready b ctx \<longleftrightarrow> (b = IA_ITERATE \<longrightarrow> qc_cursor ctx \<noteq> None)"

lemma unqlite_dispose_ok:
  assumes lib: "unqlite_library lib dlive clive" and op: "unqlite_opened dlive w" and good: "unqlite_good clive ctx"
  shows "\<exists>w'. ia_unqlite_thread_dispose lib ctx w = Some w' \<and> qw_priv w' = qw_priv w"
proof (cases "qc_cursor ctx")
  case (Some c)
  obtain d where d: "unqlite_db w = Some (Some d)" "dlive d" using op by (auto simp: unqlite_opened_def)
  have "\<exists>rc l'. unqlite_kv_cursor_release lib (Some d) c (qw_lib w) = Some (rc, l')"
    using lib d(2) good Some by (simp add: unqlite_library_def unqlite_good_def)
  then show ?thesis using d(1) Some by (auto simp: ia_unqlite_thread_dispose_def)
qed (simp add: ia_unqlite_thread_dispose_def)

lemma unqlite_begin_ok:
  assumes lib: "unqlite_library lib dlive clive" and op: "unqlite_opened dlive w" and good: "unqlite_good clive ctx" and b: "b < IA_MAX"
  shows "\<exists>rc ctx' w'. ia_unqlite_begin lib ctx b w = Some (rc, ctx', w') \<and> qw_priv w' = qw_priv w \<and>
    unqlite_good clive ctx' \<and> (rc = 0 \<and> unqlite_ready b ctx' \<or> rc = -1)"
proof -
  obtain d where d: "unqlite_db w = Some (Some d)" "dlive d" using op by (auto simp: unqlite_opened_def)
  have "\<exists>rc cp l'. unqlite_kv_cursor_init lib (Some d) (qc_cursor ctx) (qw_lib w) = Some (rc, cp, l') \<and>
        (if rc = UNQLITE_OK lib then \<exists>c. cp = Some c \<and> clive c else cp = qc_cursor ctx)"
    using lib d(2) by (simp add: unqlite_library_def)
  then obtain rc1 cp l1 where 1: "unqlite_kv_cursor_init lib (Some d) (qc_cursor ctx) (qw_lib w) = Some (rc1, cp, l1)"
    "if rc1 = UNQLITE_OK lib then \<exists>c. cp = Some c \<and> clive c else cp = qc_cursor ctx" by blast
  have "\<exists>rc l'. unqlite_begin lib (Some d) (qw_lib w) = Some (rc, l')" using lib d(2) by (simp add: unqlite_library_def)
  then obtain rc2 l2 where 2: "unqlite_begin lib (Some d) (qw_lib w) = Some (rc2, l2)" by blast
  consider "b \<in> {IA_GET, IA_SET, IA_DELETE}" | "b = IA_ITERATE" | "b \<in> {IA_BATCH, IA_CRUD}" using b by (cases b) auto
  then show ?thesis
  proof cases
    case 1
    then show ?thesis using good by (auto simp: ia_unqlite_begin_def unqlite_ready_def)
  next
    case 2
    then show ?thesis using d(1) 1 good by (auto simp: ia_unqlite_begin_def unqlite_ready_def unqlite_good_def split: if_splits)
  next
    case 3
    then show ?thesis using d(1) 2 good by (auto simp: ia_unqlite_begin_def unqlite_ready_def)
  qed
qed

lemma unqlite_done_ok:
  assumes lib: "unqlite_library lib dlive clive" and op: "unqlite_opened dlive w" and good: "unqlite_good clive ctx" and b: "b < IA_MAX"
  shows "\<exists>rc ctx' w'. ia_unqlite_done lib ctx b w = Some (rc, ctx', w') \<and> qw_priv w' = qw_priv w \<and> unqlite_good clive ctx' \<and> rc \<in> {0, -1}"
proof -
  obtain d where d: "unqlite_db w = Some (Some d)" "dlive d" using op by (auto simp: unqlite_opened_def)
  have "\<exists>rc l'. unqlite_commit lib (Some d) (qw_lib w) = Some (rc, l')" using lib d(2) by (simp add: unqlite_library_def)
  then obtain rc1 l1 where 1: "unqlite_commit lib (Some d) (qw_lib w) = Some (rc1, l1)" by blast
  have release: "\<exists>rc l'. unqlite_kv_cursor_release lib (Some d) c (qw_lib w) = Some (rc, l')" if "clive c" for c
    using lib d(2) that by (simp add: unqlite_library_def)
  consider "b \<in> {IA_GET, IA_SET, IA_DELETE}" | "b = IA_ITERATE" "qc_cursor ctx = None" | c where "b = IA_ITERATE" "qc_cursor ctx = Some c"
    | "b \<in> {IA_BATCH, IA_CRUD}" using b by (cases b; cases "qc_cursor ctx") auto
  then show ?thesis
  proof cases
    case 3
    then have "clive c" using good by (simp add: unqlite_good_def)
    from release [OF this] obtain rc l' where "unqlite_kv_cursor_release lib (Some d) c (qw_lib w) = Some (rc, l')" by blast
    then show ?thesis using d(1) 3 by (simp add: ia_unqlite_done_def unqlite_good_def)
  next
    case 4
    then show ?thesis using d(1) 1 good by (auto simp: ia_unqlite_done_def)
  qed (use good in \<open>auto simp: ia_unqlite_done_def\<close>)
qed

lemma unqlite_data_ok:
  assumes lib: "unqlite_library lib dlive clive" and op: "unqlite_opened dlive w"
    and step: "step \<in> {IA_SET, IA_DELETE, IA_GET}" and kv: "kv_ready kv"
  shows "\<exists>rc w'. ia_unqlite_next lib ctx step kv w = Some (rc, kv, ctx, w') \<and> qw_priv w' = qw_priv w \<and> rc \<in> {0, ENOENT, -1}"
proof -
  obtain d where d: "unqlite_db w = Some (Some d)" "dlive d" using op by (auto simp: unqlite_opened_def)
  have "\<exists>rc l'. unqlite_kv_store lib (Some d) (kv_k kv) (kv_ksize kv) (kv_v kv) (kv_vsize kv) (qw_lib w) = Some (rc, l')"
    "\<exists>rc l'. unqlite_kv_delete lib (Some d) (kv_k kv) (kv_ksize kv) (qw_lib w) = Some (rc, l')"
    "\<exists>rc l'. unqlite_kv_fetch lib (Some d) (kv_k kv) (kv_ksize kv) 256 (qw_lib w) = Some (rc, l')"
    using lib d(2) kv by (simp_all add: unqlite_library_def kv_ready_def)
  then show ?thesis using step d(1) by (auto simp: ia_unqlite_next_def)
qed

lemma unqlite_iterate_ok:
  assumes lib: "unqlite_library lib dlive clive" and good: "unqlite_good clive ctx" and c: "qc_cursor ctx \<noteq> None"
  shows "\<exists>rc kv' ctx' w'. ia_unqlite_next lib ctx IA_ITERATE kv w = Some (rc, kv', ctx', w') \<and> qw_priv w' = qw_priv w \<and>
    unqlite_good clive ctx' \<and> qc_cursor ctx' \<noteq> None \<and> rc \<in> {0, ENOENT, -1}"
proof -
  obtain c where c: "qc_cursor ctx = Some c" "clive c" using good c by (auto simp: unqlite_good_def)
  have "\<exists>rc c' l'. unqlite_kv_cursor_next_entry lib (Some c) (qw_lib w) = Some (rc, Some c', l') \<and> clive c'"
    using lib c(2) by (simp add: unqlite_library_def)
  then obtain rc1 c1 l1 where 1: "unqlite_kv_cursor_next_entry lib (Some c) (qw_lib w) = Some (rc1, Some c1, l1)" "clive c1" by blast
  have "\<exists>rc c' k' l'. unqlite_kv_cursor_key lib (Some c1) (kv_k kv) (sint (ucast (kv_ksize kv) :: u32)) l1 = Some (rc, Some c', k', l') \<and> clive c'"
    using lib 1(2) by (simp add: unqlite_library_def)
  then obtain rc2 c2 k l2 where 2: "unqlite_kv_cursor_key lib (Some c1) (kv_k kv) (sint (ucast (kv_ksize kv) :: u32)) l1 = Some (rc2, Some c2, k, l2)"
    "clive c2" by blast
  have "\<exists>rc c' l'. unqlite_kv_cursor_data lib (Some c2) 256 l2 = Some (rc, Some c', l') \<and> clive c'" using lib 2(2) by (simp add: unqlite_library_def)
  then obtain rc3 c3 l3 where 3: "unqlite_kv_cursor_data lib (Some c2) 256 l2 = Some (rc3, Some c3, l3)" "clive c3" by blast
  show ?thesis using c 1 2 3 by (simp add: ia_unqlite_next_def unqlite_good_def Let_def)
qed

lemma unqlite_program_holds:
  fixes lib :: "('db, 'cur, 'l) unqlite_lib"
  assumes lib: "unqlite_library lib dlive clive"
  shows "program_driver (ia_unqlite mem True lib) (unqlite_opened dlive) (\<lambda>ctx w. unqlite_opened dlive w \<and> unqlite_good clive ctx)
    (\<lambda>b ctx w. unqlite_ready b ctx) (\<lambda>w w'. qw_priv w' = qw_priv w) (\<lambda>w. qw_priv w = None) (unqlite_closeable dlive)"
  unfolding ia_unqlite_def
proof (rule private_driverI [where priv = qw_priv and ready = unqlite_ready], goal_cases)
  case (3 ctx w)
  then show ?case using unqlite_dispose_ok [OF lib] by simp
next
  case (4 b ctx w)
  then show ?case using unqlite_begin_ok [OF lib 4] by simp
next
  case (5 b ctx w)
  then show ?case using unqlite_done_ok [OF lib 5] by simp
next
  case (6 step kv ctx w)
  then show ?case using unqlite_data_ok [OF lib 6(1,3,4), of ctx] by fastforce
next
  case (7 kv ctx w)
  then show ?case using unqlite_iterate_ok [OF lib 7(2), of kv w] by (simp add: unqlite_ready_def)
next
  case (9 conf dir w)
  let ?flags = "UNQLITE_OPEN_CREATE lib + (if c_walmode conf = IA_WAL_OFF then UNQLITE_OPEN_OMIT_JOURNALING lib else 0)"
  have "\<exists>rc dp l'. unqlite_open lib (dir @ ''/test.db'') ?flags (qw_lib w) = Some (rc, dp, l') \<and>
      live_or_null dlive dp \<and> (rc = UNQLITE_OK lib \<longrightarrow> dp \<noteq> None)" using lib by (simp add: unqlite_library_def)
  then obtain rc dp l' where 1: "unqlite_open lib (dir @ ''/test.db'') ?flags (qw_lib w) = Some (rc, dp, l')"
    "live_or_null dlive dp" "rc = UNQLITE_OK lib \<longrightarrow> dp \<noteq> None" by blast
  then show ?case by (auto simp: ia_unqlite_open_def unqlite_opened_def unqlite_closeable_def unqlite_db_def Let_def)
next
  case (10 w)
  show ?case
  proof (cases "qw_priv w = None")
    case False
    then obtain dp where dp: "unqlite_db w = Some dp" "live_or_null dlive dp" using 10 by (auto simp: unqlite_closeable_def)
    have "\<exists>rc l'. unqlite_close lib dp (qw_lib w) = Some (rc, l')" using lib dp(2) by (simp add: unqlite_library_def)
    then show ?thesis using False dp(1) by (auto simp: ia_unqlite_close_def)
  qed (simp add: ia_unqlite_close_def)
qed (auto simp: unqlite_opened_def unqlite_closeable_def unqlite_db_def unqlite_good_def ia_unqlite_thread_new_def)

text \<open>When \<open>asprintf\<close> fails, \<open>close\<close> hands the library a pointer that was never set.\<close>

lemma unqlite_close_unset:
  "ia_unqlite_open True False lib conf dir w = Some (-1, w\<lparr>qw_priv := Some \<lparr>qp_db = None\<rparr>\<rparr>)"
  "ia_unqlite_close lib (w\<lparr>qw_priv := Some \<lparr>qp_db = None\<rparr>\<rparr>) = None"
  by (simp_all add: ia_unqlite_open_def ia_unqlite_close_def unqlite_db_def)

section \<open>A library that can be run\<close>

text \<open>A library that keeps its records in a list; a cursor is the number of the records it has passed.\<close>

definition unqlite_bytes :: "u8 list option \<Rightarrow> u64 \<Rightarrow> u8 list" where
  "unqlite_bytes p n = (case p of None \<Rightarrow> [] | Some bs \<Rightarrow> take (unat n) bs)"

definition sample_unqlite :: "(unit, nat, (u8 list \<times> u8 list) list) unqlite_lib" where
  "sample_unqlite = \<lparr>UNQLITE_OK = 0, UNQLITE_NOTFOUND = -6, UNQLITE_EOF = -18, UNQLITE_OPEN_CREATE = 4, UNQLITE_OPEN_OMIT_JOURNALING = 64,
     unqlite_open = (\<lambda>file fl l. Some (0, Some (), l)), unqlite_close = (\<lambda>dp l. Some (if dp = None then -24 else 0, l)),
     unqlite_begin = (\<lambda>dp l. map_option (\<lambda>_. (0, l)) dp), unqlite_commit = (\<lambda>dp l. map_option (\<lambda>_. (0, l)) dp),
     unqlite_kv_cursor_init = (\<lambda>dp old l. map_option (\<lambda>_. (0, Some 0, l)) dp),
     unqlite_kv_cursor_release = (\<lambda>dp c l. map_option (\<lambda>_. (0, l)) dp),
     unqlite_kv_cursor_next_entry = (\<lambda>cp l. map_option (\<lambda>c. if c < length l then (0, Some (Suc c), l) else (-18, Some c, l)) cp),
     unqlite_kv_cursor_key = (\<lambda>cp k n l. map_option (\<lambda>c. (0, Some c, map_option (\<lambda>bs. take (nat n) (fst (l ! (c - 1))) @ drop (nat n) bs) k, l)) cp),
     unqlite_kv_cursor_data = (\<lambda>cp n l. map_option (\<lambda>c. (0, Some c, l)) cp),
     unqlite_kv_store = (\<lambda>dp k n v m l. map_option (\<lambda>_. (0, (unqlite_bytes k n, unqlite_bytes v m) # filter (\<lambda>r. fst r \<noteq> unqlite_bytes k n) l)) dp),
     unqlite_kv_delete = (\<lambda>dp k n l. map_option (\<lambda>_. (if unqlite_bytes k n \<in> fst ` set l then 0 else -6, filter (\<lambda>r. fst r \<noteq> unqlite_bytes k n) l)) dp),
     unqlite_kv_fetch = (\<lambda>dp k n m l. map_option (\<lambda>_. (if unqlite_bytes k n \<in> fst ` set l then 0 else -6, l)) dp)\<rparr>"

lemma sample_unqlite_library: "unqlite_library sample_unqlite (\<lambda>d. True) (\<lambda>c. True)"
  by (simp add: unqlite_library_def sample_unqlite_def live_or_null_def split: option.split)

end
