(* ===== verification/DriverUpscaledb.thy ===== *)
theory DriverUpscaledb
  imports Driver "HOL-Library.Monad_Syntax"
begin

text \<open>
  The upscaledb driver (\<open>src/drivers/ia_upscaledb.c\<close>) and the contract it keeps.  The library is a
  parameter.  The private struct comes from \<open>malloc\<close>: its pointers are unset until the library has
  written them, and reading them before has no result.
\<close>

section \<open>The library\<close>

text \<open>
  The two calls that create something write a pointer of the private struct, or leave it as it is:
  they are given what it holds, and give back what it holds then.
\<close>

text \<open>A key or a record; the sizes are kept as the driver gives them, their width is the library's.\<close>

record ups_item =
  ui_size :: u64
  ui_data :: "u8 list option"

record ('env, 'db, 'txn, 'cur, 'l) ups_lib =
  UPS_SUCCESS :: int
  UPS_KEY_NOT_FOUND :: int
  UPS_ENABLE_TRANSACTIONS :: u32
  UPS_ENABLE_FSYNC :: u32
  UPS_FLUSH_TRANSACTIONS_IMMEDIATELY :: u32
  UPS_DISABLE_RECOVERY :: u32
  UPS_OVERWRITE :: u32
  UPS_CURSOR_NEXT :: u32
  ups_env_create :: "'env option option \<Rightarrow> string \<Rightarrow> u32 \<Rightarrow> 'l \<Rightarrow> (int \<times> 'env option option \<times> 'l) option"
  ups_env_create_db :: "'env option \<Rightarrow> 'db option option \<Rightarrow> nat \<Rightarrow> 'l \<Rightarrow> (int \<times> 'db option option \<times> 'l) option"
  ups_db_close :: "'db option \<Rightarrow> 'l \<Rightarrow> (int \<times> 'l) option"
  ups_env_close :: "'env option \<Rightarrow> 'l \<Rightarrow> (int \<times> 'l) option"
  ups_cursor_create :: "'cur option \<Rightarrow> 'db option \<Rightarrow> 'txn option \<Rightarrow> 'l \<Rightarrow> (int \<times> 'cur option \<times> 'l) option"
  ups_cursor_close :: "'cur \<Rightarrow> 'l \<Rightarrow> (int \<times> 'l) option"
  ups_cursor_move :: "'cur option \<Rightarrow> ups_item \<Rightarrow> ups_item \<Rightarrow> u32 \<Rightarrow> 'l \<Rightarrow> (int \<times> 'cur option \<times> ups_item \<times> ups_item \<times> 'l) option"
  ups_txn_begin :: "'txn option \<Rightarrow> 'env option \<Rightarrow> 'l \<Rightarrow> (int \<times> 'txn option \<times> 'l) option"
  ups_txn_commit :: "'txn \<Rightarrow> 'l \<Rightarrow> (int \<times> 'txn option \<times> 'l) option"
  ups_txn_abort :: "'txn \<Rightarrow> 'l \<Rightarrow> (int \<times> 'l) option"
  ups_db_insert :: "'db option \<Rightarrow> 'txn option \<Rightarrow> ups_item \<Rightarrow> ups_item \<Rightarrow> u32 \<Rightarrow> 'l \<Rightarrow> (int \<times> 'txn option \<times> 'l) option"
  ups_db_erase :: "'db option \<Rightarrow> 'txn option \<Rightarrow> ups_item \<Rightarrow> 'l \<Rightarrow> (int \<times> 'txn option \<times> 'l) option"
  ups_db_find :: "'db option \<Rightarrow> 'txn option \<Rightarrow> ups_item \<Rightarrow> ups_item \<Rightarrow> 'l \<Rightarrow> (int \<times> 'txn option \<times> ups_item \<times> 'l) option"

section \<open>State of the driver\<close>

text \<open>A pointer is \<open>None\<close> while it is unset, \<open>Some None\<close> when it is null.\<close>

record ('env, 'db) ups_private =
  up_env :: "'env option option"
  up_db :: "'db option option"

record ('txn, 'cur) ups_context =
  uc_txn :: "'txn option"
  uc_cursor :: "'cur option"

record ('env, 'db, 'l) ups_world =
  uw_priv :: "('env, 'db) ups_private option"
  uw_lib :: 'l

definition ups_env :: "('env, 'db, 'l) ups_world \<Rightarrow> 'env option option" where
  "ups_env w = do { self \<leftarrow> uw_priv w; up_env self }"

definition ups_db :: "('env, 'db, 'l) ups_world \<Rightarrow> 'db option option" where
  "ups_db w = do { self \<leftarrow> uw_priv w; up_db self }"

section \<open>Opening and closing\<close>

definition ups_flags :: "('env, 'db, 'txn, 'cur, 'l) ups_lib \<Rightarrow> iaconfig \<Rightarrow> u32" where
  "ups_flags lib conf =
     (let flags = UPS_ENABLE_TRANSACTIONS lib;
          flags = (case c_syncmode conf of IA_SYNC \<Rightarrow> flags + UPS_ENABLE_FSYNC lib + UPS_FLUSH_TRANSACTIONS_IMMEDIATELY lib
                   | IA_LAZY \<Rightarrow> flags | IA_NOSYNC \<Rightarrow> flags)
      in case c_walmode conf of IA_WAL_INDEF \<Rightarrow> flags | IA_WAL_ON \<Rightarrow> flags | IA_WAL_OFF \<Rightarrow> flags + UPS_DISABLE_RECOVERY lib)"

text \<open>\<open>mem\<close> says whether \<open>malloc\<close> succeeds, \<open>nmem\<close> whether \<open>asprintf\<close> does.\<close>

definition ia_upscaledb_open ::
  "bool \<Rightarrow> bool \<Rightarrow> ('env, 'db, 'txn, 'cur, 'l) ups_lib \<Rightarrow> iaconfig \<Rightarrow> string \<Rightarrow> ('env, 'db, 'l) ups_world
     \<Rightarrow> (int \<times> ('env, 'db, 'l) ups_world) option" where
  "ia_upscaledb_open mem nmem lib conf datadir w =
     (if \<not> mem then Some (-1, w\<lparr>uw_priv := None\<rparr>)
      else let self = \<lparr>up_env = None, up_db = None\<rparr>
           in if \<not> nmem then Some (-1, w\<lparr>uw_priv := Some self\<rparr>)
              else do {
                (st, env, l) \<leftarrow> ups_env_create lib (up_env self) (datadir @ ''/test.db'') (ups_flags lib conf) (uw_lib w);
                let self = self\<lparr>up_env := env\<rparr>;
                if st \<noteq> UPS_SUCCESS lib then Some (-1, w\<lparr>uw_priv := Some self, uw_lib := l\<rparr>)
                else do {
                  env \<leftarrow> up_env self;
                  (st, db, l) \<leftarrow> ups_env_create_db lib env (up_db self) 1 l;
                  Some (if st \<noteq> UPS_SUCCESS lib then -1 else 0, w\<lparr>uw_priv := Some (self\<lparr>up_db := db\<rparr>), uw_lib := l\<rparr>) } })"

text \<open>The private struct is freed, and the pointer to it is left behind.\<close>

definition ia_upscaledb_close ::
  "('env, 'db, 'txn, 'cur, 'l) ups_lib \<Rightarrow> ('env, 'db, 'l) ups_world \<Rightarrow> (int \<times> ('env, 'db, 'l) ups_world) option" where
  "ia_upscaledb_close lib w =
     (if uw_priv w = None then Some (0, w)
      else do {
        db \<leftarrow> ups_db w;
        (rc, l) \<leftarrow> ups_db_close lib db (uw_lib w);
        env \<leftarrow> ups_env w;
        (rc, l) \<leftarrow> ups_env_close lib env l;
        Some (0, w\<lparr>uw_lib := l\<rparr>) })"

section \<open>Contexts and transactions\<close>

definition ia_upscaledb_thread_dispose ::
  "('env, 'db, 'txn, 'cur, 'l) ups_lib \<Rightarrow> ('txn, 'cur) ups_context \<Rightarrow> ('env, 'db, 'l) ups_world \<Rightarrow> ('env, 'db, 'l) ups_world option" where
  "ia_upscaledb_thread_dispose lib ctx w =
     do { l \<leftarrow> (case uc_cursor ctx of None \<Rightarrow> Some (uw_lib w) | Some cursor \<Rightarrow> map_option snd (ups_cursor_close lib cursor (uw_lib w)));
          l \<leftarrow> (case uc_txn ctx of None \<Rightarrow> Some l | Some txn \<Rightarrow> map_option snd (ups_txn_abort lib txn l));
          Some (w\<lparr>uw_lib := l\<rparr>) }"

definition ia_upscaledb_thread_new ::
  "bool \<Rightarrow> ('env, 'db, 'l) ups_world \<Rightarrow> (('txn, 'cur) ups_context option \<times> ('env, 'db, 'l) ups_world) option" where
  "ia_upscaledb_thread_new mem w = Some (if mem then Some \<lparr>uc_txn = None, uc_cursor = None\<rparr> else None, w)"

text \<open>Whether the cursor and the transaction are there is read from their pointers, not from the status.\<close>

definition ia_upscaledb_begin ::
  "('env, 'db, 'txn, 'cur, 'l) ups_lib \<Rightarrow> ('txn, 'cur) ups_context \<Rightarrow> iabenchmark \<Rightarrow> ('env, 'db, 'l) ups_world
     \<Rightarrow> (int \<times> ('txn, 'cur) ups_context \<times> ('env, 'db, 'l) ups_world) option" where
  "ia_upscaledb_begin lib ctx step w =
     (if step \<in> {IA_GET, IA_SET, IA_DELETE} then Some (0, ctx, w)
      else if step = IA_ITERATE then do {
        db \<leftarrow> ups_db w;
        (st, cursor, l) \<leftarrow> ups_cursor_create lib (uc_cursor ctx) db (uc_txn ctx) (uw_lib w);
        Some (if cursor = None then -1 else 0, ctx\<lparr>uc_cursor := cursor\<rparr>, w\<lparr>uw_lib := l\<rparr>) }
      else if step \<in> {IA_BATCH, IA_CRUD} then do {
        env \<leftarrow> ups_env w;
        (st, txn, l) \<leftarrow> ups_txn_begin lib (uc_txn ctx) env (uw_lib w);
        Some (if txn = None then -1 else 0, ctx\<lparr>uc_txn := txn\<rparr>, w\<lparr>uw_lib := l\<rparr>) }
      else None)"

definition ia_upscaledb_done ::
  "('env, 'db, 'txn, 'cur, 'l) ups_lib \<Rightarrow> ('txn, 'cur) ups_context \<Rightarrow> iabenchmark \<Rightarrow> ('env, 'db, 'l) ups_world
     \<Rightarrow> (int \<times> ('txn, 'cur) ups_context \<times> ('env, 'db, 'l) ups_world) option" where
  "ia_upscaledb_done lib ctx step w =
     (if step \<in> {IA_GET, IA_SET, IA_DELETE} then Some (0, ctx, w)
      else if step = IA_ITERATE then
        (case uc_cursor ctx of
           None \<Rightarrow> Some (0, ctx, w)
         | Some cursor \<Rightarrow> do {
             (rc, l) \<leftarrow> ups_cursor_close lib cursor (uw_lib w);
             Some (0, ctx\<lparr>uc_cursor := None\<rparr>, w\<lparr>uw_lib := l\<rparr>) })
      else if step \<in> {IA_CRUD, IA_BATCH} then
        (case uc_txn ctx of
           None \<Rightarrow> Some (0, ctx, w)
         | Some txn \<Rightarrow> do {
             (st, txn, l) \<leftarrow> ups_txn_commit lib txn (uw_lib w);
             if st \<noteq> UPS_SUCCESS lib then Some (-1, ctx\<lparr>uc_txn := txn\<rparr>, w\<lparr>uw_lib := l\<rparr>)
             else Some (0, ctx\<lparr>uc_txn := None\<rparr>, w\<lparr>uw_lib := l\<rparr>) })
      else None)"

section \<open>Operations\<close>

text \<open>A record that is not found counts as found.\<close>

definition ia_upscaledb_next ::
  "('env, 'db, 'txn, 'cur, 'l) ups_lib \<Rightarrow> ('txn, 'cur) ups_context \<Rightarrow> iabenchmark \<Rightarrow> iakv \<Rightarrow> ('env, 'db, 'l) ups_world
     \<Rightarrow> (int \<times> iakv \<times> ('txn, 'cur) ups_context \<times> ('env, 'db, 'l) ups_world) option" where
  "ia_upscaledb_next lib ctx step kv w =
     (let key = \<lparr>ui_size = kv_ksize kv, ui_data = kv_k kv\<rparr>;
          value = \<lparr>ui_size = 0, ui_data = None\<rparr>
      in case step of
        IA_SET \<Rightarrow> do {
          let value = \<lparr>ui_size = kv_vsize kv, ui_data = kv_v kv\<rparr>;
          db \<leftarrow> ups_db w;
          (st, txn, l) \<leftarrow> ups_db_insert lib db (uc_txn ctx) key value (UPS_OVERWRITE lib) (uw_lib w);
          Some (if st \<noteq> UPS_SUCCESS lib then -1 else 0, kv, ctx\<lparr>uc_txn := txn\<rparr>, w\<lparr>uw_lib := l\<rparr>) }
      | IA_DELETE \<Rightarrow> do {
          db \<leftarrow> ups_db w;
          (st, txn, l) \<leftarrow> ups_db_erase lib db (uc_txn ctx) key (uw_lib w);
          Some (if st = UPS_SUCCESS lib then 0 else if st = UPS_KEY_NOT_FOUND lib then ENOENT else -1,
                kv, ctx\<lparr>uc_txn := txn\<rparr>, w\<lparr>uw_lib := l\<rparr>) }
      | IA_GET \<Rightarrow> do {
          db \<leftarrow> ups_db w;
          (st, txn, value, l) \<leftarrow> ups_db_find lib db (uc_txn ctx) key value (uw_lib w);
          let ctx = ctx\<lparr>uc_txn := txn\<rparr>;
          if st \<noteq> UPS_SUCCESS lib \<and> st \<noteq> UPS_KEY_NOT_FOUND lib then Some (-1, kv, ctx, w\<lparr>uw_lib := l\<rparr>)
          else Some (0, kv\<lparr>kv_v := ui_data value, kv_vsize := ui_size value\<rparr>, ctx, w\<lparr>uw_lib := l\<rparr>) }
      | IA_ITERATE \<Rightarrow> do {
          (st, cursor, key, value, l) \<leftarrow> ups_cursor_move lib (uc_cursor ctx) key value (UPS_CURSOR_NEXT lib) (uw_lib w);
          let ctx = ctx\<lparr>uc_cursor := cursor\<rparr>;
          if st \<noteq> UPS_SUCCESS lib then Some (if st = UPS_KEY_NOT_FOUND lib then ENOENT else -1, kv, ctx, w\<lparr>uw_lib := l\<rparr>)
          else Some (0, \<lparr>kv_ksize = ui_size key, kv_vsize = ui_size value, kv_k = ui_data key, kv_v = ui_data value\<rparr>,
                     ctx, w\<lparr>uw_lib := l\<rparr>) }
      | _ \<Rightarrow> None)"

definition ia_upscaledb ::
  "bool \<Rightarrow> bool \<Rightarrow> ('env, 'db, 'txn, 'cur, 'l) ups_lib \<Rightarrow> (('env, 'db, 'l) ups_world, ('txn, 'cur) ups_context) iadriver" where
  "ia_upscaledb mem nmem lib = \<lparr>d_name = ''upscaledb'', d_open = ia_upscaledb_open mem nmem lib, d_close = ia_upscaledb_close lib,
     d_thread_new = ia_upscaledb_thread_new mem, d_thread_dispose = ia_upscaledb_thread_dispose lib,
     d_begin = ia_upscaledb_begin lib, d_next = ia_upscaledb_next lib, d_done = ia_upscaledb_done lib, d_option = None\<rparr>"

section \<open>What the driver relies on\<close>

text \<open>
  The documented behaviour of the library: \<open>alive\<close> and \<open>clive\<close> describe a transaction and a cursor that
  are open, \<open>elive\<close> and \<open>dlive\<close> the handles of an environment and a database.  A call that fails leaves
  the transaction it was given open, a commit too.
\<close>

definition ups_handles :: "('env, 'db, 'txn, 'cur, 'l) ups_lib \<Rightarrow> ('env \<Rightarrow> bool) \<Rightarrow> ('db \<Rightarrow> bool) \<Rightarrow> bool" where
  "ups_handles lib elive dlive \<longleftrightarrow>
     (\<forall>old file fl l. \<exists>rc ep l'. ups_env_create lib old file fl l = Some (rc, ep, l') \<and>
        (rc = UPS_SUCCESS lib \<longrightarrow> (\<exists>e. ep = Some (Some e) \<and> elive e))) \<and>
     (\<forall>e old n l. elive e \<longrightarrow> (\<exists>rc dp l'. ups_env_create_db lib (Some e) old n l = Some (rc, dp, l') \<and>
        (if rc = UPS_SUCCESS lib then \<exists>d. dp = Some (Some d) \<and> dlive d else dp = Some None))) \<and>
     (\<forall>dp l. live_or_null dlive dp \<longrightarrow> (\<exists>rc l'. ups_db_close lib dp l = Some (rc, l'))) \<and>
     (\<forall>e l. elive e \<longrightarrow> (\<exists>rc l'. ups_env_close lib (Some e) l = Some (rc, l')))"

definition ups_transactions ::
  "('env, 'db, 'txn, 'cur, 'l) ups_lib \<Rightarrow> ('env \<Rightarrow> bool) \<Rightarrow> ('db \<Rightarrow> bool) \<Rightarrow> ('txn \<Rightarrow> bool) \<Rightarrow> ('cur \<Rightarrow> bool) \<Rightarrow> bool" where
  "ups_transactions lib elive dlive alive clive \<longleftrightarrow>
     (\<forall>e tp l. elive e \<longrightarrow> live_or_null alive tp \<longrightarrow> (\<exists>rc tp' l'. ups_txn_begin lib tp (Some e) l = Some (rc, tp', l') \<and> live_or_null alive tp')) \<and>
     (\<forall>t l. alive t \<longrightarrow> (\<exists>rc tp' l'. ups_txn_commit lib t l = Some (rc, tp', l') \<and>
        (rc \<noteq> UPS_SUCCESS lib \<longrightarrow> (\<exists>t'. tp' = Some t' \<and> alive t')))) \<and>
     (\<forall>t l. alive t \<longrightarrow> (\<exists>rc l'. ups_txn_abort lib t l = Some (rc, l'))) \<and>
     (\<forall>cp d tp l. live_or_null clive cp \<longrightarrow> dlive d \<longrightarrow> live_or_null alive tp \<longrightarrow>
        (\<exists>rc cp' l'. ups_cursor_create lib cp (Some d) tp l = Some (rc, cp', l') \<and> live_or_null clive cp')) \<and>
     (\<forall>c l. clive c \<longrightarrow> (\<exists>rc l'. ups_cursor_close lib c l = Some (rc, l'))) \<and>
     (\<forall>c k v fl l. clive c \<longrightarrow> (\<exists>rc c' k' v' l'. ups_cursor_move lib (Some c) k v fl l = Some (rc, Some c', k', v', l') \<and> clive c'))"

definition ups_records :: "('env, 'db, 'txn, 'cur, 'l) ups_lib \<Rightarrow> ('db \<Rightarrow> bool) \<Rightarrow> ('txn \<Rightarrow> bool) \<Rightarrow> bool" where
  "ups_records lib dlive alive \<longleftrightarrow> (\<forall>d tp k l. dlive d \<longrightarrow> live_or_null alive tp \<longrightarrow> readable (ui_data k) (ui_size k) \<longrightarrow>
     (\<forall>v fl. readable (ui_data v) (ui_size v) \<longrightarrow>
        (\<exists>rc tp' l'. ups_db_insert lib (Some d) tp k v fl l = Some (rc, tp', l') \<and> same_or_live alive tp tp')) \<and>
     (\<exists>rc tp' l'. ups_db_erase lib (Some d) tp k l = Some (rc, tp', l') \<and> same_or_live alive tp tp') \<and>
     (\<forall>v. \<exists>rc tp' v' l'. ups_db_find lib (Some d) tp k v l = Some (rc, tp', v', l') \<and> same_or_live alive tp tp'))"

definition ups_library ::
  "('env, 'db, 'txn, 'cur, 'l) ups_lib \<Rightarrow> ('env \<Rightarrow> bool) \<Rightarrow> ('db \<Rightarrow> bool) \<Rightarrow> ('txn \<Rightarrow> bool) \<Rightarrow> ('cur \<Rightarrow> bool) \<Rightarrow> bool" where
  "ups_library lib elive dlive alive clive \<longleftrightarrow>
     ups_handles lib elive dlive \<and> ups_transactions lib elive dlive alive clive \<and> ups_records lib dlive alive"

text \<open>The one call whose failure the driver does not survive.\<close>

definition ups_creates :: "('env, 'db, 'txn, 'cur, 'l) ups_lib \<Rightarrow> bool" where
  "ups_creates lib \<longleftrightarrow> (\<forall>old file fl l rc ep l'. ups_env_create lib old file fl l = Some (rc, ep, l') \<longrightarrow> rc = UPS_SUCCESS lib)"

section \<open>The contract\<close>

definition ups_closeable :: "('env \<Rightarrow> bool) \<Rightarrow> ('db \<Rightarrow> bool) \<Rightarrow> ('env, 'db, 'l) ups_world \<Rightarrow> bool" where
  "ups_closeable elive dlive w \<longleftrightarrow> uw_priv w = None \<or>
     (\<exists>e dp. ups_env w = Some (Some e) \<and> elive e \<and> ups_db w = Some dp \<and> live_or_null dlive dp)"

definition ups_opened :: "('env \<Rightarrow> bool) \<Rightarrow> ('db \<Rightarrow> bool) \<Rightarrow> ('env, 'db, 'l) ups_world \<Rightarrow> bool" where
  "ups_opened elive dlive w \<longleftrightarrow> (\<exists>e d. ups_env w = Some (Some e) \<and> elive e \<and> ups_db w = Some (Some d) \<and> dlive d)"

definition ups_good :: "('txn \<Rightarrow> bool) \<Rightarrow> ('cur \<Rightarrow> bool) \<Rightarrow> ('txn, 'cur) ups_context \<Rightarrow> bool" where
  "ups_good alive clive ctx \<longleftrightarrow> live_or_null alive (uc_txn ctx) \<and> live_or_null clive (uc_cursor ctx)"

definition ups_ready :: "iabenchmark \<Rightarrow> ('txn, 'cur) ups_context \<Rightarrow> bool" where
  "ups_ready b ctx \<longleftrightarrow> (b = IA_ITERATE \<longrightarrow> uc_cursor ctx \<noteq> None)"

lemma ups_libD:
  assumes "ups_library lib elive dlive alive clive"
  shows "ups_handles lib elive dlive" "ups_transactions lib elive dlive alive clive" "ups_records lib dlive alive"
  using assms by (simp_all add: ups_library_def)

lemma ups_open_ok:
  assumes lib: "ups_library lib elive dlive alive clive" and calm: "ups_creates lib"
  shows "\<exists>rc w'. ia_upscaledb_open mem True lib conf dir w = Some (rc, w') \<and>
    (rc = 0 \<and> ups_opened elive dlive w' \<or> rc = -1 \<and> ups_closeable elive dlive w')"
proof (cases mem)
  case True
  have "\<exists>rc ep l'. ups_env_create lib None (dir @ ''/test.db'') (ups_flags lib conf) (uw_lib w) = Some (rc, ep, l') \<and>
      (rc = UPS_SUCCESS lib \<longrightarrow> (\<exists>e. ep = Some (Some e) \<and> elive e))" using ups_libD(1) [OF lib] by (simp add: ups_handles_def)
  then obtain e l1 where 1: "ups_env_create lib None (dir @ ''/test.db'') (ups_flags lib conf) (uw_lib w) = Some (UPS_SUCCESS lib, Some (Some e), l1)"
    "elive e" using calm unfolding ups_creates_def by metis
  have "\<exists>rc dp l'. ups_env_create_db lib (Some e) None 1 l1 = Some (rc, dp, l') \<and>
      (if rc = UPS_SUCCESS lib then \<exists>d. dp = Some (Some d) \<and> dlive d else dp = Some None)"
    using ups_libD(1) [OF lib] 1(2) by (simp add: ups_handles_def)
  then obtain rc2 dp l2 where 2: "ups_env_create_db lib (Some e) None 1 l1 = Some (rc2, dp, l2)"
    "if rc2 = UPS_SUCCESS lib then \<exists>d. dp = Some (Some d) \<and> dlive d else dp = Some None" by blast
  show ?thesis
    using True 1 2 by (auto simp: ia_upscaledb_open_def ups_opened_def ups_closeable_def ups_env_def ups_db_def Let_def)
qed (simp add: ia_upscaledb_open_def ups_closeable_def)

lemma ups_close_ok:
  assumes lib: "ups_library lib elive dlive alive clive" and w: "ups_closeable elive dlive w"
  shows "ia_upscaledb_close lib w \<noteq> None"
proof (cases "uw_priv w = None")
  case False
  then obtain e dp where 1: "ups_env w = Some (Some e)" "elive e" "ups_db w = Some dp" "live_or_null dlive dp"
    using w by (auto simp: ups_closeable_def)
  have "\<exists>rc l'. ups_db_close lib dp (uw_lib w) = Some (rc, l')" using ups_libD(1) [OF lib] 1(4) by (simp add: ups_handles_def)
  then obtain rc1 l1 where 2: "ups_db_close lib dp (uw_lib w) = Some (rc1, l1)" by blast
  have "\<exists>rc l'. ups_env_close lib (Some e) l1 = Some (rc, l')" using ups_libD(1) [OF lib] 1(2) by (simp add: ups_handles_def)
  then show ?thesis using False 1 2 by (auto simp: ia_upscaledb_close_def)
qed (simp add: ia_upscaledb_close_def)

lemma ups_dispose_ok:
  assumes lib: "ups_library lib elive dlive alive clive" and good: "ups_good alive clive ctx"
  shows "\<exists>w'. ia_upscaledb_thread_dispose lib ctx w = Some w' \<and> uw_priv w' = uw_priv w"
proof -
  have c: "\<exists>rc l'. ups_cursor_close lib c l = Some (rc, l')" if "clive c" for c l using ups_libD(2) [OF lib] that by (simp add: ups_transactions_def)
  have t: "\<exists>rc l'. ups_txn_abort lib t l = Some (rc, l')" if "alive t" for t l using ups_libD(2) [OF lib] that by (simp add: ups_transactions_def)
  obtain l1 where 1: "(case uc_cursor ctx of None \<Rightarrow> Some (uw_lib w) | Some cursor \<Rightarrow> map_option snd (ups_cursor_close lib cursor (uw_lib w))) = Some l1"
    using c [of "the (uc_cursor ctx)" "uw_lib w"] good by (cases "uc_cursor ctx") (auto simp: ups_good_def)
  obtain l2 where 2: "(case uc_txn ctx of None \<Rightarrow> Some l1 | Some txn \<Rightarrow> map_option snd (ups_txn_abort lib txn l1)) = Some l2"
    using t [of "the (uc_txn ctx)" l1] good by (cases "uc_txn ctx") (auto simp: ups_good_def)
  show ?thesis using 1 2 by (simp add: ia_upscaledb_thread_dispose_def)
qed

lemma ups_begin_ok:
  assumes lib: "ups_library lib elive dlive alive clive" and op: "ups_opened elive dlive w" and good: "ups_good alive clive ctx" and b: "b < IA_MAX"
  shows "\<exists>rc ctx' w'. ia_upscaledb_begin lib ctx b w = Some (rc, ctx', w') \<and> uw_priv w' = uw_priv w \<and>
    ups_good alive clive ctx' \<and> (rc = 0 \<and> ups_ready b ctx' \<or> rc = -1)"
proof -
  obtain e d where w: "ups_env w = Some (Some e)" "elive e" "ups_db w = Some (Some d)" "dlive d" using op by (auto simp: ups_opened_def)
  have "\<exists>rc tp l'. ups_txn_begin lib (uc_txn ctx) (Some e) (uw_lib w) = Some (rc, tp, l') \<and> live_or_null alive tp"
    "\<exists>rc cp l'. ups_cursor_create lib (uc_cursor ctx) (Some d) (uc_txn ctx) (uw_lib w) = Some (rc, cp, l') \<and> live_or_null clive cp"
    using ups_libD(2) [OF lib] w good by (simp_all add: ups_transactions_def ups_good_def)
  then obtain rc1 tp l1 rc2 cp l2 where
    1: "ups_txn_begin lib (uc_txn ctx) (Some e) (uw_lib w) = Some (rc1, tp, l1)" "live_or_null alive tp" and
    2: "ups_cursor_create lib (uc_cursor ctx) (Some d) (uc_txn ctx) (uw_lib w) = Some (rc2, cp, l2)" "live_or_null clive cp" by blast
  consider "b \<in> {IA_GET, IA_SET, IA_DELETE}" | "b = IA_ITERATE" | "b \<in> {IA_BATCH, IA_CRUD}" using b by (cases b) auto
  then show ?thesis
  proof cases
    case 1
    then show ?thesis using good by (auto simp: ia_upscaledb_begin_def ups_ready_def)
  next
    case 2
    then show ?thesis using w(3) \<open>ups_cursor_create lib _ _ _ _ = _\<close> \<open>live_or_null clive cp\<close> good
      by (simp add: ia_upscaledb_begin_def ups_ready_def ups_good_def)
  next
    case 3
    then show ?thesis using w(1) 1 good by (auto simp: ia_upscaledb_begin_def ups_ready_def ups_good_def)
  qed
qed

lemma ups_done_ok:
  assumes lib: "ups_library lib elive dlive alive clive" and good: "ups_good alive clive ctx" and b: "b < IA_MAX"
  shows "\<exists>rc ctx' w'. ia_upscaledb_done lib ctx b w = Some (rc, ctx', w') \<and> uw_priv w' = uw_priv w \<and> ups_good alive clive ctx' \<and> rc \<in> {0, -1}"
proof -
  have c: "\<exists>rc l'. ups_cursor_close lib c l = Some (rc, l')" if "clive c" for c l using ups_libD(2) [OF lib] that by (simp add: ups_transactions_def)
  have t: "\<exists>rc tp' l'. ups_txn_commit lib t l = Some (rc, tp', l') \<and> (rc \<noteq> UPS_SUCCESS lib \<longrightarrow> (\<exists>t'. tp' = Some t' \<and> alive t'))"
    if "alive t" for t l using ups_libD(2) [OF lib] that by (simp add: ups_transactions_def)
  consider "b \<in> {IA_GET, IA_SET, IA_DELETE}" | "b = IA_ITERATE" | "b \<in> {IA_BATCH, IA_CRUD}" using b by (cases b) auto
  then show ?thesis
  proof cases
    case 1
    then show ?thesis using good by (auto simp: ia_upscaledb_done_def)
  next
    case 2
    then show ?thesis using c [of "the (uc_cursor ctx)" "uw_lib w"] good
      by (cases "uc_cursor ctx") (auto simp: ia_upscaledb_done_def ups_good_def)
  next
    case 3
    then show ?thesis using t [of "the (uc_txn ctx)" "uw_lib w"] good
      by (cases "uc_txn ctx") (auto simp: ia_upscaledb_done_def ups_good_def)
  qed
qed

lemma ups_data_ok:
  assumes lib: "ups_library lib elive dlive alive clive" and op: "ups_opened elive dlive w" and good: "ups_good alive clive ctx"
    and step: "step \<in> {IA_SET, IA_DELETE, IA_GET}" and kv: "kv_ready kv"
  shows "\<exists>rc kv' ctx' w'. ia_upscaledb_next lib ctx step kv w = Some (rc, kv', ctx', w') \<and> uw_priv w' = uw_priv w \<and>
    ups_good alive clive ctx' \<and> uc_cursor ctx' = uc_cursor ctx \<and> rc \<in> {0, ENOENT, -1} \<and> (step \<in> {IA_SET, IA_DELETE} \<longrightarrow> kv' = kv)"
proof -
  obtain d where d: "ups_db w = Some (Some d)" "dlive d" using op by (auto simp: ups_opened_def)
  let ?k = "\<lparr>ui_size = kv_ksize kv, ui_data = kv_k kv\<rparr>" and ?v = "\<lparr>ui_size = kv_vsize kv, ui_data = kv_v kv\<rparr>"
    and ?z = "\<lparr>ui_size = 0, ui_data = None\<rparr>"
  have tp: "live_or_null alive (uc_txn ctx)" using good by (simp add: ups_good_def)
  have "\<exists>rc tp l'. ups_db_insert lib (Some d) (uc_txn ctx) ?k ?v (UPS_OVERWRITE lib) (uw_lib w) = Some (rc, tp, l') \<and> same_or_live alive (uc_txn ctx) tp"
    "\<exists>rc tp l'. ups_db_erase lib (Some d) (uc_txn ctx) ?k (uw_lib w) = Some (rc, tp, l') \<and> same_or_live alive (uc_txn ctx) tp"
    "\<exists>rc tp v l'. ups_db_find lib (Some d) (uc_txn ctx) ?k ?z (uw_lib w) = Some (rc, tp, v, l') \<and> same_or_live alive (uc_txn ctx) tp"
    using ups_libD(3) [OF lib] d(2) tp kv by (simp_all add: ups_records_def kv_ready_def)
  then obtain rc1 tp1 l1 rc2 tp2 l2 rc3 tp3 v l3 where
    1: "ups_db_insert lib (Some d) (uc_txn ctx) ?k ?v (UPS_OVERWRITE lib) (uw_lib w) = Some (rc1, tp1, l1)" "same_or_live alive (uc_txn ctx) tp1" and
    2: "ups_db_erase lib (Some d) (uc_txn ctx) ?k (uw_lib w) = Some (rc2, tp2, l2)" "same_or_live alive (uc_txn ctx) tp2" and
    3: "ups_db_find lib (Some d) (uc_txn ctx) ?k ?z (uw_lib w) = Some (rc3, tp3, v, l3)" "same_or_live alive (uc_txn ctx) tp3" by blast
  have live: "live_or_null alive tp'" if "same_or_live alive (uc_txn ctx) tp'" for tp' using that by (cases "uc_txn ctx") auto
  consider "step = IA_SET" | "step = IA_DELETE" | "step = IA_GET" using step by auto
  then show ?thesis
  proof cases
    case 1
    then show ?thesis using d(1) \<open>ups_db_insert lib _ _ _ _ _ _ = _\<close> live [OF \<open>same_or_live _ _ tp1\<close>] good
      by (simp add: ia_upscaledb_next_def ups_good_def Let_def)
  next
    case 2
    then show ?thesis using d(1) \<open>ups_db_erase lib _ _ _ _ = _\<close> live [OF \<open>same_or_live _ _ tp2\<close>] good
      by (simp add: ia_upscaledb_next_def ups_good_def Let_def)
  next
    case 3
    then show ?thesis using d(1) \<open>ups_db_find lib _ _ _ _ _ = _\<close> live [OF \<open>same_or_live _ _ tp3\<close>] good
      by (simp add: ia_upscaledb_next_def ups_good_def Let_def)
  qed
qed

lemma ups_iterate_ok:
  assumes lib: "ups_library lib elive dlive alive clive" and good: "ups_good alive clive ctx" and c: "uc_cursor ctx \<noteq> None"
  shows "\<exists>rc kv' ctx' w'. ia_upscaledb_next lib ctx IA_ITERATE kv w = Some (rc, kv', ctx', w') \<and> uw_priv w' = uw_priv w \<and>
    ups_good alive clive ctx' \<and> uc_cursor ctx' \<noteq> None \<and> rc \<in> {0, ENOENT, -1}"
proof -
  obtain c where c: "uc_cursor ctx = Some c" "clive c" using good c by (auto simp: ups_good_def)
  have "\<exists>rc c' k' v' l'. ups_cursor_move lib (Some c) k v fl l = Some (rc, Some c', k', v', l') \<and> clive c'" for k v fl l
    using ups_libD(2) [OF lib] c(2) by (simp add: ups_transactions_def)
  then obtain rc1 c1 k v l1 where 1: "ups_cursor_move lib (Some c) \<lparr>ui_size = kv_ksize kv, ui_data = kv_k kv\<rparr> \<lparr>ui_size = 0, ui_data = None\<rparr>
      (UPS_CURSOR_NEXT lib) (uw_lib w) = Some (rc1, Some c1, k, v, l1)" "clive c1" by blast
  show ?thesis using c 1 good by (simp add: ia_upscaledb_next_def ups_good_def Let_def)
qed

lemma ups_program_holds:
  fixes lib :: "('env, 'db, 'txn, 'cur, 'l) ups_lib"
  assumes lib: "ups_library lib elive dlive alive clive" and calm: "ups_creates lib"
  shows "program_driver (ia_upscaledb mem True lib) (ups_opened elive dlive) (\<lambda>ctx w. ups_opened elive dlive w \<and> ups_good alive clive ctx)
    (\<lambda>b ctx w. ups_ready b ctx) (\<lambda>w w'. uw_priv w' = uw_priv w) (\<lambda>w. uw_priv w = None) (ups_closeable elive dlive)"
  unfolding ia_upscaledb_def
proof (rule private_driverI [where priv = uw_priv and ready = ups_ready], goal_cases)
  case (3 ctx w)
  then show ?case using ups_dispose_ok [OF lib] by simp
next
  case (4 b ctx w)
  then show ?case using ups_begin_ok [OF lib 4] by simp
next
  case (5 b ctx w)
  then show ?case using ups_done_ok [OF lib 5(2,3)] by simp
next
  case (6 step kv ctx w)
  then show ?case using ups_data_ok [OF lib 6] by (fastforce simp: ups_ready_def)
next
  case (7 kv ctx w)
  then show ?case using ups_iterate_ok [OF lib 7(2), of kv w] by (simp add: ups_ready_def)
next
  case (9 conf dir w)
  then show ?case using ups_open_ok [OF lib calm] by simp
next
  case (10 w)
  then show ?case using ups_close_ok [OF lib] by simp
qed (auto simp: ups_opened_def ups_closeable_def ups_env_def ups_db_def ups_good_def ia_upscaledb_thread_new_def)

text \<open>
  When the environment cannot be created \<open>open\<close> fails, as it should, but \<open>close\<close>, which the program
  calls then, hands the library the pointer of the database, which was never set.
\<close>

lemma upscaledb_failed_create:
  assumes "ups_env_create lib None (dir @ ''/test.db'') (ups_flags lib conf) (uw_lib w) = Some (rc, ep, l)" "rc \<noteq> UPS_SUCCESS lib"
  shows "\<exists>w'. ia_upscaledb_open True True lib conf dir w = Some (-1, w') \<and> ia_upscaledb_close lib w' = None"
  using assms by (simp add: ia_upscaledb_open_def ia_upscaledb_close_def ups_db_def Let_def)

section \<open>A library that can be run\<close>

text \<open>
  A library that keeps its records in a list; a transaction is nothing, a cursor is the number of the
  records it has passed.
\<close>

definition ups_bytes :: "ups_item \<Rightarrow> u8 list" where
  "ups_bytes v = (case ui_data v of None \<Rightarrow> [] | Some bs \<Rightarrow> take (unat (ui_size v)) bs)"

definition ups_value :: "u8 list \<Rightarrow> ups_item" where
  "ups_value bs = \<lparr>ui_size = of_nat (length bs), ui_data = Some bs\<rparr>"

definition sample_ups :: "(unit, unit, unit, nat, (u8 list \<times> u8 list) list) ups_lib" where
  "sample_ups = \<lparr>UPS_SUCCESS = 0, UPS_KEY_NOT_FOUND = -11, UPS_ENABLE_TRANSACTIONS = 0x20000, UPS_ENABLE_FSYNC = 1,
     UPS_FLUSH_TRANSACTIONS_IMMEDIATELY = 0x80000, UPS_DISABLE_RECOVERY = 0x8000, UPS_OVERWRITE = 1, UPS_CURSOR_NEXT = 4,
     ups_env_create = (\<lambda>old file fl l. Some (0, Some (Some ()), l)),
     ups_env_create_db = (\<lambda>ep old n l. map_option (\<lambda>_. (0, Some (Some ()), l)) ep),
     ups_db_close = (\<lambda>dp l. Some (if dp = None then -8 else 0, l)), ups_env_close = (\<lambda>ep l. Some (if ep = None then -8 else 0, l)),
     ups_cursor_create = (\<lambda>cp dp tp l. map_option (\<lambda>_. (0, Some 0, l)) dp), ups_cursor_close = (\<lambda>c l. Some (0, l)),
     ups_cursor_move = (\<lambda>cp k v fl l. map_option (\<lambda>c. if c < length l
        then (0, Some (Suc c), ups_value (fst (l ! c)), ups_value (snd (l ! c)), l) else (-11, Some c, k, v, l)) cp),
     ups_txn_begin = (\<lambda>tp ep l. map_option (\<lambda>_. (0, Some (), l)) ep), ups_txn_commit = (\<lambda>t l. Some (0, None, l)),
     ups_txn_abort = (\<lambda>t l. Some (0, l)),
     ups_db_insert = (\<lambda>dp tp k v fl l. map_option (\<lambda>_. (0, tp, (ups_bytes k, ups_bytes v) # filter (\<lambda>r. fst r \<noteq> ups_bytes k) l)) dp),
     ups_db_erase = (\<lambda>dp tp k l. map_option (\<lambda>_. (if ups_bytes k \<in> fst ` set l then 0 else -11, tp, filter (\<lambda>r. fst r \<noteq> ups_bytes k) l)) dp),
     ups_db_find = (\<lambda>dp tp k v l. map_option (\<lambda>_. case map_of l (ups_bytes k) of
        None \<Rightarrow> (-11, tp, v, l) | Some x \<Rightarrow> (0, tp, ups_value x, l)) dp)\<rparr>"

lemma sample_ups_library: "ups_library sample_ups (\<lambda>e. True) (\<lambda>d. True) (\<lambda>t. True) (\<lambda>c. True)"
  unfolding ups_library_def
proof (intro conjI)
  have any: "live_or_null (\<lambda>x. True) p" for p :: "'z option" by (cases p) simp_all
  have same: "same_or_live (\<lambda>x. True) p p" for p :: "'z option" by (cases p) simp_all
  show "ups_handles sample_ups (\<lambda>e. True) (\<lambda>d. True)" by (simp add: ups_handles_def sample_ups_def)
  show "ups_transactions sample_ups (\<lambda>e. True) (\<lambda>d. True) (\<lambda>t. True) (\<lambda>c. True)" by (simp add: ups_transactions_def sample_ups_def)
  show "ups_records sample_ups (\<lambda>d. True) (\<lambda>t. True)" by (simp add: ups_records_def sample_ups_def same split: option.split)
qed

lemma sample_ups_creates: "ups_creates sample_ups"
  by (simp add: ups_creates_def sample_ups_def)

end
