(* ===== verification/DriverContracts.thy ===== *)
theory DriverContracts
  imports LevelProperties DriverIowow DriverWiredtiger DriverForestdb DriverUnqlite DriverUpscaledb
begin

text \<open>
  The contract of the benchmark for the drivers of one kind: no doer changes what the private struct of
  an open driver says, a context is good or not whatever the others do, and the driver takes no
  options.  Each rests on \<open>private_driverI\<close> and on the calls of its library as documented.
\<close>



end
