(* ===== verification/DriverSqlite3.thy ===== *)
theory DriverSqlite3
  imports Driver "HOL-Library.Monad_Syntax"
begin

text \<open>
  The SQLite driver (\<open>src/drivers/ia_sqlite3.c\<close>): the SQL text it composes from the keys, its
  operations, what of the contract of the benchmark it keeps, and where it does not.  The library is a
  parameter.  The driver reads keys as C strings, up to their terminator.
\<close>

section \<open>The library\<close>

text \<open>
  A connection and a statement are opaque; \<open>sqlite3_close\<close> gives back what is left of the connection,
  nothing when it was released.
\<close>

record ('db, 'stmt, 'l) sqlite_lib =
  SQLITE_OK :: int
  SQLITE_DONE :: int
  sqlite3_open :: "string \<Rightarrow> 'l \<Rightarrow> (int \<times> 'db option \<times> 'l) option"
  sqlite3_close :: "'db \<Rightarrow> 'l \<Rightarrow> (int \<times> 'db option \<times> 'l) option"
  sqlite3_exec :: "'db \<Rightarrow> u8 list \<Rightarrow> 'l \<Rightarrow> (int \<times> 'l) option"
  sqlite3_prepare_v2 :: "'db \<Rightarrow> u8 list \<Rightarrow> 'l \<Rightarrow> (int \<times> 'stmt option \<times> 'l) option"
  sqlite3_bind_blob :: "'stmt option \<Rightarrow> nat \<Rightarrow> u8 list option \<Rightarrow> u64 \<Rightarrow> 'l \<Rightarrow> (int \<times> 'l) option"
  sqlite3_step :: "'stmt option \<Rightarrow> 'l \<Rightarrow> (int \<times> 'l) option"
  sqlite3_finalize :: "'stmt option \<Rightarrow> 'l \<Rightarrow> (int \<times> 'l) option"

section \<open>State of the driver\<close>

text \<open>The pointer of the private struct: null, to a connection, or to one that has been released.\<close>

datatype 'db connection = No_connection | Connection 'db | Released

record 'db sqlite_private =
  sq_db :: "'db connection"

record ('db, 'l) sqlite_world =
  sw_priv :: "'db sqlite_private option"
  sw_lib :: 'l

definition of_pointer :: "'db option \<Rightarrow> 'db connection" where
  "of_pointer p = (case p of None \<Rightarrow> No_connection | Some d \<Rightarrow> Connection d)"

text \<open>The connection, for a call that uses it.\<close>

fun the_connection :: "'db connection \<Rightarrow> 'db option" where
  "the_connection (Connection d) = Some d"
| "the_connection No_connection = None"
| "the_connection Released = None"

definition sqlite_db :: "('db, 'l) sqlite_world \<Rightarrow> 'db option" where
  "sqlite_db w = do { self \<leftarrow> sw_priv w; the_connection (sq_db self) }"

text \<open>A call of \<open>sqlite3_close\<close>: nothing for null, a crash for a connection that has been released.\<close>

fun sqlite_release :: "('db, 'stmt, 'l) sqlite_lib \<Rightarrow> 'db connection \<Rightarrow> 'l \<Rightarrow> ('db connection \<times> 'l) option" where
  "sqlite_release lib No_connection l = Some (No_connection, l)"
| "sqlite_release lib (Connection d) l =
     do { (rc, left, l) \<leftarrow> sqlite3_close lib d l; Some (case left of None \<Rightarrow> Released | Some d \<Rightarrow> Connection d, l) }"
| "sqlite_release lib Released l = None"

section \<open>The commands\<close>

definition CMD_SIZE :: nat where
  "CMD_SIZE = 1024"

definition sql :: "string \<Rightarrow> u8 list" where
  "sql s = map of_char s"

text \<open>The string a pointer points to: the bytes up to the terminator, nothing without one.\<close>

definition c_string :: "u8 list option \<Rightarrow> u8 list option" where
  "c_string p = (case p of None \<Rightarrow> None | Some bs \<Rightarrow> if 0 \<in> set bs then Some (takeWhile (\<lambda>b. b \<noteq> 0) bs) else None)"

text \<open>\<open>snprintf\<close> of a format with one \<open>%s\<close> into the command buffer.\<close>

definition command :: "string \<Rightarrow> string \<Rightarrow> u8 list option \<Rightarrow> u8 list option" where
  "command before after p = map_option (\<lambda>k. take (CMD_SIZE - 1) (sql before @ k @ sql after)) (c_string p)"

definition insert_command :: "u8 list option \<Rightarrow> u8 list option" where
  "insert_command = command ''INSERT INTO benchmark_t (key, value) VALUES(\"'' ''\", ?);''"

definition delete_command :: "u8 list option \<Rightarrow> u8 list option" where
  "delete_command = command ''DELETE FROM benchmark_t WHERE key = \"'' ''\";''"

definition select_command :: "u8 list option \<Rightarrow> u8 list option" where
  "select_command = command ''SELECT * FROM benchmark_t WHERE key = \"'' ''\";''"

fun synchronous_pragma :: "iasyncmode \<Rightarrow> u8 list" where
  "synchronous_pragma IA_SYNC = sql ''PRAGMA synchronous=2;''"
| "synchronous_pragma IA_LAZY = sql ''PRAGMA synchronous=1;''"
| "synchronous_pragma IA_NOSYNC = sql ''PRAGMA synchronous=0;''"

fun journal_pragma :: "iawalmode \<Rightarrow> u8 list" where
  "journal_pragma IA_WAL_INDEF = []"
| "journal_pragma IA_WAL_ON = sql ''PRAGMA journal_mode=WAL;''"
| "journal_pragma IA_WAL_OFF = sql ''PRAGMA journal_mode=OFF;''"

section \<open>Opening and closing\<close>

text \<open>The commands of \<open>open\<close>, one after the other; after one that fails the connection is released.\<close>

fun sqlite_setup :: "('db, 'stmt, 'l) sqlite_lib \<Rightarrow> u8 list list \<Rightarrow> ('db, 'l) sqlite_world \<Rightarrow> (int \<times> ('db, 'l) sqlite_world) option" where
  "sqlite_setup lib [] w = Some (0, w)"
| "sqlite_setup lib (cmd # cmds) w =
     do { self \<leftarrow> sw_priv w;
          db \<leftarrow> the_connection (sq_db self);
          (rc, l) \<leftarrow> sqlite3_exec lib db cmd (sw_lib w);
          if rc \<noteq> SQLITE_OK lib then do {
            (conn, l) \<leftarrow> sqlite_release lib (sq_db self) l;
            Some (-1, w\<lparr>sw_priv := Some (self\<lparr>sq_db := conn\<rparr>), sw_lib := l\<rparr>) }
          else sqlite_setup lib cmds (w\<lparr>sw_lib := l\<rparr>) }"

definition ia_sqlite3_open ::
  "bool \<Rightarrow> ('db, 'stmt, 'l) sqlite_lib \<Rightarrow> iaconfig \<Rightarrow> string \<Rightarrow> ('db, 'l) sqlite_world \<Rightarrow> (int \<times> ('db, 'l) sqlite_world) option" where
  "ia_sqlite3_open mem lib conf datadir w =
     (if \<not> mem then Some (-1, w\<lparr>sw_priv := None\<rparr>)
      else do {
        (rc, db, l) \<leftarrow> sqlite3_open lib (datadir @ ''/test.sqlite'') (sw_lib w);
        let self = \<lparr>sq_db = of_pointer db\<rparr>;
        if rc \<noteq> 0 then do {
          (conn, l) \<leftarrow> sqlite_release lib (sq_db self) l;
          Some (-1, w\<lparr>sw_priv := Some (self\<lparr>sq_db := conn\<rparr>), sw_lib := l\<rparr>) }
        else sqlite_setup lib [synchronous_pragma (c_syncmode conf), journal_pragma (c_walmode conf),
               sql ''CREATE TABLE IF NOT EXISTS benchmark_t(key TEXT PRIMARY KEY, value BLOB)'']
               (w\<lparr>sw_priv := Some self, sw_lib := l\<rparr>) })"

definition ia_sqlite3_close ::
  "('db, 'stmt, 'l) sqlite_lib \<Rightarrow> ('db, 'l) sqlite_world \<Rightarrow> (int \<times> ('db, 'l) sqlite_world) option" where
  "ia_sqlite3_close lib w =
     (case sw_priv w of
        None \<Rightarrow> Some (0, w)
      | Some self \<Rightarrow> do {
          (conn, l) \<leftarrow> sqlite_release lib (sq_db self) (sw_lib w);
          Some (0, w\<lparr>sw_priv := None, sw_lib := l\<rparr>) })"

section \<open>Contexts and transactions\<close>

text \<open>The context is a block that nothing uses.\<close>

definition ia_sqlite3_thread_new :: "bool \<Rightarrow> ('db, 'l) sqlite_world \<Rightarrow> (unit option \<times> ('db, 'l) sqlite_world) option" where
  "ia_sqlite3_thread_new mem w = Some (if mem then Some () else None, w)"

definition ia_sqlite3_thread_dispose :: "unit \<Rightarrow> ('db, 'l) sqlite_world \<Rightarrow> ('db, 'l) sqlite_world option" where
  "ia_sqlite3_thread_dispose ctx w = Some w"

definition ia_sqlite3_begin ::
  "('db, 'stmt, 'l) sqlite_lib \<Rightarrow> unit \<Rightarrow> iabenchmark \<Rightarrow> ('db, 'l) sqlite_world \<Rightarrow> (int \<times> unit \<times> ('db, 'l) sqlite_world) option" where
  "ia_sqlite3_begin lib ctx step w =
     (if step \<in> {IA_CRUD, IA_BATCH} then do {
        db \<leftarrow> sqlite_db w;
        (rc, l) \<leftarrow> sqlite3_exec lib db (sql ''BEGIN;'') (sw_lib w);
        Some (if rc \<noteq> SQLITE_OK lib then -1 else rc, ctx, w\<lparr>sw_lib := l\<rparr>) }
      else if step \<in> {IA_SET, IA_DELETE, IA_ITERATE, IA_GET} then Some (0, ctx, w)
      else None)"

definition ia_sqlite3_done ::
  "('db, 'stmt, 'l) sqlite_lib \<Rightarrow> unit \<Rightarrow> iabenchmark \<Rightarrow> ('db, 'l) sqlite_world \<Rightarrow> (int \<times> unit \<times> ('db, 'l) sqlite_world) option" where
  "ia_sqlite3_done lib ctx step w =
     (if step \<in> {IA_CRUD, IA_BATCH} then do {
        db \<leftarrow> sqlite_db w;
        (rc, l) \<leftarrow> sqlite3_exec lib db (sql ''COMMIT;'') (sw_lib w);
        Some (if rc \<noteq> SQLITE_OK lib then -1 else rc, ctx, w\<lparr>sw_lib := l\<rparr>) }
      else if step \<in> {IA_SET, IA_DELETE, IA_ITERATE, IA_GET} then Some (0, ctx, w)
      else None)"

section \<open>Operations\<close>

text \<open>
  A statement that cannot be bound or run is not finalized.  A delete or a get that fails releases
  the connection, which the private struct still points to.
\<close>

definition sqlite_insert :: "('db, 'stmt, 'l) sqlite_lib \<Rightarrow> iakv \<Rightarrow> ('db, 'l) sqlite_world \<Rightarrow> (int \<times> ('db, 'l) sqlite_world) option" where
  "sqlite_insert lib kv w =
     do { cmd \<leftarrow> insert_command (kv_k kv);
          db \<leftarrow> sqlite_db w;
          (rc, stmt, l) \<leftarrow> sqlite3_prepare_v2 lib db cmd (sw_lib w);
          if rc \<noteq> SQLITE_OK lib then Some (-1, w\<lparr>sw_lib := l\<rparr>)
          else do {
            (rc, l) \<leftarrow> sqlite3_bind_blob lib stmt 1 (kv_v kv) (kv_vsize kv) l;
            if rc \<noteq> SQLITE_OK lib then Some (-1, w\<lparr>sw_lib := l\<rparr>)
            else do {
              (rc, l) \<leftarrow> sqlite3_step lib stmt l;
              if rc \<noteq> SQLITE_DONE lib then Some (-1, w\<lparr>sw_lib := l\<rparr>)
              else do { (rc, l) \<leftarrow> sqlite3_finalize lib stmt l; Some (0, w\<lparr>sw_lib := l\<rparr>) } } } }"

definition sqlite_run :: "('db, 'stmt, 'l) sqlite_lib \<Rightarrow> u8 list option \<Rightarrow> ('db, 'l) sqlite_world \<Rightarrow> (int \<times> ('db, 'l) sqlite_world) option" where
  "sqlite_run lib cmd w =
     do { cmd \<leftarrow> cmd;
          self \<leftarrow> sw_priv w;
          db \<leftarrow> the_connection (sq_db self);
          (rc, l) \<leftarrow> sqlite3_exec lib db cmd (sw_lib w);
          if rc \<noteq> SQLITE_OK lib then do {
            (conn, l) \<leftarrow> sqlite_release lib (sq_db self) l;
            Some (-1, w\<lparr>sw_priv := Some (self\<lparr>sq_db := conn\<rparr>), sw_lib := l\<rparr>) }
          else Some (0, w\<lparr>sw_lib := l\<rparr>) }"

definition ia_sqlite3_next ::
  "('db, 'stmt, 'l) sqlite_lib \<Rightarrow> unit \<Rightarrow> iabenchmark \<Rightarrow> iakv \<Rightarrow> ('db, 'l) sqlite_world \<Rightarrow> (int \<times> iakv \<times> unit \<times> ('db, 'l) sqlite_world) option" where
  "ia_sqlite3_next lib ctx step kv w =
     (case step of
        IA_SET \<Rightarrow> do { (rc, w) \<leftarrow> sqlite_insert lib kv w; Some (rc, kv, ctx, w) }
      | IA_DELETE \<Rightarrow> do { (rc, w) \<leftarrow> sqlite_run lib (delete_command (kv_k kv)) w; Some (rc, kv, ctx, w) }
      | IA_GET \<Rightarrow> do { (rc, w) \<leftarrow> sqlite_run lib (select_command (kv_k kv)) w; Some (rc, kv, ctx, w) }
      | IA_ITERATE \<Rightarrow> Some (ENOSYS, kv, ctx, w)
      | _ \<Rightarrow> None)"

definition ia_sqlite3 :: "bool \<Rightarrow> ('db, 'stmt, 'l) sqlite_lib \<Rightarrow> (('db, 'l) sqlite_world, unit) iadriver" where
  "ia_sqlite3 mem lib = \<lparr>d_name = ''sqlite3'', d_open = ia_sqlite3_open mem lib, d_close = ia_sqlite3_close lib,
     d_thread_new = ia_sqlite3_thread_new mem, d_thread_dispose = ia_sqlite3_thread_dispose,
     d_begin = ia_sqlite3_begin lib, d_next = ia_sqlite3_next lib, d_done = ia_sqlite3_done lib, d_option = None\<rparr>"

section \<open>The commands carry the keys\<close>

definition quote_mark :: u8 where
  "quote_mark = 34"

lemma c_string_terminated: "0 \<notin> set k \<Longrightarrow> c_string (Some (k @ 0 # rest)) = Some k"
  by (simp add: c_string_def takeWhile_tail) (metis (mono_tags, lifting) takeWhile_eq_all_conv)

lemma command_complete:
  assumes "0 \<notin> set k" and "length before + length k + length after < CMD_SIZE"
  shows "command before after (Some (k @ 0 # rest)) = Some (sql before @ k @ sql after)"
  using assms by (simp add: command_def c_string_terminated sql_def)

text \<open>The key is what stands between the first two quotes of a command.\<close>

definition quoted :: "u8 list \<Rightarrow> u8 list" where
  "quoted cmd = takeWhile (\<lambda>b. b \<noteq> quote_mark) (tl (dropWhile (\<lambda>b. b \<noteq> quote_mark) cmd))"

lemma quoted_append:
  assumes "quote_mark \<notin> set as" and "quote_mark \<notin> set k"
  shows "quoted (as @ quote_mark # k @ quote_mark # bs) = k"
proof -
  have "dropWhile (\<lambda>b. b \<noteq> quote_mark) (as @ quote_mark # k @ quote_mark # bs) = quote_mark # k @ quote_mark # bs"
    using assms(1) by (subst dropWhile_append2) auto
  moreover have "takeWhile (\<lambda>b. b \<noteq> quote_mark) (k @ quote_mark # bs) = k"
    using assms(2) by (subst takeWhile_append2) auto
  ultimately show ?thesis by (simp add: quoted_def)
qed

lemma commands_split:
  "sql ''INSERT INTO benchmark_t (key, value) VALUES(\"'' = sql ''INSERT INTO benchmark_t (key, value) VALUES('' @ [quote_mark]"
  "sql ''\", ?);'' = quote_mark # sql '', ?);''"
  "sql ''DELETE FROM benchmark_t WHERE key = \"'' = sql ''DELETE FROM benchmark_t WHERE key = '' @ [quote_mark]"
  "sql ''SELECT * FROM benchmark_t WHERE key = \"'' = sql ''SELECT * FROM benchmark_t WHERE key = '' @ [quote_mark]"
  "sql ''\";'' = quote_mark # sql '';''"
  by (simp_all add: sql_def quote_mark_def)

lemma commands_plain:
  "quote_mark \<notin> set (sql ''INSERT INTO benchmark_t (key, value) VALUES('')"
  "quote_mark \<notin> set (sql ''DELETE FROM benchmark_t WHERE key = '')"
  "quote_mark \<notin> set (sql ''SELECT * FROM benchmark_t WHERE key = '')"
  by (simp_all add: sql_def quote_mark_def)

lemma commands_carry:
  assumes "0 \<notin> set k" and "quote_mark \<notin> set k" and "length k \<le> 972"
  shows "map_option quoted (insert_command (Some (k @ 0 # rest))) = Some k"
    and "map_option quoted (delete_command (Some (k @ 0 # rest))) = Some k"
    and "map_option quoted (select_command (Some (k @ 0 # rest))) = Some k"
  using assms
  by (simp_all add: insert_command_def delete_command_def select_command_def command_complete CMD_SIZE_def commands_split
      quoted_append commands_plain)

text \<open>A longer key does not fit into the buffer with the rest of the insertion.\<close>

lemma insert_command_cut:
  assumes "0 \<notin> set k" and "972 < length k"
  shows "\<exists>cmd. insert_command (Some (k @ 0 # rest)) = Some cmd \<and> length cmd = 1023 \<and>
    cmd \<noteq> sql ''INSERT INTO benchmark_t (key, value) VALUES(\"'' @ k @ sql ''\", ?);''"
proof -
  have "length (sql ''INSERT INTO benchmark_t (key, value) VALUES(\"'' @ k @ sql ''\", ?);'') > 1023"
    using assms(2) by (simp add: sql_def)
  then show ?thesis
    using assms by (auto simp: insert_command_def command_def c_string_terminated CMD_SIZE_def dest: arg_cong [of _ _ length])
qed

lemma fill_chars_plain: "quote_mark \<notin> set (fst (fill_chars bits p acc left n))"
proof -
  have "quote_mark \<notin> set alphabet" by (simp add: alphabet_def quote_mark_def)
  then show ?thesis using fill_chars_alphabet by blast
qed

lemma key_text_plain: "0 \<notin> set (key_text g p)" "quote_mark \<notin> set (key_text g p)"
  by (simp_all add: key_text_def key_chars_def fill_chars_no_nul fill_chars_plain)

section \<open>The operations on an open connection\<close>

text \<open>
  The documented behaviour of the library: calls on connections and statements that are open return.
\<close>

definition sqlite_library :: "('db, 'stmt, 'l) sqlite_lib \<Rightarrow> ('db \<Rightarrow> bool) \<Rightarrow> ('stmt \<Rightarrow> bool) \<Rightarrow> bool" where
  "sqlite_library lib dlive slive \<longleftrightarrow>
     (\<forall>file l. \<exists>rc dp l'. sqlite3_open lib file l = Some (rc, dp, l') \<and> (if rc = 0 then \<exists>d. dp = Some d \<and> dlive d else live_or_null dlive dp)) \<and>
     (\<forall>d l. dlive d \<longrightarrow> (\<exists>rc left l'. sqlite3_close lib d l = Some (rc, left, l') \<and> live_or_null dlive left)) \<and>
     (\<forall>d cmd l. dlive d \<longrightarrow> (\<exists>rc l'. sqlite3_exec lib d cmd l = Some (rc, l'))) \<and>
     (\<forall>d cmd l. dlive d \<longrightarrow> (\<exists>rc sp l'. sqlite3_prepare_v2 lib d cmd l = Some (rc, sp, l') \<and>
        (rc = SQLITE_OK lib \<longrightarrow> (\<exists>s. sp = Some s \<and> slive s)))) \<and>
     (\<forall>s i v n l. slive s \<longrightarrow> readable v n \<longrightarrow> (\<exists>rc l'. sqlite3_bind_blob lib (Some s) i v n l = Some (rc, l'))) \<and>
     (\<forall>s l. slive s \<longrightarrow> (\<exists>rc l'. sqlite3_step lib (Some s) l = Some (rc, l'))) \<and>
     (\<forall>s l. slive s \<longrightarrow> (\<exists>rc l'. sqlite3_finalize lib (Some s) l = Some (rc, l')))"

definition sqlite_opened :: "('db \<Rightarrow> bool) \<Rightarrow> ('db, 'l) sqlite_world \<Rightarrow> bool" where
  "sqlite_opened dlive w \<longleftrightarrow> (\<exists>d. sw_priv w = Some \<lparr>sq_db = Connection d\<rparr> \<and> dlive d)"

lemma sqlite_opened_db: "sqlite_opened dlive w \<Longrightarrow> \<exists>d. sqlite_db w = Some d \<and> dlive d"
  by (auto simp: sqlite_opened_def sqlite_db_def)

lemma sqlite_insert_ok:
  assumes lib: "sqlite_library lib dlive slive" and op: "sqlite_opened dlive w"
    and cmd: "insert_command (kv_k kv) = Some cmd" and v: "readable (kv_v kv) (kv_vsize kv)"
  shows "\<exists>rc w'. sqlite_insert lib kv w = Some (rc, w') \<and> sw_priv w' = sw_priv w \<and> rc \<in> {0, -1}"
proof -
  obtain d where d: "sqlite_db w = Some d" "dlive d" using sqlite_opened_db [OF op] by blast
  have "\<exists>rc sp l'. sqlite3_prepare_v2 lib d cmd (sw_lib w) = Some (rc, sp, l') \<and> (rc = SQLITE_OK lib \<longrightarrow> (\<exists>s. sp = Some s \<and> slive s))"
    using lib d(2) by (simp add: sqlite_library_def)
  then obtain rc sp l1 where 1: "sqlite3_prepare_v2 lib d cmd (sw_lib w) = Some (rc, sp, l1)" "rc = SQLITE_OK lib \<longrightarrow> (\<exists>s. sp = Some s \<and> slive s)" by blast
  show ?thesis
  proof (cases "rc = SQLITE_OK lib")
    case True
    then obtain s where s: "sp = Some s" "slive s" using 1(2) by blast
    have "\<exists>rc l'. sqlite3_bind_blob lib (Some s) 1 (kv_v kv) (kv_vsize kv) l1 = Some (rc, l')" using lib s(2) v by (simp add: sqlite_library_def)
    then obtain rc2 l2 where 2: "sqlite3_bind_blob lib (Some s) 1 (kv_v kv) (kv_vsize kv) l1 = Some (rc2, l2)" by blast
    have "\<exists>rc l'. sqlite3_step lib (Some s) l2 = Some (rc, l')" using lib s(2) by (simp add: sqlite_library_def)
    then obtain rc3 l3 where 3: "sqlite3_step lib (Some s) l2 = Some (rc3, l3)" by blast
    have "\<exists>rc l'. sqlite3_finalize lib (Some s) l3 = Some (rc, l')" using lib s(2) by (simp add: sqlite_library_def)
    then show ?thesis using cmd d(1) 1(1) True s(1) 2 3 by (auto simp: sqlite_insert_def)
  qed (use cmd d(1) 1(1) in \<open>simp add: sqlite_insert_def\<close>)
qed

lemma sqlite_transaction_ok:
  assumes lib: "sqlite_library lib dlive slive" and op: "sqlite_opened dlive w" and b: "b < IA_MAX" and ok: "SQLITE_OK lib = 0"
  shows "\<exists>rc w'. ia_sqlite3_begin lib ctx b w = Some (rc, ctx, w') \<and> sw_priv w' = sw_priv w \<and> rc \<in> {0, -1}"
    and "\<exists>rc w'. ia_sqlite3_done lib ctx b w = Some (rc, ctx, w') \<and> sw_priv w' = sw_priv w \<and> rc \<in> {0, -1}"
proof -
  obtain d where d: "sqlite_db w = Some d" "dlive d" using sqlite_opened_db [OF op] by blast
  have exec: "\<exists>rc l'. sqlite3_exec lib d cmd l = Some (rc, l')" for cmd l using lib d(2) by (simp add: sqlite_library_def)
  show "\<exists>rc w'. ia_sqlite3_begin lib ctx b w = Some (rc, ctx, w') \<and> sw_priv w' = sw_priv w \<and> rc \<in> {0, -1}"
    using b d(1) ok exec [of "sql ''BEGIN;''" "sw_lib w"] by (cases b) (auto simp: ia_sqlite3_begin_def)
  show "\<exists>rc w'. ia_sqlite3_done lib ctx b w = Some (rc, ctx, w') \<and> sw_priv w' = sw_priv w \<and> rc \<in> {0, -1}"
    using b d(1) ok exec [of "sql ''COMMIT;''" "sw_lib w"] by (cases b) (auto simp: ia_sqlite3_done_def)
qed

section \<open>A released connection\<close>

text \<open>
  The driver after it has released its connection in an error path: the program still calls \<open>close\<close>,
  and the other doers go on.
\<close>

definition sqlite_dangling :: "('db, 'l) sqlite_world \<Rightarrow> bool" where
  "sqlite_dangling w \<longleftrightarrow> sw_priv w = Some \<lparr>sq_db = Released\<rparr>"

lemma sqlite_dangling_crashes:
  assumes "sqlite_dangling w"
  shows "ia_sqlite3_close lib w = None"
    and "step \<in> {IA_SET, IA_DELETE, IA_GET} \<Longrightarrow> ia_sqlite3_next lib ctx step kv w = None"
    and "b \<in> {IA_CRUD, IA_BATCH} \<Longrightarrow> ia_sqlite3_begin lib ctx b w = None \<and> ia_sqlite3_done lib ctx b w = None"
proof -
  have w: "sw_priv w = Some \<lparr>sq_db = Released\<rparr>" and db: "sqlite_db w = None"
    using assms by (simp_all add: sqlite_dangling_def sqlite_db_def)
  show "ia_sqlite3_close lib w = None" by (simp add: ia_sqlite3_close_def w)
  show "ia_sqlite3_next lib ctx step kv w = None" if "step \<in> {IA_SET, IA_DELETE, IA_GET}"
    using that by (auto simp: ia_sqlite3_next_def sqlite_insert_def sqlite_run_def w db split: Option.bind_splits)
  show "ia_sqlite3_begin lib ctx b w = None \<and> ia_sqlite3_done lib ctx b w = None" if "b \<in> {IA_CRUD, IA_BATCH}"
    using that by (auto simp: ia_sqlite3_begin_def ia_sqlite3_done_def db)
qed

lemma sqlite_run_fails:
  assumes "sw_priv w = Some \<lparr>sq_db = Connection d\<rparr>" and "sqlite3_exec lib d cmd (sw_lib w) = Some (rc, l1)" "rc \<noteq> SQLITE_OK lib"
    and "sqlite3_close lib d l1 = Some (rc', None, l2)"
  shows "\<exists>w'. sqlite_run lib (Some cmd) w = Some (-1, w') \<and> sqlite_dangling w'"
  using assms by (simp add: sqlite_run_def sqlite_dangling_def)

text \<open>A database that cannot be opened, and a command of \<open>open\<close> that fails.\<close>

lemma sqlite_open_fails:
  assumes "sqlite3_open lib (dir @ ''/test.sqlite'') (sw_lib w) = Some (rc, Some d, l1)" "rc \<noteq> 0"
    and "sqlite3_close lib d l1 = Some (rc', None, l2)"
  shows "\<exists>w'. ia_sqlite3_open True lib conf dir w = Some (-1, w') \<and> sqlite_dangling w'"
  using assms by (simp add: ia_sqlite3_open_def of_pointer_def sqlite_dangling_def Let_def)

lemma sqlite_setup_fails:
  assumes "sw_priv w = Some \<lparr>sq_db = Connection d\<rparr>"
    and "\<And>l. sqlite3_exec lib d cmd l = Some (rc, l)" "rc \<noteq> SQLITE_OK lib"
    and "\<And>c l. c \<noteq> cmd \<Longrightarrow> \<exists>l'. sqlite3_exec lib d c l = Some (SQLITE_OK lib, l')"
    and "\<And>l. sqlite3_close lib d l = Some (rc', None, l)" and "cmd \<in> set cmds"
  shows "\<exists>w'. sqlite_setup lib cmds w = Some (-1, w') \<and> sqlite_dangling w'"
  using assms(1,6)
proof (induction cmds arbitrary: w)
  case (Cons c cmds)
  show ?case
  proof (cases "c = cmd")
    case True
    then show ?thesis using Cons.prems(1) assms(2,3,5) by (simp add: sqlite_dangling_def)
  next
    case False
    then obtain l' where "sqlite3_exec lib d c (sw_lib w) = Some (SQLITE_OK lib, l')" using assms(4) by blast
    moreover have "cmd \<in> set cmds" using Cons.prems(2) False by simp
    ultimately show ?thesis using Cons.IH [of "w\<lparr>sw_lib := l'\<rparr>"] Cons.prems(1) by simp
  qed
qed simp

section \<open>Properties\<close>

text \<open>
  C35: the commands the SQLite driver composes carry the keys of the program: a generator of printable
  keys of at most 972 characters hands out records whose insertions, deletions and selections are
  complete commands, with exactly the key between the first two quotation marks.
\<close>

theorem sqlite3_commands_carry_keys:
  assumes "kvgen_ok g gen" and "unat (g_ksize g) \<le> 972"
  shows "\<exists>gen' kv. ia_kvgen_get g gen key_only = Some (gen', kv) \<and>
    map_option quoted (insert_command (kv_k kv)) = Some (kv_key kv) \<and>
    map_option quoted (delete_command (kv_k kv)) = Some (kv_key kv) \<and>
    map_option quoted (select_command (kv_k kv)) = Some (kv_key kv) \<and> length (kv_key kv) = unat (g_ksize g)"
proof -
  obtain gen' kv tl where get: "ia_kvgen_get g gen key_only = Some (gen', kv)" and ks: "kv_ksize kv = ucast (g_ksize g)"
    and k: "kv_k kv = Some (key_text g (key_point gen) @ 0 # tl)" by (rule kvgen_get_ok [OF assms(1), of key_only])
  have "g_ksize g \<noteq> 0" using assms(1) by (simp add: kvgen_ok_def)
  then have len: "length (key_text g (key_point gen)) = unat (g_ksize g)" by (rule length_key_text)
  then have "kv_key kv = key_text g (key_point gen)" by (simp add: kv_key_def k ks)
  then show ?thesis
    using get k len commands_carry [OF key_text_plain, of g "key_point gen" tl] assms(2) by simp
qed

theorem sqlite3_commands_carry_keys_witness:
  "\<exists>gen' kv. ia_kvgen_get (sample_globals 16 2 1000) (sample_gen (sample_globals 16 2 1000) 1) False = Some (gen', kv) \<and>
    map_option quoted (insert_command (kv_k kv)) = Some (kv_key kv) \<and>
    map_option quoted (delete_command (kv_k kv)) = Some (kv_key kv) \<and>
    map_option quoted (select_command (kv_k kv)) = Some (kv_key kv) \<and> length (kv_key kv) = unat (g_ksize (sample_globals 16 2 1000))"
  by (rule sqlite3_commands_carry_keys [OF sample_gen_ok]) (simp add: sample_globals_def)

text \<open>A library whose database is on a full disk: it opens nothing and runs no command.\<close>

definition full_sqlite :: "(unit, unit, unit) sqlite_lib" where
  "full_sqlite = \<lparr>SQLITE_OK = 0, SQLITE_DONE = 101, sqlite3_open = (\<lambda>file l. Some (14, Some (), l)),
     sqlite3_close = (\<lambda>d l. Some (0, None, l)), sqlite3_exec = (\<lambda>d cmd l. Some (13, l)),
     sqlite3_prepare_v2 = (\<lambda>d cmd l. Some (13, None, l)), sqlite3_bind_blob = (\<lambda>s i v n l. Some (0, l)),
     sqlite3_step = (\<lambda>s l. Some (13, l)), sqlite3_finalize = (\<lambda>s l. Some (0, l))\<rparr>"

text \<open>
  C36: where an error makes the SQLite driver release its connection it leaves the pointer behind: after
  an \<open>open\<close> that fails, and after a delete or a get that fails, the \<open>close\<close> of the program releases the
  connection a second time, and so does any operation of another doer use it.
\<close>

theorem sqlite3_releases_twice:
  assumes close: "\<forall>d l. \<exists>rc l'. sqlite3_close lib d l = Some (rc, None, l')"
    and no_open: "sqlite3_open lib (dir @ ''/test.sqlite'') (sw_lib w0) = Some (rc0, Some d0, l0)" "rc0 \<noteq> 0"
    and conn: "sw_priv w = Some \<lparr>sq_db = Connection d\<rparr>" and step: "step \<in> {IA_DELETE, IA_GET}"
    and cmd: "(if step = IA_DELETE then delete_command (kv_k kv) else select_command (kv_k kv)) = Some cmd"
    and no_exec: "sqlite3_exec lib d cmd (sw_lib w) = Some (rc, l)" "rc \<noteq> SQLITE_OK lib"
  shows "(\<exists>w'. ia_sqlite3_open True lib conf dir w0 = Some (-1, w') \<and> ia_sqlite3_close lib w' = None) \<and>
    (\<exists>w'. ia_sqlite3_next lib ctx step kv w = Some (-1, kv, ctx, w') \<and> ia_sqlite3_close lib w' = None \<and>
       (\<forall>step' \<in> {IA_SET, IA_DELETE, IA_GET}. \<forall>kv'. ia_sqlite3_next lib ctx step' kv' w' = None))"
proof
  obtain rc1 l1 where "sqlite3_close lib d0 l0 = Some (rc1, None, l1)" using close by blast
  then obtain w' where "ia_sqlite3_open True lib conf dir w0 = Some (-1, w')" "sqlite_dangling w'"
    using sqlite_open_fails [OF no_open] by blast
  then show "\<exists>w'. ia_sqlite3_open True lib conf dir w0 = Some (-1, w') \<and> ia_sqlite3_close lib w' = None"
    by (intro exI [of _ w'] conjI sqlite_dangling_crashes(1))
next
  obtain rc2 l2 where "sqlite3_close lib d l = Some (rc2, None, l2)" using close by blast
  then obtain w' where w': "sqlite_run lib (Some cmd) w = Some (-1, w')" "sqlite_dangling w'"
    using sqlite_run_fails [OF conn no_exec] by blast
  have "ia_sqlite3_next lib ctx step kv w = Some (-1, kv, ctx, w')"
    using step cmd w'(1) by (auto simp: ia_sqlite3_next_def)
  then show "\<exists>w'. ia_sqlite3_next lib ctx step kv w = Some (-1, kv, ctx, w') \<and> ia_sqlite3_close lib w' = None \<and>
       (\<forall>step' \<in> {IA_SET, IA_DELETE, IA_GET}. \<forall>kv'. ia_sqlite3_next lib ctx step' kv' w' = None)"
    by (intro exI [of _ w'] conjI ballI allI sqlite_dangling_crashes(1,2) [OF w'(2)])
qed

theorem sqlite3_releases_twice_witness:
  "(\<exists>w'. ia_sqlite3_open True full_sqlite blank_config ''data'' \<lparr>sw_priv = None, sw_lib = ()\<rparr> = Some (-1, w') \<and> ia_sqlite3_close full_sqlite w' = None) \<and>
    (\<exists>w'. ia_sqlite3_next full_sqlite () IA_GET \<lparr>kv_ksize = 1, kv_vsize = 0, kv_k = Some [65, 0], kv_v = None\<rparr>
         \<lparr>sw_priv = Some \<lparr>sq_db = Connection ()\<rparr>, sw_lib = ()\<rparr>
       = Some (-1, \<lparr>kv_ksize = 1, kv_vsize = 0, kv_k = Some [65, 0], kv_v = None\<rparr>, (), w') \<and> ia_sqlite3_close full_sqlite w' = None \<and>
       (\<forall>step' \<in> {IA_SET, IA_DELETE, IA_GET}. \<forall>kv'. ia_sqlite3_next full_sqlite () step' kv' w' = None))"
proof -
  obtain cmd where "select_command (Some [65, 0]) = Some cmd" by (simp add: select_command_def command_def c_string_def)
  then show ?thesis by (intro sqlite3_releases_twice) (simp_all add: full_sqlite_def, simp_all)
qed

end
