(* ===== verification/DriverVedisdb.thy ===== *)
theory DriverVedisdb
  imports Driver "HOL-Library.Monad_Syntax"
begin

text \<open>
  The Vedis driver (\<open>src/drivers/ia_vedisdb.c\<close>), what its operations return, and where that is not what
  the benchmark expects.  The library is a parameter.
\<close>

section \<open>The library\<close>

record ('db, 'l) vedis_lib =
  VEDIS_OK :: int
  VEDIS_NOTFOUND :: int
  VEDIS_BUSY :: int
  VEDIS_ABORT :: int
  vedis_lib_init :: "'l \<Rightarrow> (int \<times> 'l) option"
  vedis_lib_shutdown :: "'l \<Rightarrow> (int \<times> 'l) option"
  vedis_open :: "'db option \<Rightarrow> string \<Rightarrow> 'l \<Rightarrow> (int \<times> 'db option \<times> 'l) option"
  vedis_close :: "'db option \<Rightarrow> 'l \<Rightarrow> (int \<times> 'l) option"
  vedis_begin :: "'db option \<Rightarrow> 'l \<Rightarrow> (int \<times> 'l) option"
  vedis_commit :: "'db option \<Rightarrow> 'l \<Rightarrow> (int \<times> 'l) option"
  vedis_rollback :: "'db option \<Rightarrow> 'l \<Rightarrow> (int \<times> 'l) option"
  vedis_kv_store :: "'db option \<Rightarrow> u8 list option \<Rightarrow> u64 \<Rightarrow> u8 list option \<Rightarrow> u64 \<Rightarrow> 'l \<Rightarrow> (int \<times> 'l) option"
  vedis_kv_delete :: "'db option \<Rightarrow> u8 list option \<Rightarrow> u64 \<Rightarrow> 'l \<Rightarrow> (int \<times> 'l) option"
  vedis_kv_fetch :: "'db option \<Rightarrow> u8 list option \<Rightarrow> u64 \<Rightarrow> int \<Rightarrow> 'l \<Rightarrow> (int \<times> 'l) option"

section \<open>The driver\<close>

record 'db vedis_private =
  vp_db :: "'db option"

record ('db, 'l) vedis_world =
  vw_priv :: "'db vedis_private option"
  vw_lib :: 'l

text \<open>The result of \<open>vedis_open\<close> is returned as it is.\<close>

definition ia_vedisdb_open ::
  "bool \<Rightarrow> ('db, 'l) vedis_lib \<Rightarrow> iaconfig \<Rightarrow> string \<Rightarrow> ('db, 'l) vedis_world \<Rightarrow> (int \<times> ('db, 'l) vedis_world) option" where
  "ia_vedisdb_open mem lib conf datadir w =
     (if \<not> mem then Some (-1, w\<lparr>vw_priv := None\<rparr>)
      else do {
        let self = \<lparr>vp_db = None\<rparr>;
        (rc, l) \<leftarrow> vedis_lib_init lib (vw_lib w);
        if rc \<noteq> 0 then Some (-1, w\<lparr>vw_priv := Some self, vw_lib := l\<rparr>)
        else do {
          (rc, db, l) \<leftarrow> vedis_open lib (vp_db self) (datadir @ ''/test.vedisdb'') l;
          Some (rc, w\<lparr>vw_priv := Some (self\<lparr>vp_db := db\<rparr>), vw_lib := l\<rparr>) } })"

definition ia_vedisdb_close :: "('db, 'l) vedis_lib \<Rightarrow> ('db, 'l) vedis_world \<Rightarrow> (int \<times> ('db, 'l) vedis_world) option" where
  "ia_vedisdb_close lib w =
     (case vw_priv w of
        None \<Rightarrow> Some (0, w)
      | Some self \<Rightarrow> do {
          (rc, l) \<leftarrow> vedis_close lib (vp_db self) (vw_lib w);
          (rc, l) \<leftarrow> vedis_lib_shutdown lib l;
          Some (0, w\<lparr>vw_priv := None, vw_lib := l\<rparr>) })"

text \<open>The context is a block that nothing uses.\<close>

definition ia_vedisdb_thread_new :: "bool \<Rightarrow> ('db, 'l) vedis_world \<Rightarrow> (unit option \<times> ('db, 'l) vedis_world) option" where
  "ia_vedisdb_thread_new mem w = Some (if mem then Some () else None, w)"

definition ia_vedisdb_thread_dispose :: "unit \<Rightarrow> ('db, 'l) vedis_world \<Rightarrow> ('db, 'l) vedis_world option" where
  "ia_vedisdb_thread_dispose ctx w = Some w"

definition ia_vedisdb_begin ::
  "('db, 'l) vedis_lib \<Rightarrow> unit \<Rightarrow> iabenchmark \<Rightarrow> ('db, 'l) vedis_world \<Rightarrow> (int \<times> unit \<times> ('db, 'l) vedis_world) option" where
  "ia_vedisdb_begin lib ctx step w =
     (if step \<in> {IA_BATCH, IA_CRUD} then do {
        self \<leftarrow> vw_priv w;
        (rc, l) \<leftarrow> vedis_begin lib (vp_db self) (vw_lib w);
        Some (if rc = VEDIS_OK lib then 0 else -1, ctx, w\<lparr>vw_lib := l\<rparr>) }
      else if step \<in> {IA_SET, IA_DELETE, IA_ITERATE, IA_GET} then Some (0, ctx, w)
      else None)"

definition ia_vedisdb_done ::
  "('db, 'l) vedis_lib \<Rightarrow> unit \<Rightarrow> iabenchmark \<Rightarrow> ('db, 'l) vedis_world \<Rightarrow> (int \<times> unit \<times> ('db, 'l) vedis_world) option" where
  "ia_vedisdb_done lib ctx step w =
     (if step \<in> {IA_BATCH, IA_CRUD} then do {
        self \<leftarrow> vw_priv w;
        (rc, l) \<leftarrow> vedis_commit lib (vp_db self) (vw_lib w);
        if rc = VEDIS_OK lib then Some (0, ctx, w\<lparr>vw_lib := l\<rparr>)
        else if rc = VEDIS_BUSY lib then do {
          (rc, l) \<leftarrow> vedis_rollback lib (vp_db self) l;
          Some (-1, ctx, w\<lparr>vw_lib := l\<rparr>) }
        else Some (-1, ctx, w\<lparr>vw_lib := l\<rparr>) }
      else if step \<in> {IA_SET, IA_DELETE, IA_ITERATE, IA_GET} then Some (0, ctx, w)
      else None)"

text \<open>What a delete and a get make of the result of the library.\<close>

definition vedis_delete_result :: "('db, 'l) vedis_lib \<Rightarrow> int \<Rightarrow> int" where
  "vedis_delete_result lib rc =
     (let rc = (if rc = VEDIS_OK lib then 0 else -1)
      in if rc = VEDIS_OK lib then 0
         else if rc = VEDIS_NOTFOUND lib then ENOENT
         else if rc = VEDIS_BUSY lib then EBUSY
         else -1)"

definition vedis_get_result :: "('db, 'l) vedis_lib \<Rightarrow> int \<Rightarrow> int" where
  "vedis_get_result lib rc =
     (if rc = VEDIS_OK lib then 0
      else if rc = VEDIS_NOTFOUND lib then ENOENT
      else if rc = VEDIS_BUSY lib then EBUSY
      else if rc = VEDIS_ABORT lib then -1
      else -1)"

text \<open>
  \<open>vsize\<close> is the size of values of the configuration: the buffer of a get has that many bytes, and
  its first byte is set at once, whatever the operation.
\<close>

definition ia_vedisdb_next ::
  "int \<Rightarrow> ('db, 'l) vedis_lib \<Rightarrow> unit \<Rightarrow> iabenchmark \<Rightarrow> iakv \<Rightarrow> ('db, 'l) vedis_world \<Rightarrow> (int \<times> iakv \<times> unit \<times> ('db, 'l) vedis_world) option" where
  "ia_vedisdb_next vsize lib ctx step kv w =
     (if vsize \<le> 0 then None
      else case step of
        IA_SET \<Rightarrow> do {
          self \<leftarrow> vw_priv w;
          (rc, l) \<leftarrow> vedis_kv_store lib (vp_db self) (kv_k kv) (kv_ksize kv) (kv_v kv) (kv_vsize kv) (vw_lib w);
          Some (if rc = VEDIS_OK lib then 0 else -1, kv, ctx, w\<lparr>vw_lib := l\<rparr>) }
      | IA_DELETE \<Rightarrow> do {
          self \<leftarrow> vw_priv w;
          (rc, l) \<leftarrow> vedis_kv_delete lib (vp_db self) (kv_k kv) (kv_ksize kv) (vw_lib w);
          Some (vedis_delete_result lib rc, kv, ctx, w\<lparr>vw_lib := l\<rparr>) }
      | IA_GET \<Rightarrow> do {
          self \<leftarrow> vw_priv w;
          (rc, l) \<leftarrow> vedis_kv_fetch lib (vp_db self) (kv_k kv) (kv_ksize kv) vsize (vw_lib w);
          Some (vedis_get_result lib rc, kv, ctx, w\<lparr>vw_lib := l\<rparr>) }
      | IA_ITERATE \<Rightarrow> Some (ENOSYS, kv, ctx, w)
      | _ \<Rightarrow> None)"

definition ia_vedisdb :: "int \<Rightarrow> bool \<Rightarrow> ('db, 'l) vedis_lib \<Rightarrow> (('db, 'l) vedis_world, unit) iadriver" where
  "ia_vedisdb vsize mem lib = \<lparr>d_name = ''vedisdb'', d_open = ia_vedisdb_open mem lib, d_close = ia_vedisdb_close lib,
     d_thread_new = ia_vedisdb_thread_new mem, d_thread_dispose = ia_vedisdb_thread_dispose,
     d_begin = ia_vedisdb_begin lib, d_next = ia_vedisdb_next vsize lib, d_done = ia_vedisdb_done lib, d_option = None\<rparr>"

section \<open>What the operations return\<close>

text \<open>
  The documented behaviour of the library: its codes are different and not positive, and calls on a
  handle that has been opened (\<open>dlive\<close>) return.
\<close>

definition vedis_library :: "('db, 'l) vedis_lib \<Rightarrow> ('db \<Rightarrow> bool) \<Rightarrow> bool" where
  "vedis_library lib dlive \<longleftrightarrow>
     VEDIS_OK lib = 0 \<and> VEDIS_NOTFOUND lib < -1 \<and> VEDIS_BUSY lib < -1 \<and> VEDIS_BUSY lib \<noteq> VEDIS_NOTFOUND lib \<and>
     (\<forall>d l. dlive d \<longrightarrow> (\<exists>rc l'. vedis_begin lib (Some d) l = Some (rc, l')) \<and> (\<exists>rc l'. vedis_commit lib (Some d) l = Some (rc, l')) \<and>
        (\<exists>rc l'. vedis_rollback lib (Some d) l = Some (rc, l'))) \<and>
     (\<forall>d k ksize l. dlive d \<longrightarrow> readable k ksize \<longrightarrow>
        (\<forall>v vsize. readable v vsize \<longrightarrow> (\<exists>rc l'. vedis_kv_store lib (Some d) k ksize v vsize l = Some (rc, l'))) \<and>
        (\<exists>rc l'. vedis_kv_delete lib (Some d) k ksize l = Some (rc, l')) \<and>
        (\<forall>n. \<exists>rc l'. vedis_kv_fetch lib (Some d) k ksize n l = Some (rc, l')))"

definition vedis_opened :: "('db \<Rightarrow> bool) \<Rightarrow> ('db, 'l) vedis_world \<Rightarrow> bool" where
  "vedis_opened dlive w \<longleftrightarrow> (\<exists>d. vw_priv w = Some \<lparr>vp_db = Some d\<rparr> \<and> dlive d)"

lemma vedis_transactions_ok:
  assumes lib: "vedis_library lib dlive" and op: "vedis_opened dlive w" and b: "b < IA_MAX"
  shows "\<exists>rc w'. ia_vedisdb_begin lib ctx b w = Some (rc, ctx, w') \<and> vw_priv w' = vw_priv w \<and> rc \<in> {0, -1}"
    and "\<exists>rc w'. ia_vedisdb_done lib ctx b w = Some (rc, ctx, w') \<and> vw_priv w' = vw_priv w \<and> rc \<in> {0, -1}"
proof -
  obtain d where d: "vw_priv w = Some \<lparr>vp_db = Some d\<rparr>" "dlive d" using op by (auto simp: vedis_opened_def)
  have calls: "\<exists>rc l'. vedis_begin lib (Some d) l = Some (rc, l')" "\<exists>rc l'. vedis_commit lib (Some d) l = Some (rc, l')"
    "\<exists>rc l'. vedis_rollback lib (Some d) l = Some (rc, l')" for l
    using lib d(2) by (simp_all add: vedis_library_def)
  show "\<exists>rc w'. ia_vedisdb_begin lib ctx b w = Some (rc, ctx, w') \<and> vw_priv w' = vw_priv w \<and> rc \<in> {0, -1}"
    using b d(1) calls(1) [of "vw_lib w"] by (cases b) (auto simp: ia_vedisdb_begin_def)
  obtain rc l where 1: "vedis_commit lib (Some d) (vw_lib w) = Some (rc, l)" using calls(2) by blast
  obtain rc' l' where 2: "vedis_rollback lib (Some d) l = Some (rc', l')" using calls(3) by blast
  show "\<exists>rc w'. ia_vedisdb_done lib ctx b w = Some (rc, ctx, w') \<and> vw_priv w' = vw_priv w \<and> rc \<in> {0, -1}"
    using b d(1) 1 2 by (cases b) (auto simp: ia_vedisdb_done_def)
qed

text \<open>A delete never says that there is no such record; the test comes after the code is gone.\<close>

lemma vedis_delete_codes:
  assumes "vedis_library lib dlive"
  shows "vedis_delete_result lib rc = (if rc = VEDIS_OK lib then 0 else -1)"
  using assms by (auto simp: vedis_library_def vedis_delete_result_def Let_def)

lemma vedis_get_codes:
  assumes "vedis_library lib dlive"
  shows "vedis_get_result lib rc \<in> {0, ENOENT, EBUSY, -1}" "vedis_get_result lib rc = ENOENT \<longleftrightarrow> rc = VEDIS_NOTFOUND lib"
  using assms by (auto simp: vedis_library_def vedis_get_result_def ENOENT_def EBUSY_def)

lemma vedis_data_ok:
  assumes lib: "vedis_library lib dlive" and op: "vedis_opened dlive w" and kv: "kv_ready kv" and vsize: "0 < vsize"
    and step: "step \<in> {IA_SET, IA_DELETE, IA_GET}"
  shows "\<exists>rc w'. ia_vedisdb_next vsize lib ctx step kv w = Some (rc, kv, ctx, w') \<and> vw_priv w' = vw_priv w \<and>
    (step \<in> {IA_SET, IA_DELETE} \<longrightarrow> rc \<in> {0, -1}) \<and> rc \<in> {0, ENOENT, EBUSY, -1}"
proof -
  obtain d where d: "vw_priv w = Some \<lparr>vp_db = Some d\<rparr>" "dlive d" using op by (auto simp: vedis_opened_def)
  have "\<exists>rc l'. vedis_kv_store lib (Some d) (kv_k kv) (kv_ksize kv) (kv_v kv) (kv_vsize kv) (vw_lib w) = Some (rc, l')"
    "\<exists>rc l'. vedis_kv_delete lib (Some d) (kv_k kv) (kv_ksize kv) (vw_lib w) = Some (rc, l')"
    "\<exists>rc l'. vedis_kv_fetch lib (Some d) (kv_k kv) (kv_ksize kv) vsize (vw_lib w) = Some (rc, l')"
    using lib d(2) kv by (simp_all add: vedis_library_def kv_ready_def)
  then obtain rc1 l1 rc2 l2 rc3 l3 where
    1: "vedis_kv_store lib (Some d) (kv_k kv) (kv_ksize kv) (kv_v kv) (kv_vsize kv) (vw_lib w) = Some (rc1, l1)" and
    2: "vedis_kv_delete lib (Some d) (kv_k kv) (kv_ksize kv) (vw_lib w) = Some (rc2, l2)" and
    3: "vedis_kv_fetch lib (Some d) (kv_k kv) (kv_ksize kv) vsize (vw_lib w) = Some (rc3, l3)" by blast
  consider "step = IA_SET" | "step = IA_DELETE" | "step = IA_GET" using step by auto
  then show ?thesis
  proof cases
    case 1
    then show ?thesis using d(1) vsize \<open>vedis_kv_store lib _ _ _ _ _ _ = _\<close> by (simp add: ia_vedisdb_next_def)
  next
    case 2
    then show ?thesis using d(1) vsize \<open>vedis_kv_delete lib _ _ _ _ = _\<close> by (simp add: ia_vedisdb_next_def vedis_delete_codes [OF lib])
  next
    case 3
    then show ?thesis using d(1) vsize \<open>vedis_kv_fetch lib _ _ _ _ _ = _\<close> vedis_get_codes(1) [OF lib, of rc3]
      by (simp add: ia_vedisdb_next_def)
  qed
qed

text \<open>
  An \<open>open\<close> that fails with another code than -1 is taken for a success by the program, and goes on
  with a null handle.
\<close>

lemma vedis_open_code:
  assumes "vedis_lib_init lib (vw_lib w) = Some (0, l1)" and "vedis_open lib None (dir @ ''/test.vedisdb'') l1 = Some (rc, db, l2)"
  shows "ia_vedisdb_open True lib conf dir w = Some (rc, \<lparr>vw_priv = Some \<lparr>vp_db = db\<rparr>, vw_lib = l2\<rparr>)"
  using assms by (simp add: ia_vedisdb_open_def Let_def)

end
