(* ===== verification/DriverSophia.thy ===== *)
theory DriverSophia
  imports Driver "HOL-Library.Monad_Syntax"
begin

text \<open>
  The Sophia driver (\<open>src/drivers/ia_sophia.c\<close>), the codes its operations return, and where they are not
  what the benchmark expects.  The library is a parameter: everything it has is an object behind an
  opaque pointer, and what an object is at present is in the state of the library.
\<close>

section \<open>The library\<close>

text \<open>What \<open>sp_setstring\<close> is given: a string of the program, bytes of a record, or a function.\<close>

datatype sp_arg =
    Sp_text string
  | Sp_bytes "u8 list option"
  | Sp_function

text \<open>
  \<open>sp_getstring\<close> takes what the size it points to holds, \<open>None\<close> for the null pointer, and gives back what
  it holds then.
\<close>

record ('o, 'l) sophia_lib =
  sp_env :: "'l \<Rightarrow> ('o option \<times> 'l) option"
  sp_open :: "'o option \<Rightarrow> 'l \<Rightarrow> (int \<times> 'l) option"
  sp_setstring :: "'o option \<Rightarrow> string \<Rightarrow> sp_arg \<Rightarrow> u64 \<Rightarrow> 'l \<Rightarrow> (int \<times> 'l) option"
  sp_setint :: "'o option \<Rightarrow> string \<Rightarrow> int \<Rightarrow> 'l \<Rightarrow> (int \<times> 'l) option"
  sp_getobject :: "'o option \<Rightarrow> string \<Rightarrow> 'l \<Rightarrow> ('o option \<times> 'l) option"
  sp_getstring :: "'o option \<Rightarrow> string \<Rightarrow> int option \<Rightarrow> 'l \<Rightarrow> (u8 list option \<times> int \<times> 'l) option"
  sp_getint :: "'o option \<Rightarrow> string \<Rightarrow> 'l \<Rightarrow> (int \<times> 'l) option"
  sp_destroy :: "'o option \<Rightarrow> 'l \<Rightarrow> (int \<times> 'l) option"
  sp_begin :: "'o option \<Rightarrow> 'l \<Rightarrow> ('o option \<times> 'l) option"
  sp_commit :: "'o option \<Rightarrow> 'l \<Rightarrow> (int \<times> 'l) option"
  sp_cursor :: "'o option \<Rightarrow> 'l \<Rightarrow> ('o option \<times> 'l) option"
  sp_document :: "'o option \<Rightarrow> 'l \<Rightarrow> ('o option \<times> 'l) option"
  sp_set :: "'o option \<Rightarrow> 'o option \<Rightarrow> 'l \<Rightarrow> (int \<times> 'l) option"
  sp_delete :: "'o option \<Rightarrow> 'o option \<Rightarrow> 'l \<Rightarrow> (int \<times> 'l) option"
  sp_get :: "'o option \<Rightarrow> 'o option \<Rightarrow> 'l \<Rightarrow> ('o option \<times> 'l) option"

section \<open>State of the driver\<close>

record 'o sophia_private =
  sp_p_env :: "'o option"
  sp_p_db :: "'o option"

record 'o sophia_context =
  sc_cursor :: "'o option"
  sc_entry :: "'o option"
  sc_txn :: "'o option"

record ('o, 'l) sophia_world =
  ow_priv :: "'o sophia_private option"
  ow_lib :: 'l

section \<open>Opening and closing\<close>

datatype sp_setting =
    Set_string string sp_arg
  | Set_int string int

fun sophia_sync :: "iasyncmode \<Rightarrow> sp_setting list" where
  "sophia_sync IA_SYNC = [Set_int ''log.sync'' 1, Set_int ''db.test.sync'' 1]"
| "sophia_sync IA_LAZY = [Set_int ''log.sync'' 0, Set_int ''log.rotate_sync'' 0, Set_int ''db.test.sync'' 1]"
| "sophia_sync IA_NOSYNC = [Set_int ''log.sync'' 0, Set_int ''log.rotate_sync'' 0, Set_int ''db.test.sync'' 0]"

fun sophia_wal :: "iawalmode \<Rightarrow> sp_setting list" where
  "sophia_wal IA_WAL_INDEF = []"
| "sophia_wal IA_WAL_ON = [Set_int ''log.enable'' 1]"
| "sophia_wal IA_WAL_OFF = [Set_int ''log.enable'' 0]"

definition sophia_settings :: "iaconfig \<Rightarrow> string \<Rightarrow> sp_setting list" where
  "sophia_settings conf datadir =
     [Set_string ''sophia.path'' (Sp_text datadir), Set_string ''sophia.on_log'' Sp_function,
      Set_string ''db'' (Sp_text ''test''),
      Set_string ''db.test.scheme'' (Sp_text ''key''), Set_string ''db.test.scheme.key'' (Sp_text ''string, key(0)''),
      Set_string ''db.test.scheme'' (Sp_text ''value''), Set_string ''db.test.scheme.value'' (Sp_text ''string'')]
     @ sophia_sync (c_syncmode conf) @ sophia_wal (c_walmode conf)"

text \<open>The results of the settings are not looked at.\<close>

fun sophia_configure :: "('o, 'l) sophia_lib \<Rightarrow> 'o option \<Rightarrow> sp_setting list \<Rightarrow> 'l \<Rightarrow> 'l option" where
  "sophia_configure lib env [] l = Some l"
| "sophia_configure lib env (Set_string key arg # ss) l =
     do { (rc, l) \<leftarrow> sp_setstring lib env key arg 0 l; sophia_configure lib env ss l }"
| "sophia_configure lib env (Set_int key n # ss) l =
     do { (rc, l) \<leftarrow> sp_setint lib env key n l; sophia_configure lib env ss l }"

text \<open>The end of an operation that has failed: the library is asked for its error.\<close>

definition sophia_error :: "('o, 'l) sophia_lib \<Rightarrow> 'o option \<Rightarrow> 'l \<Rightarrow> 'l option" where
  "sophia_error lib env l = do { (code, l) \<leftarrow> sp_getint lib env ''sophia.error'' l; Some l }"

definition sophia_bailout :: "('o, 'l) sophia_lib \<Rightarrow> 'o option \<Rightarrow> 'l \<Rightarrow> 'l option" where
  "sophia_bailout lib env l =
     do { (error, n, l) \<leftarrow> sp_getstring lib env ''sophia.error'' None l; sophia_error lib env l }"

definition ia_sophia_open ::
  "bool \<Rightarrow> ('o, 'l) sophia_lib \<Rightarrow> iaconfig \<Rightarrow> string \<Rightarrow> ('o, 'l) sophia_world \<Rightarrow> (int \<times> ('o, 'l) sophia_world) option" where
  "ia_sophia_open mem lib conf datadir w =
     (if \<not> mem then Some (-1, w\<lparr>ow_priv := None\<rparr>)
      else do {
        (env, l) \<leftarrow> sp_env lib (ow_lib w);
        let self = \<lparr>sp_p_env = env, sp_p_db = None\<rparr>;
        if env = None then Some (-1, w\<lparr>ow_priv := Some self, ow_lib := l\<rparr>)
        else do {
          l \<leftarrow> sophia_configure lib env (sophia_settings conf datadir) l;
          (rc, l) \<leftarrow> sp_open lib env l;
          if rc = -1 then do { l \<leftarrow> sophia_bailout lib env l; Some (-1, w\<lparr>ow_priv := Some self, ow_lib := l\<rparr>) }
          else do {
            (db, l) \<leftarrow> sp_getobject lib env ''db.test'' l;
            if db = None then None
            else Some (0, w\<lparr>ow_priv := Some (self\<lparr>sp_p_db := db\<rparr>), ow_lib := l\<rparr>) } } })"

definition ia_sophia_close :: "('o, 'l) sophia_lib \<Rightarrow> ('o, 'l) sophia_world \<Rightarrow> (int \<times> ('o, 'l) sophia_world) option" where
  "ia_sophia_close lib w =
     (case ow_priv w of
        None \<Rightarrow> Some (0, w)
      | Some self \<Rightarrow>
          if sp_p_env self = None then Some (0, w\<lparr>ow_priv := None\<rparr>)
          else do { (rc, l) \<leftarrow> sp_destroy lib (sp_p_env self) (ow_lib w); Some (rc, w\<lparr>ow_priv := None, ow_lib := l\<rparr>) })"

section \<open>Contexts and transactions\<close>

definition ia_sophia_thread_new :: "bool \<Rightarrow> ('o, 'l) sophia_world \<Rightarrow> ('o sophia_context option \<times> ('o, 'l) sophia_world) option" where
  "ia_sophia_thread_new mem w = Some (if mem then Some \<lparr>sc_cursor = None, sc_entry = None, sc_txn = None\<rparr> else None, w)"

text \<open>An object that is there is destroyed.\<close>

definition sophia_drop :: "('o, 'l) sophia_lib \<Rightarrow> 'o option \<Rightarrow> 'l \<Rightarrow> 'l option" where
  "sophia_drop lib p l = (if p = None then Some l else do { (rc, l) \<leftarrow> sp_destroy lib p l; Some l })"

definition ia_sophia_thread_dispose ::
  "('o, 'l) sophia_lib \<Rightarrow> 'o sophia_context \<Rightarrow> ('o, 'l) sophia_world \<Rightarrow> ('o, 'l) sophia_world option" where
  "ia_sophia_thread_dispose lib ctx w =
     do { l \<leftarrow> sophia_drop lib (sc_cursor ctx) (ow_lib w);
          l \<leftarrow> sophia_drop lib (sc_txn ctx) l;
          l \<leftarrow> sophia_drop lib (sc_entry ctx) l;
          Some (w\<lparr>ow_lib := l\<rparr>) }"

definition ia_sophia_begin ::
  "('o, 'l) sophia_lib \<Rightarrow> 'o sophia_context \<Rightarrow> iabenchmark \<Rightarrow> ('o, 'l) sophia_world
     \<Rightarrow> (int \<times> 'o sophia_context \<times> ('o, 'l) sophia_world) option" where
  "ia_sophia_begin lib ctx step w =
     (if step \<in> {IA_SET, IA_DELETE, IA_GET} then do { self \<leftarrow> ow_priv w; Some (0, ctx\<lparr>sc_txn := sp_p_db self\<rparr>, w) }
      else if step \<in> {IA_BATCH, IA_CRUD} then do {
        self \<leftarrow> ow_priv w;
        (txn, l) \<leftarrow> sp_begin lib (sp_p_env self) (ow_lib w);
        let ctx = ctx\<lparr>sc_txn := txn\<rparr>;
        if txn = None then do { l \<leftarrow> sophia_bailout lib (sp_p_env self) l; Some (-1, ctx, w\<lparr>ow_lib := l\<rparr>) }
        else Some (0, ctx, w\<lparr>ow_lib := l\<rparr>) }
      else if step = IA_ITERATE then do {
        self \<leftarrow> ow_priv w;
        (cursor, l) \<leftarrow> sp_cursor lib (sp_p_env self) (ow_lib w);
        let ctx = ctx\<lparr>sc_cursor := cursor\<rparr>;
        if cursor = None then do { l \<leftarrow> sophia_bailout lib (sp_p_env self) l; Some (-1, ctx, w\<lparr>ow_lib := l\<rparr>) }
        else do {
          (entry, l) \<leftarrow> sp_document lib (sp_p_db self) l;
          Some (0, ctx\<lparr>sc_entry := entry\<rparr>, w\<lparr>ow_lib := l\<rparr>) } }
      else None)"

definition ia_sophia_done ::
  "('o, 'l) sophia_lib \<Rightarrow> 'o sophia_context \<Rightarrow> iabenchmark \<Rightarrow> ('o, 'l) sophia_world
     \<Rightarrow> (int \<times> 'o sophia_context \<times> ('o, 'l) sophia_world) option" where
  "ia_sophia_done lib ctx step w =
     (if step \<in> {IA_SET, IA_DELETE, IA_GET} then Some (0, ctx\<lparr>sc_txn := None\<rparr>, w)
      else if step \<in> {IA_BATCH, IA_CRUD} then
        (if sc_txn ctx = None then Some (0, ctx, w)
         else do {
           self \<leftarrow> ow_priv w;
           (rc, l) \<leftarrow> sp_commit lib (sc_txn ctx) (ow_lib w);
           if rc \<noteq> 0 then do {
             (rc, l) \<leftarrow> sp_destroy lib (sc_txn ctx) l;
             l \<leftarrow> sophia_bailout lib (sp_p_env self) l;
             Some (-1, ctx\<lparr>sc_txn := None\<rparr>, w\<lparr>ow_lib := l\<rparr>) }
           else Some (0, ctx\<lparr>sc_txn := None\<rparr>, w\<lparr>ow_lib := l\<rparr>) })
      else if step = IA_ITERATE then do {
        l \<leftarrow> sophia_drop lib (sc_entry ctx) (ow_lib w);
        l \<leftarrow> sophia_drop lib (sc_cursor ctx) l;
        Some (0, ctx\<lparr>sc_entry := None, sc_cursor := None, sc_txn := None\<rparr>, w\<lparr>ow_lib := l\<rparr>) }
      else None)"

section \<open>Operations\<close>

definition sophia_put ::
  "('o, 'l) sophia_lib \<Rightarrow> 'o sophia_context \<Rightarrow> iakv \<Rightarrow> ('o, 'l) sophia_world \<Rightarrow> (int \<times> 'o sophia_context \<times> ('o, 'l) sophia_world) option" where
  "sophia_put lib ctx kv w =
     do { self \<leftarrow> ow_priv w;
          (entry, l) \<leftarrow> sp_document lib (sp_p_db self) (ow_lib w);
          let ctx = ctx\<lparr>sc_entry := entry\<rparr>;
          (rc, l) \<leftarrow> sp_setstring lib entry ''key'' (Sp_bytes (kv_k kv)) (kv_ksize kv) l;
          (rc, l) \<leftarrow> sp_setstring lib entry ''value'' (Sp_bytes (kv_v kv)) (kv_vsize kv) l;
          (rc, l) \<leftarrow> sp_set lib (sc_txn ctx) entry l;
          if rc = -1 then do { l \<leftarrow> sophia_bailout lib (sp_p_env self) l; Some (-1, ctx, w\<lparr>ow_lib := l\<rparr>) }
          else Some (rc, ctx\<lparr>sc_entry := None\<rparr>, w\<lparr>ow_lib := l\<rparr>) }"

definition sophia_remove ::
  "('o, 'l) sophia_lib \<Rightarrow> 'o sophia_context \<Rightarrow> iakv \<Rightarrow> ('o, 'l) sophia_world \<Rightarrow> (int \<times> 'o sophia_context \<times> ('o, 'l) sophia_world) option" where
  "sophia_remove lib ctx kv w =
     do { self \<leftarrow> ow_priv w;
          (entry, l) \<leftarrow> sp_document lib (sp_p_db self) (ow_lib w);
          let ctx = ctx\<lparr>sc_entry := entry\<rparr>;
          (rc, l) \<leftarrow> sp_setstring lib entry ''key'' (Sp_bytes (kv_k kv)) (kv_ksize kv) l;
          (rc, l) \<leftarrow> sp_delete lib (sc_txn ctx) entry l;
          if rc = -1 then do { l \<leftarrow> sophia_bailout lib (sp_p_env self) l; Some (-1, ctx, w\<lparr>ow_lib := l\<rparr>) }
          else Some (rc, ctx\<lparr>sc_entry := None\<rparr>, w\<lparr>ow_lib := l\<rparr>) }"

text \<open>
  The value of the entry of the context: a record without one is not an error if the library reports
  none, and then its size must be 0.
\<close>

definition sophia_value ::
  "('o, 'l) sophia_lib \<Rightarrow> 'o option \<Rightarrow> 'o sophia_context \<Rightarrow> iakv \<Rightarrow> 'l \<Rightarrow> (int \<times> iakv \<times> 'l) option" where
  "sophia_value lib env ctx kv l =
     do { (v, vlen, l) \<leftarrow> sp_getstring lib (sc_entry ctx) ''value'' (Some 0) l;
          let kv = kv\<lparr>kv_v := v\<rparr>;
          if v \<noteq> None then Some (0, kv\<lparr>kv_vsize := word_of_int vlen\<rparr>, l)
          else do {
            (error, n, l) \<leftarrow> sp_getstring lib env ''sophia.error'' None l;
            if error \<noteq> None then do { l \<leftarrow> sophia_error lib env l; Some (-1, kv, l) }
            else if vlen \<noteq> 0 then None
            else Some (0, kv\<lparr>kv_vsize := 0\<rparr>, l) } }"

definition sophia_lookup ::
  "('o, 'l) sophia_lib \<Rightarrow> 'o sophia_context \<Rightarrow> iakv \<Rightarrow> ('o, 'l) sophia_world
     \<Rightarrow> (int \<times> iakv \<times> 'o sophia_context \<times> ('o, 'l) sophia_world) option" where
  "sophia_lookup lib ctx kv w =
     do { self \<leftarrow> ow_priv w;
          l \<leftarrow> sophia_drop lib (sc_entry ctx) (ow_lib w);
          (entry, l) \<leftarrow> sp_document lib (sp_p_db self) l;
          (rc, l) \<leftarrow> sp_setstring lib entry ''key'' (Sp_bytes (kv_k kv)) (kv_ksize kv) l;
          (entry, l) \<leftarrow> sp_get lib (sp_p_db self) entry l;
          let ctx = ctx\<lparr>sc_entry := entry\<rparr>;
          if entry = None then do {
            (error, n, l) \<leftarrow> sp_getstring lib (sp_p_env self) ''sophia.error'' None l;
            if error \<noteq> None then do { l \<leftarrow> sophia_error lib (sp_p_env self) l; Some (-1, kv, ctx, w\<lparr>ow_lib := l\<rparr>) }
            else Some (if sc_txn ctx \<noteq> None then 0 else ENOENT, kv, ctx, w\<lparr>ow_lib := l\<rparr>) }
          else do {
            (rc, kv, l) \<leftarrow> sophia_value lib (sp_p_env self) ctx kv l;
            Some (rc, kv, ctx, w\<lparr>ow_lib := l\<rparr>) } }"

definition sophia_step ::
  "('o, 'l) sophia_lib \<Rightarrow> 'o sophia_context \<Rightarrow> iakv \<Rightarrow> ('o, 'l) sophia_world
     \<Rightarrow> (int \<times> iakv \<times> 'o sophia_context \<times> ('o, 'l) sophia_world) option" where
  "sophia_step lib ctx kv w =
     do { self \<leftarrow> ow_priv w;
          (entry, l) \<leftarrow> sp_get lib (sc_cursor ctx) (sc_entry ctx) (ow_lib w);
          let ctx = ctx\<lparr>sc_entry := entry\<rparr>;
          if entry = None then do {
            (error, n, l) \<leftarrow> sp_getstring lib (sp_p_env self) ''sophia.error'' None l;
            if error \<noteq> None then do { l \<leftarrow> sophia_error lib (sp_p_env self) l; Some (-1, kv, ctx, w\<lparr>ow_lib := l\<rparr>) }
            else Some (ENOENT, kv, ctx, w\<lparr>ow_lib := l\<rparr>) }
          else do {
            (k, klen, l) \<leftarrow> sp_getstring lib entry ''key'' (Some 0) l;
            let kv = kv\<lparr>kv_k := k\<rparr>;
            if k = None then do { l \<leftarrow> sophia_bailout lib (sp_p_env self) l; Some (-1, kv, ctx, w\<lparr>ow_lib := l\<rparr>) }
            else do {
              (rc, kv, l) \<leftarrow> sophia_value lib (sp_p_env self) ctx (kv\<lparr>kv_ksize := word_of_int klen\<rparr>) l;
              Some (rc, kv, ctx, w\<lparr>ow_lib := l\<rparr>) } } }"

definition ia_sophia_next ::
  "('o, 'l) sophia_lib \<Rightarrow> 'o sophia_context \<Rightarrow> iabenchmark \<Rightarrow> iakv \<Rightarrow> ('o, 'l) sophia_world
     \<Rightarrow> (int \<times> iakv \<times> 'o sophia_context \<times> ('o, 'l) sophia_world) option" where
  "ia_sophia_next lib ctx step kv w =
     (case step of
        IA_SET \<Rightarrow> do { (rc, ctx, w) \<leftarrow> sophia_put lib ctx kv w; Some (rc, kv, ctx, w) }
      | IA_DELETE \<Rightarrow> do { (rc, ctx, w) \<leftarrow> sophia_remove lib ctx kv w; Some (rc, kv, ctx, w) }
      | IA_GET \<Rightarrow> sophia_lookup lib ctx kv w
      | IA_ITERATE \<Rightarrow> sophia_step lib ctx kv w
      | _ \<Rightarrow> None)"

definition ia_sophia :: "bool \<Rightarrow> ('o, 'l) sophia_lib \<Rightarrow> (('o, 'l) sophia_world, 'o sophia_context) iadriver" where
  "ia_sophia mem lib = \<lparr>d_name = ''sophia'', d_open = ia_sophia_open mem lib, d_close = ia_sophia_close lib,
     d_thread_new = ia_sophia_thread_new mem, d_thread_dispose = ia_sophia_thread_dispose lib,
     d_begin = ia_sophia_begin lib, d_next = ia_sophia_next lib, d_done = ia_sophia_done lib, d_option = None\<rparr>"

section \<open>What the operations return\<close>

text \<open>The codes, whenever the calls of the library return.\<close>

lemma sophia_value_code: "sophia_value lib env ctx kv l = Some (rc, kv', l') \<Longrightarrow> rc \<in> {0, -1}"
  by (auto simp: sophia_value_def Let_def split: Option.bind_splits prod.splits if_splits)

lemma sophia_codes:
  shows "ia_sophia_begin lib ctx b w = Some (rc, ctx', w') \<Longrightarrow> rc \<in> {0, -1}"
    and "ia_sophia_done lib ctx b w = Some (rc, ctx', w') \<Longrightarrow> rc \<in> {0, -1}"
    and "ia_sophia_next lib ctx step kv w = Some (rc, kv', ctx', w') \<Longrightarrow> step \<in> {IA_GET, IA_ITERATE} \<Longrightarrow> rc \<in> {0, ENOENT, -1}"
proof -
  show "rc \<in> {0, -1}" if "ia_sophia_begin lib ctx b w = Some (rc, ctx', w')"
    using that by (auto simp: ia_sophia_begin_def Let_def split: Option.bind_splits prod.splits if_splits)
  show "rc \<in> {0, -1}" if "ia_sophia_done lib ctx b w = Some (rc, ctx', w')"
    using that by (auto simp: ia_sophia_done_def split: Option.bind_splits prod.splits if_splits)
  show "rc \<in> {0, ENOENT, -1}" if "ia_sophia_next lib ctx step kv w = Some (rc, kv', ctx', w')" "step \<in> {IA_GET, IA_ITERATE}"
    using that by (auto simp: ia_sophia_next_def sophia_lookup_def sophia_step_def Let_def dest!: sophia_value_code
        split: Option.bind_splits prod.splits if_splits)
qed

text \<open>
  Within a get benchmark \<open>begin\<close> makes the database the transaction, and with a transaction a record that
  is not there is no error: the driver never reports a missing record.
\<close>

lemma sophia_get_never_missing:
  assumes "ow_priv w = Some self" and "sp_p_db self \<noteq> None"
  shows "\<exists>ctx'. ia_sophia_begin lib ctx IA_GET w = Some (0, ctx', w) \<and>
    (\<forall>kv w' rc kv' ctx'' w''. ia_sophia_next lib ctx' IA_GET kv w' = Some (rc, kv', ctx'', w'') \<longrightarrow> rc \<in> {0, -1})"
proof -
  have "rc \<in> {0, -1}" if "ia_sophia_next lib (ctx\<lparr>sc_txn := sp_p_db self\<rparr>) IA_GET kv w' = Some (rc, kv', ctx'', w'')"
    for kv w' rc kv' ctx'' w''
    using that assms(2) by (auto simp: ia_sophia_next_def sophia_lookup_def Let_def dest!: sophia_value_code
        split: Option.bind_splits prod.splits if_splits)
  then show ?thesis using assms(1) by (intro exI [of _ "ctx\<lparr>sc_txn := sp_p_db self\<rparr>"]) (auto simp: ia_sophia_begin_def)
qed

text \<open>
  The batch benchmark goes on after a \<open>begin\<close> that has failed: then the library is given the null
  transaction.
\<close>

lemma sophia_batch_without_transaction:
  assumes "ow_priv w = Some self" and "sp_begin lib (sp_p_env self) (ow_lib w) = Some (None, l)"
    and "sophia_bailout lib (sp_p_env self) l = Some l1" and "\<And>entry l. sp_set lib None entry l = None"
  shows "\<exists>ctx' w'. ia_sophia_begin lib ctx IA_BATCH w = Some (-1, ctx', w') \<and> ia_sophia_next lib ctx' IA_SET kv w' = None"
  using assms by (auto simp: ia_sophia_begin_def ia_sophia_next_def sophia_put_def Let_def split: Option.bind_splits)

end
