(* ===== verification/Platform.thy ===== *)
theory Platform
  imports Config "HOL-Library.Monad_Syntax"
begin

text \<open>
  What the program asks its platform for: the clock (\<open>src/ia_time.c\<close>, the branch of POSIX), the use of
  resources (\<open>src/ia_rusage.c\<close>) and the csv files of \<open>src/ia_histogram.c\<close>, with the bounds within which
  the numbers are right.  The calls of the operating system are parameters.
\<close>

section \<open>The clock\<close>

record timespec =
  tv_sec :: int
  tv_nsec :: int

text \<open>\<open>clock\<close> is the result of \<open>clock_gettime\<close>; the program asserts that it is 0.\<close>

definition ia_timestamp_ns :: "int \<times> timespec \<Rightarrow> u64 option" where
  "ia_timestamp_ns clock =
     (let (rc, ts) = clock
      in if rc \<noteq> 0 then None else Some (word_of_int (tv_sec ts) * S + word_of_int (tv_nsec ts)))"

text \<open>A reading of the clock as POSIX has it, within the 584 years that 64 bits of nanoseconds hold.\<close>

definition clock_ok :: "timespec \<Rightarrow> bool" where
  "clock_ok ts \<longleftrightarrow> 0 \<le> tv_sec ts \<and> tv_sec ts < 18446744073 \<and> 0 \<le> tv_nsec ts \<and> tv_nsec ts < 1000000000"

lemma timestamp_exact:
  assumes "clock_ok ts" and "ia_timestamp_ns (rc, ts) = Some t"
  shows "uint t = tv_sec ts * 1000000000 + tv_nsec ts"
proof -
  have t: "t = word_of_int (tv_sec ts * 1000000000 + tv_nsec ts)"
    using assms(2) by (simp add: ia_timestamp_ns_def S_def split: if_splits)
  have "0 \<le> tv_sec ts * 1000000000 + tv_nsec ts" "tv_sec ts * 1000000000 + tv_nsec ts < 2 ^ 64"
    using assms(1) by (simp_all add: clock_ok_def)
  then show ?thesis unfolding t by (simp only: uint_word_of_int) simp
qed

text \<open>Within the bound timestamps are ordered as the readings are, and their difference is the time between.\<close>

lemma timestamps_ordered:
  assumes "clock_ok a" and "clock_ok b" and "ia_timestamp_ns (0, a) = Some s" and "ia_timestamp_ns (0, b) = Some t"
  shows "s \<le> t \<longleftrightarrow> tv_sec a < tv_sec b \<or> tv_sec a = tv_sec b \<and> tv_nsec a \<le> tv_nsec b"
proof -
  have "s \<le> t \<longleftrightarrow> tv_sec a * 1000000000 + tv_nsec a \<le> tv_sec b * 1000000000 + tv_nsec b"
    using timestamp_exact [OF assms(1,3)] timestamp_exact [OF assms(2,4)] by (simp add: word_le_def)
  then show ?thesis using assms(1,2) by (auto simp: clock_ok_def)
qed

lemma timestamps_difference:
  assumes "clock_ok a" and "clock_ok b" and "ia_timestamp_ns (0, a) = Some s" and "ia_timestamp_ns (0, b) = Some t" and "s \<le> t"
  shows "uint (t - s) = (tv_sec b - tv_sec a) * 1000000000 + (tv_nsec b - tv_nsec a)"
  using timestamp_exact [OF assms(1,3)] timestamp_exact [OF assms(2,4)] assms(5)
  by (simp add: uint_minus_simple_alt [THEN iffD1] algebra_simps)

section \<open>The use of resources\<close>

text \<open>What \<open>getrusage\<close> fills in, as far as the program reads it; the times are seconds and microseconds.\<close>

record sys_rusage =
  ru_utime :: "int \<times> int"
  ru_stime :: "int \<times> int"
  ru_maxrss :: int
  ru_inblock :: int
  ru_oublock :: int
  ru_majflt :: int

record iarusage =
  r_disk :: u64
  r_ram :: u64
  r_cpu_kernel_ns :: u64
  r_cpu_user_ns :: u64
  r_iops_read :: u64
  r_iops_write :: u64
  r_iops_page :: u64

definition cpu_ns :: "int \<times> int \<Rightarrow> u64" where
  "cpu_ns t = word_of_int (fst t) * 1000000000 + word_of_int (snd t) * 1000"

text \<open>The callback of \<open>ftw\<close>, called once for every entry of the directory.\<close>

definition ftw_diskspace :: "int \<Rightarrow> u64 \<Rightarrow> u64" where
  "ftw_diskspace st_size diskusage = diskusage + word_of_int st_size"

text \<open>
  \<open>usage\<close> is the result of \<open>getrusage\<close>, \<open>tree\<close> says for a directory whether \<open>ftw\<close> fails there and the sizes
  of the entries it has visited.
\<close>

definition ia_get_rusage ::
  "int \<times> sys_rusage \<Rightarrow> (string \<Rightarrow> bool \<times> int list) \<Rightarrow> string option \<Rightarrow> iarusage \<Rightarrow> int \<times> iarusage" where
  "ia_get_rusage usage tree datadir dst =
     (let (rc, glibc) = usage
      in if rc \<noteq> 0 then (-1, dst)
         else
           (let (failed, sizes) = (case datadir of None \<Rightarrow> (False, []) | Some dir \<Rightarrow> tree dir);
                diskusage = fold ftw_diskspace sizes 0
            in if failed then (-1, dst)
               else (0, \<lparr>r_disk = diskusage, r_ram = word_of_int (ru_maxrss glibc),
                  r_cpu_kernel_ns = cpu_ns (ru_stime glibc), r_cpu_user_ns = cpu_ns (ru_utime glibc),
                  r_iops_read = word_of_int (ru_inblock glibc), r_iops_write = word_of_int (ru_oublock glibc),
                  r_iops_page = word_of_int (ru_majflt glibc)\<rparr>)))"

lemma fold_diskspace: "fold ftw_diskspace sizes d = d + word_of_int (sum_list sizes)"
  by (induction sizes arbitrary: d) (simp_all add: ftw_diskspace_def)

text \<open>The disk space reported is what the entries of the directory take, all of them.\<close>

lemma rusage_disk:
  assumes "ia_get_rusage usage tree (Some dir) dst = (0, r)" and "\<forall>n \<in> set (snd (tree dir)). 0 \<le> n" and "sum_list (snd (tree dir)) < 2 ^ 64"
  shows "uint (r_disk r) = sum_list (snd (tree dir))"
proof -
  have "r_disk r = word_of_int (sum_list (snd (tree dir)))"
    using assms(1) by (auto simp: ia_get_rusage_def fold_diskspace split: prod.splits if_splits)
  moreover have "0 \<le> sum_list (snd (tree dir))" using assms(2) by (simp add: sum_list_nonneg)
  ultimately show ?thesis using assms(3) by (simp add: uint_word_of_int)
qed

section \<open>The csv files\<close>

text \<open>
  \<open>item\<close> is \<open>timeline\<close>, \<open>rusage\<close> or the name of a benchmark; \<open>None\<close> stands for no prefix or no file.  The
  driver is set once the command line has been accepted.
\<close>

definition csv_path :: "nat \<Rightarrow> iaconfig \<Rightarrow> string \<Rightarrow> string \<Rightarrow> string \<Rightarrow> string" where
  "csv_path path_max conf prefix driver item =
     take (path_max - 1) (prefix @ driver @ ''_'' @ ia_syncmode2str (c_syncmode conf) @ ''_'' @ item @ ''.csv'')"

definition csv_create :: "nat \<Rightarrow> (string \<Rightarrow> 'f option) \<Rightarrow> iaconfig \<Rightarrow> string \<Rightarrow> 'f option" where
  "csv_create path_max fopen conf item =
     do { prefix \<leftarrow> c_csv_prefix conf; driver \<leftarrow> c_driver conf; fopen (csv_path path_max conf prefix driver item) }"

definition ia_histogram_csvopen :: "nat \<Rightarrow> (string \<Rightarrow> 'f option) \<Rightarrow> iaconfig \<Rightarrow> 'f option \<Rightarrow> 'f option" where
  "ia_histogram_csvopen path_max fopen conf csv_timeline =
     (if c_csv_prefix conf \<noteq> None \<and> csv_timeline = None then csv_create path_max fopen conf ''timeline'' else csv_timeline)"

text \<open>The second component are the files that are closed.\<close>

definition ia_histogram_csvclose :: "'f option \<Rightarrow> 'f option \<times> 'f list" where
  "ia_histogram_csvclose csv_timeline = (case csv_timeline of None \<Rightarrow> (None, []) | Some f \<Rightarrow> (None, [f]))"

text \<open>Files of different items have different names, while their paths fit.\<close>

lemma csv_paths_differ:
  assumes same: "csv_path path_max conf prefix driver a = csv_path path_max conf prefix driver b"
    and a: "length prefix + length driver + length a + 12 < path_max" and b: "length prefix + length driver + length b + 12 < path_max"
  shows "a = b"
proof -
  let ?mode = "ia_syncmode2str (c_syncmode conf)"
  have "length ?mode \<le> 6" by (cases "c_syncmode conf") simp_all
  then have path: "csv_path path_max conf prefix driver i = prefix @ driver @ ''_'' @ ?mode @ ''_'' @ i @ ''.csv''"
    if "length prefix + length driver + length i + 12 < path_max" for i
    unfolding csv_path_def using that by (intro take_all) simp
  have "prefix @ driver @ ''_'' @ ?mode @ ''_'' @ a @ ''.csv'' = prefix @ driver @ ''_'' @ ?mode @ ''_'' @ b @ ''.csv''"
    using path [OF a, symmetric] same path [OF b] by (rule trans [OF trans])
  then show ?thesis by simp
qed

end
