(* ===== verification/Barrier.thy ===== *)
theory Barrier
  imports Prelude
begin

text \<open>
  The barrier of \<open>src/ia_main.c\<close>, compiled where the platform has none: initialisation and
  destruction as functions, waiting as a step relation over threads, since a waiting thread sleeps
  on the condition variable between two critical sections.
\<close>

section \<open>The barrier\<close>

record barrier =
  ba_threshold :: int
  ba_canary :: int

definition PTHREAD_BARRIER_SERIAL_THREAD :: int where
  "PTHREAD_BARRIER_SERIAL_THREAD = 1"

text \<open>
  The outcomes of \<open>pthread_mutex_init\<close> and \<open>pthread_cond_init\<close> are arguments; the second component is
  the value of \<open>errno\<close>, the third the barrier, \<open>None\<close> where it is not initialised.
\<close>

definition EINVAL :: int where "EINVAL = 22"

definition pthread_barrier_init :: "int \<Rightarrow> int \<Rightarrow> int \<Rightarrow> bool \<Rightarrow> u32 \<Rightarrow> int \<times> int \<times> barrier option" where
  "pthread_barrier_init errno mutex_rc cond_rc attr cnt =
     (if cnt = 0 then (-1, EINVAL, None)
      else if attr then (-1, ENOSYS, None)
      else if mutex_rc < 0 then (-1, errno, None)
      else if cond_rc < 0 then (-1, errno, None)
      else (0, errno, Some \<lparr>ba_threshold = sint cnt, ba_canary = 0\<rparr>))"

definition pthread_barrier_destroy :: "int \<Rightarrow> barrier \<Rightarrow> int \<times> barrier" where
  "pthread_barrier_destroy mutex_rc b = (mutex_rc, b\<lparr>ba_threshold := -1\<rparr>)"

text \<open>
  The critical section of \<open>pthread_barrier_wait\<close> up to the sleep: \<open>Some (Some rc, b)\<close> when the thread
  is the last one and returns \<open>rc\<close> after the broadcast, \<open>Some (None, b)\<close> when it goes to sleep,
  \<open>None\<close> when an assertion fails.
\<close>

definition barrier_enter :: "barrier \<Rightarrow> (int option \<times> barrier) option" where
  "barrier_enter b =
     (if \<not> (ba_threshold b > 0) then None
      else if \<not> (ba_canary b \<ge> 0 \<and> ba_canary b < ba_threshold b) then None
      else
        (let b = b\<lparr>ba_canary := ba_canary b + 1\<rparr>
         in if ba_canary b = ba_threshold b
            then Some (Some PTHREAD_BARRIER_SERIAL_THREAD, b\<lparr>ba_canary := 0\<rparr>)
            else Some (None, b)))"

section \<open>Threads at the barrier\<close>

text \<open>
  A thread is outside the barrier, asleep on the condition, or woken but not yet back; the number
  counts the waits it has returned from.  With \<open>spurious\<close> a thread may wake up without a broadcast,
  as \<open>pthread_cond_wait\<close> is allowed to.
\<close>

datatype bphase = Outside | Asleep | Woken

record bstate =
  bs_barrier :: barrier
  bs_threads :: "(bphase \<times> nat) list"

definition wake :: "bphase \<times> nat \<Rightarrow> bphase \<times> nat" where
  "wake t = (if fst t = Asleep then (Woken, snd t) else t)"

inductive barrier_step :: "bool \<Rightarrow> bstate \<Rightarrow> bstate \<Rightarrow> bool" for spurious where
  last: "\<lbrakk>i < length (bs_threads s); bs_threads s ! i = (Outside, k); barrier_enter (bs_barrier s) = Some (Some rc, b)\<rbrakk>
    \<Longrightarrow> barrier_step spurious s \<lparr>bs_barrier = b, bs_threads = (map wake (bs_threads s))[i := (Outside, Suc k)]\<rparr>"
| sleep: "\<lbrakk>i < length (bs_threads s); bs_threads s ! i = (Outside, k); barrier_enter (bs_barrier s) = Some (None, b)\<rbrakk>
    \<Longrightarrow> barrier_step spurious s \<lparr>bs_barrier = b, bs_threads = (bs_threads s)[i := (Asleep, k)]\<rparr>"
| leave: "\<lbrakk>i < length (bs_threads s); bs_threads s ! i = (Woken, k)\<rbrakk>
    \<Longrightarrow> barrier_step spurious s (s\<lparr>bs_threads := (bs_threads s)[i := (Outside, Suc k)]\<rparr>)"
| spurious: "\<lbrakk>spurious; i < length (bs_threads s); bs_threads s ! i = (Asleep, k)\<rbrakk>
    \<Longrightarrow> barrier_step spurious s (s\<lparr>bs_threads := (bs_threads s)[i := (Woken, k)]\<rparr>)"

text \<open>Runs, with the number of their steps.\<close>

inductive barrier_run :: "bool \<Rightarrow> nat \<Rightarrow> bstate \<Rightarrow> bstate \<Rightarrow> bool" for spurious where
  none: "barrier_run spurious 0 s s"
| more: "barrier_run spurious n s s1 \<Longrightarrow> barrier_step spurious s1 s2 \<Longrightarrow> barrier_run spurious (Suc n) s s2"

definition barrier_start :: "barrier \<Rightarrow> nat \<Rightarrow> bstate" where
  "barrier_start b n = \<lparr>bs_barrier = b, bs_threads = replicate n (Outside, 0)\<rparr>"

text \<open>The waits a thread has begun.\<close>

definition begun :: "bphase \<times> nat \<Rightarrow> nat" where
  "begun t = (if fst t = Outside then snd t else Suc (snd t))"

section \<open>The invariant\<close>

text \<open>
  In round \<open>r\<close> a thread has not come yet, sleeps, or is still to return from the round before; the
  canary counts the sleepers.
\<close>

definition in_round :: "nat \<Rightarrow> bphase \<times> nat \<Rightarrow> bool" where
  "in_round r t \<longleftrightarrow> t = (Outside, r) \<or> t = (Asleep, r) \<or> (\<exists>q. r = Suc q \<and> t = (Woken, q))"

definition sleepers :: "(bphase \<times> nat) list \<Rightarrow> nat" where
  "sleepers ts = length (filter (\<lambda>t. fst t = Asleep) ts)"

definition barrier_ok :: "nat \<Rightarrow> bstate \<Rightarrow> bool" where
  "barrier_ok r s \<longleftrightarrow> list_all (in_round r) (bs_threads s) \<and>
     ba_threshold (bs_barrier s) = int (length (bs_threads s)) \<and>
     ba_canary (bs_barrier s) = int (sleepers (bs_threads s)) \<and> sleepers (bs_threads s) < length (bs_threads s)"

lemma sleepers_update:
  "i < length ts \<Longrightarrow> sleepers (ts[i := t]) + (if fst (ts ! i) = Asleep then 1 else 0) =
     sleepers ts + (if fst t = Asleep then 1 else 0)"
  by (induction ts arbitrary: i) (auto simp: sleepers_def nth_Cons' split: nat.splits, (case_tac i; fastforce)+)

lemma sleepers_le: "sleepers ts \<le> length ts"
  by (simp add: sleepers_def)

lemma sleepers_all_but:
  assumes "Suc (sleepers ts) = length ts" and "i < length ts" and "fst (ts ! i) \<noteq> Asleep"
    and "j < length ts" and "j \<noteq> i"
  shows "fst (ts ! j) = Asleep"
proof (rule ccontr)
  assume "fst (ts ! j) \<noteq> Asleep"
  then have "sleepers (ts[i := (Asleep, 0), j := (Asleep, 0)]) = Suc (Suc (sleepers ts))"
    using assms sleepers_update [of i ts "(Asleep, 0)"] sleepers_update [of j "ts[i := (Asleep, 0)]" "(Asleep, 0)"] by simp
  then show False using assms(1) sleepers_le [of "ts[i := (Asleep, 0), j := (Asleep, 0)]"] by simp
qed

lemma sleepers_none: "\<forall>t \<in> set ts. fst t \<noteq> Asleep \<Longrightarrow> sleepers ts = 0"
  by (auto simp: sleepers_def filter_empty_conv)

lemma enter_cases:
  assumes "barrier_ok r s"
  shows "barrier_enter (bs_barrier s) = (if Suc (sleepers (bs_threads s)) = length (bs_threads s)
      then Some (Some PTHREAD_BARRIER_SERIAL_THREAD, (bs_barrier s)\<lparr>ba_canary := 0\<rparr>)
      else Some (None, (bs_barrier s)\<lparr>ba_canary := int (Suc (sleepers (bs_threads s)))\<rparr>))"
  using assms by (auto simp: barrier_enter_def barrier_ok_def Let_def)

lemma list_all_update: "list_all P xs \<Longrightarrow> P x \<Longrightarrow> list_all P (xs[i := x])"
  by (auto simp: list_all_iff dest!: set_update_subset_insert [THEN subsetD])

lemma barrier_ok_step:
  assumes "barrier_step False s s'" and ok: "barrier_ok r s"
  shows "\<exists>r'. barrier_ok r' s'"
  using assms(1)
proof cases
  case (last i k rc b)
  let ?ts = "bs_threads s"
  have full: "Suc (sleepers ?ts) = length ?ts" and b: "b = (bs_barrier s)\<lparr>ba_canary := 0\<rparr>"
    using last(4) enter_cases [OF ok] by (auto split: if_splits)
  have k: "k = r" using ok last(2,3) by (auto simp: barrier_ok_def list_all_length in_round_def)
  have other: "wake (?ts ! j) = (Woken, r)" if "j < length ?ts" "j \<noteq> i" for j
    using sleepers_all_but [OF full last(2)] last(3) that ok
    by (fastforce simp: barrier_ok_def list_all_length in_round_def wake_def)
  have all: "(map wake ?ts)[i := (Outside, Suc k)] ! j = (if j = i then (Outside, Suc r) else (Woken, r))"
    if "j < length ?ts" for j
    using that other k last(2) by (simp add: nth_list_update)
  have none: "sleepers ((map wake ?ts)[i := (Outside, Suc k)]) = 0"
    by (rule sleepers_none) (auto simp: in_set_conv_nth all split: if_splits)
  have "barrier_ok (Suc r) s'"
    using ok last(2) none all unfolding barrier_ok_def last(1) b by (auto simp: list_all_length in_round_def)
  then show ?thesis by blast
next
  case (sleep i k b)
  have b: "Suc (sleepers (bs_threads s)) \<noteq> length (bs_threads s)"
      "b = (bs_barrier s)\<lparr>ba_canary := int (Suc (sleepers (bs_threads s)))\<rparr>"
    using sleep(4) enter_cases [OF ok] by (auto split: if_splits)
  have "k = r" using ok sleep(2,3) by (auto simp: barrier_ok_def list_all_length in_round_def)
  then have "barrier_ok r s'"
    using ok b(1) sleep(2,3) sleepers_update [of i "bs_threads s" "(Asleep, k)"]
    unfolding barrier_ok_def sleep(1) b(2) by (auto intro!: list_all_update simp: in_round_def)
  then show ?thesis by blast
next
  case (leave i k)
  have "r = Suc k" using ok leave(2,3) by (auto simp: barrier_ok_def list_all_length in_round_def)
  then have "barrier_ok r s'"
    using ok leave(2,3) sleepers_update [of i "bs_threads s" "(Outside, Suc k)"]
    unfolding barrier_ok_def leave(1) by (auto intro!: list_all_update simp: in_round_def)
  then show ?thesis by blast
qed simp

lemma barrier_ok_run:
  assumes "barrier_run False n s s'" and "barrier_ok r s"
  shows "\<exists>r'. barrier_ok r' s'"
  using assms by (induction rule: barrier_run.induct) (blast dest: barrier_ok_step)+

lemma barrier_ok_start:
  assumes "pthread_barrier_init errno mrc crc False (of_nat n) = (0, e, Some b)" and "n < 2 ^ 31"
  shows "barrier_ok 0 (barrier_start b n)"
proof -
  have "n \<noteq> 0" using assms by (cases "n = 0") (simp_all add: pthread_barrier_init_def)
  then show ?thesis
    using assms by (auto simp: barrier_ok_def barrier_start_def pthread_barrier_init_def in_round_def sleepers_def
        list_all_iff signed_of_nat signed_take_bit_int_eq_self split: if_splits)
qed

lemma step_length: "barrier_step sp s s' \<Longrightarrow> length (bs_threads s') = length (bs_threads s)"
  by (induction rule: barrier_step.induct) simp_all

lemma run_length: "barrier_run sp n s s' \<Longrightarrow> length (bs_threads s') = length (bs_threads s)"
  by (induction rule: barrier_run.induct) (simp_all add: step_length)

text \<open>The state after a run from the start.\<close>

lemma reached_round:
  assumes "pthread_barrier_init errno mrc crc False (of_nat n) = (0, e, Some b)" and "n < 2 ^ 31"
    and "barrier_run False steps (barrier_start b n) s"
  obtains r where "barrier_ok r s" and "length (bs_threads s) = n"
  using barrier_ok_run [OF assms(3) barrier_ok_start [OF assms(1,2)]] run_length [OF assms(3)]
  by (auto simp: barrier_start_def)

section \<open>Progress\<close>

text \<open>How far a thread has come, in steps of its own.\<close>

definition pace :: "bphase \<times> nat \<Rightarrow> nat" where
  "pace t = 3 * snd t + (case fst t of Outside \<Rightarrow> 0 | Asleep \<Rightarrow> 1 | Woken \<Rightarrow> 2)"

lemma pace_wake: "pace t \<le> pace (wake t)"
  by (cases t; cases "fst t") (auto simp: pace_def wake_def)

lemma sum_list_update_less:
  fixes f :: "'a \<Rightarrow> nat"
  assumes "i < length xs" and "f (xs ! i) < f x"
  shows "sum_list (map f xs) < sum_list (map f (xs[i := x]))"
  using assms by (induction xs arbitrary: i) (auto split: nat.splits)

lemma pace_step:
  assumes "barrier_step False s s'"
  shows "sum_list (map pace (bs_threads s)) < sum_list (map pace (bs_threads s'))"
  using assms
proof cases
  case (last i k rc b)
  have "sum_list (map pace (bs_threads s)) \<le> sum_list (map pace (map wake (bs_threads s)))"
    by (simp add: sum_list_mono pace_wake)
  also have "\<dots> < sum_list (map pace ((map wake (bs_threads s))[i := (Outside, Suc k)]))"
    by (rule sum_list_update_less) (use last in \<open>simp_all add: wake_def pace_def\<close>)
  finally show ?thesis by (simp add: last(1))
next
  case (sleep i k b)
  then show ?thesis using sum_list_update_less [of i "bs_threads s" pace "(Asleep, k)"] by (simp add: pace_def)
next
  case (leave i k)
  then show ?thesis using sum_list_update_less [of i "bs_threads s" pace "(Outside, Suc k)"] by (simp add: pace_def)
qed simp

lemma pace_run: "barrier_run False n s s' \<Longrightarrow> n \<le> sum_list (map pace (bs_threads s'))"
  by (induction rule: barrier_run.induct) (auto dest: pace_step)

lemma pace_round:
  assumes "barrier_ok r s"
  shows "sum_list (map pace (bs_threads s)) \<le> length (bs_threads s) * (3 * r + 1)"
proof -
  have "pace t \<le> 3 * r + 1" if "t \<in> set (bs_threads s)" for t
    using assms that by (auto simp: barrier_ok_def list_all_iff in_round_def pace_def dest!: bspec)
  then show ?thesis using sum_list_mono [of "bs_threads s" pace "\<lambda>_. 3 * r + 1"] by (simp add: sum_list_triv)
qed

lemma barrier_ok_moves:
  assumes "barrier_ok r s"
  shows "\<exists>s'. barrier_step False s s'"
proof -
  have "sleepers (bs_threads s) = length (bs_threads s)" if "list_all (\<lambda>t. fst t = Asleep) (bs_threads s)"
    using that unfolding sleepers_def list_all_iff by (subst filter_True) simp_all
  then have "\<not> list_all (\<lambda>t. fst t = Asleep) (bs_threads s)"
    using assms by (auto simp: barrier_ok_def)
  then obtain i where i: "i < length (bs_threads s)" "fst (bs_threads s ! i) \<noteq> Asleep"
    by (auto simp: list_all_length)
  then consider k where "bs_threads s ! i = (Outside, k)" | k where "bs_threads s ! i = (Woken, k)"
    by (cases "bs_threads s ! i") (metis bphase.exhaust fst_conv)
  then show ?thesis
  proof cases
    case 1
    then show ?thesis using enter_cases [OF assms] i(1) barrier_step.last barrier_step.sleep by (metis (no_types))
  next
    case 2
    then show ?thesis using i(1) barrier_step.leave by blast
  qed
qed

section \<open>Properties\<close>

text \<open>
  C31: in every state that \<open>n\<close> threads reach at a barrier initialised for \<open>n\<close>, the canary is the
  number of the threads that sleep, below the threshold, and the assertions of a wait hold.
\<close>

theorem barrier_well_formed:
  assumes "pthread_barrier_init errno mrc crc False (of_nat n) = (0, e, Some b)" and "n < 2 ^ 31"
    and "barrier_run False steps (barrier_start b n) s"
  shows "ba_threshold (bs_barrier s) = int n \<and> ba_canary (bs_barrier s) = int (sleepers (bs_threads s)) \<and>
    sleepers (bs_threads s) < n \<and> barrier_enter (bs_barrier s) \<noteq> None"
proof -
  obtain r where "barrier_ok r s" "length (bs_threads s) = n" by (rule reached_round [OF assms])
  then show ?thesis using enter_cases [of r s] by (simp add: barrier_ok_def)
qed

text \<open>A run of two threads: the first sleeps, the second is the last.\<close>

definition two :: barrier where "two = \<lparr>ba_threshold = 2, ba_canary = 0\<rparr>"

lemma two_init: "pthread_barrier_init 0 0 0 False (of_nat 2) = (0, 0, Some two)"
  by (simp add: pthread_barrier_init_def two_def)

lemma two_run:
  "barrier_run False 1 (barrier_start two 2) \<lparr>bs_barrier = two\<lparr>ba_canary := 1\<rparr>, bs_threads = [(Asleep, 0), (Outside, 0)]\<rparr>"
  "barrier_run False 2 (barrier_start two 2) \<lparr>bs_barrier = two, bs_threads = [(Woken, 0), (Outside, 1)]\<rparr>"
proof -
  have "barrier_step False (barrier_start two 2) \<lparr>bs_barrier = two\<lparr>ba_canary := 1\<rparr>, bs_threads = [(Asleep, 0), (Outside, 0)]\<rparr>"
    using barrier_step.sleep [of 0 "barrier_start two 2" 0 "two\<lparr>ba_canary := 1\<rparr>" False]
    by (simp add: barrier_start_def barrier_enter_def two_def numeral_2_eq_2)
  then show 1: "barrier_run False 1 (barrier_start two 2) \<lparr>bs_barrier = two\<lparr>ba_canary := 1\<rparr>, bs_threads = [(Asleep, 0), (Outside, 0)]\<rparr>"
    using barrier_run.more [OF barrier_run.none] by fastforce
  have "barrier_step False \<lparr>bs_barrier = two\<lparr>ba_canary := 1\<rparr>, bs_threads = [(Asleep, 0), (Outside, 0)]\<rparr>
      \<lparr>bs_barrier = two, bs_threads = [(Woken, 0), (Outside, 1)]\<rparr>"
    using barrier_step.last [of 1 "\<lparr>bs_barrier = two\<lparr>ba_canary := 1\<rparr>, bs_threads = [(Asleep, 0), (Outside, 0)]\<rparr>" 0
        PTHREAD_BARRIER_SERIAL_THREAD two False]
    by (simp add: barrier_enter_def two_def wake_def)
  from barrier_run.more [OF 1 this]
  show "barrier_run False 2 (barrier_start two 2) \<lparr>bs_barrier = two, bs_threads = [(Woken, 0), (Outside, 1)]\<rparr>"
    by (simp add: numeral_2_eq_2)
qed

theorem barrier_well_formed_witness:
  "barrier_enter (two\<lparr>ba_canary := 1\<rparr>) \<noteq> None \<and> sleepers [(Asleep, 0), (Outside, 0)] < 2"
  using barrier_well_formed [OF two_init _ two_run(1)] by simp

text \<open>
  C29: without spurious wake-ups no thread returns from a wait before all have begun that wait: at
  every moment no thread has returned more often than any other has come.
\<close>

theorem barrier_synchronises:
  assumes "pthread_barrier_init errno mrc crc False (of_nat n) = (0, e, Some b)" and "n < 2 ^ 31"
    and "barrier_run False steps (barrier_start b n) s" and "i < n" and "j < n"
  shows "snd (bs_threads s ! i) \<le> begun (bs_threads s ! j)"
proof -
  obtain r where "barrier_ok r s" "length (bs_threads s) = n" by (rule reached_round [OF assms(1,2,3)])
  then have "in_round r (bs_threads s ! i)" "in_round r (bs_threads s ! j)"
    using assms(4,5) by (auto simp: barrier_ok_def list_all_length)
  then show ?thesis by (auto simp: in_round_def begun_def)
qed

theorem barrier_synchronises_witness:
  "snd ([(Woken, 0), (Outside, 1)] ! 1) \<le> begun ([(Woken, 0), (Outside, 1)] ! 0)"
  using barrier_synchronises [OF two_init _ two_run(2), of 1 0] by simp

text \<open>
  C30: without spurious wake-ups the threads are never stuck, and nobody is left behind: in every
  reachable state some thread can go on, and after \<open>n * (3 * m + 2)\<close> steps, taken by whichever
  threads, each one has returned from at least \<open>m\<close> waits.
\<close>

theorem barrier_progress:
  assumes "pthread_barrier_init errno mrc crc False (of_nat n) = (0, e, Some b)" and "n < 2 ^ 31"
    and "barrier_run False steps (barrier_start b n) s" and "n * (3 * m + 2) \<le> steps"
  shows "(\<exists>s'. barrier_step False s s') \<and> list_all (\<lambda>t. m \<le> snd t) (bs_threads s)"
proof -
  obtain r where r: "barrier_ok r s" and n: "length (bs_threads s) = n" by (rule reached_round [OF assms(1,2,3)])
  have "0 < n" using r n by (auto simp: barrier_ok_def)
  moreover have "n * (3 * m + 2) \<le> n * (3 * r + 1)"
    using assms(4) pace_run [OF assms(3)] pace_round [OF r] n by simp
  ultimately have "3 * m + 2 \<le> 3 * r + 1" by (metis mult_le_cancel1)
  then have "Suc m \<le> r" by simp
  then have "list_all (\<lambda>t. m \<le> snd t) (bs_threads s)"
    using r by (auto simp: barrier_ok_def list_all_iff in_round_def dest!: bspec)
  then show ?thesis using barrier_ok_moves [OF r] by blast
qed

lemma barrier_runs:
  assumes "barrier_ok r (barrier_start b n)"
  shows "\<exists>s. barrier_run False k (barrier_start b n) s"
proof (induction k)
  case 0
  then show ?case using barrier_run.none by blast
next
  case (Suc k)
  then obtain s r' where "barrier_run False k (barrier_start b n) s" "barrier_ok r' s"
    using barrier_ok_run [OF _ assms] by blast
  then show ?case using barrier_ok_moves barrier_run.more by blast
qed

theorem barrier_progress_witness:
  "\<exists>s. barrier_run False 10 (barrier_start two 2) s \<and> list_all (\<lambda>t. 1 \<le> snd t) (bs_threads s) \<and> (\<exists>s'. barrier_step False s s')"
proof -
  obtain s where s: "barrier_run False 10 (barrier_start two 2) s"
    using barrier_runs [OF barrier_ok_start [OF two_init]] by auto
  then show ?thesis using barrier_progress [OF two_init _ s, of 1] by auto
qed

text \<open>
  C32: the wait is not repeated when the condition has not come true, so one spurious wake-up lets a
  thread through the barrier while another one has not even come.
\<close>

theorem barrier_spurious_wakeup:
  assumes "2 \<le> n" and "n < 2 ^ 31" and "pthread_barrier_init errno mrc crc False (of_nat n) = (0, e, Some b)"
  shows "\<exists>s. barrier_run True 3 (barrier_start b n) s \<and> snd (bs_threads s ! 0) = 1 \<and> begun (bs_threads s ! 1) = 0"
proof -
  let ?s0 = "barrier_start b n" and ?b = "b\<lparr>ba_canary := 1\<rparr>"
  let ?ts = "\<lambda>t. (replicate n (Outside, 0))[0 := t]"
  have "barrier_enter b = Some (None, ?b)"
    using enter_cases [OF barrier_ok_start [OF assms(3,2)]] assms(1) by (simp add: barrier_start_def sleepers_def)
  then have 1: "barrier_step True ?s0 \<lparr>bs_barrier = ?b, bs_threads = ?ts (Asleep, 0)\<rparr>"
    using barrier_step.sleep [of 0 ?s0 0 ?b True] assms(1) by (simp add: barrier_start_def)
  have 2: "barrier_step True \<lparr>bs_barrier = ?b, bs_threads = ?ts (Asleep, 0)\<rparr> \<lparr>bs_barrier = ?b, bs_threads = ?ts (Woken, 0)\<rparr>"
    using barrier_step.spurious [of True 0 "\<lparr>bs_barrier = ?b, bs_threads = ?ts (Asleep, 0)\<rparr>" 0] assms(1) by simp
  have 3: "barrier_step True \<lparr>bs_barrier = ?b, bs_threads = ?ts (Woken, 0)\<rparr> \<lparr>bs_barrier = ?b, bs_threads = ?ts (Outside, 1)\<rparr>"
    using barrier_step.leave [of 0 "\<lparr>bs_barrier = ?b, bs_threads = ?ts (Woken, 0)\<rparr>" 0 True] assms(1) by simp
  have "barrier_run True 3 ?s0 \<lparr>bs_barrier = ?b, bs_threads = ?ts (Outside, 1)\<rparr>"
    using barrier_run.more [OF barrier_run.more [OF barrier_run.more [OF barrier_run.none 1] 2] 3]
    by (simp add: eval_nat_numeral)
  moreover have "snd (?ts (Outside, 1) ! 0) = 1" "begun (?ts (Outside, 1) ! 1) = 0"
    using assms(1) by (simp_all add: begun_def)
  ultimately show ?thesis
    by (intro exI [of _ "\<lparr>bs_barrier = ?b, bs_threads = ?ts (Outside, 1)\<rparr>"] conjI) (simp_all only: bstate.simps)
qed

theorem barrier_spurious_wakeup_witness:
  "\<exists>s. barrier_run True 3 (barrier_start two 2) s \<and> snd (bs_threads s ! 0) = 1 \<and> begun (bs_threads s ! 1) = 0"
  by (rule barrier_spurious_wakeup [OF _ _ two_init]) simp_all

end
