(* ===== verification/Arena.thy ===== *)
theory Arena
  imports Doer KeyUnique Barrier
begin

text \<open>
  The program as a whole (\<open>src/ia.c\<close>, \<open>src/ia_main.c\<close>): initialisation, the threads of the doers and
  how they are spread over the benchmarks and the key spaces, the run of the main thread, and the
  exit status.

  \<open>ia_run\<close> is modelled from the main thread's side.  A doer that was started waits at the start
  barrier until the main thread comes there too, so nothing happens to the shared state while the
  doers are spread; from then on they run between any two calls of the main thread's own doer, as in
  \<open>Benchmark\<close>, until all of them are at the finish barrier.  The clock at the start and at
  the end, the outcomes of \<open>calloc\<close>, \<open>pthread_create\<close>, \<open>pthread_barrier_init\<close> and \<open>ia_get_rusage\<close>, and the random
  numbers are parameters.
\<close>

section \<open>State\<close>

text \<open>\<open>Exited\<close>: the process ends in \<open>exit\<close>, without returning to \<open>main\<close>.\<close>

datatype run_end = Returned int | Exited int

record ('w, 'c) aenv =
  x_env :: "('w, 'c) benv"
  x_drivers :: "driver_id \<Rightarrow> ('w, 'c) iadriver"
  x_have :: "driver_id \<Rightarrow> bool"
  x_memory :: memory
  x_started :: u64
  x_ended :: u64
  x_calloc :: "nat \<Rightarrow> bool"
  x_create :: "nat \<Rightarrow> int"
  x_barrier :: "nat \<Rightarrow> u32 \<Rightarrow> int"
  x_rusage :: "nat \<Rightarrow> int \<times> u64"
  x_rand_r :: "u32 \<Rightarrow> u32 \<times> u32"
  x_time :: int
  x_finish :: "'w shared \<Rightarrow> 'w shared"

record ('w, 'c) arena =
  a_conf :: iaconfig
  a_driver :: "('w, 'c) iadriver option"
  a_shared :: "'w shared"
  a_kv :: kv_globals
  a_datadir :: string
  a_before_open_ram :: u64
  a_started :: "'c iadoer list"
  a_report :: "(iabenchmark \<times> hsummary) list option"
  a_freed :: "string list"

section \<open>Initialisation\<close>

definition PATH_MAX :: nat where "PATH_MAX = 4096"

fun global_options ::
  "(('c option \<Rightarrow> string \<Rightarrow> 'w \<Rightarrow> (int \<times> 'w) option) option) \<Rightarrow> string option list \<Rightarrow> 'w \<Rightarrow> (int \<times> 'w) option" where
  "global_options opt [] w = Some (0, w)"
| "global_options opt (arg # args) w =
     do { f \<leftarrow> opt;
          s \<leftarrow> arg;
          (rc, w) \<leftarrow> f None s w;
          if rc \<noteq> 0 then Some (-1, w) else global_options opt args w }"

definition ia_init :: "('w, 'c) aenv \<Rightarrow> string list \<Rightarrow> ('w, 'c) arena \<Rightarrow> (int \<times> ('w, 'c) arena) option" where
  "ia_init x argv a =
     (let (rc, conf) = ia_configinit (x_memory x) (a_conf a); a = a\<lparr>a_conf := conf\<rparr>
      in if rc = -1 then Some (-1, a)
         else
           (let (rc, conf) = ia_configparse (x_memory x) (x_have x) (a_conf a) argv; a = a\<lparr>a_conf := conf\<rparr>
            in if rc = -1 \<or> rc = 1 then Some (rc, a)
               else do {
                 d \<leftarrow> c_driver_if (a_conf a);
                 let drv = x_drivers x d;
                 path \<leftarrow> c_path (a_conf a);
                 let a = a\<lparr>a_driver := Some drv, a_datadir := take (PATH_MAX - 1) (path @ ''/'' @ d_name drv)\<rparr>;
                 let (rc, ram) = x_rusage x 0;
                 if rc \<noteq> 0 then Some (-1, a)
                 else do {
                   let a = a\<lparr>a_before_open_ram := ram\<rparr>;
                   (rc, w) \<leftarrow> global_options (d_option drv) (c_drv_opts (a_conf a)) (sh_priv (a_shared a));
                   let a = a\<lparr>a_shared := (a_shared a)\<lparr>sh_priv := w\<rparr>\<rparr>;
                   if rc \<noteq> 0 then Some (-1, a)
                   else do {
                     (rc, w) \<leftarrow> d_open drv (a_conf a) (a_datadir a) (sh_priv (a_shared a));
                     let a = a\<lparr>a_shared := (a_shared a)\<lparr>sh_priv := w\<rparr>\<rparr>;
                     Some (if rc = -1 then -1 else 0, a) } } }))"

definition ia_free :: "('w, 'c) arena \<Rightarrow> ('w, 'c) arena option" where
  "ia_free a =
     do { a \<leftarrow> (case a_driver a of
            None \<Rightarrow> Some a
          | Some drv \<Rightarrow> do { (rc, w) \<leftarrow> d_close drv (sh_priv (a_shared a));
                            Some (a\<lparr>a_shared := (a_shared a)\<lparr>sh_priv := w\<rparr>\<rparr>) });
          Some (a\<lparr>a_freed := a_freed a @ ia_configfree (a_conf a)\<rparr>) }"

section \<open>Doers\<close>

text \<open>
  The thread of a doer: the others run while it waits at the start barrier, and between its last
  benchmark and its end.
\<close>

definition ia_doer_thread :: "('w, 'c) benv \<Rightarrow> ('w, 'c) sys \<Rightarrow> ('w, 'c) sys option" where
  "ia_doer_thread env s =
     do { (rc, s) \<leftarrow> ia_doer_fulfil env (turn env s);
          let s = turn env s;
          let s = (if rc \<noteq> 0 then s\<lparr>s_shared := (s_shared s)\<lparr>sh_failed := True\<rparr>\<rparr> else s);
          ia_doer_destroy s }"

text \<open>The loop that picks one benchmark of the rotator: \<open>order\<close> goes round until its bit is set.\<close>

definition next_order :: "iabenchmark \<Rightarrow> iabenchmark" where
  "next_order b = (benchmarks @ [IA_MAX]) ! ((bench_nat b + 1) mod bench_nat IA_MAX)"

partial_function (option) separate_loop :: "u64 \<Rightarrow> u64 \<Rightarrow> iabenchmark \<Rightarrow> u64 option" where
  "separate_loop rotator msk order =
     (if msk \<noteq> 0 then Some msk else separate_loop rotator (rotator AND bench_bit order) (next_order order))"

declare separate_loop.simps [code]

record ('w, 'c) spread =
  sd_nth :: nat
  sd_rotator :: u64
  sd_key_space :: int
  sd_started :: "'c iadoer list"
  sd_shared :: "'w shared"

text \<open>What a doer is given: its benchmarks, and its key space.\<close>

definition spread_mask :: "bool \<Rightarrow> u64 \<Rightarrow> u64 option" where
  "spread_mask separate rotator = (if separate then separate_loop rotator 0 IA_SET else Some rotator)"

definition spread_space :: "u64 \<Rightarrow> int \<Rightarrow> int" where
  "spread_space msk key_space =
     (if msk AND bench_mask_write \<noteq> 0
      then (let key_space = key_space + 1
            in if msk AND bench_mask_2keyspace \<noteq> 0 then key_space + 1 else key_space)
      else key_space)"

text \<open>One doer of the loop of \<open>ia_spread\<close>.\<close>

definition spread_one ::
  "('w, 'c) aenv \<Rightarrow> ('w, 'c) benv \<Rightarrow> u64 \<Rightarrow> ('w, 'c) spread \<Rightarrow> (int \<times> ('w, 'c) spread) option" where
  "spread_one x env full p =
     (if full = 0 then None
      else if \<not> x_calloc x (sd_nth p) then Some (-1, p)
      else do {
        let p = p\<lparr>sd_rotator := (if sd_rotator p = 0 then full else sd_rotator p)\<rparr>;
        msk \<leftarrow> spread_mask (c_separate (e_conf env)) (sd_rotator p);
        if msk = 0 then None
        else do {
          let p = p\<lparr>sd_key_space := spread_space msk (sd_key_space p), sd_nth := sd_nth p + 1\<rparr>;
          (rc, doer, sh) \<leftarrow> ia_doer_init env (sd_nth p) msk (sd_key_space p) (int (sd_nth p)) (sd_shared p);
          let p = p\<lparr>sd_shared := sh\<rparr>;
          let created = x_create x (sd_nth p);
          if rc \<noteq> 0 then Some (-1, p)
          else if created \<noteq> 0 then Some (created, p)
          else Some (0, p\<lparr>sd_started := sd_started p @ [doer], sd_rotator := sd_rotator p AND NOT msk\<rparr>) } })"

fun spread_loop ::
  "('w, 'c) aenv \<Rightarrow> ('w, 'c) benv \<Rightarrow> u64 \<Rightarrow> nat \<Rightarrow> ('w, 'c) spread \<Rightarrow> (int \<times> ('w, 'c) spread) option" where
  "spread_loop x env full 0 p = Some (0, p)"
| "spread_loop x env full (Suc n) p =
     do { (rc, p) \<leftarrow> spread_one x env full p;
          if rc \<noteq> 0 then Some (rc, p) else spread_loop x env full n p }"

definition ia_spread ::
  "('w, 'c) aenv \<Rightarrow> ('w, 'c) benv \<Rightarrow> int \<Rightarrow> u64 \<Rightarrow> ('w, 'c) spread \<Rightarrow> (int \<times> ('w, 'c) spread) option" where
  "ia_spread x env cnt full p = spread_loop x env full (nat cnt) p"

section \<open>The run\<close>

text \<open>The benchmarks that were asked for, those that read and those that write, each switched on.\<close>

fun run_sets :: "(nat \<Rightarrow> u64) \<Rightarrow> iaconfig \<Rightarrow> iabenchmark list \<Rightarrow> u64 \<times> u64 \<times> hglobal \<Rightarrow> u64 \<times> u64 \<times> hglobal" where
  "run_sets clock conf [] st = st"
| "run_sets clock conf (b # bs) (rd, wr, g) =
     (if \<not> c_benchmark_list conf b then run_sets clock conf bs (rd, wr, g)
      else
        (let g = ia_histogram_enable (clock (bench_nat b)) b g
         in if b = IA_ITERATE \<or> b = IA_GET then run_sets clock conf bs (rd OR bench_bit b, wr, g)
            else run_sets clock conf bs (rd, wr OR bench_bit b, g)))"

definition run_threads :: "u64 \<Rightarrow> u64 \<Rightarrow> iaconfig \<Rightarrow> iaconfig" where
  "run_threads rd wr conf =
     (let conf = (if c_rthr conf \<noteq> 0 \<and> rd = 0 then conf\<lparr>c_rthr := 0\<rparr> else conf)
      in if c_wthr conf \<noteq> 0 \<and> wr = 0 then conf\<lparr>c_wthr := 0\<rparr> else conf)"

definition key_nsectors :: "iaconfig \<Rightarrow> int" where
  "key_nsectors conf = (let n = 1; n = (if n < c_rthr conf then c_rthr conf else n) in if n < c_wthr conf then c_wthr conf else n)"

definition key_nspaces :: "u64 \<Rightarrow> iaconfig \<Rightarrow> int" where
  "key_nspaces wr conf = (let n = 1; n = (if n < c_wthr conf then c_wthr conf else n)
     in if wr AND bench_mask_2keyspace \<noteq> 0 then n + n else n)"

text \<open>The end of a run: the last report and the table.\<close>

definition run_finish :: "('w, 'c) aenv \<Rightarrow> ('w, 'c) arena \<Rightarrow> (run_end \<times> ('w, 'c) arena) option" where
  "run_finish x a =
     (if sh_failed (a_shared a) then Some (Exited 1, a)
      else do {
        (rc, g, r) \<leftarrow> ia_histogram_checkpoint (x_ended x) 0 (w_global (sh_hist (a_shared a)));
        let a = a\<lparr>a_shared := (a_shared a)\<lparr>sh_hist := (sh_hist (a_shared a))\<lparr>w_global := g\<rparr>\<rparr>, a_report := Some (ia_histogram_print g)\<rparr>;
        Some (Returned 0, a) })"

text \<open>The main thread's part: its own doer for the benchmarks that are left, or none.\<close>

definition run_here ::
  "('w, 'c) aenv \<Rightarrow> ('w, 'c) benv \<Rightarrow> u64 \<Rightarrow> ('w, 'c) arena \<Rightarrow> (run_end \<times> ('w, 'c) arena) option" where
  "run_here x env left a =
     (if left \<noteq> 0 then do {
        (rc, here, sh) \<leftarrow> ia_doer_init env 0 left 0 0 (a_shared a);
        let a = a\<lparr>a_shared := sh\<rparr>;
        if rc \<noteq> 0 then Some (Exited 1, a)
        else if fst (x_rusage x 1) \<noteq> 0 then Some (Exited 1, a)
        else do {
          (rc, s) \<leftarrow> ia_doer_fulfil env \<lparr>s_doer = here, s_shared = a_shared a, s_tick = 0, s_calls = []\<rparr>;
          let s = s\<lparr>s_shared := x_finish x (s_shared s)\<rparr>;
          if rc \<noteq> 0 then Some (Exited 1, a\<lparr>a_shared := s_shared s\<rparr>)
          else if fst (x_rusage x 2) \<noteq> 0 then Some (Exited 1, a\<lparr>a_shared := s_shared s\<rparr>)
          else do { s \<leftarrow> ia_doer_destroy s; run_finish x (a\<lparr>a_shared := s_shared s\<rparr>) } } }
      else if fst (x_rusage x 1) \<noteq> 0 then Some (Exited 1, a)
      else
        (let a = a\<lparr>a_shared := x_finish x (a_shared a)\<rparr>
         in if fst (x_rusage x 2) \<noteq> 0 then Some (Exited 1, a) else run_finish x a))"

text \<open>The doers are started, readers first; then the main thread does its part.\<close>

definition run_spread ::
  "('w, 'c) aenv \<Rightarrow> ('w, 'c) benv \<Rightarrow> u64 \<Rightarrow> u64 \<Rightarrow> ('w, 'c) arena \<Rightarrow> (run_end \<times> ('w, 'c) arena) option" where
  "run_spread x env set_rd set_wr a =
     do { let p = \<lparr>sd_nth = 0, sd_rotator = set_rd, sd_key_space = 0, sd_started = [], sd_shared = a_shared a\<rparr>;
          (rc, p) \<leftarrow> ia_spread x env (c_rthr (a_conf a)) set_rd p;
          let set_rd = sd_rotator p;
          if rc \<noteq> 0 then Some (Exited 1, a\<lparr>a_started := sd_started p, a_shared := sd_shared p\<rparr>)
          else do {
            (rc, p) \<leftarrow> ia_spread x env (c_wthr (a_conf a)) set_wr (p\<lparr>sd_rotator := set_wr\<rparr>);
            let set_wr = sd_rotator p;
            let a = a\<lparr>a_started := sd_started p, a_shared := sd_shared p\<rparr>;
            if rc \<noteq> 0 then Some (Exited 1, a) else run_here x env (set_wr OR set_rd) a } }"

definition ia_run :: "('w, 'c) aenv \<Rightarrow> ('w, 'c) arena \<Rightarrow> (run_end \<times> ('w, 'c) arena) option" where
  "ia_run x a =
     (let (set_rd, set_wr, g) = run_sets (e_clock (x_env x)) (a_conf a) benchmarks (0, 0, w_global (sh_hist (a_shared a)));
          a = a\<lparr>a_shared := (a_shared a)\<lparr>sh_hist := (sh_hist (a_shared a))\<lparr>w_global := g\<rparr>\<rparr>\<rparr>
      in if set_rd OR set_wr = 0 then Some (Returned 0, a)
         else
           (let conf = run_threads set_rd set_wr (a_conf a);
                (rc, kv) = ia_kvgen_setup (x_rand_r x) (x_time x) (a_kv a) (\<not> c_binary conf) (of_int (c_ksize conf))
                  (of_int (key_nspaces set_wr conf)) (of_int (key_nsectors conf)) (c_count conf) (c_kvseed conf);
                a = a\<lparr>a_conf := conf, a_kv := kv\<rparr>
            in if rc \<noteq> 0 then Some (Returned rc, a)
               else
                 (let threads = of_int (c_rthr conf + c_wthr conf + 1);
                      rc = x_barrier x 0 threads;
                      rc = (if rc = 0 then x_barrier x 1 threads else rc)
                  in if rc \<noteq> 0 then Some (Returned rc, a)
                     else do {
                       drv \<leftarrow> a_driver a;
                       run_spread x ((x_env x)\<lparr>e_conf := conf, e_kv := kv, e_drv := drv\<rparr>) set_rd set_wr a })))"

text \<open>\<open>main\<close>; the result is the exit status of the process.\<close>

definition exit_status :: "int \<Rightarrow> int" where
  "exit_status rc = (if rc = -1 then 1 else if rc = 1 then 0 else rc)"

definition ia_main :: "('w, 'c) aenv \<Rightarrow> string list \<Rightarrow> ('w, 'c) arena \<Rightarrow> (int \<times> ('w, 'c) arena) option" where
  "ia_main x argv a =
     do { (rc, a) \<leftarrow> ia_init x argv a;
          if rc \<noteq> 0 then do { a \<leftarrow> ia_free a; Some (exit_status rc, a) }
          else do {
            let a = a\<lparr>a_shared := (a_shared a)\<lparr>sh_hist := (sh_hist (a_shared a))\<lparr>w_global := ia_global_init (x_started x)\<rparr>\<rparr>\<rparr>;
            (out, a) \<leftarrow> ia_run x a;
            case out of
              Exited n \<Rightarrow> Some (n, a)
            | Returned rc \<Rightarrow> do { a \<leftarrow> ia_free a; Some (exit_status rc, a) } } }"

end
