(* ===== verification/ArenaProperties.thy ===== *)
theory ArenaProperties
  imports Arena BenchProperties
begin

text \<open>
  The properties of the program as a whole: which doer runs which benchmarks, which of them share
  keys, and that a run ends.
\<close>

section \<open>Masks\<close>

text \<open>A mask holds benchmarks only.\<close>

definition bench_only :: "u64 \<Rightarrow> bool" where
  "bench_only m \<longleftrightarrow> take_bit 6 m = m"

lemma in_mask_bit: "in_mask m b \<longleftrightarrow> bit m (bench_nat b)"
proof -
  have "m AND bench_bit b = (if bit m (bench_nat b) then bench_bit b else 0)"
    by (rule bit_word_eqI) (auto simp: bench_bit_def bit_simps)
  moreover have "bench_bit b \<noteq> 0"
    by (cases b) (simp_all add: bench_bit_def)
  ultimately show ?thesis by (simp add: in_mask_def)
qed

lemma and_bench_bit: "m AND bench_bit b = (if in_mask m b then bench_bit b else 0)"
  by (rule bit_word_eqI) (auto simp: bench_bit_def in_mask_bit bit_simps)

lemma in_mask_and: "in_mask (m AND n) b \<longleftrightarrow> in_mask m b \<and> in_mask n b"
  and in_mask_or: "in_mask (m OR n) b \<longleftrightarrow> in_mask m b \<or> in_mask n b"
  and in_mask_bench_bit: "in_mask (bench_bit c) b \<longleftrightarrow> c = b"
  and in_mask_zero: "\<not> in_mask 0 b"
  by (auto simp: in_mask_bit bench_bit_def bit_simps) (cases b; simp)+

lemma in_mask_not: "in_mask (NOT n) b \<longleftrightarrow> \<not> in_mask n b"
  by (cases b) (simp_all add: in_mask_bit bit_simps)

lemmas in_mask_simps = in_mask_and in_mask_or in_mask_bench_bit in_mask_zero in_mask_not

lemma bench_only_bit: "bench_only m \<longleftrightarrow> (\<forall>k. bit m k \<longrightarrow> k < 6)"
  unfolding bench_only_def by (subst bit_eq_iff) (use bit_imp_le_length [of m] in \<open>auto simp: bit_take_bit_iff\<close>)

lemma mask_nonzero:
  assumes "bench_only m" and "m \<noteq> 0"
  obtains b where "b \<in> set benchmarks" and "in_mask m b"
proof -
  obtain k where k: "bit m k" using assms(2) by (metis bit_eqI bit_0_eq bot_apply bot_bool_def)
  then have "k \<in> bench_nat ` set benchmarks"
    using bench_only_bit assms(1) k by (auto simp: benchmarks_def)
  then show ?thesis using k that by (auto simp: in_mask_bit)
qed

lemma bench_only_simps:
  "bench_only m \<Longrightarrow> bench_only (m AND n)" "bench_only m \<Longrightarrow> bench_only n \<Longrightarrow> bench_only (m OR n)"
  "b < IA_MAX \<Longrightarrow> bench_only (bench_bit b)" "bench_only 0"
  by (auto simp: bench_only_bit bit_simps bench_bit_def below_MAX) (cases b; simp)

section \<open>Sectors\<close>

text \<open>The start of a doer's sector is defined for every doer of a run: the quotient fits into 64 bits.\<close>

lemma dbl_exp_pow: "2 ^ dbl_exp n \<le> Suc n"
proof (cases "n < 2 ^ 53")
  case True
  then show ?thesis by (simp add: dbl_exp_small)
next
  case False
  then have "2 ^ 52 \<le> n div 2 ^ dbl_exp n" using dbl_exp_div [of n] by simp
  then have "0 < n div 2 ^ dbl_exp n" by (metis not_gr_zero not_numeral_le_zero power_eq_0_iff zero_neq_numeral le_zero_eq)
  then have "2 ^ dbl_exp n \<le> n" by (simp add: div_greater_zero_iff)
  then show ?thesis by simp
qed

lemma round_div_le: "round_div p q \<le> Suc (p div q)"
  by (simp add: round_div_def Let_def)

lemma dbl_le: "dbl n \<le> 2 * n + 1"
proof -
  let ?e = "2 ^ dbl_exp n :: nat"
  have "dbl n \<le> Suc (n div ?e) * ?e" unfolding dbl_def Let_def by (rule mult_le_mono1 [OF round_div_le])
  also have "\<dots> = n div ?e * ?e + ?e" by simp
  also have "\<dots> \<le> n + Suc n" by (rule add_mono [OF div_times_less_eq_dividend dbl_exp_pow])
  finally show ?thesis by simp
qed

lemma dbl_div_trunc_le: "dbl_div_trunc a b \<le> 2 * (a div b) + 1"
proof (cases "2 ^ 52 * b \<le> a")
  case True
  let ?e = "2 ^ dbl_exp (a div b) :: nat"
  have "dbl_div_trunc a b \<le> Suc (a div (b * ?e)) * ?e"
    using True mult_le_mono1 [OF round_div_le] by (simp only: dbl_div_trunc_def Let_def if_True)
  also have "\<dots> = a div b div ?e * ?e + ?e" by (simp add: div_mult2_eq)
  also have "\<dots> \<le> a div b + Suc (a div b)" by (rule add_mono [OF div_times_less_eq_dividend dbl_exp_pow])
  finally show ?thesis by simp
next
  case False
  let ?s = "2 ^ dbl_frac a b :: nat"
  have "dbl_div_trunc a b \<le> Suc (a * ?s div b) div ?s"
    using False div_le_mono [OF round_div_le] by (simp only: dbl_div_trunc_def Let_def if_False)
  also have "\<dots> \<le> Suc (a * ?s div b div ?s)" by (metis Suc_leI div_le_mono le_SucI lessI less_or_eq_imp_le div_Suc)
  also have "\<dots> = Suc (a * ?s div ?s div b)" by (simp only: div_mult2_eq [symmetric] mult.commute)
  also have "\<dots> = Suc (a div b)" by simp
  finally show ?thesis by simp
qed

lemma sector_start_some:
  assumes "g_nsectors g \<noteq> 0" and "g_period g \<noteq> 0" and "unat (g_period g) < 2 ^ 58" and "unat k \<le> 2 * unat (g_nsectors g)"
  shows "sector_start g k \<noteq> None"
proof -
  let ?p = "unat (g_period g)" and ?n = "unat (g_nsectors g)"
  have n: "0 < ?n" using assms(1) by (simp add: unat_gt_0)
  have "dbl (dbl ?p * unat k) \<le> 2 * (dbl ?p * unat k) + 1" by (rule dbl_le)
  also have "\<dots> \<le> 2 * ((2 * ?p + 1) * (2 * ?n)) + 1"
    using mult_le_mono [OF dbl_le [of ?p] assms(4)] by simp
  also have "\<dots> \<le> (8 * ?p + 5) * ?n" using n by (simp add: algebra_simps)
  finally have "dbl (dbl ?p * unat k) div ?n \<le> 8 * ?p + 5"
    using div_le_mono [of "dbl (dbl ?p * unat k)" "(8 * ?p + 5) * ?n" ?n] n by simp
  then have "dbl_div_trunc (dbl (dbl ?p * unat k)) ?n < 2 ^ 64"
    using dbl_div_trunc_le [of "dbl (dbl ?p * unat k)" ?n] assms(3) by simp
  then show ?thesis using assms(1,2) by (simp add: sector_start_def Let_def)
qed

lemma kvgen_init_returns:
  assumes "g_nsectors g \<noteq> 0" and "g_period g \<noteq> 0" and "unat (g_period g) < 2 ^ 58" and "unat k \<le> 2 * unat (g_nsectors g)"
  shows "\<exists>rc gp. ia_kvgen_init alloc g None ks k vsize vage = Some (rc, gp) \<and> rc \<in> {0, -1}"
  using sector_start_some [OF assms] assms(2)
  by (auto simp: ia_kvgen_init_def Let_def split: option.split)

lemma kvgen_init_some: "ia_kvgen_init alloc g None ks k vsize vage = Some (0, gp) \<Longrightarrow> \<exists>gen. gp = Some gen"
  by (auto simp: ia_kvgen_init_def Let_def split: option.splits if_splits)

lemma doer_init_returns:
  assumes "g_nsectors (e_kv env) \<noteq> 0" and "g_period (e_kv env) \<noteq> 0" and "unat (g_period (e_kv env)) < 2 ^ 58"
    and "unat (of_int kq :: u32) \<le> 2 * unat (g_nsectors (e_kv env))" and "msk \<noteq> 0"
  shows "\<exists>rc d sh'. ia_doer_init env nr msk ks kq sh = Some (rc, d, sh') \<and> rc \<in> {0, -1}"
proof -
  let ?init = "\<lambda>ks. ia_kvgen_init (e_alloc env) (e_kv env) None (of_int ks) (of_int kq) (of_int (c_vsize (e_conf env))) 0"
  obtain rc1 g1 where 1: "?init ks = Some (rc1, g1)" "rc1 \<in> {0, -1}"
    using kvgen_init_returns [OF assms(1-4)] by blast
  obtain rc2 g2 where 2: "?init (ks + 1) = Some (rc2, g2)" "rc2 \<in> {0, -1}"
    using kvgen_init_returns [OF assms(1-4)] by blast
  show ?thesis using 1 2 assms(5) by (auto simp: ia_doer_init_def Let_def split: prod.split)
qed

section \<open>Spreading the doers\<close>

text \<open>The first benchmark of a mask.\<close>

lemma separate_loop_find:
  assumes "b \<in> set benchmarks" and "in_mask rot b"
  shows "separate_loop rot 0 IA_SET = map_option bench_bit (find (in_mask rot) benchmarks)"
proof -
  have nz: "bench_bit b \<noteq> 0" for b using in_mask_bench_bit [of b b] by (auto simp: in_mask_zero)
  have step: "separate_loop rot 0 b = (if in_mask rot b then Some (bench_bit b) else separate_loop rot 0 (next_order b))" for b
    by (subst separate_loop.simps) (simp add: and_bench_bit nz separate_loop.simps [of rot "bench_bit b"])
  have next_of: "next_order IA_SET = IA_BATCH" "next_order IA_BATCH = IA_CRUD" "next_order IA_CRUD = IA_DELETE"
    "next_order IA_DELETE = IA_ITERATE" "next_order IA_ITERATE = IA_GET"
    by (simp_all add: next_order_def benchmarks_def)
  note steps = step [of IA_SET] step [of IA_BATCH] step [of IA_CRUD] step [of IA_DELETE] step [of IA_ITERATE] step [of IA_GET]
  have "\<exists>b \<in> set benchmarks. in_mask rot b" using assms by blast
  then show ?thesis
    unfolding benchmarks_def by (simp add: steps [unfolded next_of]) blast
qed

lemma separate_loop_first:
  assumes "bench_only rot" and "rot \<noteq> 0"
  obtains b where "separate_loop rot 0 IA_SET = Some (bench_bit b)" and "in_mask rot b" and "b < IA_MAX"
    and "\<And>c. in_mask rot c \<Longrightarrow> c < IA_MAX \<Longrightarrow> b \<le> c"
proof -
  obtain b0 where b0: "b0 \<in> set benchmarks" "in_mask rot b0" by (rule mask_nonzero [OF assms])
  then obtain b where b: "find (in_mask rot) benchmarks = Some b" by (metis find_None_iff not_None_eq)
  then obtain i where i: "i < length benchmarks" "in_mask rot (benchmarks ! i)" "b = benchmarks ! i"
    "\<forall>j<i. \<not> in_mask rot (benchmarks ! j)"
    by (auto simp: find_Some_iff)
  have "b \<le> c" if c: "in_mask rot c" "c < IA_MAX" for c
  proof -
    obtain j where j: "j < length benchmarks" "c = benchmarks ! j"
      using c(2) by (metis set_benchmarks in_set_conv_nth)
    then have "i \<le> j" using i(4) c(1) by (metis not_le_imp_less)
    then show ?thesis using sorted_nth_mono [OF sorted_benchmarks] i(3) j by simp
  qed
  then show ?thesis
    using that [of b] separate_loop_find [OF b0] b i set_benchmarks [of b] by simp
qed

text \<open>What \<open>ia_doer_init\<close> gives a doer, and what it does to the shared state.\<close>

lemma doer_init_fields:
  assumes "ia_doer_init env nr msk ks kq sh = Some (0, d, sh')"
  shows "do_benchmask d = msk" and "do_key_space d = ks" and "do_nth d = nr"
    and "ia_kvgen_init (e_alloc env) (e_kv env) None (of_int ks) (of_int kq) (of_int (c_vsize (e_conf env))) 0 = Some (0, do_gen_a d)"
    and "if msk AND bench_mask_2keyspace \<noteq> 0
      then ia_kvgen_init (e_alloc env) (e_kv env) None (of_int (ks + 1)) (of_int kq) (of_int (c_vsize (e_conf env))) 0 = Some (0, do_gen_b d)
      else do_gen_b d = None"
    and "sh_priv sh' = sh_priv sh" and "sh_failed sh' = sh_failed sh"
    and "hruns (sh_hist sh) [(Start, None)] (sh_hist sh')" and "length (w_doers (sh_hist sh')) = Suc (length (w_doers (sh_hist sh)))"
  using assms
  by (auto simp: ia_doer_init_def Let_def Option.bind_eq_Some_conv hruns_one [OF hstep.start] split: if_splits prod.splits)

text \<open>The benchmarks a doer is given, and one round of the loop.\<close>

definition picks :: "bool \<Rightarrow> u64 \<Rightarrow> u64 \<Rightarrow> bool" where
  "picks separate rot msk \<longleftrightarrow> msk \<noteq> 0 \<and>
     (if separate then \<exists>b. msk = bench_bit b \<and> in_mask rot b \<and> b < IA_MAX \<and> (\<forall>c. in_mask rot c \<and> c < IA_MAX \<longrightarrow> b \<le> c)
      else msk = rot)"

definition spaces_of :: "u64 \<Rightarrow> int" where
  "spaces_of msk = spread_space msk 0"

lemma spread_space_eq: "spread_space msk ks = ks + spaces_of msk"
  by (simp add: spaces_of_def spread_space_def)

lemma picks_bench_only: "picks sep rot msk \<Longrightarrow> bench_only rot \<Longrightarrow> bench_only msk \<and> msk AND rot = msk"
  by (auto simp: picks_def bench_only_simps and_bench_bit and.commute [of _ rot] split: if_splits)

lemma spread_mask_picks:
  assumes "bench_only rot" and "rot \<noteq> 0"
  obtains msk where "spread_mask separate rot = Some msk" and "picks separate rot msk"
proof (cases separate)
  case True
  obtain b where b: "separate_loop rot 0 IA_SET = Some (bench_bit b)" "in_mask rot b" "b < IA_MAX"
    "\<And>c. in_mask rot c \<Longrightarrow> c < IA_MAX \<Longrightarrow> b \<le> c"
    by (rule separate_loop_first [OF assms]) blast
  moreover have "bench_bit b \<noteq> 0" using in_mask_bench_bit [of b b] by (auto simp: in_mask_zero)
  ultimately show ?thesis using True that [of "bench_bit b"] unfolding picks_def spread_mask_def by auto
next
  case False
  then show ?thesis using that [of rot] assms(2) by (simp add: spread_mask_def picks_def)
qed

lemma spread_one_ok:
  assumes "spread_one x env full p = Some (0, p')" and full: "bench_only full" and rot: "bench_only (sd_rotator p)"
  obtains msk d sh where "picks (c_separate (e_conf env)) (if sd_rotator p = 0 then full else sd_rotator p) msk"
    and "ia_doer_init env (sd_nth p + 1) msk (sd_key_space p + spaces_of msk) (int (sd_nth p + 1)) (sd_shared p) = Some (0, d, sh)"
    and "p' = \<lparr>sd_nth = sd_nth p + 1, sd_rotator = (if sd_rotator p = 0 then full else sd_rotator p) AND NOT msk,
      sd_key_space = sd_key_space p + spaces_of msk, sd_started = sd_started p @ [d], sd_shared = sh\<rparr>"
    and "full \<noteq> 0"
proof -
  define r where "r = (if sd_rotator p = 0 then full else sd_rotator p)"
  have nz: "full \<noteq> 0" using assms(1) by (auto simp: spread_one_def)
  then have "bench_only r" "r \<noteq> 0" using full rot by (simp_all add: r_def)
  then obtain msk where m: "spread_mask (c_separate (e_conf env)) r = Some msk" "picks (c_separate (e_conf env)) r msk"
    by (rule spread_mask_picks)
  then have "msk \<noteq> 0" by (simp add: picks_def)
  with assms(1) [unfolded spread_one_def, folded r_def] m(1) nz obtain d sh where
    "ia_doer_init env (sd_nth p + 1) msk (sd_key_space p + spaces_of msk) (int (sd_nth p + 1)) (sd_shared p) = Some (0, d, sh)"
    "p' = \<lparr>sd_nth = sd_nth p + 1, sd_rotator = r AND NOT msk, sd_key_space = sd_key_space p + spaces_of msk,
      sd_started = sd_started p @ [d], sd_shared = sh\<rparr>"
    by (cases p) (auto simp: spread_space_eq Let_def Option.bind_eq_Some_conv split: if_split_asm)
  then show ?thesis using that m(2) nz by (simp add: r_def)
qed

text \<open>A round in which no call is undefined.\<close>

lemma spread_one_returns:
  assumes "full \<noteq> 0" and "bench_only full" and "bench_only (sd_rotator p)"
    and init: "\<And>msk ks sh. msk \<noteq> 0 \<Longrightarrow> \<exists>rc d sh'. ia_doer_init env (sd_nth p + 1) msk ks (int (sd_nth p + 1)) sh = Some (rc, d, sh') \<and> P rc"
  shows "\<exists>rc p'. spread_one x env full p = Some (rc, p') \<and>
    (x_calloc x (sd_nth p) \<and> x_create x (sd_nth p + 1) = 0 \<longrightarrow> rc = 0 \<or> (\<exists>r. P r \<and> r \<noteq> 0))"
proof -
  define r where "r = (if sd_rotator p = 0 then full else sd_rotator p)"
  have "bench_only r" "r \<noteq> 0" using assms(1-3) by (simp_all add: r_def)
  then obtain msk where m: "spread_mask (c_separate (e_conf env)) r = Some msk" "picks (c_separate (e_conf env)) r msk"
    by (rule spread_mask_picks)
  then have "msk \<noteq> 0" by (simp add: picks_def)
  from init [OF this, of "sd_key_space p + spaces_of msk" "sd_shared p"] obtain rc d sh
    where "ia_doer_init env (sd_nth p + 1) msk (sd_key_space p + spaces_of msk) (int (sd_nth p + 1)) (sd_shared p) = Some (rc, d, sh)"
      "P rc" by blast
  then show ?thesis
    using m(1) \<open>msk \<noteq> 0\<close> assms(1) unfolding spread_one_def r_def [symmetric] by (auto simp: spread_space_eq Let_def)
qed

text \<open>Several rounds: the doers that were started, and what is left of the rotator.\<close>

definition covers :: "u64 \<Rightarrow> 'c iadoer list \<Rightarrow> u64 \<Rightarrow> bool" where
  "covers rot ds rot' \<longleftrightarrow> (\<forall>b. in_mask rot b \<longrightarrow> (\<exists>d \<in> set ds. in_mask (do_benchmask d) b) \<or> in_mask rot' b)"

definition within :: "u64 \<Rightarrow> u64 \<Rightarrow> bool" where
  "within m full \<longleftrightarrow> (\<forall>b. in_mask m b \<longrightarrow> in_mask full b)"

lemma spread_loop_ok:
  assumes "spread_loop x env full n p = Some (0, p')" and "bench_only full" and "bench_only (sd_rotator p)"
    and "within (sd_rotator p) full"
  shows "\<exists>ds tr. sd_started p' = sd_started p @ ds \<and> length ds = n \<and> bench_only (sd_rotator p') \<and> within (sd_rotator p') full \<and>
    covers (sd_rotator p) ds (sd_rotator p') \<and> (\<forall>d \<in> set ds. do_benchmask d \<noteq> 0 \<and> bench_only (do_benchmask d) \<and> within (do_benchmask d) full \<and>
      (c_separate (e_conf env) \<longrightarrow> (\<exists>b. do_benchmask d = bench_bit b \<and> b < IA_MAX))) \<and>
    hruns (sh_hist (sd_shared p)) tr (sh_hist (sd_shared p')) \<and>
    length (w_doers (sh_hist (sd_shared p'))) = length (w_doers (sh_hist (sd_shared p))) + n \<and>
    sh_priv (sd_shared p') = sh_priv (sd_shared p)"
  using assms
proof (induction n arbitrary: p)
  case 0
  then show ?case using hruns.nil by (auto simp: covers_def)
next
  case (Suc n)
  let ?rot = "if sd_rotator p = 0 then full else sd_rotator p"
  obtain p1 where p1: "spread_one x env full p = Some (0, p1)" "spread_loop x env full n p1 = Some (0, p')"
    using Suc.prems(1) by (auto simp: Option.bind_eq_Some_conv split: if_splits)
  obtain msk d sh where m: "picks (c_separate (e_conf env)) ?rot msk"
    and d: "ia_doer_init env (sd_nth p + 1) msk (sd_key_space p + spaces_of msk) (int (sd_nth p + 1)) (sd_shared p) = Some (0, d, sh)"
    and p1': "p1 = \<lparr>sd_nth = sd_nth p + 1, sd_rotator = ?rot AND NOT msk, sd_key_space = sd_key_space p + spaces_of msk,
      sd_started = sd_started p @ [d], sd_shared = sh\<rparr>"
    by (rule spread_one_ok [OF p1(1) Suc.prems(2,3)]) blast
  note f = doer_init_fields [OF d]
  have msk: "within msk full" "within (?rot AND NOT msk) full"
    using m Suc.prems(4) by (auto simp: picks_def within_def in_mask_simps split: if_splits)
  have "bench_only (sd_rotator p1)" "within (sd_rotator p1) full"
    using msk Suc.prems(2,3) by (simp_all add: p1' bench_only_simps)
  from Suc.IH [OF p1(2) Suc.prems(2) this] obtain ds tr where IH: "sd_started p' = sd_started p1 @ ds" "length ds = n"
    "bench_only (sd_rotator p')" "within (sd_rotator p') full" "covers (sd_rotator p1) ds (sd_rotator p')"
    "\<forall>d \<in> set ds. do_benchmask d \<noteq> 0 \<and> bench_only (do_benchmask d) \<and> within (do_benchmask d) full \<and>
      (c_separate (e_conf env) \<longrightarrow> (\<exists>b. do_benchmask d = bench_bit b \<and> b < IA_MAX))"
    "hruns (sh_hist (sd_shared p1)) tr (sh_hist (sd_shared p'))"
    "length (w_doers (sh_hist (sd_shared p'))) = length (w_doers (sh_hist (sd_shared p1))) + n"
    "sh_priv (sd_shared p') = sh_priv (sd_shared p1)" by blast
  have "covers (sd_rotator p) (d # ds) (sd_rotator p')"
    using IH(5) f(1) by (cases "sd_rotator p = 0") (auto simp: covers_def p1' in_mask_simps)
  moreover have "do_benchmask d \<noteq> 0 \<and> bench_only (do_benchmask d) \<and> within (do_benchmask d) full \<and>
      (c_separate (e_conf env) \<longrightarrow> (\<exists>b. do_benchmask d = bench_bit b \<and> b < IA_MAX))"
    using m msk(1) f(1) picks_bench_only [OF m] Suc.prems(2,3) by (auto simp: picks_def split: if_splits)
  ultimately show ?case
    using IH f(6,9) hruns_append [OF f(8), of tr "sh_hist (sd_shared p')"]
    by (intro exI [of _ "d # ds"] exI [of _ "[(Start, None)] @ tr"]) (simp add: p1')
qed

text \<open>Without \<open>separate\<close> every doer gets all benchmarks, and its key spaces follow those of the one before.\<close>

lemma spread_loop_whole:
  assumes "spread_loop x env full n p = Some (0, p')" and "bench_only full" and "sd_rotator p \<in> {0, full}"
    and "\<not> c_separate (e_conf env)"
  shows "\<exists>ds. sd_started p' = sd_started p @ ds \<and> length ds = n \<and> (0 < n \<longrightarrow> sd_rotator p' = 0) \<and>
    (\<forall>i < n. \<exists>nr sh sh'. ia_doer_init env nr full (sd_key_space p + int (Suc i) * spaces_of full) (int nr) sh = Some (0, ds ! i, sh'))"
  using assms
proof (induction n arbitrary: p)
  case (Suc n)
  let ?rot = "if sd_rotator p = 0 then full else sd_rotator p"
  obtain p1 where p1: "spread_one x env full p = Some (0, p1)" "spread_loop x env full n p1 = Some (0, p')"
    using Suc.prems(1) by (auto simp: Option.bind_eq_Some_conv split: if_splits)
  have "bench_only (sd_rotator p)" using Suc.prems(2,3) by (auto simp: bench_only_simps)
  then obtain msk d sh where m: "picks (c_separate (e_conf env)) ?rot msk"
    and d: "ia_doer_init env (sd_nth p + 1) msk (sd_key_space p + spaces_of msk) (int (sd_nth p + 1)) (sd_shared p) = Some (0, d, sh)"
    and p1': "p1 = \<lparr>sd_nth = sd_nth p + 1, sd_rotator = ?rot AND NOT msk, sd_key_space = sd_key_space p + spaces_of msk,
      sd_started = sd_started p @ [d], sd_shared = sh\<rparr>"
    by (rule spread_one_ok [OF p1(1) Suc.prems(2)]) blast
  have msk: "msk = full" "sd_rotator p1 = 0" using m Suc.prems(3,4) by (auto simp: picks_def p1')
  then obtain ds where IH: "sd_started p' = sd_started p1 @ ds" "length ds = n" "0 < n \<longrightarrow> sd_rotator p' = 0"
    "\<forall>i < n. \<exists>nr sh sh'. ia_doer_init env nr full (sd_key_space p1 + int (Suc i) * spaces_of full) (int nr) sh = Some (0, ds ! i, sh')"
    using Suc.IH [OF p1(2) Suc.prems(2) _ Suc.prems(4)] by auto
  have "\<exists>nr sh sh'. ia_doer_init env nr full (sd_key_space p + int (Suc i) * spaces_of full) (int nr) sh = Some (0, (d # ds) ! i, sh')"
    if "i < Suc n" for i
  proof (cases i)
    case 0
    then have "ia_doer_init env (sd_nth p + 1) full (sd_key_space p + int (Suc i) * spaces_of full) (int (sd_nth p + 1))
        (sd_shared p) = Some (0, (d # ds) ! i, sh)"
      using d msk(1) by simp
    then show ?thesis by blast
  next
    case (Suc j)
    then show ?thesis using IH(4) that msk(1) by (auto simp: p1' algebra_simps)
  qed
  moreover have "sd_rotator p' = 0" using IH(3) msk(2) p1(2) by (cases n) auto
  ultimately show ?case using IH(1,2) by (intro exI [of _ "d # ds"]) (simp add: p1')
qed simp

section \<open>Properties\<close>


text \<open>A sample: nothing fails, the dummy driver, the benchmarks of \<open>conf\<close>.\<close>

definition sample_aenv :: "(unit, int) aenv" where
  "sample_aenv = \<lparr>x_env = sample_env, x_drivers = (\<lambda>_. ia_dummy True), x_have = (\<lambda>_. False), x_memory = sample_memory,
     x_started = 1, x_ended = 2, x_calloc = (\<lambda>_. True), x_create = (\<lambda>_. 0), x_barrier = (\<lambda>_ _. 0), x_rusage = (\<lambda>_. (0, 0)),
     x_rand_r = sample_rand, x_time = 0, x_finish = (\<lambda>sh. sh)\<rparr>"

definition sample_conf :: "bool \<Rightarrow> (unit, int) benv" where
  "sample_conf separate = sample_env\<lparr>e_conf := (e_conf sample_env)\<lparr>c_separate := separate, c_wthr := 2\<rparr>\<rparr>"

definition sample_spread :: "u64 \<Rightarrow> (unit, int) spread" where
  "sample_spread full = \<lparr>sd_nth = 0, sd_rotator = full, sd_key_space = 0, sd_started = [], sd_shared = s_shared (sample_sys 63)\<rparr>"

lemma sample_spread_simps: "sd_rotator (sample_spread full) = full" "sd_key_space (sample_spread full) = 0"
    "sd_started (sample_spread full) = []"
  and sample_globals_width: "g_width (sample_globals ks width period) = width"
  by (simp_all add: sample_spread_def sample_globals_def)

lemma sample_doer_init:
  assumes "msk \<noteq> 0" and "kq \<in> {1, 2}"
  shows "\<exists>d sh'. ia_doer_init (sample_conf sep) nr msk ks kq sh = Some (0, d, sh')"
proof -
  have "sector_start (sample_globals 16 2 1000) (of_int kq) \<noteq> None"
    using assms(2) by (intro sector_start_some) (auto simp: sample_globals_def)
  then have "\<exists>gp. ia_kvgen_init sample_alloc (sample_globals 16 2 1000) None (of_int ks) (of_int kq) 0 0 = Some (0, gp)" for ks
    using assms(2)
    by (auto simp: ia_kvgen_init_def Let_def sample_alloc_def kvpair_bytes_def) (auto simp: sample_globals_def)
  note this [of ks] this [of "ks + 1"]
  then show ?thesis
    using assms(1) by (auto simp: ia_doer_init_def sample_conf_def sample_env_def blank_config_def Let_def split: prod.split)
qed

lemma sample_spread_one:
  assumes "full \<noteq> 0" and "bench_only full" and "bench_only (sd_rotator p)" and "sd_nth p \<in> {0, 1}"
  shows "\<exists>p'. spread_one sample_aenv (sample_conf sep) full p = Some (0, p')"
proof -
  have "\<exists>rc d sh'. ia_doer_init (sample_conf sep) (sd_nth p + 1) msk ks (int (sd_nth p + 1)) sh = Some (rc, d, sh') \<and> rc = 0"
    if "msk \<noteq> 0" for msk ks sh
    using sample_doer_init [OF that, of "int (sd_nth p + 1)"] assms(4) by auto
  from spread_one_returns [OF assms(1-3) this, of sample_aenv] show ?thesis by (auto simp: sample_aenv_def)
qed

lemma sample_spread:
  assumes "full \<noteq> 0" and "bench_only full"
  obtains p' where "ia_spread sample_aenv (sample_conf sep) 2 full (sample_spread full) = Some (0, p')"
proof -
  obtain p1 where 1: "spread_one sample_aenv (sample_conf sep) full (sample_spread full) = Some (0, p1)"
    using sample_spread_one [OF assms, of "sample_spread full"] assms(2) by (auto simp: sample_spread_def)
  have rot: "bench_only (sd_rotator (sample_spread full))" using assms(2) by (simp add: sample_spread_def)
  have p1: "bench_only (sd_rotator p1)" "sd_nth p1 = 1"
  proof -
    obtain msk d sh where "p1 = \<lparr>sd_nth = sd_nth (sample_spread full) + 1, sd_rotator = (if sd_rotator (sample_spread full) = 0 then full
        else sd_rotator (sample_spread full)) AND NOT msk, sd_key_space = sd_key_space (sample_spread full) + spaces_of msk,
        sd_started = sd_started (sample_spread full) @ [d], sd_shared = sh\<rparr>"
      by (rule spread_one_ok [OF 1 assms(2) rot])
    then show "bench_only (sd_rotator p1)" "sd_nth p1 = 1"
      using assms(2) by (simp_all add: sample_spread_def bench_only_simps)
  qed
  then obtain p2 where "spread_one sample_aenv (sample_conf sep) full p1 = Some (0, p2)"
    using sample_spread_one [OF assms, of p1] by auto
  then show ?thesis using 1 that by (simp add: ia_spread_def numeral_2_eq_2)
qed


section \<open>Who shares keys\<close>

definition doer_gens :: "'c iadoer \<Rightarrow> ia_kvgen set" where
  "doer_gens d = set_option (do_gen_a d) \<union> set_option (do_gen_b d)"

lemma doer_init_gens:
  assumes "ia_doer_init env nr msk ks kq sh = Some (0, d, sh')" and "gen \<in> doer_gens d"
  obtains k where "ia_kvgen_init (e_alloc env) (e_kv env) None (of_int k) (of_int kq) (of_int (c_vsize (e_conf env))) 0 = Some (0, Some gen)"
    and "k = ks \<or> k = ks + 1 \<and> msk AND bench_mask_2keyspace \<noteq> 0"
proof -
  note f = doer_init_fields(4,5) [OF assms(1)]
  from assms(2) consider "do_gen_a d = Some gen" | "do_gen_b d = Some gen" by (auto simp: doer_gens_def)
  then show ?thesis
  proof cases
    case 1
    then show ?thesis using f(1) that [of ks] by simp
  next
    case 2
    then show ?thesis using f(2) that [of "ks + 1"] by (auto split: if_splits)
  qed
qed


text \<open>The doers of the sample and their generators.\<close>

lemma sample_doer_gens:
  assumes "bench_only full" and "ia_spread sample_aenv (sample_conf False) 2 full (sample_spread full) = Some (0, p')"
  obtains d1 d2 g1 g2 where "sd_started p' = [d1, d2]" and "g1 \<in> doer_gens d1" and "g2 \<in> doer_gens d2"
    and "kvgen_ok (sample_globals 16 2 1000) g1" and "kvgen_ok (sample_globals 16 2 1000) g2"
proof -
  have loop: "spread_loop sample_aenv (sample_conf False) full 2 (sample_spread full) = Some (0, p')"
    using assms(2) by (simp add: ia_spread_def)
  obtain ds where ds: "sd_started p' = ds" "length ds = 2"
    "\<forall>i < 2. \<exists>nr sh sh'. ia_doer_init (sample_conf False) nr full (int (Suc i) * spaces_of full) (int nr) sh = Some (0, ds ! i, sh')"
    using spread_loop_whole [OF loop assms(1)] by (auto simp: sample_spread_def sample_conf_def)
  have gen: "\<exists>g \<in> doer_gens (ds ! i). kvgen_ok (sample_globals 16 2 1000) g" if i: "i < 2" for i
  proof -
    obtain nr sh sh' where "ia_doer_init (sample_conf False) nr full (int (Suc i) * spaces_of full) (int nr) sh = Some (0, ds ! i, sh')"
      using ds(3) i by blast
    note f = doer_init_fields(4) [OF this]
    then obtain g where g: "do_gen_a (ds ! i) = Some g"
      using kvgen_init_some by blast
    have "kvgen_ok (sample_globals 16 2 1000) g"
      using kvgen_init_ok [OF sample_alloc_ok _ _ _ f [unfolded g, simplified sample_conf_def sample_env_def, simplified]]
      by (simp add: sample_globals_def)
    then show ?thesis using g by (auto simp: doer_gens_def)
  qed
  have "ds = [ds ! 0, ds ! 1]" using ds(2) by (simp add: list_eq_iff_nth_eq less_2_cases_iff)
  then show ?thesis using that gen [of 0] gen [of 1] ds(1) by fastforce
qed


text \<open>The keys of one period: those of all records of the key space, wherever the generator starts.\<close>

lemma period_keys:
  assumes "kvgen_ok g gen"
  shows "\<exists>gen' kvs. kvgen_gets g gen (replicate (unat (g_period g)) True) = Some (gen', kvs) \<and>
    set (map kv_key kvs) = (\<lambda>j. key_text g (kg_base gen + of_nat j)) ` {0..<unat (g_period g)}"
proof -
  let ?p = "unat (g_period g)" and ?s = "unat (kg_serial gen)"
  have p: "0 < ?p" using assms by (simp add: kvgen_ok_def unat_gt_0)
  let ?f = "\<lambda>i. (?s + i) mod ?p" and ?key = "\<lambda>j. key_text g (kg_base gen + of_nat j)"
  have inj: "inj_on ?f {0..<?p}"
  proof (rule inj_onI)
    show "i = j" if "i \<in> {0..<?p}" "j \<in> {0..<?p}" "?f i = ?f j" for i j
      by (rule mod_add_left_inj [OF that(3)]) (use that in simp_all)
  qed
  have "?f ` {0..<?p} = {0..<?p}"
    by (rule endo_inj_surj [OF _ _ inj]) (use p in auto)
  moreover have "(\<lambda>i. key_text g (point_at g gen i)) ` {0..<?p} = ?key ` ?f ` {0..<?p}"
    by (simp add: image_image point_at_def)
  moreover obtain gen' kvs where "kvgen_gets g gen (replicate ?p True) = Some (gen', kvs)"
    "set (map kv_key kvs) = set (map (\<lambda>i. key_text g (point_at g gen i)) [0..<?p])"
    using kvgen_gets_keys [OF assms, of "replicate ?p True"] unfolding length_replicate by metis
  ultimately show ?thesis by (auto simp del: kvgen_gets.simps)
qed

lemma picks_separate:
  assumes "picks True rot msk" and "in_mask rot b" and "b < IA_MAX" and "\<And>c. in_mask rot c \<Longrightarrow> b \<le> c"
  shows "msk = bench_bit b"
  using assms unfolding picks_def by (metis order.antisym)

text \<open>
  C40: with \<open>separate\<close>, a doer that deletes and comes after one that needs two key spaces (batch or
  crud) is given the second of them: the first doer counts both of its spaces before it is given
  them, but starts with the last.  The two hand out exactly the same keys.
\<close>

theorem separate_shares_key_space:
  assumes "b \<in> {IA_BATCH, IA_CRUD}" and "c_separate (e_conf env)"
    and "ia_spread x env 2 (bench_bit b OR bench_bit IA_DELETE) p = Some (0, p')"
    and "sd_rotator p = bench_bit b OR bench_bit IA_DELETE" and "sd_started p = []"
    and "alloc_ok (e_alloc env)" and "g_printable (e_kv env)" and "g_ksize (e_kv env) \<noteq> 0" and "g_period (e_kv env) \<noteq> 0"
  shows "\<exists>d1 d2 g1 g2 g1' g2' kvs1 kvs2. sd_started p' = [d1, d2] \<and>
    do_benchmask d1 = bench_bit b \<and> do_benchmask d2 = bench_bit IA_DELETE \<and> do_gen_b d1 = Some g1 \<and> do_gen_a d2 = Some g2 \<and>
    kvgen_gets (e_kv env) g1 (replicate (unat (g_period (e_kv env))) True) = Some (g1', kvs1) \<and>
    kvgen_gets (e_kv env) g2 (replicate (unat (g_period (e_kv env))) True) = Some (g2', kvs2) \<and>
    set (map kv_key kvs1) = set (map kv_key kvs2)"
proof -
  let ?full = "bench_bit b OR bench_bit IA_DELETE"
  have b: "b < IA_MAX" "b \<le> IA_DELETE" "b \<noteq> IA_DELETE" "IA_DELETE < IA_MAX"
    using assms(1) by (auto simp: below_MAX less_eq_iabenchmark_def)
  have full: "bench_only ?full" using b by (simp add: bench_only_simps)
  have two: "spaces_of (bench_bit b) = 2" "bench_bit b AND bench_mask_2keyspace \<noteq> 0" "spaces_of (bench_bit IA_DELETE) = 1"
    using assms(1) by (auto simp: spaces_of_def spread_space_def bench_bit_def bench_mask_write_def bench_mask_2keyspace_def)
  have "in_mask ?full b" by (simp add: in_mask_simps)
  then have nz: "?full \<noteq> 0" using in_mask_zero by metis
  obtain p1 where p1: "spread_one x env ?full p = Some (0, p1)" "spread_one x env ?full p1 = Some (0, p')"
    using assms(3) by (auto simp: ia_spread_def numeral_2_eq_2 Option.bind_eq_Some_conv split: if_splits)
  obtain m1 d1 sh1 where 1: "picks True ?full m1"
    "ia_doer_init env (sd_nth p + 1) m1 (sd_key_space p + spaces_of m1) (int (sd_nth p + 1)) (sd_shared p) = Some (0, d1, sh1)"
    "p1 = \<lparr>sd_nth = sd_nth p + 1, sd_rotator = ?full AND NOT m1, sd_key_space = sd_key_space p + spaces_of m1,
      sd_started = [d1], sd_shared = sh1\<rparr>"
    by (rule spread_one_ok [OF p1(1) full]) (use full assms(2,4,5) nz in auto)
  have m1: "m1 = bench_bit b"
    by (rule picks_separate [OF 1(1) _ b(1)]) (use b in \<open>auto simp: in_mask_simps\<close>)
  have rot: "in_mask (?full AND NOT m1) c \<longleftrightarrow> c = IA_DELETE" for c using m1 b(3) by (auto simp: in_mask_simps)
  then have nz1: "?full AND NOT m1 \<noteq> 0" using in_mask_zero by metis
  obtain m2 d2 sh2 where 2: "picks True (?full AND NOT m1) m2"
    "ia_doer_init env (sd_nth p1 + 1) m2 (sd_key_space p1 + spaces_of m2) (int (sd_nth p1 + 1)) (sd_shared p1) = Some (0, d2, sh2)"
    "sd_started p' = [d1, d2]"
    by (rule spread_one_ok [OF p1(2) full]) (use full nz1 assms(2) in \<open>auto simp: 1(3) bench_only_simps\<close>)
  have m2: "m2 = bench_bit IA_DELETE" by (rule picks_separate [OF 2(1)]) (use b(4) rot in auto)
  note f1 = doer_init_fields [OF 1(2)] and f2 = doer_init_fields [OF 2(2)]
  have "sd_key_space p1 + spaces_of m2 = sd_key_space p + spaces_of m1 + 1" by (simp add: 1(3) m2 two)
  then have i1: "ia_kvgen_init (e_alloc env) (e_kv env) None (of_int (sd_key_space p + spaces_of m1 + 1)) (of_int (int (sd_nth p + 1)))
      (of_int (c_vsize (e_conf env))) 0 = Some (0, do_gen_b d1)"
    and i2: "ia_kvgen_init (e_alloc env) (e_kv env) None (of_int (sd_key_space p + spaces_of m1 + 1)) (of_int (int (sd_nth p1 + 1)))
      (of_int (c_vsize (e_conf env))) 0 = Some (0, do_gen_a d2)"
    using f1(5) f2(4) two(2) m1 by (simp_all only: if_True simp_thms)
  obtain g1 g2 where g: "do_gen_b d1 = Some g1" "do_gen_a d2 = Some g2" using kvgen_init_some i1 i2 by blast
  note ok1 = kvgen_init_ok [OF assms(6-9) i1 [unfolded g]] and ok2 = kvgen_init_ok [OF assms(6-9) i2 [unfolded g]]
  then have "kvgen_ok (e_kv env) g1" "kvgen_ok (e_kv env) g2" "kg_base g1 = kg_base g2" by simp_all
  then show ?thesis
    using period_keys [of "e_kv env" g1] period_keys [of "e_kv env" g2] 2(3) g f1(1) f2(1) m1 m2 by fastforce
qed

theorem separate_shares_key_space_witness:
  "\<exists>p' d1 d2 g1 g2 g1' g2' kvs1 kvs2. ia_spread sample_aenv (sample_conf True) 2 (bench_bit IA_CRUD OR bench_bit IA_DELETE)
      (sample_spread (bench_bit IA_CRUD OR bench_bit IA_DELETE)) = Some (0, p') \<and> sd_started p' = [d1, d2] \<and>
    do_gen_b d1 = Some g1 \<and> do_gen_a d2 = Some g2 \<and>
    kvgen_gets (sample_globals 16 2 1000) g1 (replicate 1000 True) = Some (g1', kvs1) \<and>
    kvgen_gets (sample_globals 16 2 1000) g2 (replicate 1000 True) = Some (g2', kvs2) \<and>
    set (map kv_key kvs1) = set (map kv_key kvs2)"
proof -
  let ?full = "bench_bit IA_CRUD OR bench_bit IA_DELETE"
  have "in_mask ?full IA_CRUD" by (simp add: in_mask_simps)
  then have full: "?full \<noteq> 0" "bench_only ?full"
    using in_mask_zero by (metis, simp add: bench_only_simps below_MAX)
  obtain p' where p': "ia_spread sample_aenv (sample_conf True) 2 ?full (sample_spread ?full) = Some (0, p')"
    by (rule sample_spread [OF full])
  have kv: "e_kv (sample_conf True) = sample_globals 16 2 1000" "unat (g_period (sample_globals 16 2 1000)) = 1000"
    by (simp_all add: sample_conf_def sample_env_def sample_globals_def)
  have "alloc_ok (e_alloc (sample_conf True))" "c_separate (e_conf (sample_conf True))"
    by (simp_all add: sample_conf_def sample_env_def sample_alloc_ok)
  then show ?thesis
    using separate_shares_key_space [OF _ _ p'] p'
    by (auto simp: sample_spread_simps kv simp del: kvgen_gets.simps) (auto simp: sample_globals_def simp del: kvgen_gets.simps)
qed

end
