(* ===== verification/ArenaRuns.thy ===== *)
theory ArenaRuns
  imports ArenaProperties
begin

text \<open>
  A whole run (\<open>ia_run\<close> of \<open>src/ia.c\<close>) from the main thread's side: every call it makes returns,
  with any driver that keeps the contract, and what its result says.
\<close>

section \<open>The benchmarks of a run\<close>

definition reads :: "iabenchmark \<Rightarrow> bool" where
  "reads b \<longleftrightarrow> b = IA_ITERATE \<or> b = IA_GET"

lemma run_sets_ok:
  assumes "run_sets clock conf bs (rd, wr, g) = (rd', wr', g')" and "IA_MAX \<notin> set bs" and "bench_only rd" and "bench_only wr"
  shows "bench_only rd' \<and> bench_only wr' \<and>
    (\<forall>b. in_mask rd' b \<longleftrightarrow> in_mask rd b \<or> b \<in> set bs \<and> c_benchmark_list conf b \<and> reads b) \<and>
    (\<forall>b. in_mask wr' b \<longleftrightarrow> in_mask wr b \<or> b \<in> set bs \<and> c_benchmark_list conf b \<and> \<not> reads b) \<and>
    (\<forall>b. h_enabled (per_bench g' b) \<longleftrightarrow> h_enabled (per_bench g b) \<or> b \<in> set bs \<and> c_benchmark_list conf b) \<and>
    (\<exists>tr. hruns \<lparr>w_global = g, w_doers = ds\<rparr> tr \<lparr>w_global = g', w_doers = ds\<rparr>)"
  using assms
proof (induction bs arbitrary: rd wr g)
  case Nil
  then show ?case using hruns.nil by auto
next
  case (Cons b bs)
  have b: "b < IA_MAX" "IA_MAX \<notin> set bs" using Cons.prems(2) by (auto simp: below_MAX)
  show ?case
  proof (cases "c_benchmark_list conf b")
    case False
    then have "run_sets clock conf bs (rd, wr, g) = (rd', wr', g')" using Cons.prems(1) by simp
    from Cons.IH [OF this b(2) Cons.prems(3,4)] False show ?thesis by auto
  next
    case True
    let ?g = "ia_histogram_enable (clock (bench_nat b)) b g"
    have step: "hstep \<lparr>w_global = g, w_doers = ds\<rparr> (Enable b) None \<lparr>w_global = ?g, w_doers = ds\<rparr>"
      using hstep.enable [OF b(1), of "\<lparr>w_global = g, w_doers = ds\<rparr>"] by simp
    define rd1 where "rd1 = (if reads b then rd OR bench_bit b else rd)"
    define wr1 where "wr1 = (if reads b then wr else wr OR bench_bit b)"
    have r: "run_sets clock conf bs (rd1, wr1, ?g) = (rd', wr', g')"
      using Cons.prems(1) True by (auto simp: rd1_def wr1_def reads_def Let_def split: if_splits)
    have only: "bench_only rd1" "bench_only wr1"
      using Cons.prems(3,4) b(1) by (simp_all add: rd1_def wr1_def bench_only_simps)
    have masks: "in_mask rd1 c \<longleftrightarrow> in_mask rd c \<or> c = b \<and> reads c" "in_mask wr1 c \<longleftrightarrow> in_mask wr c \<or> c = b \<and> \<not> reads c" for c
      by (auto simp: rd1_def wr1_def in_mask_simps)
    from Cons.IH [OF r b(2) only] True step show ?thesis
      unfolding masks enable_enables by (auto intro: hruns.cons)
  qed
qed

section \<open>Starting the doers\<close>

lemma spread_loop_returns:
  assumes "n = 0 \<or> full \<noteq> 0" and "bench_only full" and "bench_only (sd_rotator p)"
    and "\<And>k msk ks sh. sd_nth p < k \<Longrightarrow> k \<le> sd_nth p + n \<Longrightarrow> msk \<noteq> 0 \<Longrightarrow>
      \<exists>rc d sh'. ia_doer_init env k msk ks (int k) sh = Some (rc, d, sh')"
  shows "\<exists>rc p'. spread_loop x env full n p = Some (rc, p') \<and> (rc = 0 \<longrightarrow> sd_nth p' = sd_nth p + n)"
  using assms
proof (induction n arbitrary: p)
  case (Suc n)
  have "\<exists>rc d sh'. ia_doer_init env (sd_nth p + 1) msk ks (int (sd_nth p + 1)) sh = Some (rc, d, sh') \<and> True"
    if "msk \<noteq> 0" for msk ks sh
    using Suc.prems(4) [of "sd_nth p + 1"] that by simp
  then obtain rc p1 where 1: "spread_one x env full p = Some (rc, p1)"
    using spread_one_returns [of full p env "\<lambda>_. True" x] Suc.prems(1-3) by blast
  show ?case
  proof (cases "rc = 0")
    case True
    obtain msk d sh where p1: "p1 = \<lparr>sd_nth = sd_nth p + 1, sd_rotator = (if sd_rotator p = 0 then full else sd_rotator p) AND NOT msk,
        sd_key_space = sd_key_space p + spaces_of msk, sd_started = sd_started p @ [d], sd_shared = sh\<rparr>"
      by (rule spread_one_ok [OF 1 [unfolded True] Suc.prems(2,3)])
    have "\<exists>rc p'. spread_loop x env full n p1 = Some (rc, p') \<and> (rc = 0 \<longrightarrow> sd_nth p' = sd_nth p1 + n)"
      by (rule Suc.IH) (use Suc.prems in \<open>auto simp: p1 bench_only_simps\<close>)
    then show ?thesis using 1 True by (auto simp: p1)
  qed (use 1 in simp)
qed simp

section \<open>The end of a run\<close>

text \<open>
  What the main thread relies on at the finish barrier: the doers in front of its own, number \<open>n\<close>,
  have come to their ends.
\<close>

definition finish_ok :: "('w \<Rightarrow> 'w \<Rightarrow> bool) \<Rightarrow> nat \<Rightarrow> ('w shared \<Rightarrow> 'w shared) \<Rightarrow> bool" where
  "finish_ok rely n f \<longleftrightarrow> (\<forall>sh. rely (sh_priv sh) (sh_priv (f sh))) \<and> (\<forall>sh. hist_ok {} (sh_hist sh) \<and> length (w_doers (sh_hist sh)) \<le> Suc n \<longrightarrow>
     (\<exists>tr. hruns (sh_hist sh) tr (sh_hist (f sh)) \<and> own_events n tr = []) \<and> (sh_failed sh \<longrightarrow> sh_failed (f sh)) \<and>
     (\<forall>i < length (w_doers (sh_hist (f sh))). i \<noteq> n \<longrightarrow> fst (w_doers (sh_hist (f sh)) ! i) = Gone))"

text \<open>A run that came to its end: no doer failed, the table is printed, the database still open.\<close>

definition run_done :: "('w \<Rightarrow> bool) \<Rightarrow> ('w, 'c) arena \<Rightarrow> bool" where
  "run_done opened a \<longleftrightarrow> \<not> sh_failed (a_shared a) \<and> a_report a \<noteq> None \<and> opened (sh_priv (a_shared a))"

lemma run_finish_ok:
  assumes "hist_ok B (sh_hist (a_shared a))" and "\<forall>d \<in> set (w_doers (sh_hist (a_shared a))). fst d = Gone"
    and "opened (sh_priv (a_shared a))"
  shows "\<exists>out a'. run_finish x a = Some (out, a') \<and> a_started a' = a_started a \<and> a_driver a' = a_driver a \<and>
    (out = Exited 1 \<and> sh_failed (a_shared a) \<or> out = Returned 0 \<and> run_done opened a')"
proof -
  obtain sp where sim: "hsim (sh_hist (a_shared a)) sp" using assms(1) by (auto simp: hist_ok_def)
  obtain rc g r where "ia_histogram_checkpoint (x_ended x) 0 (w_global (sh_hist (a_shared a))) = Some (rc, g, r)"
    using hsim_all_gone [OF sim assms(2), of "x_ended x"] by auto
  then show ?thesis by (cases "sh_failed (a_shared a)") (auto simp: run_finish_def run_done_def Let_def assms(3))
qed

lemma hist_ok_less: "hist_ok B w \<Longrightarrow> hist_ok {} w"
  by (auto simp: hist_ok_def)

text \<open>The doer of the main thread, after the finish barrier.\<close>

lemma run_destroy_ok:
  assumes park: "parked env ph s" and ph: "ph = Flushed \<or> sh_failed (s_shared s)"
    and fin: "finish_ok rely n f" and n: "do_hg (s_doer s) = n" and len: "length (w_doers (sh_hist (s_shared s))) \<le> Suc n"
  shows "\<exists>s'. ia_doer_destroy (s\<lparr>s_shared := f (s_shared s)\<rparr>) = Some s' \<and>
    rely (sh_priv (s_shared s)) (sh_priv (s_shared s')) \<and>
    (sh_failed (s_shared s') \<or> hist_ok {} (sh_hist (s_shared s')) \<and>
      (\<forall>d \<in> set (w_doers (sh_hist (s_shared s'))). fst d = Gone))"
proof -
  let ?sh = "s_shared s" and ?s = "s\<lparr>s_shared := f (s_shared s)\<rparr>"
  obtain h where h: "doer_at (w_doers (sh_hist ?sh)) n (ph, h)" using park n by (auto simp: parked_def)
  have ok: "hist_ok (mask_set (do_benchmask (s_doer s))) (sh_hist ?sh)" using park by (simp add: parked_def)
  obtain tr where tr: "hruns (sh_hist ?sh) tr (sh_hist (f ?sh))" "own_events n tr = []"
    and failed: "sh_failed ?sh \<longrightarrow> sh_failed (f ?sh)"
    and gone: "\<forall>i < length (w_doers (sh_hist (f ?sh))). i \<noteq> n \<longrightarrow> fst (w_doers (sh_hist (f ?sh)) ! i) = Gone"
    and rely: "rely (sh_priv ?sh) (sh_priv (f ?sh))"
    using fin len hist_ok_less [OF ok] unfolding finish_ok_def by blast
  have at: "doer_at (w_doers (sh_hist (f ?sh))) n (ph, h)" by (rule hruns_other [OF tr h])
  have ok1: "hist_ok (mask_set (do_benchmask (s_doer s))) (sh_hist (f ?sh))" by (rule hist_ok_runs [OF tr(1) ok])
  obtain h' g where d: "ia_histogram_destroy h (w_global (sh_hist (f ?sh))) = (h', g)" by fastforce
  obtain s' where s': "ia_doer_destroy ?s = Some s'" "sh_failed (s_shared s') = sh_failed (f ?sh)"
    "sh_priv (s_shared s') = sh_priv (f ?sh)"
    "sh_hist (s_shared s') = \<lparr>w_global = g, w_doers = (w_doers (sh_hist (f ?sh)))[n := (Gone, h')]\<rparr>"
    using at d n by (simp add: ia_doer_destroy_def own_hist_def set_hist_def doer_at_def Let_def)
  show ?thesis
  proof (cases "ph = Flushed")
    case False
    then show ?thesis using s' rely failed ph by auto
  next
    case True
    have "hruns (sh_hist (f ?sh)) [(Destroy n, None)] (sh_hist (s_shared s'))"
      unfolding s'(4) by (rule hruns_one, rule hstep.destroy [OF at [unfolded True] d])
    then have "hist_ok {} (sh_hist (s_shared s'))" using hist_ok_runs hist_ok_less [OF ok1] by blast
    moreover have "\<forall>d \<in> set (w_doers (sh_hist (s_shared s'))). fst d = Gone"
      using gone at by (auto simp: s'(4) all_set_conv_all_nth nth_list_update doer_at_def)
    ultimately show ?thesis using s'(1,3) rely by auto
  qed
qed

lemma blocks_length:
  assumes "blocks s xs s'"
  shows "length (w_doers (sh_hist (s_shared s'))) = length (w_doers (sh_hist (s_shared s)))"
proof -
  let ?n = "do_hg (s_doer s)"
  obtain tr where tr: "hruns (sh_hist (s_shared s)) tr (sh_hist (s_shared s'))" "own_events ?n tr = concat (map (block ?n) xs)"
    using assms by (auto simp: blocks_def steps_def)
  have "Start \<notin> set (own_events ?n tr)" unfolding tr(2) by (auto simp: block_def)
  then show ?thesis by (rule hruns_length [OF tr(1)])
qed

text \<open>The options of a run within which every call is defined.\<close>

definition run_conf_ok :: "iaconfig \<Rightarrow> bool" where
  "run_conf_ok conf \<longleftrightarrow> \<not> c_binary conf \<and> 0 \<le> c_rthr conf \<and> 0 \<le> c_wthr conf \<and> c_rthr conf + c_wthr conf < 2 ^ 30 \<and>
     unat (c_count conf) < 2 ^ 58 \<and> 0 < c_nrepeat conf \<and>
     (unat (of_int (c_ksize conf) :: u32) + unat (of_int (c_vsize conf) :: u32) + 2) * nat (c_batch_length conf) < 2 ^ 32"

definition run_env_ok :: "('w, 'c) benv \<Rightarrow> bool" where
  "run_env_ok env \<longleftrightarrow> run_conf_ok (e_conf env) \<and> g_printable (e_kv env) \<and> g_ksize (e_kv env) = of_int (c_ksize (e_conf env)) \<and>
     g_ksize (e_kv env) \<noteq> 0 \<and> g_period (e_kv env) = c_count (e_conf env) \<and> c_count (e_conf env) \<noteq> 0 \<and>
     g_nsectors (e_kv env) = of_int (key_nsectors (e_conf env))"

lemma run_env_fits:
  assumes "run_env_ok env"
  shows "unat (kvpair_bytes (e_kv env) (ucast (of_int (c_vsize (e_conf env)) :: u32))) * nat (c_batch_length (e_conf env)) < 2 ^ 32"
proof -
  have "unat (kvpair_bytes (e_kv env) (ucast (of_int (c_vsize (e_conf env)) :: u32)))
      \<le> unat (of_int (c_ksize (e_conf env)) :: u32) + unat (of_int (c_vsize (e_conf env)) :: u32) + 2"
    using assms by (auto simp: run_env_ok_def kvpair_bytes_printable)
  then show ?thesis
    using assms unfolding run_env_ok_def run_conf_ok_def by (meson le_less_trans mult_le_mono1)
qed

lemma run_init_returns:
  assumes "run_env_ok env" and "0 \<le> k" and "k \<le> c_rthr (e_conf env) + c_wthr (e_conf env)" and "msk \<noteq> 0"
  shows "\<exists>rc d sh'. ia_doer_init env nr msk ks k sh = Some (rc, d, sh') \<and> rc \<in> {0, -1}"
proof (rule doer_init_returns)
  let ?c = "e_conf env"
  have conf: "0 \<le> c_rthr ?c" "0 \<le> c_wthr ?c" "c_rthr ?c + c_wthr ?c < 2 ^ 30"
    using assms(1) by (auto simp: run_env_ok_def run_conf_ok_def)
  have sec: "1 \<le> key_nsectors ?c" "key_nsectors ?c < 2 ^ 30" "c_rthr ?c \<le> key_nsectors ?c" "c_wthr ?c \<le> key_nsectors ?c"
    using conf by (auto simp: key_nsectors_def Let_def)
  have unat: "unat (of_int i :: u32) = nat i" if "0 \<le> i" "i < 2 ^ 32" for i
    using that by (simp add: unat_eq_nat_uint uint_word_of_int)
  have n: "unat (g_nsectors (e_kv env)) = nat (key_nsectors ?c)"
    using assms(1) sec unat by (simp add: run_env_ok_def)
  have "0 < unat (g_nsectors (e_kv env))" unfolding n using sec(1) by simp
  then show "g_nsectors (e_kv env) \<noteq> 0" by (simp add: unat_gt_0)
  show "g_period (e_kv env) \<noteq> 0" "unat (g_period (e_kv env)) < 2 ^ 58"
    using assms(1) by (auto simp: run_env_ok_def run_conf_ok_def)
  show "unat (of_int k :: u32) \<le> 2 * unat (g_nsectors (e_kv env))"
    unfolding n using unat [of k] assms(2,3) sec conf by simp
qed (rule assms(4))

text \<open>The main thread without a doer of its own.\<close>

lemma run_here_none:
  assumes con: "driver_contract drv opened idle ready rely" and fin: "finish_ok rely n (x_finish x)"
    and n: "length (w_doers (sh_hist (a_shared a))) = n" and hist: "hist_ok B (sh_hist (a_shared a))"
    and opened: "opened (sh_priv (a_shared a))"
  shows "\<exists>out a'. run_here x env 0 a = Some (out, a') \<and> a_started a' = a_started a \<and> a_driver a' = a_driver a \<and>
    (out = Exited 1 \<or> out = Returned 0 \<and> run_done opened a')"
proof -
  let ?sh = "x_finish x (a_shared a)"
  obtain tr where tr: "hruns (sh_hist (a_shared a)) tr (sh_hist ?sh)" "own_events n tr = []"
    and gone: "\<forall>i < length (w_doers (sh_hist ?sh)). i \<noteq> n \<longrightarrow> fst (w_doers (sh_hist ?sh) ! i) = Gone"
    using fin n hist_ok_less [OF hist] unfolding finish_ok_def by (metis le_SucI order_refl)
  have "rely (sh_priv (a_shared a)) (sh_priv ?sh)" using fin by (simp add: finish_ok_def)
  then have "opened (sh_priv ?sh)" by (rule driver_contract.opened_rely [OF con opened])
  moreover have "length (w_doers (sh_hist ?sh)) = n" using hruns_length [OF tr(1), of n] tr(2) n by simp
  then have "\<forall>d \<in> set (w_doers (sh_hist (a_shared (a\<lparr>a_shared := ?sh\<rparr>)))). fst d = Gone"
    using gone by (simp add: all_set_conv_all_nth)
  ultimately show ?thesis
    using run_finish_ok [of "{}" "a\<lparr>a_shared := ?sh\<rparr>" opened x] hist_ok_runs [OF tr(1) hist_ok_less [OF hist]]
    by (auto simp: run_here_def Let_def)
qed

lemma run_here_ok:
  assumes drv: "robust_driver drv opened idle ready rely" and env: "benv_ok rely n env" "e_drv env = drv" "finishes env" "options_ok env"
    "run_env_ok env"
    and fin: "finish_ok rely n (x_finish x)" and n: "length (w_doers (sh_hist (a_shared a))) = n"
    and hist: "hist_ok (mask_set left) (sh_hist (a_shared a))" and opened: "opened (sh_priv (a_shared a))" and left: "bench_only left"
  shows "\<exists>out a'. run_here x env left a = Some (out, a') \<and> a_started a' = a_started a \<and> a_driver a' = a_driver a \<and>
    (out = Exited 1 \<or> out = Returned 0 \<and> run_done opened a')"
proof (cases "left = 0")
  case True
  have con: "driver_contract drv opened idle ready rely" using drv by (simp add: robust_driver_def)
  show ?thesis unfolding True by (rule run_here_none [OF con fin n hist opened])
next
  case False
  obtain rc here sh where i: "ia_doer_init env 0 left 0 0 (a_shared a) = Some (rc, here, sh)"
    using run_init_returns [OF env(5) order_refl _ False, where nr = 0 and ks = 0 and sh = "a_shared a"] env(5)
    by (auto simp: run_env_ok_def run_conf_ok_def)
  show ?thesis
  proof (cases "rc = 0 \<and> fst (x_rusage x 1) = 0")
    case False
    then show ?thesis using i \<open>left \<noteq> 0\<close> by (auto simp: run_here_def Let_def)
  next
    case True
    let ?s = "\<lparr>s_doer = here, s_shared = sh, s_tick = 0, s_calls = []\<rparr>"
    have alloc: "alloc_ok (e_alloc env)" using env(1) by (simp add: benv_ok_def)
    have kv: "g_printable (e_kv env)" "g_ksize (e_kv env) \<noteq> 0" "g_period (e_kv env) \<noteq> 0" "0 < c_nrepeat (e_conf env)"
      using env(5) by (auto simp: run_env_ok_def run_conf_ok_def)
    note start = doer_init_ok [OF i [unfolded conjunct1 [OF True]] alloc hist kv(1-3) run_env_fits [OF env(5)], of 0 "[]"]
    have con: "driver_contract drv opened idle ready rely" using drv by (simp add: robust_driver_def)
    have d: "do_hg here = n" "do_benchmask here = left" "do_ctx here = None" "opened (sh_priv sh)" "parked env Fresh ?s"
      using start n opened by auto
    have e: "benv_ok rely (do_hg (s_doer ?s)) env" using env(1) d(1) by simp
    note run = doer_fulfil_runs [OF con drv e env(2,3,4) d(5), simplified d sys.simps]
    obtain rc2 s ph xs where f: "ia_doer_fulfil env ?s = Some (rc2, s)" "parked env ph s"
      "ph = (if xs = [] then Fresh else Flushed)" "blocks ?s xs s" "opened (sh_priv (s_shared s))"
      "rc2 = 0 \<longrightarrow> (\<exists>m. map fst xs = concat (replicate m (filter (in_mask left) benchmarks)) \<and>
         (c_nrepeat (e_conf env) \<le> int m \<or> sh_failed (s_shared s)))"
      using run d(3,4) by blast
    show ?thesis
    proof (cases "rc2 = 0 \<and> fst (x_rusage x 2) = 0")
      case False
      then show ?thesis using i True f(1) \<open>left \<noteq> 0\<close> by (auto simp: run_here_def Let_def)
    next
      case rc2: True
      obtain b where b: "b \<in> set benchmarks" "in_mask left b" by (rule mask_nonzero [OF left \<open>left \<noteq> 0\<close>])
      have ph: "ph = Flushed \<or> sh_failed (s_shared s)"
      proof (rule disjCI)
        assume "\<not> sh_failed (s_shared s)"
        then obtain m where m: "map fst xs = concat (replicate m (filter (in_mask left) benchmarks))" "0 < m"
          using f(6) rc2 kv(4) by auto
        then have "b \<in> set (map fst xs)" using b by (cases m) auto
        then show "ph = Flushed" using f(3) by auto
      qed
      have hg: "do_hg (s_doer s) = n" using blocks_doer [OF f(4)] start n by simp
      have "length (w_doers (sh_hist (s_shared s))) \<le> Suc n"
        using blocks_length [OF f(4)] doer_init_fields(9) [OF i [unfolded conjunct1 [OF True]]] n by simp
      from run_destroy_ok [OF f(2) ph fin hg this] obtain s' where s': "ia_doer_destroy (s\<lparr>s_shared := x_finish x (s_shared s)\<rparr>) = Some s'"
        "sh_failed (s_shared s') \<or> hist_ok {} (sh_hist (s_shared s')) \<and> (\<forall>d \<in> set (w_doers (sh_hist (s_shared s'))). fst d = Gone)"
        "rely (sh_priv (s_shared s)) (sh_priv (s_shared s'))"
        by blast
      have op: "opened (sh_priv (s_shared s'))" by (rule driver_contract.opened_rely [OF con f(5) s'(3)])
      have r: "run_here x env left a = run_finish x (a\<lparr>a_shared := s_shared s'\<rparr>)"
        using i True f(1) rc2 s'(1) \<open>left \<noteq> 0\<close> by (simp add: run_here_def)
      show ?thesis
      proof (cases "sh_failed (s_shared s')")
        case True
        then show ?thesis unfolding r by (simp add: run_finish_def)
      next
        case False
        then show ?thesis
          unfolding r using s'(2) op run_finish_ok [of "{}" "a\<lparr>a_shared := s_shared s'\<rparr>" opened x] by fastforce
      qed
    qed
  qed
qed

section \<open>The run\<close>

text \<open>The threads of a run: none for a kind of benchmark that was not asked for.\<close>

definition asked :: "(iabenchmark \<Rightarrow> bool) \<Rightarrow> iaconfig \<Rightarrow> bool" where
  "asked kind conf \<longleftrightarrow> (\<exists>b \<in> set benchmarks. c_benchmark_list conf b \<and> kind b)"

definition run_doers :: "iaconfig \<Rightarrow> nat" where
  "run_doers conf = (if asked reads conf then nat (c_rthr conf) else 0) +
     (if asked (\<lambda>b. \<not> reads b) conf then nat (c_wthr conf) else 0)"

lemma run_spread_ok:
  assumes env: "run_env_ok env" and full: "cnt \<le> 0 \<or> full \<noteq> 0" "bench_only full" and p: "sd_rotator p = full"
    and k: "int (sd_nth p) + cnt \<le> c_rthr (e_conf env) + c_wthr (e_conf env)" "0 \<le> cnt"
  shows "\<exists>rc p'. ia_spread x env cnt full p = Some (rc, p') \<and> (rc = 0 \<longrightarrow> sd_nth p' = sd_nth p + nat cnt \<and>
    bench_only (sd_rotator p') \<and> within (sd_rotator p') full \<and> length (sd_started p') = length (sd_started p) + nat cnt \<and>
    sh_priv (sd_shared p') = sh_priv (sd_shared p) \<and>
    length (w_doers (sh_hist (sd_shared p'))) = length (w_doers (sh_hist (sd_shared p))) + nat cnt \<and>
    (\<exists>tr. hruns (sh_hist (sd_shared p)) tr (sh_hist (sd_shared p'))))"
proof -
  have init: "\<exists>rc d sh'. ia_doer_init env i msk ks (int i) sh = Some (rc, d, sh')"
    if "sd_nth p < i" "i \<le> sd_nth p + nat cnt" "msk \<noteq> 0" for i msk ks sh
    using run_init_returns [OF env _ _ that(3), of "int i" i ks sh] that k by force
  obtain rc p' where r: "spread_loop x env full (nat cnt) p = Some (rc, p')" "rc = 0 \<longrightarrow> sd_nth p' = sd_nth p + nat cnt"
    using spread_loop_returns [of "nat cnt" full p env x, OF _ full(2) _ init] full p by fastforce
  show ?thesis
  proof (cases "rc = 0")
    case True
    obtain ds tr where "sd_started p' = sd_started p @ ds" "length ds = nat cnt" "bench_only (sd_rotator p')"
      "within (sd_rotator p') full" "hruns (sh_hist (sd_shared p)) tr (sh_hist (sd_shared p'))"
      "length (w_doers (sh_hist (sd_shared p'))) = length (w_doers (sh_hist (sd_shared p))) + nat cnt"
      "sh_priv (sd_shared p') = sh_priv (sd_shared p)"
      using spread_loop_ok [OF r(1) [unfolded True] full(2)] full(2) p by (auto simp: within_def)
    then show ?thesis using r True by (auto simp: ia_spread_def)
  qed (use r in \<open>simp add: ia_spread_def\<close>)
qed

lemma run_threads_eq:
  "c_rthr (run_threads rd wr conf) = (if rd = 0 then 0 else c_rthr conf)"
  "c_wthr (run_threads rd wr conf) = (if wr = 0 then 0 else c_wthr conf)"
  "run_threads rd wr conf = conf\<lparr>c_rthr := if rd = 0 then 0 else c_rthr conf, c_wthr := if wr = 0 then 0 else c_wthr conf\<rparr>"
  by (cases conf; simp add: run_threads_def Let_def)+

lemma mask_zero_iff: "bench_only m \<Longrightarrow> m = 0 \<longleftrightarrow> (\<forall>b \<in> set benchmarks. \<not> in_mask m b)"
  using mask_nonzero in_mask_zero by metis

lemma run_sets_asked:
  assumes "run_sets clock conf benchmarks (0, 0, g) = (rd, wr, g')"
  shows "bench_only rd" and "bench_only wr" and "rd = 0 \<longleftrightarrow> \<not> asked reads conf" and "wr = 0 \<longleftrightarrow> \<not> asked (\<lambda>b. \<not> reads b) conf"
    and "hist_ok {} \<lparr>w_global = g, w_doers = ds\<rparr> \<Longrightarrow> hist_ok (mask_set (rd OR wr)) \<lparr>w_global = g', w_doers = ds\<rparr>"
proof -
  have "IA_MAX \<notin> set benchmarks" by (simp add: benchmarks_def)
  from run_sets_ok [OF assms this, of ds] have r: "bench_only rd" "bench_only wr"
    "\<And>b. in_mask rd b \<longleftrightarrow> b \<in> set benchmarks \<and> c_benchmark_list conf b \<and> reads b"
    "\<And>b. in_mask wr b \<longleftrightarrow> b \<in> set benchmarks \<and> c_benchmark_list conf b \<and> \<not> reads b"
    "\<And>b. h_enabled (per_bench g' b) \<longleftrightarrow> h_enabled (per_bench g b) \<or> b \<in> set benchmarks \<and> c_benchmark_list conf b"
    "\<exists>tr. hruns \<lparr>w_global = g, w_doers = ds\<rparr> tr \<lparr>w_global = g', w_doers = ds\<rparr>"
    by (auto simp: bench_only_simps in_mask_zero)
  show "bench_only rd" "bench_only wr" using r(1,2) .
  show "rd = 0 \<longleftrightarrow> \<not> asked reads conf" unfolding mask_zero_iff [OF r(1)] r(3) asked_def by blast
  show "wr = 0 \<longleftrightarrow> \<not> asked (\<lambda>b. \<not> reads b) conf" unfolding mask_zero_iff [OF r(2)] r(4) asked_def by blast
  show "hist_ok (mask_set (rd OR wr)) \<lparr>w_global = g', w_doers = ds\<rparr>" if "hist_ok {} \<lparr>w_global = g, w_doers = ds\<rparr>"
  proof -
    have "hist_ok {} \<lparr>w_global = g', w_doers = ds\<rparr>" using r(6) hist_ok_runs that by blast
    then show ?thesis using r(3-5) by (auto simp: hist_ok_def mask_set_def in_mask_simps)
  qed
qed

lemma run_env_setup:
  assumes conf: "run_conf_ok conf"
    and "ia_kvgen_setup rand_r now kv0 (\<not> c_binary conf) (of_int (c_ksize conf)) nspaces (of_int (key_nsectors conf)) (c_count conf) (c_kvseed conf) = (0, kv)"
  shows "run_env_ok (env\<lparr>e_conf := conf, e_kv := kv, e_drv := drv\<rparr>)"
proof -
  note k = kvgen_setup_ok [OF assms(2)]
  have "g_ksize kv \<noteq> 0" using k by auto
  then show ?thesis using k conf by (simp add: run_env_ok_def run_conf_ok_def)
qed

lemma run_spread_all:
  assumes drv: "robust_driver drv opened idle ready rely" and env: "benv_ok rely n env" "e_drv env = drv" "finishes env" "options_ok env"
    "run_env_ok env" and conf: "a_conf a = e_conf env"
    and fin: "finish_ok rely n (x_finish x)" and n: "n = nat (c_rthr (e_conf env)) + nat (c_wthr (e_conf env))"
    and sets: "bench_only rd" "bench_only wr" "rd = 0 \<longrightarrow> c_rthr (e_conf env) = 0" "wr = 0 \<longrightarrow> c_wthr (e_conf env) = 0"
    and hist: "hist_ok (mask_set (rd OR wr)) (sh_hist (a_shared a))" "w_doers (sh_hist (a_shared a)) = []"
    and opened: "opened (sh_priv (a_shared a))"
  shows "\<exists>out a'. run_spread x env rd wr a = Some (out, a') \<and> a_driver a' = a_driver a \<and> (out = Exited 1 \<or>
    out = Returned 0 \<and> length (a_started a') = n \<and> run_done opened a')"
proof -
  let ?r = "c_rthr (e_conf env)" and ?t = "c_wthr (e_conf env)"
  let ?p = "\<lparr>sd_nth = 0, sd_rotator = rd, sd_key_space = 0, sd_started = [], sd_shared = a_shared a\<rparr>"
  have thr: "0 \<le> ?r" "0 \<le> ?t" using env(5) by (auto simp: run_env_ok_def run_conf_ok_def)
  obtain rc1 p1 where 1: "ia_spread x env ?r rd ?p = Some (rc1, p1)" and p1: "rc1 = 0 \<longrightarrow> sd_nth p1 = nat ?r \<and>
      bench_only (sd_rotator p1) \<and> within (sd_rotator p1) rd \<and> length (sd_started p1) = nat ?r \<and>
      sh_priv (sd_shared p1) = sh_priv (a_shared a) \<and> length (w_doers (sh_hist (sd_shared p1))) = nat ?r \<and>
      (\<exists>tr. hruns (sh_hist (a_shared a)) tr (sh_hist (sd_shared p1)))"
    using run_spread_ok [OF env(5) _ sets(1), of ?r ?p x] sets(3) thr hist(2) by auto
  show ?thesis
  proof (cases "rc1 = 0")
    case False
    then show ?thesis using 1 conf by (simp add: run_spread_def)
  next
    case True
    obtain rc2 p2 where 2: "ia_spread x env ?t wr (p1\<lparr>sd_rotator := wr\<rparr>) = Some (rc2, p2)" and p2: "rc2 = 0 \<longrightarrow>
        bench_only (sd_rotator p2) \<and> within (sd_rotator p2) wr \<and> length (sd_started p2) = n \<and>
        sh_priv (sd_shared p2) = sh_priv (a_shared a) \<and> length (w_doers (sh_hist (sd_shared p2))) = n \<and>
        (\<exists>tr. hruns (sh_hist (sd_shared p1)) tr (sh_hist (sd_shared p2)))"
      using run_spread_ok [OF env(5) _ sets(2), of ?t "p1\<lparr>sd_rotator := wr\<rparr>" x] sets(4) thr p1 True n by auto
    let ?a = "a\<lparr>a_started := sd_started p2, a_shared := sd_shared p2\<rparr>" and ?left = "sd_rotator p2 OR sd_rotator p1"
    show ?thesis
    proof (cases "rc2 = 0")
      case False
      then show ?thesis using 1 2 True conf by (simp add: run_spread_def)
    next
      case rc2: True
      note q1 = p1 [rule_format, OF True] and q2 = p2 [rule_format, OF rc2]
      have "hist_ok (mask_set (rd OR wr)) (sh_hist (sd_shared p2))" using q1 q2 hist(1) hist_ok_runs by metis
      then have h: "hist_ok (mask_set ?left) (sh_hist (a_shared ?a))"
        using q1 q2 by (auto simp: hist_ok_def mask_set_def in_mask_simps within_def)
      have "bench_only ?left" using q1 q2 by (simp add: bench_only_simps)
      from run_here_ok [OF drv env fin _ h _ this] q2 opened
      obtain out a' where "run_here x env ?left ?a = Some (out, a')" "a_started a' = sd_started p2"
        "a_driver a' = a_driver a" "out = Exited 1 \<or> out = Returned 0 \<and> run_done opened a'" by auto
      then show ?thesis using 1 2 True rc2 conf q2 by (auto simp: run_spread_def)
    qed
  qed
qed

text \<open>\<open>ia_run\<close> as a whole; \<open>rc\<close> is the result of the setup or of \<open>pthread_barrier_init\<close>.\<close>

definition run_outcome :: "('w, 'c) aenv \<Rightarrow> ('w \<Rightarrow> bool) \<Rightarrow> ('w, 'c) arena \<Rightarrow> run_end \<Rightarrow> ('w, 'c) arena \<Rightarrow> bool" where
  "run_outcome x opened a out a' \<longleftrightarrow> a_driver a' = a_driver a \<and>
     (case out of
        Exited n \<Rightarrow> n = 1
      | Returned rc \<Rightarrow> opened (sh_priv (a_shared a')) \<and>
          (rc = -1 \<or> rc \<noteq> 0 \<and> (\<exists>i n. rc = x_barrier x i n) \<or>
           rc = 0 \<and> (\<not> asked (\<lambda>_. True) (a_conf a) \<or> length (a_started a') = run_doers (a_conf a) \<and> run_done opened a')))"

lemma run_started:
  assumes sets: "run_sets (e_clock (x_env x)) (a_conf a) benchmarks (0, 0, w_global (sh_hist (a_shared a))) = (rd, wr, g)" "rd OR wr \<noteq> 0"
    and "conf = run_threads rd wr (a_conf a)"
    and kv: "ia_kvgen_setup (x_rand_r x) (x_time x) (a_kv a) (\<not> c_binary conf) (of_int (c_ksize conf))
      (of_int (key_nspaces wr conf)) (of_int (key_nsectors conf)) (c_count conf) (c_kvseed conf) = (rc, kv)"
  obtains (refused) "rc = -1" "ia_run x a = Some (Returned rc, a\<lparr>a_shared := (a_shared a)\<lparr>sh_hist := (sh_hist (a_shared a))\<lparr>w_global := g\<rparr>\<rparr>,
      a_conf := conf, a_kv := kv\<rparr>)"
  | (barrier) i n where "rc = 0" "x_barrier x i n \<noteq> 0"
      "ia_run x a = Some (Returned (x_barrier x i n), a\<lparr>a_shared := (a_shared a)\<lparr>sh_hist := (sh_hist (a_shared a))\<lparr>w_global := g\<rparr>\<rparr>,
      a_conf := conf, a_kv := kv\<rparr>)"
  | (ready) "rc = 0" "\<And>drv. a_driver a = Some drv \<Longrightarrow> ia_run x a = run_spread x ((x_env x)\<lparr>e_conf := conf, e_kv := kv, e_drv := drv\<rparr>) rd wr
      (a\<lparr>a_shared := (a_shared a)\<lparr>sh_hist := (sh_hist (a_shared a))\<lparr>w_global := g\<rparr>\<rparr>, a_conf := conf, a_kv := kv\<rparr>)"
proof (cases "rc = 0")
  case False
  have "rc = -1" using kv False by (auto simp: ia_kvgen_setup_def Let_def split: if_splits prod.splits option.splits)
  then show ?thesis by (rule refused) (use sets kv False assms(3) in \<open>simp add: ia_run_def\<close>)
next
  case rc: True
  let ?n = "of_int (c_rthr conf + c_wthr conf + 1)"
  consider "x_barrier x 0 ?n = 0" "x_barrier x 1 ?n = 0" | i where "x_barrier x i ?n \<noteq> 0" "i < 2" "\<forall>j < i. x_barrier x j ?n = 0"
    by (metis less_2_cases_iff less_one not_less_zero one_less_numeral_iff semiring_norm(76) zero_less_numeral)
  then show ?thesis
  proof cases
    case 1
    then show ?thesis using ready rc sets kv assms(3) by (simp add: ia_run_def Let_def)
  next
    case (2 i)
    then show ?thesis using barrier [of i ?n] rc sets kv assms(3) by (auto simp: ia_run_def Let_def less_2_cases_iff)
  qed
qed

lemma run_ok:
  assumes drv: "robust_driver drv opened idle ready rely" "a_driver a = Some drv" "opened (sh_priv (a_shared a))"
    and env: "benv_ok rely (run_doers (a_conf a)) (x_env x)" "finishes ((x_env x)\<lparr>e_conf := a_conf a\<rparr>)"
      "options_ok ((x_env x)\<lparr>e_conf := a_conf a, e_drv := drv\<rparr>)" "finish_ok rely (run_doers (a_conf a)) (x_finish x)"
    and conf: "run_conf_ok (a_conf a)"
    and hist: "hist_ok {} (sh_hist (a_shared a))" "w_doers (sh_hist (a_shared a)) = []"
  shows "\<exists>out a'. ia_run x a = Some (out, a') \<and> run_outcome x opened a out a'"
proof -
  let ?conf = "a_conf a" and ?w = "sh_hist (a_shared a)"
  obtain rd wr g where sets: "run_sets (e_clock (x_env x)) ?conf benchmarks (0, 0, w_global ?w) = (rd, wr, g)"
    by (metis prod_cases3)
  note rs = run_sets_asked(1-4) [OF sets] and rh = run_sets_asked(5) [OF sets, of "w_doers ?w"]
  have w: "?w\<lparr>w_global := g\<rparr> = \<lparr>w_global = g, w_doers = []\<rparr>" "\<lparr>w_global = w_global ?w, w_doers = []\<rparr> = ?w"
    using hist(2) by (cases ?w, simp)+
  have h: "hist_ok (mask_set (rd OR wr)) (?w\<lparr>w_global := g\<rparr>)" using rh hist by (simp add: w)
  show ?thesis
  proof (cases "rd OR wr = 0")
    case True
    then have "\<not> asked (\<lambda>_. True) ?conf"
      using rs(3,4) by (auto simp: asked_def or_eq_0_iff)
    then show ?thesis using True sets drv(3) by (simp add: ia_run_def run_outcome_def)
  next
    case some: False
    define conf where "conf = run_threads rd wr ?conf"
    obtain rc kv where kv: "ia_kvgen_setup (x_rand_r x) (x_time x) (a_kv a) (\<not> c_binary conf) (of_int (c_ksize conf))
        (of_int (key_nspaces wr conf)) (of_int (key_nsectors conf)) (c_count conf) (c_kvseed conf) = (rc, kv)" by fastforce
    let ?env = "(x_env x)\<lparr>e_conf := conf, e_kv := kv, e_drv := drv\<rparr>"
    show ?thesis
    proof (cases rule: run_started [OF sets some conf_def kv])
      case ready: 3
      have c: "run_conf_ok conf" using assms(8) by (auto simp: run_conf_ok_def conf_def run_threads_eq)
      have e: "benv_ok rely (run_doers ?conf) ?env" "finishes ?env" "options_ok ?env"
        using env(1-3) by (simp_all add: benv_ok_def finishes_def options_ok_def conf_def run_threads_eq)
      have n: "run_doers ?conf = nat (c_rthr conf) + nat (c_wthr conf)"
        using rs(3,4) by (simp add: run_doers_def conf_def run_threads_eq)
      from run_spread_all [OF drv(1) e(1) _ e(2,3) run_env_setup [OF c kv [unfolded ready(1)]] _ env(4) _ rs(1,2), 
          of "a\<lparr>a_shared := (a_shared a)\<lparr>sh_hist := ?w\<lparr>w_global := g\<rparr>\<rparr>, a_conf := conf, a_kv := kv\<rparr>"] show ?thesis
        unfolding ready(2) [OF drv(2)] using h hist(2) drv(3) n
        by (fastforce simp: run_outcome_def run_done_def conf_def run_threads_eq)
    qed (use drv(3) in \<open>auto simp: run_outcome_def\<close>)
  qed
qed


text \<open>A sample: the main thread alone, with SET and GET and 1000 keys.\<close>

definition sample_arena :: "(unit, int) arena" where
  "sample_arena = \<lparr>a_conf = blank_config\<lparr>c_benchmark_list := (\<lambda>b. b = IA_SET \<or> b = IA_GET), c_ksize := 16, c_vsize := 32,
       c_count := 1000, c_batch_length := 2, c_nrepeat := 1, c_kvseed := 42\<rparr>,
     a_driver = Some (ia_dummy True),
     a_shared = \<lparr>sh_priv = (), sh_hist = world_init 1, sh_doers_count = 0, sh_doers_done = 0, sh_failed = False\<rparr>,
     a_kv = sample_globals 16 2 1000, a_datadir = ''_ioarena/dummy'', a_before_open_ram = 0, a_started = [], a_report = None, a_freed = []\<rparr>"


end
