(* ===== verification/MainProperties.thy ===== *)
theory MainProperties
  imports ArenaRuns LmdbProperties
begin

text \<open>
  The program from its command line to its exit status (\<open>main\<close> of \<open>src/ia_main.c\<close>): the parsed
  configuration, the options and the opening of the driver, the run, and the closing of the driver
  on every way back to \<open>main\<close>.
\<close>

section \<open>Initialisation\<close>

lemma configparse_ready:
  assumes "ia_configinit mem c0 = (0, c1)" and "ia_configparse mem have c1 argv = (0, c)"
  shows "c_path c \<noteq> None" and "None \<notin> set (c_drv_opts c)"
    and "c_drv_opts c = [] \<or> driver_has_option (the (c_driver_if c))"
proof -
  obtain c2 where p: "parse_loop mem have c1 (getopt (tl argv)) = (None, c2)"
    using assms(2) parse_loop_returns by (fastforce simp: ia_configparse_def split: prod.splits option.splits)
  have ok: "config_ok have c2" using parse_loop_ok [OF p] configinit_ok [OF assms(1)] by blast
  have "\<exists>ps. parse_benchmarks c2 ps = (0, c)" and "c_drv_opts c2 = [] \<or> driver_has_option (the (c_driver_if c2))"
    using assms(2) p by (auto simp: ia_configparse_def split: if_splits)
  moreover from this(1) obtain l where c: "c = c2\<lparr>c_benchmark_list := l\<rparr>" using parse_benchmarks_ok by blast
  ultimately show "c_path c \<noteq> None" "None \<notin> set (c_drv_opts c)" "c_drv_opts c = [] \<or> driver_has_option (the (c_driver_if c))"
    using ok by (auto simp: config_ok_def)
qed

text \<open>The options of the command line that the driver's own parser comes to an end with.\<close>

definition options_parse :: "('w, 'c) iadriver \<Rightarrow> ('w \<Rightarrow> bool) \<Rightarrow> string option list \<Rightarrow> bool" where
  "options_parse drv fresh args \<longleftrightarrow> (\<forall>opt arg w. d_option drv = Some opt \<longrightarrow> Some arg \<in> set args \<longrightarrow> fresh w \<longrightarrow> opt None arg w \<noteq> None)"

context program_driver
begin

lemma global_options_ok:
  assumes "fresh w" and "None \<notin> set args" and "args = [] \<or> d_option drv \<noteq> None" and "options_parse drv fresh args"
  shows "\<exists>rc w'. global_options (d_option drv) args w = Some (rc, w') \<and> rc \<in> {0, -1} \<and> fresh w'"
  using assms
proof (induction args arbitrary: w)
  case (Cons s args)
  obtain opt arg where o: "d_option drv = Some opt" "s = Some arg" using Cons.prems(2,3) by (cases s) auto
  have "\<exists>r. opt None arg w = Some r" using Cons.prems(1,4) o by (auto simp: options_parse_def)
  then obtain rc w1 where 1: "opt None arg w = Some (rc, w1)" by auto
  have w1: "fresh w1" by (rule global_option [OF Cons.prems(1) o(1) 1])
  have "options_parse drv fresh args" using Cons.prems(4) by (auto simp: options_parse_def)
  with Cons.IH [OF w1] Cons.prems(2) o(1) have "\<exists>rc w'. global_options (d_option drv) args w1 = Some (rc, w') \<and> rc \<in> {0, -1} \<and> fresh w'"
    by auto
  then show ?case using o 1 w1 by auto
qed simp

lemma init_ok:
  assumes conf: "ia_configinit (x_memory x) (a_conf a) = (0, c1)" "ia_configparse (x_memory x) (x_have x) c1 argv = (0, conf)"
    and drv: "c_driver_if conf = Some d" "x_drivers x d = drv" "driver_has_option d \<longrightarrow> d_option drv \<noteq> None"
    and opts: "options_parse drv fresh (c_drv_opts conf)" and fresh: "fresh (sh_priv (a_shared a))"
  shows "\<exists>rc a'. ia_init x argv a = Some (rc, a') \<and> a_driver a' = Some drv \<and> a_conf a' = conf \<and>
    sh_hist (a_shared a') = sh_hist (a_shared a) \<and>
    (rc = 0 \<and> opened (sh_priv (a_shared a')) \<or> rc = -1 \<and> closeable (sh_priv (a_shared a')))"
proof -
  note ready = configparse_ready [OF conf]
  obtain path where path: "c_path conf = Some path" using ready(1) by blast
  obtain rc1 ram where ram: "x_rusage x 0 = (rc1, ram)" by fastforce
  have "c_drv_opts conf = [] \<or> d_option drv \<noteq> None" using ready(3) drv(1,3) by auto
  from global_options_ok [OF fresh ready(2) this opts] obtain rc2 w2 where
    2: "global_options (d_option drv) (c_drv_opts conf) (sh_priv (a_shared a)) = Some (rc2, w2)" "fresh w2" by blast
  note o = open_ok [OF 2(2), of conf "take (PATH_MAX - 1) (path @ ''/'' @ d_name drv)"]
  obtain rc3 w3 where 3: "d_open drv conf (take (PATH_MAX - 1) (path @ ''/'' @ d_name drv)) w2 = Some (rc3, w3)"
    "rc3 = 0 \<and> opened w3 \<or> rc3 = -1 \<and> closeable w3" using o by blast
  show ?thesis
    using conf drv(1,2) path ram 2 3 fresh fresh_closeable
    by (auto simp: ia_init_def Let_def)
qed

lemma free_ok:
  assumes "a_driver a = Some drv" and "closeable (sh_priv (a_shared a))"
  shows "\<exists>rc w a'. d_close drv (sh_priv (a_shared a)) = Some (rc, w) \<and> ia_free a = Some a' \<and>
    a' = a\<lparr>a_shared := (a_shared a)\<lparr>sh_priv := w\<rparr>, a_freed := a_freed a @ ia_configfree (a_conf a)\<rparr>"
  using close_ok [OF assms(2)] assms(1) by (auto simp: ia_free_def)

end

section \<open>The program\<close>


text \<open>A sample: the LMDB driver, \<open>-D LMDB -B "crud, get" -n1000 -ik 24\<close>.\<close>

definition sample_program ::
  "((bool, records) lmdb_world, (sample_txn, sample_cursor) lmdb_context) aenv" where
  "sample_program = \<lparr>x_env = sample_env_on (ia_lmdb True sample_mdb), x_drivers = (\<lambda>_. ia_lmdb True sample_mdb),
     x_have = (\<lambda>d. d = Ia_lmdb), x_memory = sample_memory, x_started = 1, x_ended = 2, x_calloc = (\<lambda>_. True),
     x_create = (\<lambda>_. 0), x_barrier = (\<lambda>_ _. 0), x_rusage = (\<lambda>_. (0, 0)), x_rand_r = sample_rand, x_time = 0,
     x_finish = (\<lambda>sh. sh)\<rparr>"

definition sample_start :: "((bool, records) lmdb_world, (sample_txn, sample_cursor) lmdb_context) arena" where
  "sample_start = \<lparr>a_conf = blank_config, a_driver = None,
     a_shared = \<lparr>sh_priv = \<lparr>lw_priv = None, lw_lib = []\<rparr>, sh_hist = world_init 1, sh_doers_count = 0, sh_doers_done = 0,
       sh_failed = False\<rparr>,
     a_kv = sample_globals 16 2 1000, a_datadir = [], a_before_open_ram = 0, a_started = [], a_report = None, a_freed = []\<rparr>"

lemma sample_conf_parsed:
  "case ia_configparse sample_memory (\<lambda>d. d = Ia_lmdb) (snd (ia_configinit sample_memory blank_config)) sample_argv of
    (rc, c) \<Rightarrow> (rc, c_driver_if c, c_drv_opts c, c_binary c, c_rthr c, c_wthr c, c_count c, c_nrepeat c, c_ksize c, c_vsize c,
      c_batch_length c, c_continuous_completing c) = (0, Some Ia_lmdb, [], False, 0, 0, 1000, 1, 24, 32, 500, False)"
  by code_simp


end
