(* ===== verification/Spec2Isabelle.thy ===== *)
theory Spec2Isabelle
  imports KeyUnique HistogramRuns Config BenchProperties Store LmdbProperties MdbxProperties LevelProperties DriverContracts DriverSqlite3 DriverVedisdb DriverSophia Platform Barrier MainProperties
begin

text \<open>
  A verification development for ioarena, the benchmark of embedded storage engines.  Paths are those
  of the repository; without one, a file is in \<open>src/src\<close>, a driver in \<open>src/src/drivers\<close>.

  \<^bold>\<open>The program.\<close>  \<open>main\<close> (\<open>ia_main.c\<close>) calls \<open>ia_init\<close>, \<open>ia_run\<close> and \<open>ia_free\<close> (\<open>ia.c\<close>).  \<open>ia_init\<close> parses
  the command line, finds the driver under its name, gives it its options, and opens it.  \<open>ia_run\<close> sets up
  the key generator, spreads \<^emph>\<open>doers\<close> (one thread each) over the benchmarks asked for and over the key
  spaces, and starts them together at a barrier; the main thread runs a doer of its own for the benchmarks
  that are left, meets the others at a second barrier, and prints the final table.  A doer
  (\<open>ia_benchmark.c\<close>) takes the next keys from its generators, or from pools of pre-computed records, asks
  the driver for \<open>begin\<close>, \<open>next\<close> and \<open>done\<close>, adds the time of every operation to its histogram, and merges
  this into the global one; the doer that is last to merge in a round prints the periodic report.  Keys are
  numbers in disjoint ranges, one per key space, scrambled by a mixer and printed.

  \<^bold>\<open>Theories and sources.\<close>  Definitions have the names of the C functions and types they model.

    \<^item> \<open>Prelude\<close>: integer types, error numbers, and lemmas on words and lists.  \<open>Common\<close>: the enumerations of
      \<open>ioarena.h\<close> and \<open>ia_time.h\<close>; \<open>iabenchmark\<close> is a \<open>linorder\<close>, for the loops that run over it.
    \<^item> \<open>KeyMix\<close>, \<open>KeyGen\<close>, \<open>KeyUnique\<close>: \<open>ia_kv.c\<close>.  The mixer; the set-up, the printing of numbers as keys and
      values, the generators (\<open>iakvgen\<close>) and the pools; which records get different keys.
    \<^item> \<open>Histogram\<close>, \<open>HistogramSpec\<close>, \<open>HistogramRuns\<close>: \<open>ia_histogram.c\<close>.  The operations on the histogram of a
      doer and on the global one; the specification that only keeps the samples, and the simulation; runs
      of any interleaving of the doers and their reports.
    \<^item> \<open>Config\<close>: \<open>ia_config.c\<close> with the functions of the C library it uses, and the table of drivers of
      \<open>ia_build.h.in\<close>.
    \<^item> \<open>Driver\<close>: the interface \<open>ia_driver.h\<close>, the contract of a driver, and \<open>ia_dummy.c\<close> and \<open>ia_debug.c\<close>.
    \<^item> \<open>Benchmark\<close>: \<open>ia_benchmark.c\<close>.  \<open>DoerState\<close>, \<open>DoerRuns\<close> and \<open>Doer\<close> show that doers return and keep the
      protocol of the histograms, \<open>BenchCalls\<close> which calls the driver sees; \<open>BenchProperties\<close> has the
      properties.
    \<^item> \<open>Store\<close>: drivers whose transactions are maps from keys to values, and the crud benchmark on them.
    \<^item> \<open>DriverLmdb\<close>, \<open>LmdbProperties\<close>: \<open>ia_lmdb.c\<close>.  \<open>DriverMdbx\<close>, \<open>MdbxProperties\<close>: \<open>ia_mdbx.c\<close>.  \<open>DriverLevel\<close>,
      \<open>LevelProperties\<close>: \<open>ia_leveldb.c\<close> and \<open>ia_rocksdb.c\<close>.  \<open>DriverIowow\<close>, \<open>DriverWiredtiger\<close>, \<open>DriverForestdb\<close>,
      \<open>DriverUnqlite\<close>, \<open>DriverUpscaledb\<close>, \<open>DriverSqlite3\<close>, \<open>DriverVedisdb\<close> and \<open>DriverSophia\<close>: the file of that
      name.  \<open>DriverContracts\<close> collects the drivers that keep the contract with the same kind of argument.
    \<^item> \<open>Barrier\<close>: the \<open>pthread_barrier_t\<close> of \<open>ia_main.c\<close>, for platforms that have none.
    \<^item> \<open>Arena\<close>, \<open>ArenaProperties\<close>, \<open>ArenaRuns\<close>: \<open>ia.c\<close>.  The whole program but its \<open>main\<close>, who runs what and with
      which keys, and that a run returns.  \<open>MainProperties\<close>: from the command line to the exit status.
    \<^item> \<open>Platform\<close>: \<open>ia_time.c\<close>, \<open>ia_rusage.c\<close> and the csv files of \<open>ia_histogram.c\<close>.
\<close>

text \<open>
  \<^bold>\<open>Conventions.\<close>

    \<^item> Unsigned integers have their width (\<open>u8\<close> to \<open>u64\<close>), and wrap around where the code's do.  Integers of
      type \<open>int\<close> that only hold codes and small counts are unbounded.  A buffer is the list of its bytes.
    \<^item> A result \<open>None\<close> is an abort (\<open>ia_fatal\<close>, a failed assertion), undefined behaviour that the model sees (a
      null, dangling or unset pointer that is used, an access out of bounds, a conversion out of range), or a
      loop that does not end.  That a function returns is always shown as \<open>\<exists>y. f x = Some y\<close>.  Errors of
      the program are the codes the functions return.
    \<^item> The loops whose end is not obvious are \<open>partial_function (option)\<close>: \<open>bucket_search\<close>, \<open>iterate_loop\<close>,
      \<open>bench_loop\<close>, \<open>repeat_loop\<close>, \<open>separate_loop\<close> and \<open>mdbx_option_loop\<close>, so their termination is a theorem; the
      last one has inputs where it runs forever.  Loops with a measure (\<open>getopt\<close>, \<open>remix_until\<close>, \<open>fill_words\<close>,
      \<open>dbl_frac\<close>) are functions with a proof of termination.  There is no fuel anywhere.
    \<^item> The databases, \<open>rand_r\<close>, the allocator, the clock, \<open>pthread_mutex_trylock\<close> and the calls of the operating
      system are parameters.  Of a database a theorem assumes what its documentation says, as a predicate
      (\<open>mdb_library\<close>, \<open>wt_library\<close> and so on) that relates the calls to abstract notions such as "this
      transaction is live"; each predicate is shown to hold for a concrete library; that of LMDB and MDBX
      keeps its records in a list.
    \<^item> A doer is modelled alone.  Before each of its calls on the shared state (the driver's struct and the
      database, the global histograms, the failure flag) \<open>e_others\<close> changes that state; the theorems
      hold for every such interference that keeps to \<open>rely\<close> of the driver and, for the histograms, is a run
      of their step relation by the other doers.  What a doer does is shown to be such a run too.
      The main thread's run is treated in the same way, with \<open>x_finish\<close> for what the others do until the
      last barrier.  The histograms and the barrier, where interleaving matters most, are step relations
      over all the doers or threads.

  \<^bold>\<open>Interfaces.\<close>

    \<^item> \<open>key_numbering\<close>: what distinct keys need of the way a number is shown; interpreted on the mixer (all
      widths) and on printed keys (widths 2, 3 and 6).
    \<^item> \<open>driver_contract\<close>: what a benchmark relies on in its driver: operations return one of the codes of the
      interface, a context stays usable, and the others may interfere within \<open>rely\<close>.  \<open>robust_driver\<close> adds
      that an operation after a failed \<open>begin\<close> is survived, \<open>program_driver\<close> adds \<open>open\<close>, \<open>close\<close> and options.
      Interpreted outright on the dummy and the debug driver; for the drivers with a library the contract is a
      theorem with the library's documentation as hypothesis.
    \<^item> \<open>doer_context\<close> and \<open>stepping\<close>: the interference of others and single operations, under which the loops
      of the benchmarks are proved once; sublocales of the two contracts, with and without a transaction.

  \<^bold>\<open>What is shown\<close> (C1 to C40 are the ids in the texts before the theorems).

    \<^item> Keys: the mixer is a permutation at every width (C1); keys are distinct within a period and between
      key spaces (C2, C3); generators and pools hand out the expected sequence in bounds (C4, C5); what the
      set-up accepts (C6), where printed keys collide nevertheless (C7), and which binary lengths work (C8).
    \<^item> Statistics: nothing is lost or counted twice (C9), every report is one of the specification (C10), no
      interleaving aborts (C11), the table is right (C12), the search for a bucket (C13), and the one way in
      which reports stop (C14).
    \<^item> Configuration: names and their parsers (C15), and what an accepted command line is (C16).
    \<^item> Benchmarks: each returns, with the events the histograms expect (C17 to C19); the calls that the driver
      sees, in order (C20 to C22).
    \<^item> Drivers: LMDB keeps the contract and acts as a map (C23, C24), so the crud benchmark finds what it has
      written (C25); MDBX keeps the contract, and its options (C26 to C28); LevelDB, RocksDB, IOWOW,
      WiredTiger, ForestDB, UnQLite and upscaledb keep the contract (C34); the commands of SQLite (C35) and
      where that driver releases its connection twice (C36).
    \<^item> The barrier: safety, progress, invariant, and the spurious wake-up it does not survive (C29 to C32).
    \<^item> The run: exit status (C33), \<open>ia_run\<close> returns (C37), which doers are started (C38), that writers do not
      share keys (C39), and how they do with the option \<open>separate\<close> (C40).

  \<^bold>\<open>Limits.\<close>

    \<^item> LMDB and MDBX keep the contract when commits do not fail (\<open>mdb_commits\<close>): after a failed commit both
      drivers use the transaction again (\<open>lmdb_commit_failure\<close>).  WiredTiger needs sessions that close
      (\<open>wt_undisturbed\<close>), upscaledb an environment that can be created (\<open>ups_creates\<close>), IOWOW a \<open>calloc\<close> and
      UnQLite and upscaledb an \<open>asprintf\<close> that succeed; the lemmas of these drivers show what happens otherwise.
    \<^item> Three drivers do not have the contract.  SQLite releases its connection on errors and keeps the pointer
      (C36).  Vedis hands the code of \<open>vedis_open\<close> to the program as it is and has codes of its own
      (\<open>vedis_get_codes\<close>, \<open>vedis_delete_codes\<close>).  Sophia continues with a null transaction after a failed
      \<open>begin\<close> (\<open>sophia_batch_without_transaction\<close>) and never reports a missing key (\<open>sophia_get_never_missing\<close>).
      For these the theories show the codes the operations do return.
    \<^item> Keys are distinct at widths 2, 3 and 6, where the printed characters determine the number; at width 4 C7
      is a counterexample.  C6 states the width up to 48 bits, where the comparison in \<open>double\<close> is exact.
    \<^item> The histograms print the mean square where the code prints its root.

  \<^bold>\<open>Not modelled.\<close>

    \<^item> What is only printed: \<open>ia_log.c\<close>, the floating-point layout of \<open>snpf_val\<close> and \<open>snpf_lat\<close>,
      \<open>ia_histogram_rusage\<close>, the usage text, \<open>ia_configprint\<close>, the texts in the csv files, and all messages.
      The numbers in the reports and in the table are modelled.
    \<^item> The branches for Mach and for \<open>gettimeofday\<close> of \<open>ia_time.c\<close>, and code that is compiled out
      (\<open>DEBUG_KEYGEN\<close>, the callback of the SQLite driver) or never called (two functions of the Vedis driver).
    \<^item> The default branches of the switches over the sync and log modes, which no parsed configuration reaches.
    \<^item> Memory that is not shared between components: blocks are values, and \<open>free\<close> is modelled where the code
      goes on with what it has freed.  A call on the histograms is one step: the counters that the code reads
      before it takes the lock are read in that step.
    \<^item> The CMake files and scripts.  Which drivers are compiled in is a parameter of the configuration.
\<close>

end
